(* ===== verification/Headnet_Prelude.thy ===== *)
theory Headnet_Prelude
  imports Main "HOL-Library.Word" "HOL-Library.List_Lexorder" "HOL-Library.Char_ord"
begin

text \<open>
  Shared vocabulary of the development: the value types every component uses (instants,
  durations, byte strings), the signed 64-bit arithmetic of Go's \<open>int\<close> and
  \<open>time.Duration\<close>, the collections of facts the component proofs draw on, and generic
  lemmas on lists that several components share.
\<close>

unbundle bit_operations_syntax

section \<open>Fact collections\<close>

text \<open>
  \<open>monad_simps\<close> unfolds the effect combinators of the storage layer, \<open>pres_intros\<close> are the
  rules by which an operation is shown to keep a property of the database, \<open>str_simps\<close>
  evaluates the string functions of the standard library, and \<open>tab_simps\<close> evaluates
  statements on tables.
\<close>

named_theorems monad_simps
named_theorems pres_intros
named_theorems str_simps
named_theorems tab_simps

section \<open>Value types\<close>

text \<open>
  An instant is a number of nanoseconds since the Unix epoch, a duration a number of
  nanoseconds that fits a signed 64-bit integer. A Go string is a sequence of bytes, which is
  what Isabelle's \<open>string\<close> is.
\<close>

type_synonym instant = int
type_synonym duration = int
type_synonym byte = "8 word"

section \<open>Signed 64-bit arithmetic\<close>

definition int64 :: "int \<Rightarrow> int" where
  "int64 x = (x + 2 ^ 63) mod 2 ^ 64 - 2 ^ 63"

definition int64_range :: "int \<Rightarrow> bool" where
  "int64_range x \<longleftrightarrow> - (2 ^ 63) \<le> x \<and> x < 2 ^ 63"

lemma int64_in_range: "int64_range (int64 x)"
proof -
  have "0 \<le> (x + 2 ^ 63) mod 2 ^ 64" and "(x + 2 ^ 63) mod 2 ^ 64 < (2 ^ 64 :: int)"
    by (simp_all add: pos_mod_bound)
  then show ?thesis by (simp add: int64_def int64_range_def)
qed

lemma int64_id: "int64_range x \<Longrightarrow> int64 x = x"
  by (simp add: int64_def int64_range_def)

text \<open>
  \<open>t.Sub(u)\<close> of package \<open>time\<close>: the difference of two instants, saturated at the bounds of
  a duration; \<open>t.Add(d)\<close> is plain addition (an instant has a far wider range than a duration).
\<close>

definition time_Sub :: "instant \<Rightarrow> instant \<Rightarrow> duration" where
  "time_Sub t u = max (- (2 ^ 63)) (min (2 ^ 63 - 1) (t - u))"

definition time_Add :: "instant \<Rightarrow> duration \<Rightarrow> instant" where
  "time_Add t d = t + d"

definition Second :: duration where "Second = 1000000000"
definition Minute :: duration where "Minute = 60 * Second"
definition Hour :: duration where "Hour = 60 * Minute"

lemmas duration_defs = Second_def Minute_def Hour_def

lemma time_Sub_range: "int64_range (time_Sub t u)"
  by (auto simp: time_Sub_def int64_range_def)

lemma time_Sub_exact: "int64_range (t - u) \<Longrightarrow> time_Sub t u = t - u"
  by (auto simp: time_Sub_def int64_range_def)

lemma time_Sub_ge_iff: "0 < d \<Longrightarrow> d < 2 ^ 63 \<Longrightarrow> d \<le> time_Sub t u \<longleftrightarrow> u + d \<le> t"
  by (auto simp: time_Sub_def)

lemma time_Sub_gt_iff: "0 \<le> d \<Longrightarrow> d < 2 ^ 63 - 1 \<Longrightarrow> d < time_Sub t u \<longleftrightarrow> u + d < t"
  by (auto simp: time_Sub_def)

section \<open>Lists\<close>

lemma filter_unique:
  "distinct (map f xs) \<Longrightarrow> x \<in> set xs \<Longrightarrow> filter (\<lambda>y. f y = f x) xs = [x]"
  by (induction xs) (auto simp: filter_empty_conv image_iff)

lemma distinct_map_filterI: "distinct (map f xs) \<Longrightarrow> distinct (map f (filter P xs))"
  by (induction xs) auto

lemma map_map_unchanged: "(\<And>x. f (g x) = f x) \<Longrightarrow> map f (map g xs) = map f xs"
  by (induction xs) auto

lemma find_unique:
  "distinct (map f xs) \<Longrightarrow> x \<in> set xs \<Longrightarrow> find (\<lambda>y. f y = f x) xs = Some x"
  by (induction xs) auto

lemma find_SomeD: "find P xs = Some x \<Longrightarrow> x \<in> set xs \<and> P x"
  by (induction xs) (auto split: if_splits)

lemma length_filter_one:
  "distinct (map f xs) \<Longrightarrow> length (filter (\<lambda>y. f y = k) xs) = (if k \<in> f ` set xs then 1 else 0)"
  by (induction xs) (auto simp: filter_empty_conv)

section \<open>Positional numerals\<close>

text \<open>The digits of a number in a base, most significant first, and big-endian byte strings.\<close>

definition digits :: "nat \<Rightarrow> nat \<Rightarrow> nat \<Rightarrow> nat list" where
  "digits b n v = map (\<lambda>k. v div b ^ k mod b) (rev [0..<n])"

definition horner :: "nat \<Rightarrow> nat list \<Rightarrow> nat" where
  "horner b ds = foldl (\<lambda>v d. v * b + d) 0 ds"

definition be_value :: "byte list \<Rightarrow> nat" where
  "be_value bs = foldl (\<lambda>v b. v * 256 + unat b) 0 bs"

definition be_bytes :: "nat \<Rightarrow> nat \<Rightarrow> byte list" where
  "be_bytes n v = map word_of_nat (digits 256 n v)"

lemma length_digits [simp]: "length (digits b n v) = n"
  by (simp add: digits_def)

lemma length_be_bytes [simp]: "length (be_bytes n v) = n"
  by (simp add: be_bytes_def)

lemma horner_Nil [simp]: "horner b [] = 0"
  by (simp add: horner_def)

lemma horner_snoc [simp]: "horner b (ds @ [d]) = horner b ds * b + d"
  by (simp add: horner_def)

lemma digits_less: "0 < b \<Longrightarrow> d \<in> set (digits b n v) \<Longrightarrow> d < b"
  by (auto simp: digits_def)

lemma digits_Suc: "digits b (Suc n) v = digits b n (v div b) @ [v mod b]"
proof -
  have "rev [0..<Suc n] = map Suc (rev [0..<n]) @ [0]"
    by (simp add: upt_conv_Cons map_Suc_upt rev_map [symmetric] del: upt_Suc)
  then show ?thesis by (simp add: digits_def div_mult2_eq o_def del: upt_Suc)
qed

lemma horner_digits: "horner b (digits b n v) = v mod b ^ n"
proof (induction n arbitrary: v)
  case (Suc n)
  then show ?case by (simp add: digits_Suc mod_mult2_eq mult.commute)
qed (simp add: digits_def)

lemma be_value_horner: "be_value bs = horner 256 (map unat bs)"
  by (simp add: be_value_def horner_def foldl_map)

lemma be_value_be_bytes: "be_value (be_bytes n v) = v mod 256 ^ n"
proof -
  have "map unat (be_bytes n v) = digits 256 n v"
    using digits_less [of 256 _ n v] by (auto simp: be_bytes_def unat_of_nat intro!: map_idI)
  then show ?thesis by (simp add: be_value_horner horner_digits)
qed

text \<open>The digits of a value determine it, and a value below \<open>256 ^ n\<close> its \<open>n\<close> bytes.\<close>

lemma digits_determine:
  fixes u v :: nat
  assumes "u < b ^ n" "v < b ^ n" "\<And>k. k < n \<Longrightarrow> u div b ^ k mod b = v div b ^ k mod b"
  shows "u = v"
  using assms
proof (induction n arbitrary: u v)
  case (Suc n)
  have m: "u mod b = v mod b" using Suc.prems(3) [of 0] by simp
  have "u div b = v div b"
  proof (rule Suc.IH)
    have "0 < b" using Suc.prems(1) by (cases b) auto
    then show "u div b < b ^ n" "v div b < b ^ n"
      using Suc.prems by (simp_all add: div_less_iff_less_mult mult.commute)
    show "u div b div b ^ k mod b = v div b div b ^ k mod b" if "k < n" for k
      using Suc.prems(3) [of "Suc k"] that by (simp add: div_mult2_eq)
  qed
  with m show ?case by (metis div_mult_mod_eq)
qed simp

lemma be_value_append: "be_value (bs @ [b]) = be_value bs * 256 + unat b"
  by (simp add: be_value_def)

lemma unat_byte_less: "unat (b :: byte) < 256"
  using unsigned_less [of b] by simp

lemma be_value_less: "be_value bs < 256 ^ length bs"
proof (induction bs rule: rev_induct)
  case Nil
  show ?case by (simp add: be_value_def)
next
  case (snoc b bs)
  with unat_byte_less [of b] show ?case by (simp add: be_value_append)
qed

lemma divmod256: "l < 256 \<Longrightarrow> (x * 256 + l) div 256 = x \<and> (x * 256 + l) mod 256 = (l::nat)"
  by simp

lemma be_value_inj: "length as = length bs \<Longrightarrow> be_value as = be_value bs \<Longrightarrow> as = bs"
proof (induction as arbitrary: bs rule: rev_induct)
  case (snoc a as)
  then obtain b bs' where bs: "bs = bs' @ [b]" by (cases bs rule: rev_cases) auto
  have "be_value as * 256 + unat a = be_value bs' * 256 + unat b"
    using snoc.prems bs by (simp add: be_value_append)
  then have "be_value as = be_value bs'" "unat a = unat b"
    using unat_byte_less [of a] unat_byte_less [of b]
      divmod256 [of "unat a" "be_value as"] divmod256 [of "unat b" "be_value bs'"] by metis+
  with snoc bs show ?case by (simp add: word_unat_eq_iff)
qed simp

lemma be_value_replicate: "be_value (bs @ replicate n 0) = be_value bs * 256 ^ n"
proof (induction n)
  case (Suc n)
  have "bs @ replicate (Suc n) 0 = (bs @ replicate n 0) @ [0]"
    by (simp add: replicate_append_same)
  then show ?case using Suc by (simp only: be_value_append) simp
qed simp


end
