(* ===== verification/Go_Strings.thy ===== *)
theory Go_Strings
  imports Headnet_Prelude
begin

text \<open>
  The parts of Go's \<open>strings\<close>, \<open>unicode\<close> and \<open>unicode/utf8\<close> packages that Headnet uses, over
  strings as byte sequences: decoding and encoding of runes, \<open>TrimSpace\<close>, \<open>ToLower\<close>, \<open>Cut\<close>,
  \<open>Split\<close>, \<open>Join\<close>, \<open>HasPrefix\<close>. The lower-case mapping of runes outside ASCII is the Unicode
  table of the runtime and stays a parameter \<open>lc\<close>.
\<close>

section \<open>Runes\<close>

definition RuneError :: nat where "RuneError = 0xFFFD"

definition utf8_cont :: "nat \<Rightarrow> bool" where
  "utf8_cont b \<longleftrightarrow> 0x80 \<le> b \<and> b \<le> 0xBF"

text \<open>The range of the second byte after a three-byte and a four-byte lead.\<close>

definition lead3_ok :: "nat \<Rightarrow> nat \<Rightarrow> bool" where
  "lead3_ok b0 b1 \<longleftrightarrow> (if b0 = 0xE0 then 0xA0 else 0x80) \<le> b1 \<and>
     b1 \<le> (if b0 = 0xED then 0x9F else 0xBF)"

definition lead4_ok :: "nat \<Rightarrow> nat \<Rightarrow> bool" where
  "lead4_ok b0 b1 \<longleftrightarrow> (if b0 = 0xF0 then 0x90 else 0x80) \<le> b1 \<and>
     b1 \<le> (if b0 = 0xF4 then 0x8F else 0xBF)"

text \<open>
  \<open>utf8.DecodeRuneInString\<close>: the first rune of a string and its width. A byte that starts no
  valid encoding is the replacement rune of width one.
\<close>

definition decode_rune :: "string \<Rightarrow> nat \<times> nat" where
  "decode_rune s = (case s of
     [] \<Rightarrow> (RuneError, 0)
   | c0 # t \<Rightarrow> let b0 = of_char c0 in
       if b0 < 0x80 then (b0, 1)
       else if 0xC2 \<le> b0 \<and> b0 \<le> 0xDF then
         (case t of
            c1 # _ \<Rightarrow> let b1 = of_char c1 in
              if utf8_cont b1 then ((b0 - 0xC0) * 64 + (b1 - 0x80), 2) else (RuneError, 1)
          | [] \<Rightarrow> (RuneError, 1))
       else if 0xE0 \<le> b0 \<and> b0 \<le> 0xEF then
         (case t of
            c1 # c2 # _ \<Rightarrow> let b1 = of_char c1; b2 = of_char c2 in
              if lead3_ok b0 b1 \<and> utf8_cont b2
              then ((b0 - 0xE0) * 4096 + (b1 - 0x80) * 64 + (b2 - 0x80), 3) else (RuneError, 1)
          | _ \<Rightarrow> (RuneError, 1))
       else if 0xF0 \<le> b0 \<and> b0 \<le> 0xF4 then
         (case t of
            c1 # c2 # c3 # _ \<Rightarrow> let b1 = of_char c1; b2 = of_char c2; b3 = of_char c3 in
              if lead4_ok b0 b1 \<and> utf8_cont b2 \<and> utf8_cont b3
              then ((b0 - 0xF0) * 262144 + (b1 - 0x80) * 4096 + (b2 - 0x80) * 64 + (b3 - 0x80), 4)
              else (RuneError, 1)
          | _ \<Rightarrow> (RuneError, 1))
       else (RuneError, 1))"

definition valid_rune :: "nat \<Rightarrow> bool" where
  "valid_rune r \<longleftrightarrow> r \<le> 0x10FFFF \<and> \<not> (0xD800 \<le> r \<and> r \<le> 0xDFFF)"

text \<open>\<open>utf8.AppendRune\<close>: an invalid rune is written as the replacement rune.\<close>

definition encode_rune :: "nat \<Rightarrow> string" where
  "encode_rune r0 = (let r = (if valid_rune r0 then r0 else RuneError) in
     if r < 0x80 then [char_of r]
     else if r < 0x800 then [char_of (0xC0 + r div 64), char_of (0x80 + r mod 64)]
     else if r < 0x10000 then
       [char_of (0xE0 + r div 4096), char_of (0x80 + r div 64 mod 64), char_of (0x80 + r mod 64)]
     else [char_of (0xF0 + r div 262144), char_of (0x80 + r div 4096 mod 64),
           char_of (0x80 + r div 64 mod 64), char_of (0x80 + r mod 64)])"

lemma decode_rune_width: "s \<noteq> [] \<Longrightarrow> 1 \<le> snd (decode_rune s) \<and> snd (decode_rune s) \<le> length s"
  by (auto simp: decode_rune_def Let_def split: list.splits)

text \<open>
  A string as \<open>[]rune(s)\<close> or \<open>range s\<close> reads it: each rune with the bytes it was read from.
\<close>

function chunks :: "string \<Rightarrow> (nat \<times> string) list" where
  "chunks s = (if s = [] then []
     else let d = decode_rune s in (fst d, take (snd d) s) # chunks (drop (snd d) s))"
  by pat_completeness auto
termination
proof (relation "measure length")
  fix s :: string and d
  assume "s \<noteq> []" "d = decode_rune s"
  then show "(drop (snd d) s, s) \<in> measure length"
    using decode_rune_width [of s] by simp
qed simp

declare chunks.simps [simp del]

lemma chunks_Nil [simp]: "chunks [] = []"
  by (simp add: chunks.simps)

lemma chunks_step:
  "s \<noteq> [] \<Longrightarrow> chunks s =
     (fst (decode_rune s), take (snd (decode_rune s)) s) # chunks (drop (snd (decode_rune s)) s)"
  by (subst chunks.simps) (simp add: Let_def)

definition runes :: "string \<Rightarrow> nat list" where
  "runes s = map fst (chunks s)"

definition string_of_runes :: "nat list \<Rightarrow> string" where
  "string_of_runes rs = concat (map encode_rune rs)"

lemma concat_chunks: "concat (map snd (chunks s)) = s"
proof (induction s rule: chunks.induct)
  case (1 s)
  then show ?case by (cases "s = []") (simp_all add: chunks_step)
qed

lemma chunks_empty_iff [simp]: "chunks s = [] \<longleftrightarrow> s = []"
  by (cases "s = []") (simp_all add: chunks_step)

text \<open>What is decoded is always a valid rune, the replacement rune included.\<close>

lemma valid_rune3:
  assumes "0xE0 \<le> b0" "b0 \<le> 0xEF" "lead3_ok b0 b1" "utf8_cont b2"
  shows "valid_rune ((b0 - 0xE0) * 4096 + (b1 - 0x80) * 64 + (b2 - 0x80))"
proof -
  obtain a b c where "b0 = 224 + a" "b1 = 128 + b" "b2 = 128 + c"
    using assms le_Suc_ex [of 128 b1] le_Suc_ex [of 224 b0] le_Suc_ex [of 128 b2]
    by (auto simp: lead3_ok_def utf8_cont_def split: if_splits)
  with assms show ?thesis
    by (auto simp: lead3_ok_def utf8_cont_def valid_rune_def split: if_splits)
qed

lemma valid_rune4:
  assumes "0xF0 \<le> b0" "b0 \<le> 0xF4" "lead4_ok b0 b1" "utf8_cont b2" "utf8_cont b3"
  shows "valid_rune ((b0 - 0xF0) * 262144 + (b1 - 0x80) * 4096 + (b2 - 0x80) * 64 + (b3 - 0x80))"
proof -
  obtain a b c d where "b0 = 240 + a" "b1 = 128 + b" "b2 = 128 + c" "b3 = 128 + d"
    using assms le_Suc_ex [of 128 b1] le_Suc_ex [of 240 b0] le_Suc_ex [of 128 b2]
      le_Suc_ex [of 128 b3]
    by (auto simp: lead4_ok_def utf8_cont_def split: if_splits)
  with assms show ?thesis
    by (auto simp: lead4_ok_def utf8_cont_def valid_rune_def split: if_splits)
qed

lemma valid_RuneError [simp]: "valid_rune RuneError"
  by (simp add: valid_rune_def RuneError_def)

lemma valid_rune_small: "r < 0x800 \<Longrightarrow> valid_rune r"
  by (simp add: valid_rune_def)

lemma decode_rune_valid: "valid_rune (fst (decode_rune s))"
proof (cases s)
  case Nil
  then show ?thesis by (simp add: decode_rune_def)
next
  case (Cons c0 t)
  have two: "valid_rune ((of_char c0 - 0xC0) * 64 + (of_char c1 - 0x80))"
    if "of_char c0 \<le> (0xDF::nat)" "utf8_cont (of_char c1)" for c1
    using that by (intro valid_rune_small) (auto simp: utf8_cont_def)
  show ?thesis
    unfolding Cons decode_rune_def Let_def
    by (simp add: valid_rune_small two valid_rune3 valid_rune4 split: list.split)
qed

lemma runes_valid: "r \<in> set (runes s) \<Longrightarrow> valid_rune r"
proof (induction s rule: chunks.induct)
  case (1 s)
  then show ?case
    by (cases "s = []") (auto simp: runes_def chunks_step decode_rune_valid)
qed

text \<open>Encoding then decoding gives the rune back, whatever follows it.\<close>

lemma of_char_char_of_nat: "of_char (char_of (n::nat)) = n mod 256"
  by (simp add: of_char_of)

lemma decode_encode_rune3:
  assumes "valid_rune r" "0x800 \<le> r" "r < 0x10000"
  shows "decode_rune (encode_rune r @ t) = (r, 3)"
proof -
  define a b c where "a = r div 4096" and "b = r div 64 mod 64" and "c = r mod 64"
  have bounds: "b < 64" "c < 64" "a < 16"
    using assms(3) by (auto simp: a_def b_def c_def)
  have "r div 64 = a * 64 + b"
    by (simp add: a_def b_def div_mult2_eq [of r 64 64, simplified])
  then have r: "r = a * 4096 + b * 64 + c"
    using div_mult_mod_eq [of r 64] by (simp add: c_def)
  have "a = 0 \<Longrightarrow> 32 \<le> b" and "a = 13 \<Longrightarrow> b \<le> 31"
    using assms bounds r by (auto simp: valid_rune_def)
  moreover have "encode_rune r = [char_of (224 + a), char_of (128 + b), char_of (128 + c)]"
    using assms by (simp add: encode_rune_def Let_def a_def b_def c_def)
  ultimately show ?thesis
    using bounds r
    by (simp add: decode_rune_def Let_def of_char_char_of_nat utf8_cont_def lead3_ok_def)
qed

lemma decode_encode_rune4:
  assumes "valid_rune r" "0x10000 \<le> r"
  shows "decode_rune (encode_rune r @ t) = (r, 4)"
proof -
  define a b c d where "a = r div 262144" and "b = r div 4096 mod 64"
    and "c = r div 64 mod 64" and "d = r mod 64"
  have bounds: "b < 64" "c < 64" "d < 64" "a < 5"
    using assms(1) by (auto simp: a_def b_def c_def d_def valid_rune_def)
  have "r div 4096 = a * 64 + b"
    by (simp add: a_def b_def div_mult2_eq [of r 4096 64, simplified])
  moreover have "r div 64 = r div 4096 * 64 + c"
    by (simp add: c_def div_mult2_eq [of r 64 64, simplified])
  ultimately have r: "r = a * 262144 + b * 4096 + c * 64 + d"
    using div_mult_mod_eq [of r 64] by (simp add: d_def)
  have "a = 0 \<Longrightarrow> 16 \<le> b" and "a = 4 \<Longrightarrow> b \<le> 15"
    using assms bounds r by (auto simp: valid_rune_def)
  moreover have
    "encode_rune r = [char_of (240 + a), char_of (128 + b), char_of (128 + c), char_of (128 + d)]"
    using assms by (simp add: encode_rune_def Let_def a_def b_def c_def d_def)
  ultimately show ?thesis
    using bounds r
    by (simp add: decode_rune_def Let_def of_char_char_of_nat utf8_cont_def lead4_ok_def)
qed

lemma decode_encode_rune:
  assumes "valid_rune r"
  shows "decode_rune (encode_rune r @ t) = (r, length (encode_rune r))"
proof -
  consider "r < 0x80" | "0x80 \<le> r" "r < 0x800" | "0x800 \<le> r" "r < 0x10000" | "0x10000 \<le> r"
    by linarith
  then show ?thesis
  proof cases
    case 1
    with assms show ?thesis
      by (simp add: decode_rune_def encode_rune_def Let_def of_char_char_of_nat)
  next
    case 2
    have "2 \<le> r div 64" "r div 64 < 32" "r mod 64 < 64" using 2 by auto
    with 2 assms show ?thesis
      by (simp add: decode_rune_def encode_rune_def Let_def of_char_char_of_nat utf8_cont_def)
  next
    case 3
    with assms show ?thesis
      by (simp add: decode_encode_rune3) (simp add: encode_rune_def Let_def)
  next
    case 4
    with assms show ?thesis
      by (simp add: decode_encode_rune4) (simp add: encode_rune_def Let_def)
  qed
qed

lemma encode_rune_nonempty [simp]: "encode_rune r \<noteq> []"
  by (simp add: encode_rune_def Let_def)

lemma chunks_string_of_runes:
  assumes "\<forall>r \<in> set rs. valid_rune r"
  shows "chunks (string_of_runes rs) = map (\<lambda>r. (r, encode_rune r)) rs"
  using assms
proof (induction rs)
  case Nil
  then show ?case by (simp add: string_of_runes_def)
next
  case (Cons r rs)
  then have "decode_rune (encode_rune r @ string_of_runes rs) = (r, length (encode_rune r))"
    by (simp add: decode_encode_rune)
  with Cons show ?case
    by (simp add: string_of_runes_def chunks_step)
qed

lemma runes_string_of_runes:
  "\<forall>r \<in> set rs. valid_rune r \<Longrightarrow> runes (string_of_runes rs) = rs"
  by (simp add: runes_def chunks_string_of_runes comp_def)

text \<open>
  Decoding looks only at the bytes of the rune it returns, so a split of a string between two
  of its chunks splits its chunks.
\<close>

lemma decode_rune_prefix:
  assumes "decode_rune (s @ t) = (r, n)" "s \<noteq> []" "n \<le> length s"
  shows "decode_rune s = (r, n)"
proof -
  from assms(2) obtain c0 u where s: "s = c0 # u" by (cases s) auto
  show ?thesis
    using assms unfolding s decode_rune_def
    by (cases u rule: remdups_adj.cases; cases "tl (tl u)"; cases t rule: remdups_adj.cases)
       (auto simp: Let_def split: if_splits list.splits)
qed

lemma chunks_split:
  "chunks s = xs @ ys \<Longrightarrow> chunks (concat (map snd xs)) = xs \<and> chunks (concat (map snd ys)) = ys"
proof (induction xs arbitrary: s)
  case Nil
  then have "concat (map snd ys) = s" using concat_chunks [of s] by simp
  with Nil show ?case by simp
next
  case (Cons x xs)
  then have ne: "s \<noteq> []" by auto
  obtain r n where d: "decode_rune s = (r, n)" by fastforce
  from Cons.prems ne d have x: "x = (r, take n s)" and rest: "chunks (drop n s) = xs @ ys"
    by (simp_all add: chunks_step)
  from decode_rune_width [OF ne] d have n: "1 \<le> n" "n \<le> length s" by simp_all
  from Cons.IH [OF rest] have IH: "chunks (concat (map snd xs)) = xs"
    "chunks (concat (map snd ys)) = ys" by auto
  have s: "s = (take n s @ concat (map snd xs)) @ concat (map snd ys)"
    using concat_chunks [of "drop n s"] rest by simp
  have "decode_rune (take n s @ concat (map snd xs)) = (r, n)"
    by (rule decode_rune_prefix [where t = "concat (map snd ys)"]) (use s d n in auto)
  then have "chunks (take n s @ concat (map snd xs)) = x # xs"
    using n x IH ne by (subst chunks_step) auto
  with x IH show ?case by simp
qed

section \<open>Trimming and case\<close>

text \<open>\<open>unicode.IsSpace\<close>.\<close>

definition is_space :: "nat \<Rightarrow> bool" where
  "is_space r \<longleftrightarrow> r \<in> {0x09, 0x0A, 0x0B, 0x0C, 0x0D, 0x20, 0x85, 0xA0, 0x1680, 0x2028, 0x2029,
     0x202F, 0x205F, 0x3000} \<or> (0x2000 \<le> r \<and> r \<le> 0x200A)"

definition trim_chunks :: "(nat \<times> string) list \<Rightarrow> (nat \<times> string) list" where
  "trim_chunks cs = rev (dropWhile (\<lambda>c. is_space (fst c)) (rev (dropWhile (\<lambda>c. is_space (fst c)) cs)))"

definition TrimSpace :: "string \<Rightarrow> string" where
  "TrimSpace s = concat (map snd (trim_chunks (chunks s)))"

lemma trim_chunks_factor: "\<exists>pre suf. cs = pre @ trim_chunks cs @ suf"
proof -
  let ?P = "\<lambda>c::nat \<times> string. is_space (fst c)"
  have "cs = takeWhile ?P cs @ dropWhile ?P cs" by simp
  moreover have "dropWhile ?P cs =
      trim_chunks cs @ rev (takeWhile ?P (rev (dropWhile ?P cs)))"
    unfolding trim_chunks_def
    by (metis rev_append rev_rev_ident takeWhile_dropWhile_id)
  ultimately show ?thesis by metis
qed

lemma chunks_TrimSpace: "chunks (TrimSpace s) = trim_chunks (chunks s)"
proof -
  obtain pre suf where f: "chunks s = pre @ trim_chunks (chunks s) @ suf"
    using trim_chunks_factor by blast
  then have "chunks (concat (map snd (trim_chunks (chunks s) @ suf))) = trim_chunks (chunks s) @ suf"
    using chunks_split [of s pre] by blast
  then have "chunks (concat (map snd (trim_chunks (chunks s)))) = trim_chunks (chunks s)"
    using chunks_split by blast
  then show ?thesis by (simp add: TrimSpace_def)
qed

lemma trim_chunks_id:
  "cs = [] \<or> \<not> is_space (fst (hd cs)) \<and> \<not> is_space (fst (last cs)) \<Longrightarrow> trim_chunks cs = cs"
  by (cases cs) (auto simp: trim_chunks_def dropWhile_eq_self_iff hd_append hd_rev)

lemma trim_chunks_ends:
  "trim_chunks cs = [] \<or> \<not> is_space (fst (hd (trim_chunks cs))) \<and> \<not> is_space (fst (last (trim_chunks cs)))"
proof (cases "trim_chunks cs = []")
  case False
  let ?P = "\<lambda>c::nat \<times> string. is_space (fst c)"
  let ?d = "dropWhile ?P cs"
  have d: "?d \<noteq> []"
  proof
    assume "?d = []"
    then have "trim_chunks cs = []" by (simp only: trim_chunks_def dropWhile.simps rev.simps)
    with False show False by simp
  qed
  have l: "\<not> ?P (last (trim_chunks cs))"
    using False unfolding trim_chunks_def
    by (metis (no_types, lifting) hd_dropWhile last_rev rev_is_Nil_conv)
  have "?d = trim_chunks cs @ rev (takeWhile ?P (rev ?d))"
    unfolding trim_chunks_def by (metis rev_append rev_rev_ident takeWhile_dropWhile_id)
  then have "hd ?d = hd (trim_chunks cs)" using False by (metis hd_append2)
  with l d show ?thesis by (metis hd_dropWhile)
qed simp

lemma TrimSpace_Nil: "TrimSpace [] = []"
  by (simp add: TrimSpace_def trim_chunks_def chunks.simps)

lemma TrimSpace_idem: "TrimSpace (TrimSpace s) = TrimSpace s"
  unfolding TrimSpace_def [of "TrimSpace s"] chunks_TrimSpace
  using trim_chunks_id [OF trim_chunks_ends] by (simp add: TrimSpace_def)

text \<open>\<open>unicode.ToLower\<close> of one rune, and \<open>strings.ToLower\<close>.\<close>

definition lower_rune :: "(nat \<Rightarrow> nat) \<Rightarrow> nat \<Rightarrow> nat" where
  "lower_rune lc r = (if r < 0x80 then (if 0x41 \<le> r \<and> r \<le> 0x5A then r + 32 else r) else lc r)"

definition ToLower :: "(nat \<Rightarrow> nat) \<Rightarrow> string \<Rightarrow> string" where
  "ToLower lc s = string_of_runes (map (lower_rune lc) (runes s))"

section \<open>Cutting, splitting, joining\<close>

text \<open>\<open>strings.Cut\<close> and \<open>strings.Split\<close> at a one-byte separator, \<open>strings.Join\<close> with one.\<close>

definition Cut :: "string \<Rightarrow> char \<Rightarrow> string \<times> string \<times> bool" where
  "Cut s c = (if c \<in> set s then (takeWhile (\<lambda>x. x \<noteq> c) s, tl (dropWhile (\<lambda>x. x \<noteq> c) s), True)
              else (s, [], False))"

fun Split :: "char \<Rightarrow> string \<Rightarrow> string list" where
  "Split c [] = [[]]"
| "Split c (x # xs) = (if x = c then [] # Split c xs
     else (case Split c xs of [] \<Rightarrow> [[x]] | p # ps \<Rightarrow> (x # p) # ps))"

fun Join :: "char \<Rightarrow> string list \<Rightarrow> string" where
  "Join c [] = []"
| "Join c [x] = x"
| "Join c (x # y # ys) = x @ c # Join c (y # ys)"

text \<open>\<open>strings.Join\<close> with a comma and a blank.\<close>

fun join_comma :: "string list \<Rightarrow> string" where
  "join_comma [] = []"
| "join_comma [x] = x"
| "join_comma (x # xs) = x @ '', '' @ join_comma xs"

lemma Split_no_sep: "c \<notin> set x \<Longrightarrow> Split c x = [x]"
  by (induction x) auto

lemma Split_append: "c \<notin> set x \<Longrightarrow> Split c (x @ c # t) = x # Split c t"
  by (induction x) auto

lemma Split_Join: "xs \<noteq> [] \<Longrightarrow> \<forall>x \<in> set xs. c \<notin> set x \<Longrightarrow> Split c (Join c xs) = xs"
  by (induction c xs rule: Join.induct) (auto simp: Split_no_sep Split_append)

lemma Cut_append: "c \<notin> set x \<Longrightarrow> Cut (x @ c # t) c = (x, t, True)"
  by (auto simp: Cut_def takeWhile_append dropWhile_append)

definition HasPrefix :: "string \<Rightarrow> string \<Rightarrow> bool" where
  "HasPrefix s p \<longleftrightarrow> take (length p) s = p"

definition TrimPrefix :: "string \<Rightarrow> string \<Rightarrow> string" where
  "TrimPrefix s p = (if HasPrefix s p then drop (length p) s else s)"

lemmas str_defs [str_simps] = TrimSpace_def trim_chunks_def chunks.simps decode_rune_def
  is_space_def RuneError_def utf8_cont_def lead3_ok_def lead4_ok_def

end
