(* ===== verification/Go_Encoding.thy ===== *)
theory Go_Encoding
  imports Go_Strings
begin

text \<open>
  Go's \<open>encoding/base64\<close> as Headnet uses it: the padded standard alphabet
  (\<open>StdEncoding\<close>), the unpadded ones (\<open>RawStdEncoding\<close>, \<open>RawURLEncoding\<close>) and their
  \<open>Strict()\<close> variants. Decoding skips carriage returns and line feeds anywhere in its input,
  and unless it is strict it ignores the unused low bits of the last character, as the library
  does.
\<close>

section \<open>Encodings\<close>

record encoding =
  enc_alphabet :: string
  enc_padded :: bool
  enc_strict :: bool

definition std_alphabet :: string where
  "std_alphabet = ''ABCDEFGHIJKLMNOPQRSTUVWXYZabcdefghijklmnopqrstuvwxyz0123456789+/''"

definition url_alphabet :: string where
  "url_alphabet = ''ABCDEFGHIJKLMNOPQRSTUVWXYZabcdefghijklmnopqrstuvwxyz0123456789-_''"

definition StdEncoding :: encoding where
  "StdEncoding = \<lparr>enc_alphabet = std_alphabet, enc_padded = True, enc_strict = False\<rparr>"

definition RawStdEncoding :: encoding where
  "RawStdEncoding = \<lparr>enc_alphabet = std_alphabet, enc_padded = False, enc_strict = False\<rparr>"

definition RawURLEncoding :: encoding where
  "RawURLEncoding = \<lparr>enc_alphabet = url_alphabet, enc_padded = False, enc_strict = False\<rparr>"

definition Strict :: "encoding \<Rightarrow> encoding" where
  "Strict e = e\<lparr>enc_strict := True\<rparr>"

fun index_in :: "'a list \<Rightarrow> 'a \<Rightarrow> nat option" where
  "index_in [] x = None"
| "index_in (y # ys) x = (if x = y then Some 0 else map_option Suc (index_in ys x))"

section \<open>Encoding\<close>

definition sextet :: "encoding \<Rightarrow> nat \<Rightarrow> nat \<Rightarrow> char" where
  "sextet e val k = enc_alphabet e ! (val div 64 ^ k mod 64)"

definition padding :: "encoding \<Rightarrow> nat \<Rightarrow> string" where
  "padding e n = (if enc_padded e then replicate n (CHR ''='') else [])"

fun EncodeToString :: "encoding \<Rightarrow> byte list \<Rightarrow> string" where
  "EncodeToString e [] = []"
| "EncodeToString e [a] = (let val = unat a * 65536 in
     [sextet e val 3, sextet e val 2] @ padding e 2)"
| "EncodeToString e [a, b] = (let val = unat a * 65536 + unat b * 256 in
     [sextet e val 3, sextet e val 2, sextet e val 1] @ padding e 1)"
| "EncodeToString e (a # b # c # rest) = (let val = unat a * 65536 + unat b * 256 + unat c in
     [sextet e val 3, sextet e val 2, sextet e val 1, sextet e val 0] @ EncodeToString e rest)"

section \<open>Decoding\<close>

text \<open>
  One quantum of four characters carries 24 bits; a last quantum of three or two characters
  carries two bytes or one. A strict decoder refuses a last quantum whose unused bits are set.
\<close>

definition quantum_byte :: "nat \<Rightarrow> nat \<Rightarrow> byte" where
  "quantum_byte val k = word_of_nat (val div 256 ^ k)"

definition decode_tail :: "encoding \<Rightarrow> string \<Rightarrow> byte list option" where
  "decode_tail e s = (case map (index_in (enc_alphabet e)) s of
     [] \<Rightarrow> Some []
   | [Some i, Some j] \<Rightarrow> let val = i * 262144 + j * 4096 in
       if enc_strict e \<and> val mod 65536 \<noteq> 0 then None else Some [quantum_byte val 2]
   | [Some i, Some j, Some k] \<Rightarrow> let val = i * 262144 + j * 4096 + k * 64 in
       if enc_strict e \<and> val mod 256 \<noteq> 0 then None
       else Some [quantum_byte val 2, quantum_byte val 1]
   | _ \<Rightarrow> None)"

definition strip_padding :: "encoding \<Rightarrow> string \<Rightarrow> string option" where
  "strip_padding e s = (if \<not> enc_padded e then Some s
     else case s of
       [] \<Rightarrow> Some []
     | [a, b, p, q] \<Rightarrow> if p = CHR ''='' \<and> q = CHR ''='' then Some [a, b]
                      else if q = CHR ''='' then Some [a, b, p] else None
     | _ \<Rightarrow> None)"

fun decode_quanta :: "encoding \<Rightarrow> string \<Rightarrow> byte list option" where
  "decode_quanta e (a # b # c # d # rest) =
     (case (index_in (enc_alphabet e) a, index_in (enc_alphabet e) b,
            index_in (enc_alphabet e) c, index_in (enc_alphabet e) d) of
        (Some i, Some j, Some k, Some l) \<Rightarrow>
          let val = i * 262144 + j * 4096 + k * 64 + l in
          map_option (\<lambda>bs. quantum_byte val 2 # quantum_byte val 1 # quantum_byte val 0 # bs)
            (decode_quanta e rest)
      | _ \<Rightarrow> Option.bind (strip_padding e (a # b # c # d # rest)) (\<lambda>t.
          if length t < 4 then decode_tail e t else None))"
| "decode_quanta e s = Option.bind (strip_padding e s) (decode_tail e)"

definition DecodeString :: "encoding \<Rightarrow> string \<Rightarrow> byte list option" where
  "DecodeString e s = decode_quanta e (filter (\<lambda>c. of_char c \<noteq> (10::nat) \<and> of_char c \<noteq> (13::nat)) s)"

section \<open>Round trips\<close>

definition wf_encoding :: "encoding \<Rightarrow> bool" where
  "wf_encoding e \<longleftrightarrow> length (enc_alphabet e) = 64 \<and> distinct (enc_alphabet e) \<and>
     (\<forall>c \<in> set (enc_alphabet e). c \<noteq> CHR ''='' \<and> of_char c \<noteq> (10::nat) \<and> of_char c \<noteq> (13::nat))"

lemma wf_encodings [simp]:
  "wf_encoding StdEncoding" "wf_encoding RawStdEncoding" "wf_encoding RawURLEncoding"
  by (simp_all add: wf_encoding_def StdEncoding_def RawStdEncoding_def RawURLEncoding_def
      std_alphabet_def url_alphabet_def)

lemma wf_Strict [simp]: "wf_encoding (Strict e) = wf_encoding e"
  by (simp add: wf_encoding_def Strict_def)

lemma index_in_nth: "distinct xs \<Longrightarrow> i < length xs \<Longrightarrow> index_in xs (xs ! i) = Some i"
  by (induction xs arbitrary: i) (auto simp: nth_Cons split: nat.splits)

lemma index_in_Some: "index_in xs x = Some i \<Longrightarrow> i < length xs \<and> xs ! i = x"
  by (induction xs arbitrary: i) (auto split: if_splits)

lemma index_in_None: "index_in xs x = None \<longleftrightarrow> x \<notin> set xs"
  by (induction xs) auto

lemma index_sextet: "wf_encoding e \<Longrightarrow> index_in (enc_alphabet e) (sextet e v k) = Some (v div 64 ^ k mod 64)"
  by (simp add: sextet_def wf_encoding_def index_in_nth)

lemma sextet_in: "wf_encoding e \<Longrightarrow> sextet e v k \<in> set (enc_alphabet e)"
  by (simp add: sextet_def wf_encoding_def)

lemma eq_not_in: "wf_encoding e \<Longrightarrow> index_in (enc_alphabet e) (CHR ''='') = None"
  by (auto simp: wf_encoding_def index_in_None)

text \<open>The four base-64 digits of a 24-bit value, and its three bytes.\<close>

lemma digits64:
  assumes "v < (16777216::nat)"
  shows "v div 262144 mod 64 * 262144 + v div 4096 mod 64 * 4096 + v div 64 mod 64 * 64 + v mod 64 = v"
proof -
  have 1: "v div 4096 = v div 262144 * 64 + v div 4096 mod 64"
    by (simp add: div_mult2_eq [of v 4096 64, simplified])
  have 2: "v div 64 = v div 4096 * 64 + v div 64 mod 64"
    by (simp add: div_mult2_eq [of v 64 64, simplified])
  have 3: "v = v div 64 * 64 + v mod 64" by simp
  have 4: "v div 262144 mod 64 = v div 262144" using assms by simp
  show ?thesis using 1 2 3 4 by linarith
qed

lemma word_of_nat_byte: "word_of_nat n = (b::byte) \<longleftrightarrow> n mod 256 = unat b"
  by (simp add: word_unat_eq_iff unat_of_nat)

lemma quantum_bytes:
  fixes a b c :: byte
  assumes v: "v = unat a * 65536 + unat b * 256 + unat c"
  shows "quantum_byte v 2 = a" "quantum_byte v 1 = b" "quantum_byte v 0 = c" "v < 16777216"
proof -
  have b: "unat a < 256" "unat b < 256" "unat c < 256"
    using unsigned_less [of a] unsigned_less [of b] unsigned_less [of c] by simp_all
  have v': "v = unat c + (unat a * 256 + unat b) * 256" by (simp add: v)
  have d: "v div 65536 = unat a" "v div 256 = unat a * 256 + unat b" using b unfolding v by simp_all
  have m: "v mod 256 = unat c" using b unfolding v' by (subst mod_mult_self1) simp
  show "quantum_byte v 2 = a" using b d by (simp add: quantum_byte_def word_of_nat_byte)
  have "v div 256 mod 256 = unat b" using b d by simp
  then show "quantum_byte v 1 = b" by (simp add: quantum_byte_def word_of_nat_byte)
  show "quantum_byte v 0 = c" using m by (simp add: quantum_byte_def word_of_nat_byte)
  show "v < 16777216" using b by (simp add: v)
qed

lemma index_sextets:
  assumes "wf_encoding e"
  shows "index_in (enc_alphabet e) (sextet e v 3) = Some (v div 262144 mod 64)"
    "index_in (enc_alphabet e) (sextet e v 2) = Some (v div 4096 mod 64)"
    "index_in (enc_alphabet e) (sextet e v (Suc 0)) = Some (v div 64 mod 64)"
    "index_in (enc_alphabet e) (sextet e v 0) = Some (v mod 64)"
  using index_sextet [OF assms, of v 3] index_sextet [OF assms, of v 2]
    index_sextet [OF assms, of v 1] index_sextet [OF assms, of v 0] by simp_all

lemma replicate_two: "replicate 2 x = [x, x]"
  by (simp add: numeral_2_eq_2)

lemma filter_newline_encode:
  "wf_encoding e \<Longrightarrow> filter (\<lambda>c. of_char c \<noteq> (10::nat) \<and> of_char c \<noteq> (13::nat)) (EncodeToString e bs)
     = EncodeToString e bs"
  using sextet_in
  by (induction e bs rule: EncodeToString.induct)
     (auto simp: Let_def padding_def wf_encoding_def)

lemma decode_quanta_encode:
  "wf_encoding e \<Longrightarrow> decode_quanta e (EncodeToString e bs) = Some bs"
proof (induction e bs rule: EncodeToString.induct)
  case (1 e)
  then show ?case by (simp add: strip_padding_def decode_tail_def)
next
  case (2 e a)
  define v where "v = unat a * 65536"
  have q: "quantum_byte v 2 = a" "v < 16777216" "v mod 65536 = 0"
    using quantum_bytes [of v a 0 0] by (simp_all add: v_def)
  have "v div 64 mod 64 = 0" "v mod 64 = 0" unfolding v_def by auto
  then have "v div 262144 mod 64 * 262144 + v div 4096 mod 64 * 4096 = v"
    using digits64 [OF q(2)] by linarith
  with 2 q show ?case
    by (simp add: v_def [symmetric] replicate_two padding_def strip_padding_def decode_tail_def index_sextets eq_not_in)
next
  case (3 e a b)
  define v where "v = unat a * 65536 + unat b * 256"
  have q: "quantum_byte v 2 = a" "quantum_byte v 1 = b" "v < 16777216" "v mod 256 = 0"
    using quantum_bytes [of v a b 0] by (simp_all add: v_def)
  have "v mod 64 = 0" unfolding v_def by auto
  then have "v div 262144 mod 64 * 262144 + v div 4096 mod 64 * 4096 + v div 64 mod 64 * 64 = v"
    using digits64 [OF q(3)] by linarith
  moreover have "sextet e v 1 \<noteq> CHR ''=''"
    using sextet_in [OF 3, of v 1] 3 by (auto simp: wf_encoding_def)
  ultimately show ?case
    using 3 q
    by (simp add: v_def [symmetric] replicate_two padding_def strip_padding_def decode_tail_def index_sextets eq_not_in)
next
  case (4 e a b c rest)
  define v where "v = unat a * 65536 + unat b * 256 + unat c"
  note q = quantum_bytes [OF v_def]
  from 4 q digits64 [OF q(4)] show ?case
    by (simp add: v_def [symmetric] index_sextets)
qed

lemma DecodeString_EncodeToString:
  "wf_encoding e \<Longrightarrow> DecodeString e (EncodeToString e bs) = Some bs"
  by (simp add: DecodeString_def filter_newline_encode decode_quanta_encode)


text \<open>A strict decoder accepts only what the encoder writes, line breaks aside.\<close>

lemma bytes_of_quantum:
  assumes "v < 16777216"
  shows "unat (quantum_byte v 2) * 65536 + unat (quantum_byte v 1) * 256 + unat (quantum_byte v 0) = v"
proof -
  have u: "unat (quantum_byte v n) = v div 256 ^ n mod 256" for n
    by (simp add: quantum_byte_def unat_of_nat)
  have 0: "unat (quantum_byte v 2) = v div 65536 mod 256" "unat (quantum_byte v 1) = v div 256 mod 256"
    "unat (quantum_byte v 0) = v mod 256"
    using u [of 2] u [of 1] u [of 0] by simp_all
  have 1: "v div 256 = v div 65536 * 256 + v div 256 mod 256"
    by (simp add: div_mult2_eq [of v 256 256, simplified])
  have 2: "v = v div 256 * 256 + v mod 256" by simp
  have 3: "v div 65536 mod 256 = v div 65536" using assms by simp
  show ?thesis using 0 1 2 3 by linarith
qed

lemma divmod64: "l < 64 \<Longrightarrow> (x * 64 + l) div 64 = (x::nat)" "l < 64 \<Longrightarrow> (x * 64 + l) mod 64 = (l::nat)"
  by simp_all

lemma sextet_of_quantum:
  assumes "i < 64" "j < 64" "k < 64" "l < (64::nat)" "v = i * 262144 + j * 4096 + k * 64 + l"
  shows "sextet e v 3 = enc_alphabet e ! i" "sextet e v 2 = enc_alphabet e ! j"
    "sextet e v (Suc 0) = enc_alphabet e ! k" "sextet e v 0 = enc_alphabet e ! l"
proof -
  have v: "v = ((i * 64 + j) * 64 + k) * 64 + l" using assms by simp
  have d: "v div 4096 = v div 64 div 64" "v div 262144 = v div 64 div 64 div 64"
    by (simp_all add: div_mult2_eq [symmetric])
  have "v div 64 = (i * 64 + j) * 64 + k" "v mod 64 = l"
    unfolding v using assms(4) by (rule divmod64)+
  moreover have "v div 64 mod 64 = k" "v div 64 div 64 = i * 64 + j"
    unfolding calculation using assms(3) by (rule divmod64)+
  moreover have "(i * 64 + j) div 64 = i" "(i * 64 + j) mod 64 = j"
    using assms(2) by (rule divmod64)+
  ultimately have "v div 262144 mod 64 = i" "v div 4096 mod 64 = j" "v div 64 mod 64 = k" "v mod 64 = l"
    using d assms(1) by (simp_all only: mod_less)
  then show "sextet e v 3 = enc_alphabet e ! i" "sextet e v 2 = enc_alphabet e ! j"
    "sextet e v (Suc 0) = enc_alphabet e ! k" "sextet e v 0 = enc_alphabet e ! l"
    by (simp_all add: sextet_def)
qed

lemma quantum_bound:
  "i < 64 \<Longrightarrow> j < 64 \<Longrightarrow> k < 64 \<Longrightarrow> l < 64 \<Longrightarrow> i * 262144 + j * 4096 + k * 64 + l < (16777216::nat)"
  by simp

lemma alphabet_index: "wf_encoding e \<Longrightarrow> index_in (enc_alphabet e) x = Some i \<Longrightarrow> i < 64 \<and> enc_alphabet e ! i = x"
  using index_in_Some by (metis wf_encoding_def)

lemma strict_canonical_tail:
  assumes "wf_encoding e" "enc_strict e" "decode_tail e s = Some bs" "\<not> enc_padded e"
  shows "EncodeToString e bs = s"
proof -
  consider (none) "s = []" | (two) i j x y where "s = [x, y]" "index_in (enc_alphabet e) x = Some i"
      "index_in (enc_alphabet e) y = Some j"
    | (three) i j k x y z where "s = [x, y, z]" "index_in (enc_alphabet e) x = Some i"
      "index_in (enc_alphabet e) y = Some j" "index_in (enc_alphabet e) z = Some k"
    using assms(3) unfolding decode_tail_def by (auto split: list.splits option.splits)
  then show ?thesis
  proof cases
    case none
    with assms show ?thesis by (simp add: decode_tail_def)
  next
    case two
    define v where "v = i * 262144 + j * 4096"
    have ij: "i < 64" "j < 64" "enc_alphabet e ! i = x" "enc_alphabet e ! j = y"
      using two alphabet_index assms(1) by blast+
    have q: "v mod 65536 = 0" "bs = [quantum_byte v 2]"
      using assms two by (auto simp: decode_tail_def v_def Let_def split: if_splits)
    have s: "sextet e v 3 = x" "sextet e v 2 = y" "v < 16777216"
      using sextet_of_quantum [of i j 0 0 v e] quantum_bound [of i j 0 0] ij by (simp_all add: v_def)
    from q(1) obtain w where "v = w * 65536" by (metis mod_eq_0_iff_dvd dvd_def mult.commute)
    then have "v mod 256 = 0" "v div 256 mod 256 = 0" by (auto simp: mod_eq_0_iff_dvd)
    then have "unat (quantum_byte v 1) = 0" "unat (quantum_byte v 0) = 0"
      by (simp_all add: quantum_byte_def unat_of_nat)
    then have "unat (quantum_byte v 2) * 65536 = v" using bytes_of_quantum [OF s(3)] by simp
    with s q two assms(4) show ?thesis
      by (simp add: padding_def)
  next
    case three
    define v where "v = i * 262144 + j * 4096 + k * 64"
    have ij: "i < 64" "j < 64" "k < 64" "enc_alphabet e ! i = x" "enc_alphabet e ! j = y"
      "enc_alphabet e ! k = z"
      using three alphabet_index assms(1) by blast+
    have q: "v mod 256 = 0" "bs = [quantum_byte v 2, quantum_byte v 1]"
      using assms three by (auto simp: decode_tail_def v_def Let_def split: if_splits)
    have s: "sextet e v 3 = x" "sextet e v 2 = y" "sextet e v (Suc 0) = z" "v < 16777216"
      using sextet_of_quantum [of i j k 0 v e] quantum_bound [of i j k 0] ij by (simp_all add: v_def)
    have "unat (quantum_byte v 0) = 0" using q(1) by (simp add: quantum_byte_def unat_of_nat)
    then have "unat (quantum_byte v 2) * 65536 + unat (quantum_byte v 1) * 256 = v"
      using bytes_of_quantum [OF s(4)] by simp
    with s q three assms(4) show ?thesis
      by (simp add: padding_def)
  qed
qed

lemma strict_canonical:
  "wf_encoding e \<Longrightarrow> enc_strict e \<Longrightarrow> \<not> enc_padded e \<Longrightarrow> decode_quanta e s = Some bs \<Longrightarrow>
    EncodeToString e bs = s"
proof (induction e s arbitrary: bs rule: decode_quanta.induct)
  case (1 e a b c d rest)
  let ?ix = "index_in (enc_alphabet e)"
  obtain i j k l where ix: "?ix a = Some i" "?ix b = Some j" "?ix c = Some k" "?ix d = Some l"
    using 1 by (auto simp: strip_padding_def split: option.splits if_splits)
  define v where "v = i * 262144 + j * 4096 + k * 64 + l"
  obtain bs' where bs': "decode_quanta e rest = Some bs'"
    "bs = quantum_byte v 2 # quantum_byte v 1 # quantum_byte v 0 # bs'"
    using 1 ix by (auto simp: Let_def v_def)
  have "i < 64 \<and> enc_alphabet e ! i = a" "j < 64 \<and> enc_alphabet e ! j = b"
    "k < 64 \<and> enc_alphabet e ! k = c" "l < 64 \<and> enc_alphabet e ! l = d"
    using ix alphabet_index 1 by blast+
  with sextet_of_quantum [of i j k l v e] quantum_bound [of i j k l] have
    s: "sextet e v 3 = a" "sextet e v 2 = b" "sextet e v (Suc 0) = c" "sextet e v 0 = d" "v < 16777216"
    by (simp_all add: v_def)
  have "EncodeToString e bs' = rest"
    by (rule "1.IH" [OF refl ix(1) refl ix(2) refl ix(3,4) refl "1.prems"(1-3) bs'(1)])
  with s bs' bytes_of_quantum [OF s(5)] show ?case by simp
qed (auto simp: strip_padding_def dest: strict_canonical_tail)

lemma DecodeString_strict_canonical:
  assumes "wf_encoding e" "\<not> enc_padded e" "DecodeString (Strict e) s = Some bs"
    "\<forall>c \<in> set s. of_char c \<noteq> (10::nat) \<and> of_char c \<noteq> (13::nat)"
  shows "EncodeToString e bs = s"
proof -
  have same: "EncodeToString (Strict e) bs = EncodeToString e bs" for bs
    by (induction e bs rule: EncodeToString.induct)
       (simp_all add: sextet_def padding_def Strict_def Let_def)
  have "filter (\<lambda>c. of_char c \<noteq> (10::nat) \<and> of_char c \<noteq> (13::nat)) s = s"
    using assms(4) by (simp add: filter_id_conv)
  then have "EncodeToString (Strict e) bs = s"
    using strict_canonical [of "Strict e" s bs] assms
    by (simp add: DecodeString_def Strict_def wf_encoding_def)
  with same show ?thesis by simp
qed

lemma length_EncodeToString_raw:
  "\<not> enc_padded e \<Longrightarrow> length (EncodeToString e bs) = (4 * length bs + 2) div 3"
  by (induction e bs rule: EncodeToString.induct) (simp_all add: Let_def padding_def)

lemmas b64_defs [str_simps] = DecodeString_def StdEncoding_def RawStdEncoding_def RawURLEncoding_def
  Strict_def std_alphabet_def url_alphabet_def decode_tail_def strip_padding_def quantum_byte_def
  sextet_def padding_def

end
