(* ===== verification/Go_Effects.thy ===== *)
theory Go_Effects
  imports Go_Sha256
begin

text \<open>
  The effects Headnet's Go code has: errors as values with wrapping (\<open>errors.Is\<close>), panics,
  random bytes from the system generator, and SQL statements that may fail at any call.

  A computation runs on a \<open>world\<close>: the database, the random bytes still to be read, and a
  schedule of faults. Each call to the driver consumes one entry of the schedule; \<open>True\<close> makes
  the call fail, an exhausted schedule never does. A theorem about every world is therefore a
  theorem about every pattern of driver failures.
\<close>

section \<open>Errors\<close>

text \<open>
  \<open>ErrNew\<close> is a value made by \<open>errors.New\<close>, identified by its text; \<open>ErrWrap\<close> is
  \<open>fmt.Errorf\<close> with \<open>%w\<close> verbs or \<open>errors.Join\<close>; \<open>ErrSQL\<close> is an error of the database
  driver, with the class the code can tell apart.
\<close>

datatype sql_code = UniqueViolation | ForeignKeyViolation | DriverFailure | NoRows

datatype error = ErrNew string | ErrSQL sql_code | ErrWrap string "error list"

fun errors_Is :: "error \<Rightarrow> error \<Rightarrow> bool" where
  "errors_Is (ErrWrap s es) t = (ErrWrap s es = t \<or> list_ex (\<lambda>e. errors_Is e t) es)"
| "errors_Is e t = (e = t)"

definition wrap :: "string \<Rightarrow> error \<Rightarrow> error" where
  "wrap s e = ErrWrap s [e]"

lemma errors_Is_refl [simp]: "errors_Is e e"
  by (cases e) auto

lemma errors_Is_wrap [simp]: "errors_Is (wrap s e) t \<longleftrightarrow> wrap s e = t \<or> errors_Is e t"
  by (simp add: wrap_def)

lemma wrap_neq [simp]: "wrap s e \<noteq> ErrNew t" "wrap s e \<noteq> ErrSQL c"
  "ErrNew t \<noteq> wrap s e" "ErrSQL c \<noteq> wrap s e"
  by (simp_all add: wrap_def)

text \<open>
  \<open>storage.IsUniqueViolation\<close>: \<open>errors.As\<close> walks the chain depth first, and the first driver error
  in it decides. \<open>sql.ErrNoRows\<close> is not a driver error.
\<close>

definition first_some :: "'a option list \<Rightarrow> 'a option" where
  "first_some xs = foldr (\<lambda>x r. case x of None \<Rightarrow> r | Some y \<Rightarrow> Some y) xs None"

fun errors_As_sql :: "error \<Rightarrow> sql_code option" where
  "errors_As_sql (ErrSQL c) = (if c = NoRows then None else Some c)"
| "errors_As_sql (ErrWrap s es) = first_some (map errors_As_sql es)"
| "errors_As_sql (ErrNew s) = None"

definition IsUniqueViolation :: "error \<Rightarrow> bool" where
  "IsUniqueViolation e \<longleftrightarrow> errors_As_sql e = Some UniqueViolation"

lemma IsUniqueViolation_wrap [simp]: "IsUniqueViolation (wrap s e) = IsUniqueViolation e"
  by (simp add: IsUniqueViolation_def wrap_def first_some_def split: option.splits)

lemma IsUniqueViolation_SQL [simp]: "IsUniqueViolation (ErrSQL c) = (c = UniqueViolation)"
  by (auto simp: IsUniqueViolation_def)

section \<open>Computations\<close>

datatype 'a res = Ret 'a | Err error | Panic string

record 'd world =
  w_db :: 'd
  w_faults :: "bool list"
  w_entropy :: "byte list"

type_synonym ('d, 'a) comp = "'d world \<Rightarrow> 'a res \<times> 'd world"

definition returnM :: "'a \<Rightarrow> ('d, 'a) comp" where
  "returnM x w = (Ret x, w)"

definition failM :: "error \<Rightarrow> ('d, 'a) comp" where
  "failM e w = (Err e, w)"

definition panicM :: "string \<Rightarrow> ('d, 'a) comp" where
  "panicM s w = (Panic s, w)"

definition bindM :: "('d, 'a) comp \<Rightarrow> ('a \<Rightarrow> ('d, 'b) comp) \<Rightarrow> ('d, 'b) comp" where
  "bindM m k w = (case m w of (Ret a, w') \<Rightarrow> k a w' | (Err e, w') \<Rightarrow> (Err e, w')
     | (Panic p, w') \<Rightarrow> (Panic p, w'))"

text \<open>\<open>if err != nil { return f(err) }\<close>, and \<open>v, err := m\<close> with both inspected.\<close>

definition mapErr :: "(error \<Rightarrow> error) \<Rightarrow> ('d, 'a) comp \<Rightarrow> ('d, 'a) comp" where
  "mapErr f m w = (case m w of (Ret a, w') \<Rightarrow> (Ret a, w') | (Err e, w') \<Rightarrow> (Err (f e), w')
     | (Panic p, w') \<Rightarrow> (Panic p, w'))"

definition tryM :: "('d, 'a) comp \<Rightarrow> ('d, error + 'a) comp" where
  "tryM m w = (case m w of (Ret a, w') \<Rightarrow> (Ret (Inr a), w') | (Err e, w') \<Rightarrow> (Ret (Inl e), w')
     | (Panic p, w') \<Rightarrow> (Panic p, w'))"

section \<open>Driver calls\<close>

definition driver_call :: "('d, unit) comp" where
  "driver_call w = (case w_faults w of
     [] \<Rightarrow> (Ret (), w)
   | b # bs \<Rightarrow> (if b then Err (ErrSQL DriverFailure) else Ret (), w\<lparr>w_faults := bs\<rparr>))"

text \<open>A query is \<open>QueryContext\<close> followed by reading its rows; either may fail.\<close>

definition queryM :: "('d \<Rightarrow> 'a) \<Rightarrow> ('d, 'a) comp" where
  "queryM f = bindM driver_call (\<lambda>_. bindM driver_call (\<lambda>_ w. (Ret (f (w_db w)), w)))"

text \<open>
  A statement either violates a constraint and changes nothing, or yields the number of rows
  it affected and the new database. \<open>RowsAffected\<close> is a call of its own.
\<close>

definition execM :: "('d \<Rightarrow> sql_code + nat \<times> 'd) \<Rightarrow> ('d, nat) comp" where
  "execM f = bindM driver_call (\<lambda>_ w. (case f (w_db w) of
     Inl c \<Rightarrow> (Err (ErrSQL c), w)
   | Inr (n, d) \<Rightarrow> (Ret n, w\<lparr>w_db := d\<rparr>)))"

definition rowsAffected :: "nat \<Rightarrow> ('d, nat) comp" where
  "rowsAffected n = bindM driver_call (\<lambda>_. returnM n)"

text \<open>\<open>crypto/rand.Read\<close>: \<open>n\<close> bytes, or an error when the generator cannot supply them.\<close>

definition rand_Read :: "nat \<Rightarrow> ('d, byte list) comp" where
  "rand_Read n w = (if length (w_entropy w) < n then (Err (ErrNew ''entropy unavailable''), w)
     else (Ret (take n (w_entropy w)), w\<lparr>w_entropy := drop n (w_entropy w)\<rparr>))"

text \<open>
  \<open>DB.InTx\<close>: the work runs on the database, and unless it returns normally and the commit
  succeeds, the database is what it was.
\<close>

definition InTx :: "('d, 'a) comp \<Rightarrow> ('d, 'a) comp" where
  "InTx fn w = (case mapErr (wrap ''beginning a transaction'') driver_call w of
     (Err e, w1) \<Rightarrow> (Err e, w1)
   | (Panic p, w1) \<Rightarrow> (Panic p, w1)
   | (Ret _, w1) \<Rightarrow> (case fn w1 of
       (Err e, w2) \<Rightarrow> (Err e, w2\<lparr>w_db := w_db w1\<rparr>)
     | (Panic p, w2) \<Rightarrow> (Panic p, w2\<lparr>w_db := w_db w1\<rparr>)
     | (Ret x, w2) \<Rightarrow> (case mapErr (wrap ''committing the transaction'') driver_call w2 of
         (Ret _, w3) \<Rightarrow> (Ret x, w3)
       | (Err e, w3) \<Rightarrow> (Err e, w3\<lparr>w_db := w_db w1\<rparr>)
       | (Panic p, w3) \<Rightarrow> (Panic p, w3\<lparr>w_db := w_db w1\<rparr>))))"

lemmas effect_defs [monad_simps] = returnM_def failM_def panicM_def bindM_def mapErr_def tryM_def
  driver_call_def queryM_def execM_def rowsAffected_def rand_Read_def InTx_def

section \<open>Reasoning by the returned value\<close>

text \<open>
  What a computation did when it returned normally. These equivalences turn a run of a
  composed computation into the runs of its parts.
\<close>

lemma returnM_Ret [simp]: "returnM x w = (Ret y, w') \<longleftrightarrow> y = x \<and> w' = w"
  by (auto simp: returnM_def)

lemma failM_Ret [simp]: "failM e w \<noteq> (Ret y, w')"
  by (simp add: failM_def)

lemma bindM_Ret: "bindM m k w = (Ret b, w'') \<longleftrightarrow> (\<exists>a w'. m w = (Ret a, w') \<and> k a w' = (Ret b, w''))"
  by (auto simp: bindM_def split: prod.splits res.splits)

lemma mapErr_Ret [simp]: "mapErr f m w = (Ret b, w') \<longleftrightarrow> m w = (Ret b, w')"
  by (auto simp: mapErr_def split: prod.splits res.splits)

lemma tryM_Ret: "tryM m w = (Ret r, w') \<longleftrightarrow>
    (case r of Inr a \<Rightarrow> m w = (Ret a, w') | Inl e \<Rightarrow> m w = (Err e, w'))"
  by (auto simp: tryM_def split: prod.splits res.splits sum.splits)

lemma case_sum_Ret:
  "(case v of Inl e \<Rightarrow> failM e | Inr x \<Rightarrow> returnM x) w = (Ret y, w') \<longleftrightarrow> v = Inr y \<and> w' = w"
  by (cases v) auto

lemma driver_call_frame: "driver_call w = (r, w') \<Longrightarrow> w_db w' = w_db w \<and> w_entropy w' = w_entropy w"
  by (auto simp: driver_call_def split: list.splits)

lemma queryM_frame: "queryM f w = (r, w') \<Longrightarrow> w_db w' = w_db w \<and> w_entropy w' = w_entropy w"
  by (auto simp: queryM_def bindM_def driver_call_def split: list.splits prod.splits res.splits if_splits)

lemma queryM_Ret: "queryM f w = (Ret x, w') \<Longrightarrow> x = f (w_db w)"
  by (auto simp: queryM_def bindM_def driver_call_def split: list.splits prod.splits res.splits if_splits)

lemma execM_Ret: "execM f w = (Ret n, w') \<Longrightarrow> f (w_db w) = Inr (n, w_db w') \<and> w_entropy w' = w_entropy w"
  by (auto simp: execM_def bindM_def driver_call_def split: list.splits prod.splits res.splits sum.splits if_splits)

lemma execM_Err: "execM f w = (Err e, w') \<Longrightarrow> w_db w' = w_db w"
  by (auto simp: execM_def bindM_def driver_call_def split: list.splits prod.splits res.splits sum.splits if_splits)

lemma execM_no_Panic: "execM f w \<noteq> (Panic p, w')"
  by (auto simp: execM_def bindM_def driver_call_def split: list.splits prod.splits res.splits sum.splits if_splits)

lemma rowsAffected_Ret: "rowsAffected n w = (Ret k, w') \<Longrightarrow> k = n"
  by (auto simp: rowsAffected_def bindM_Ret)

lemma rowsAffected_frame: "rowsAffected n w = (r, w') \<Longrightarrow> w_db w' = w_db w \<and> w_entropy w' = w_entropy w"
  by (auto simp: rowsAffected_def bindM_def returnM_def driver_call_def split: list.splits prod.splits res.splits if_splits)

lemma rand_Read_frame: "rand_Read n w = (r, w') \<Longrightarrow> w_db w' = w_db w"
  by (auto simp: rand_Read_def split: if_splits)

lemma InTx_Ret:
  "InTx fn w = (Ret x, w') \<Longrightarrow> \<exists>w1 w2. fn w1 = (Ret x, w2) \<and> w_db w1 = w_db w \<and>
     w_entropy w1 = w_entropy w \<and> w_db w' = w_db w2 \<and> w_entropy w' = w_entropy w2"
  by (auto simp: InTx_def split: prod.splits res.splits dest!: driver_call_frame)

section \<open>Keeping a property of the database\<close>

text \<open>
  \<open>keeps I m\<close>: whatever the outcome of \<open>m\<close>, a database with property \<open>I\<close> still has it.
  \<open>commits I m\<close> asks this only of a normal return, which is enough for the body of a
  transaction: every other outcome is rolled back.
\<close>

definition keeps :: "('d \<Rightarrow> bool) \<Rightarrow> ('d, 'a) comp \<Rightarrow> bool" where
  "keeps I m \<longleftrightarrow> (\<forall>w r w'. m w = (r, w') \<longrightarrow> I (w_db w) \<longrightarrow> I (w_db w'))"

definition commits :: "('d \<Rightarrow> bool) \<Rightarrow> ('d, 'a) comp \<Rightarrow> bool" where
  "commits I m \<longleftrightarrow> (\<forall>w x w'. m w = (Ret x, w') \<longrightarrow> I (w_db w) \<longrightarrow> I (w_db w'))"

lemma keepsD: "keeps I m \<Longrightarrow> m w = (r, w') \<Longrightarrow> I (w_db w) \<Longrightarrow> I (w_db w')"
  by (auto simp: keeps_def)

lemma keeps_commits: "keeps I m \<Longrightarrow> commits I m"
  by (auto simp: keeps_def commits_def)

lemma keeps_frame: "(\<And>w r w'. m w = (r, w') \<Longrightarrow> w_db w' = w_db w) \<Longrightarrow> keeps I m"
  by (fastforce simp: keeps_def)

lemma keeps_returnM [pres_intros]: "keeps I (returnM x)"
  by (rule keeps_frame) (auto simp: returnM_def)

lemma keeps_failM [pres_intros]: "keeps I (failM e)"
  by (rule keeps_frame) (auto simp: failM_def)

lemma keeps_panicM [pres_intros]: "keeps I (panicM s)"
  by (rule keeps_frame) (auto simp: panicM_def)

lemma keeps_bindM [pres_intros]: "keeps I m \<Longrightarrow> (\<And>a. keeps I (k a)) \<Longrightarrow> keeps I (bindM m k)"
  unfolding keeps_def by (fastforce simp: bindM_def split: prod.splits res.splits)

lemma keeps_mapErr [pres_intros]: "keeps I m \<Longrightarrow> keeps I (mapErr f m)"
  unfolding keeps_def by (fastforce simp: mapErr_def split: prod.splits res.splits)

lemma keeps_tryM [pres_intros]: "keeps I m \<Longrightarrow> keeps I (tryM m)"
  unfolding keeps_def by (fastforce simp: tryM_def split: prod.splits res.splits)

lemma keeps_driver_call: "keeps I driver_call"
  by (rule keeps_frame) (auto dest: driver_call_frame)

lemma keeps_queryM [pres_intros]: "keeps I (queryM f)"
  by (rule keeps_frame) (auto dest: queryM_frame)

lemma keeps_rowsAffected [pres_intros]: "keeps I (rowsAffected n)"
  by (rule keeps_frame) (auto dest: rowsAffected_frame)

lemma keeps_rand_Read [pres_intros]: "keeps I (rand_Read n)"
  by (rule keeps_frame) (auto dest: rand_Read_frame)

lemma keeps_execM:
  assumes "\<And>d n d'. I d \<Longrightarrow> f d = Inr (n, d') \<Longrightarrow> I d'"
  shows "keeps I (execM f)"
  unfolding keeps_def
proof (intro allI impI)
  fix w r w'
  assume "execM f w = (r, w')" "I (w_db w)"
  then show "I (w_db w')"
    using assms execM_Ret [of f w _ w'] execM_Err [of f w _ w'] execM_no_Panic [of f w _ w'] by (cases r) auto
qed

lemma mapErr_frame: "mapErr f m w = (r, w') \<Longrightarrow> \<exists>r'. m w = (r', w')"
  by (auto simp: mapErr_def split: prod.splits res.splits)

text \<open>A transaction that does not return normally changed nothing.\<close>

lemma InTx_abort: "InTx fn w = (r, w') \<Longrightarrow> \<forall>x. r \<noteq> Ret x \<Longrightarrow> w_db w' = w_db w"
  by (auto simp: InTx_def split: prod.splits res.splits dest!: mapErr_frame driver_call_frame)

lemma keeps_InTx [pres_intros]:
  assumes "commits I fn" shows "keeps I (InTx fn)"
  unfolding keeps_def
proof (intro allI impI)
  fix w r w'
  assume run: "InTx fn w = (r, w')" and I: "I (w_db w)"
  show "I (w_db w')"
  proof (cases "\<exists>x. r = Ret x")
    case True
    then obtain x where "InTx fn w = (Ret x, w')" using run by auto
    then obtain w1 w2 where "fn w1 = (Ret x, w2)" "w_db w1 = w_db w" "w_db w' = w_db w2"
      by (auto dest!: InTx_Ret)
    then have "I (w_db w2)" using assms I by (auto simp: commits_def)
    with \<open>w_db w' = w_db w2\<close> show ?thesis by simp
  next
    case False
    then show ?thesis using InTx_abort [OF run] I by simp
  qed
qed

lemma keeps_if [pres_intros]: "(b \<Longrightarrow> keeps I m) \<Longrightarrow> (\<not> b \<Longrightarrow> keeps I n) \<Longrightarrow> keeps I (if b then m else n)"
  by simp

lemma keeps_option [pres_intros]:
  "keeps I m \<Longrightarrow> (\<And>x. keeps I (f x)) \<Longrightarrow> keeps I (case v of None \<Rightarrow> m | Some x \<Rightarrow> f x)"
  by (cases v) auto

lemma keeps_sum [pres_intros]:
  "(\<And>x. keeps I (f x)) \<Longrightarrow> (\<And>x. keeps I (g x)) \<Longrightarrow> keeps I (case v of Inl x \<Rightarrow> f x | Inr x \<Rightarrow> g x)"
  by (cases v) auto

lemma keeps_Let [pres_intros]: "keeps I (f v) \<Longrightarrow> keeps I (Let v f)"
  by simp

section \<open>Runs without faults\<close>

text \<open>With no fault scheduled every driver call succeeds.\<close>

lemma calm_driver_call: "w_faults w = [] \<Longrightarrow> driver_call w = (Ret (), w)"
  by (simp add: driver_call_def)

lemma calm_queryM: "w_faults w = [] \<Longrightarrow> queryM f w = (Ret (f (w_db w)), w)"
  by (simp add: queryM_def bindM_def calm_driver_call)

lemma calm_execM: "w_faults w = [] \<Longrightarrow> execM f w = (case f (w_db w) of
    Inl c \<Rightarrow> (Err (ErrSQL c), w) | Inr (n, d) \<Rightarrow> (Ret n, w\<lparr>w_db := d\<rparr>))"
  by (simp add: execM_def bindM_def calm_driver_call)

lemma calm_rowsAffected: "w_faults w = [] \<Longrightarrow> rowsAffected n w = (Ret n, w)"
  by (simp add: rowsAffected_def bindM_def calm_driver_call returnM_def)

lemma bindM_run: "m w = (Ret a, w') \<Longrightarrow> bindM m k w = k a w'"
  by (simp add: bindM_def)

lemma bindM_run_Err: "m w = (Err e, w') \<Longrightarrow> bindM m k w = (Err e, w')"
  by (simp add: bindM_def)

lemma mapErr_run: "m w = (Ret a, w') \<Longrightarrow> mapErr f m w = (Ret a, w')"
  by (simp add: mapErr_def)

lemma mapErr_run_Err: "m w = (Err e, w') \<Longrightarrow> mapErr f m w = (Err (f e), w')"
  by (simp add: mapErr_def)

lemma calm_InTx: "w_faults w = [] \<Longrightarrow> fn w = (Ret x, w') \<Longrightarrow> w_faults w' = [] \<Longrightarrow> InTx fn w = (Ret x, w')"
  by (simp add: InTx_def mapErr_def calm_driver_call)

lemma calm_InTx_Err: "w_faults w = [] \<Longrightarrow> fn w = (Err e, w') \<Longrightarrow> InTx fn w = (Err e, w'\<lparr>w_db := w_db w\<rparr>)"
  by (simp add: InTx_def mapErr_def calm_driver_call)

lemmas calm_simps = calm_driver_call calm_queryM calm_execM calm_rowsAffected bindM_def mapErr_def
  tryM_def returnM_def failM_def

end
