(* ===== verification/Shared_Id.thy ===== *)
theory Shared_Id
  imports Go_Effects
begin

text \<open>
  Package \<open>shared\<close> (\<open>packages/shared/id.go\<close>): the prefixed random identifiers every row of
  the store is named by. \<open>NewID\<close> panics when the system generator fails; \<open>SplitID\<close> and
  \<open>HasPrefix\<close> read the prefix back.
\<close>

section \<open>Crockford base32\<close>

definition idAlphabet :: string where
  "idAlphabet = ''0123456789ABCDEFGHJKMNPQRSTVWXYZ''"

definition IDEntropyBytes :: nat where "IDEntropyBytes = 16"

text \<open>
  \<open>encoding/base32\<close> without padding: five bytes are eight characters of five bits; a last
  group of fewer bytes is filled with zero bits and cut after the last character that carries
  a bit of it.
\<close>

definition base32_group :: "byte list \<Rightarrow> string" where
  "base32_group bs = (let v = be_value (bs @ replicate (5 - length bs) 0) in
     take ((8 * length bs + 4) div 5) (map (\<lambda>k. idAlphabet ! (v div 32 ^ k mod 32)) [7, 6, 5, 4, 3, 2, 1, 0]))"

fun base32_Encode :: "byte list \<Rightarrow> string" where
  "base32_Encode (a # b # c # d # e # rest) = base32_group [a, b, c, d, e] @ base32_Encode rest"
| "base32_Encode bs = base32_group bs"

section \<open>Identifiers\<close>

definition NewID :: "string \<Rightarrow> ('d, string) comp" where
  "NewID prefix = bindM (tryM (rand_Read IDEntropyBytes)) (\<lambda>r. case r of
     Inl _ \<Rightarrow> panicM ''shared: crypto/rand unavailable''
   | Inr b \<Rightarrow> let encoded = base32_Encode b in
       returnM (if prefix = [] then encoded else prefix @ ''_'' @ encoded))"

definition SplitID :: "string \<Rightarrow> string \<times> string \<times> bool" where
  "SplitID ident = (let (prefix, value, ok) = Cut ident (CHR ''_'') in
     if \<not> ok \<or> prefix = [] \<or> value = [] then ([], ident, False) else (prefix, value, True))"

definition HasIDPrefix :: "string \<Rightarrow> string \<Rightarrow> bool" where
  "HasIDPrefix ident prefix = (let (got, _, ok) = SplitID ident in ok \<and> got = prefix)"

section \<open>No entropy is lost\<close>

lemma idAlphabet_facts: "length idAlphabet = 32" "distinct idAlphabet" "CHR ''_'' \<notin> set idAlphabet"
  by (simp_all add: idAlphabet_def)

lemma length_base32_group: "length bs \<le> 5 \<Longrightarrow> length (base32_group bs) = (8 * length bs + 4) div 5"
proof -
  assume "length bs \<le> 5"
  then have "(8 * length bs + 4) div 5 \<le> 8" by linarith
  then show ?thesis by (simp add: base32_group_def Let_def)
qed

lemma set_base32_group: "set (base32_group bs) \<subseteq> set idAlphabet"
  unfolding base32_group_def Let_def
  by (rule subset_trans [OF set_take_subset]) (simp add: idAlphabet_facts)

lemma set_base32_Encode: "set (base32_Encode bs) \<subseteq> set idAlphabet"
  by (induction bs rule: base32_Encode.induct) (simp_all add: set_base32_group)

lemma length_base32_Encode: "length (base32_Encode bs) = (8 * length bs + 4) div 5"
  by (induction bs rule: base32_Encode.induct) (simp_all add: length_base32_group)

lemma idAlphabet_nth_inj: "i < 32 \<Longrightarrow> j < 32 \<Longrightarrow> idAlphabet ! i = idAlphabet ! j \<longleftrightarrow> i = j"
  by (simp add: nth_eq_iff_index_eq idAlphabet_facts)


lemma low_digit_zero:
  fixes w :: nat
  assumes "Suc k \<le> d" 
  shows "w * 32 ^ d div 32 ^ k mod 32 = 0"
proof -
  from assms have "(32::nat) ^ d = 32 ^ (d - Suc k) * 32 * 32 ^ k"
    by (metis le_add_diff_inverse2 mult.assoc mult.commute power_Suc power_add)
  then have "w * 32 ^ d div 32 ^ k = w * 32 ^ (d - Suc k) * 32" by (simp add: mult.assoc [symmetric])
  then show ?thesis by simp
qed

lemma base32_group_inj:
  assumes len: "length as = length bs" "length bs \<le> 5" and eq: "base32_group as = base32_group bs"
  shows "as = bs"
proof -
  let ?n = "length bs"
  let ?m = "(8 * ?n + 4) div 5"
  define u where "u = be_value (as @ replicate (5 - ?n) 0)"
  define v where "v = be_value (bs @ replicate (5 - ?n) 0)"
  have bound: "u < 32 ^ 8" "v < 32 ^ 8"
    using be_value_less [of "as @ replicate (5 - ?n) 0"] be_value_less [of "bs @ replicate (5 - ?n) 0"] len
    by (simp_all add: u_def v_def)
  have mul: "\<exists>w. u = w * 32 ^ (8 - ?m)" "\<exists>w. v = w * 32 ^ (8 - ?m)"
  proof -
    have "?n = 0 \<or> ?n = 1 \<or> ?n = 2 \<or> ?n = 3 \<or> ?n = 4 \<or> ?n = 5" using len by linarith
    then have "5 * (8 - ?m) \<le> 8 * (5 - ?n)" by (elim disjE) simp_all
    then have "(2::nat) ^ (5 * (8 - ?m)) dvd 2 ^ (8 * (5 - ?n))" by (rule le_imp_power_dvd)
    then have "(32::nat) ^ (8 - ?m) dvd 256 ^ (5 - ?n)" by (simp add: power_mult)
    then obtain q where "(256::nat) ^ (5 - ?n) = q * 32 ^ (8 - ?m)" by (auto simp: dvd_def mult.commute)
    then have "u = be_value as * q * 32 ^ (8 - ?m)" "v = be_value bs * q * 32 ^ (8 - ?m)"
      unfolding u_def v_def be_value_replicate by (simp_all only: mult.assoc)
    then show "\<exists>w. u = w * 32 ^ (8 - ?m)" "\<exists>w. v = w * 32 ^ (8 - ?m)" by blast+
  qed
  have "u div 32 ^ k mod 32 = v div 32 ^ k mod 32" if k: "k < 8" for k
  proof (cases "k < 8 - ?m")
    case True
    then have "Suc k \<le> 8 - ?m" by simp
    then show ?thesis using mul low_digit_zero by metis
  next
    case False
    have nth: "map (\<lambda>k. idAlphabet ! (f k mod 32)) [7, 6, 5, 4, 3, 2, 1, 0] ! (7 - k) = idAlphabet ! (f k mod 32)"
      for f :: "nat \<Rightarrow> nat"
    proof -
      have "k = 0 \<or> k = 1 \<or> k = 2 \<or> k = 3 \<or> k = 4 \<or> k = 5 \<or> k = 6 \<or> k = 7" using k by linarith
      then show ?thesis by (elim disjE) simp_all
    qed
    have "7 - k < ?m" using False k by linarith
    moreover have "base32_group as ! (7 - k) = base32_group bs ! (7 - k)" using eq by simp
    ultimately have "idAlphabet ! (u div 32 ^ k mod 32) = idAlphabet ! (v div 32 ^ k mod 32)"
      unfolding base32_group_def Let_def len(1) u_def [symmetric] v_def [symmetric]
      by (simp only: nth_take nth)
    then show ?thesis by (simp add: idAlphabet_nth_inj)
  qed
  then have "u = v" using digits_determine [OF bound] by blast
  then have "be_value as = be_value bs" by (simp add: u_def v_def be_value_replicate)
  with be_value_inj len show ?thesis by blast
qed

lemma base32_Encode_short: "length bs < 5 \<Longrightarrow> base32_Encode bs = base32_group bs"
  by (cases bs rule: base32_Encode.cases) simp_all

lemma base32_Encode_inj: "length as = length bs \<Longrightarrow> base32_Encode as = base32_Encode bs \<Longrightarrow> as = bs"
proof (induction as arbitrary: bs rule: base32_Encode.induct)
  case (1 a b c d e rest)
  then obtain a' b' c' d' e' rest' where bs: "bs = a' # b' # c' # d' # e' # rest'"
    by (cases bs rule: base32_Encode.cases) auto
  have "base32_group [a, b, c, d, e] = base32_group [a', b', c', d', e'] \<and> base32_Encode rest = base32_Encode rest'"
    using "1.prems" bs by (simp add: length_base32_group)
  then show ?case using "1.IH" "1.prems" bs base32_group_inj [of "[a, b, c, d, e]" "[a', b', c', d', e']"] by simp
qed (simp_all add: base32_Encode_short base32_group_inj)

section \<open>Properties\<close>

lemma NewID_frame: "NewID p w = (r, w') \<Longrightarrow> w_db w' = w_db w \<and> w_faults w' = w_faults w"
  by (auto simp: NewID_def bindM_def tryM_def rand_Read_def panicM_def returnM_def Let_def
      split: if_splits)

lemma keeps_NewID [pres_intros]: "keeps I (NewID p)"
  by (rule keeps_frame) (auto dest: NewID_frame)

lemma NewID_no_Err: "NewID p w \<noteq> (Err e, w')"
  by (auto simp: NewID_def bindM_def tryM_def rand_Read_def panicM_def returnM_def Let_def
      split: if_splits)

lemma NewID_Ret:
  "NewID p w = (Ret s, w') \<longleftrightarrow> IDEntropyBytes \<le> length (w_entropy w) \<and>
     s = (if p = [] then [] else p @ ''_'') @ base32_Encode (take IDEntropyBytes (w_entropy w)) \<and>
     w' = w\<lparr>w_entropy := drop IDEntropyBytes (w_entropy w)\<rparr>"
  by (auto simp: NewID_def bindM_def tryM_def rand_Read_def panicM_def returnM_def Let_def
      split: if_splits)

lemma NewID_nonempty: "NewID p w = (Ret s, w') \<Longrightarrow> s \<noteq> []"
  by (auto simp: NewID_Ret IDEntropyBytes_def dest!: arg_cong [where f = length] simp: length_base32_Encode)

lemma SplitID_append:
  assumes "CHR ''_'' \<notin> set p" "p \<noteq> []" "v \<noteq> []"
  shows "SplitID (p @ ''_'' @ v) = (p, v, True)"
  using Cut_append [OF assms(1), of v] assms by (simp add: SplitID_def)

text \<open>
  Every identifier has the 26 characters of 128 bits, reads back as its prefix and its random
  part, and two identifiers with one prefix are equal only when their random bytes are.
\<close>

lemma NewID_SplitID:
  assumes "CHR ''_'' \<notin> set p" "p \<noteq> []" "NewID p w = (Ret s, w')"
  shows "\<exists>v. SplitID s = (p, v, True) \<and> length v = 26 \<and> set v \<subseteq> set idAlphabet"
proof -
  let ?v = "base32_Encode (take IDEntropyBytes (w_entropy w))"
  have s: "s = p @ ''_'' @ ?v" and ent: "IDEntropyBytes \<le> length (w_entropy w)"
    using assms by (simp_all add: NewID_Ret)
  have len: "length ?v = 26"
    using ent by (simp add: length_base32_Encode IDEntropyBytes_def)
  then have "?v \<noteq> []" by fastforce
  then have "SplitID s = (p, ?v, True)" unfolding s by (rule SplitID_append [OF assms(1,2)])
  with len set_base32_Encode show ?thesis by blast
qed

lemma NewID_inj:
  assumes "NewID p w1 = (Ret s, w1')" "NewID p w2 = (Ret s, w2')"
  shows "take IDEntropyBytes (w_entropy w1) = take IDEntropyBytes (w_entropy w2)"
proof -
  have "base32_Encode (take IDEntropyBytes (w_entropy w1)) = base32_Encode (take IDEntropyBytes (w_entropy w2))"
    using assms by (auto simp: NewID_Ret)
  then show ?thesis
    using assms by (intro base32_Encode_inj) (auto simp: NewID_Ret)
qed

end
