(* ===== verification/Netip.thy ===== *)
theory Netip
  imports Shared_Id
begin

text \<open>
  Go's \<open>net/netip\<close>: addresses and prefixes as values, their text form and the parser. The
  address table stores text, so what the allocator relies on is proved here: parsing the text
  of an address gives the address back.
\<close>

section \<open>Addresses\<close>

text \<open>The zero \<open>netip.Addr\<close>, a 32-bit IPv4 address, a 128-bit IPv6 address with its zone.\<close>

datatype addr = AddrInvalid | V4 "32 word" | V6 "128 word" string

fun Is4 :: "addr \<Rightarrow> bool" where
  "Is4 (V4 _) = True" | "Is4 _ = False"

fun IsValid :: "addr \<Rightarrow> bool" where
  "IsValid AddrInvalid = False" | "IsValid _ = True"

fun BitLen :: "addr \<Rightarrow> nat" where
  "BitLen AddrInvalid = 0" | "BitLen (V4 _) = 32" | "BitLen (V6 _ _) = 128"

fun Zone :: "addr \<Rightarrow> string" where
  "Zone (V6 _ z) = z" | "Zone _ = []"

text \<open>The numeric value of an address.\<close>

fun addr_nat :: "addr \<Rightarrow> nat" where
  "addr_nat AddrInvalid = 0" | "addr_nat (V4 w) = unat w" | "addr_nat (V6 w _) = unat w"

text \<open>\<open>Next\<close>: the following address, the zero value after the last one of the family.\<close>

fun Next :: "addr \<Rightarrow> addr" where
  "Next AddrInvalid = AddrInvalid"
| "Next (V4 w) = (if w = - 1 then AddrInvalid else V4 (w + 1))"
| "Next (V6 w z) = (if w = - 1 then AddrInvalid else V6 (w + 1) z)"

fun AsSlice :: "addr \<Rightarrow> byte list" where
  "AsSlice AddrInvalid = []"
| "AsSlice (V4 w) = be_bytes 4 (unat w)"
| "AsSlice (V6 w _) = be_bytes 16 (unat w)"

definition AddrFromSlice :: "byte list \<Rightarrow> addr" where
  "AddrFromSlice bs = (if length bs = 4 then V4 (word_of_nat (be_value bs))
     else if length bs = 16 then V6 (word_of_nat (be_value bs)) [] else AddrInvalid)"

section \<open>Prefixes\<close>

text \<open>The zero \<open>netip.Prefix\<close>, or an address without zone and a length its family allows.\<close>

datatype prefix = NoPrefix | Prefix addr nat

fun Addr :: "prefix \<Rightarrow> addr" where
  "Addr NoPrefix = AddrInvalid" | "Addr (Prefix a _) = a"

fun Bits :: "prefix \<Rightarrow> int" where
  "Bits NoPrefix = - 1" | "Bits (Prefix _ n) = int n"

fun WithoutZone :: "addr \<Rightarrow> addr" where
  "WithoutZone (V6 w _) = V6 w []" | "WithoutZone a = a"

definition PrefixFrom :: "addr \<Rightarrow> nat \<Rightarrow> prefix" where
  "PrefixFrom a n = (if IsValid a \<and> n \<le> BitLen a then Prefix (WithoutZone a) n else NoPrefix)"

fun prefix_IsValid :: "prefix \<Rightarrow> bool" where
  "prefix_IsValid NoPrefix = False" | "prefix_IsValid (Prefix a n) = (IsValid a \<and> n \<le> BitLen a \<and> Zone a = [])"

text \<open>The address with all bits after the first \<open>n\<close> cleared.\<close>

fun masked_addr :: "addr \<Rightarrow> nat \<Rightarrow> addr" where
  "masked_addr AddrInvalid n = AddrInvalid"
| "masked_addr (V4 w) n = V4 (push_bit (32 - n) (drop_bit (32 - n) w))"
| "masked_addr (V6 w z) n = V6 (push_bit (128 - n) (drop_bit (128 - n) w)) []"

fun Masked :: "prefix \<Rightarrow> prefix" where
  "Masked NoPrefix = NoPrefix"
| "Masked (Prefix a n) = Prefix (masked_addr a n) n"

fun Contains :: "prefix \<Rightarrow> addr \<Rightarrow> bool" where
  "Contains (Prefix (V4 p) n) (V4 a) = (n \<le> 32 \<and> drop_bit (32 - n) (a XOR p) = 0)"
| "Contains (Prefix (V6 p z) n) (V6 a y) = (n \<le> 128 \<and> y = [] \<and> drop_bit (128 - n) (a XOR p) = 0)"
| "Contains _ _ = False"

definition Overlaps :: "prefix \<Rightarrow> prefix \<Rightarrow> bool" where
  "Overlaps p q = (prefix_IsValid p \<and> prefix_IsValid q \<and>
     (p = q \<or> BitLen (Addr p) = BitLen (Addr q) \<and>
       (let m = nat (min (Bits p) (Bits q)) in m = 0 \<or> masked_addr (Addr p) m = masked_addr (Addr q) m)))"

section \<open>Numerals\<close>

definition dec_digit :: "char \<Rightarrow> nat option" where
  "dec_digit c = index_in ''0123456789'' c"

definition hex_digit_value :: "char \<Rightarrow> nat option" where
  "hex_digit_value c = (case index_in ''0123456789abcdef'' c of Some n \<Rightarrow> Some n
     | None \<Rightarrow> index_in ''0123456789ABCDEF'' c)"

definition is_hex :: "char \<Rightarrow> bool" where
  "is_hex c \<longleftrightarrow> hex_digit_value c \<noteq> None"

text \<open>\<open>strconv.Itoa\<close> and the hexadecimal numeral without leading zeros.\<close>

definition lower_digits :: string where "lower_digits = ''0123456789abcdef''"

function itoa_base :: "nat \<Rightarrow> nat \<Rightarrow> string" where
  "itoa_base b n = (if b < 2 \<or> n < b then [lower_digits ! n]
     else itoa_base b (n div b) @ [lower_digits ! (n mod b)])"
  by auto

termination by (relation "measure snd") auto

declare itoa_base.simps [simp del]

definition Itoa :: "nat \<Rightarrow> string" where
  "Itoa n = itoa_base 10 n"

definition hex_numeral :: "nat \<Rightarrow> string" where
  "hex_numeral n = itoa_base 16 n"

definition digit_values :: "(char \<Rightarrow> nat option) \<Rightarrow> string \<Rightarrow> nat list" where
  "digit_values f s = map (\<lambda>c. case f c of Some d \<Rightarrow> d | None \<Rightarrow> 0) s"

text \<open>A decimal numeral: digits only, at least one, no leading zero.\<close>

definition parse_decimal :: "string \<Rightarrow> nat option" where
  "parse_decimal s = (if s = [] \<or> (\<exists>c \<in> set s. dec_digit c = None) \<or> (length s > 1 \<and> hd s = CHR ''0'')
     then None else Some (horner 10 (digit_values dec_digit s)))"

section \<open>Text\<close>

definition string4 :: "nat list \<Rightarrow> string" where
  "string4 os = Join (CHR ''.'') (map Itoa os)"

text \<open>The first of the longest runs of at least two zero fields, or length 0.\<close>

definition zero_run :: "nat list \<Rightarrow> nat \<times> nat" where
  "zero_run fs = foldl (\<lambda>(s, l) i. let r = length (takeWhile (\<lambda>x. x = 0) (drop i fs)) in
     if 2 \<le> r \<and> l < r then (i, r) else (s, l)) (0, 0) [0..<length fs]"

definition string6 :: "nat list \<Rightarrow> string" where
  "string6 fs = (case zero_run fs of (i, l) \<Rightarrow>
     if l = 0 then Join (CHR '':'') (map hex_numeral fs)
     else Join (CHR '':'') (map hex_numeral (take i fs)) @ ''::'' @
          Join (CHR '':'') (map hex_numeral (drop (i + l) fs)))"

definition zone_suffix :: "string \<Rightarrow> string" where
  "zone_suffix z = (if z = [] then [] else CHR ''%'' # z)"

fun addr_String :: "addr \<Rightarrow> string" where
  "addr_String AddrInvalid = ''invalid IP''"
| "addr_String (V4 w) = string4 (digits 256 4 (unat w))"
| "addr_String (V6 w z) = (let fs = digits 65536 8 (unat w) in
     (if take 6 fs = [0, 0, 0, 0, 0, 65535] then ''::ffff:'' @ string4 (digits 256 4 (unat w)) else string6 fs)
     @ zone_suffix z)"

definition prefix_String :: "prefix \<Rightarrow> string" where
  "prefix_String p = (case p of NoPrefix \<Rightarrow> ''invalid Prefix''
     | Prefix a n \<Rightarrow> addr_String a @ ''/'' @ Itoa n)"

section \<open>Parsing\<close>

definition parse_octet :: "string \<Rightarrow> nat option" where
  "parse_octet s = (case parse_decimal s of Some n \<Rightarrow> if n \<le> 255 then Some n else None | None \<Rightarrow> None)"

definition parse4 :: "string \<Rightarrow> nat list option" where
  "parse4 s = (case map parse_octet (Split (CHR ''.'') s) of
     [Some a, Some b, Some c, Some d] \<Rightarrow> Some [a, b, c, d] | _ \<Rightarrow> None)"

text \<open>
  The fields of an IPv6 text: at most eight groups of one to four hexadecimal digits, one
  \<open>::\<close> at most, and an IPv4 text for the last two. The result is what is left of the text, the
  fields, and where \<open>::\<close> stood.
\<close>

fun parse6_fields :: "nat \<Rightarrow> string \<Rightarrow> nat list \<Rightarrow> nat option \<Rightarrow> (string \<times> nat list \<times> nat option) option" where
  "parse6_fields 0 s fs e = Some (s, fs, e)"
| "parse6_fields (Suc k) s fs e = (
     let ds = takeWhile is_hex s;
         rest = dropWhile is_hex s;
         fs' = fs @ [horner 16 (digit_values hex_digit_value ds)] in
     if ds = [] \<or> length ds > 4 then None
     else case rest of
       [] \<Rightarrow> Some ([], fs', e)
     | c # t \<Rightarrow>
         if c = CHR ''.'' then
           (if e = None \<and> length fs \<noteq> 6 \<or> length fs + 2 > 8 then None
            else case parse4 s of
              Some [o1, o2, o3, o4] \<Rightarrow> Some ([], fs @ [o1 * 256 + o2, o3 * 256 + o4], e)
            | _ \<Rightarrow> None)
         else if c \<noteq> CHR '':'' then None
         else (case t of
             [] \<Rightarrow> None
           | d # t' \<Rightarrow>
               if d = CHR '':'' then
                 (if e \<noteq> None then None
                  else if t' = [] then Some ([], fs', Some (length fs'))
                  else parse6_fields k t' fs' (Some (length fs')))
               else parse6_fields k t fs' e))"

definition expand6 :: "string \<times> nat list \<times> nat option \<Rightarrow> nat list option" where
  "expand6 r = (case r of (s, fs, e) \<Rightarrow>
     if s \<noteq> [] then None
     else if length fs < 8 then
       map_option (\<lambda>i. take i fs @ replicate (8 - length fs) 0 @ drop i fs) e
     else if e \<noteq> None then None else Some fs)"

definition parse6 :: "string \<Rightarrow> nat list option" where
  "parse6 s = (if take 2 s = ''::''
     then (if drop 2 s = [] then Some (replicate 8 0)
           else Option.bind (parse6_fields 8 (drop 2 s) [] (Some 0)) expand6)
     else Option.bind (parse6_fields 8 s [] None) expand6)"

text \<open>The first of these characters decides the family.\<close>

definition addr_mark :: "char \<Rightarrow> bool" where
  "addr_mark c \<longleftrightarrow> c = CHR ''.'' \<or> c = CHR '':'' \<or> c = CHR ''%''"

definition ParseAddr :: "string \<Rightarrow> addr option" where
  "ParseAddr s = (case find addr_mark s of
     None \<Rightarrow> None
   | Some c \<Rightarrow>
       if c = CHR ''.'' then map_option (\<lambda>os. V4 (word_of_nat (horner 256 os))) (parse4 s)
       else if c = CHR ''%'' then None
       else (case Cut s (CHR ''%'') of (t, z, found) \<Rightarrow>
          if found \<and> z = [] then None
          else map_option (\<lambda>fs. V6 (word_of_nat (horner 65536 fs)) z) (parse6 t)))"

definition ParsePrefix :: "string \<Rightarrow> prefix option" where
  "ParsePrefix s = (if CHR ''/'' \<notin> set s then None else
     let bits = rev (takeWhile (\<lambda>c. c \<noteq> CHR ''/'') (rev s));
         ip = take (length s - length bits - 1) s in
     case ParseAddr ip of
       None \<Rightarrow> None
     | Some a \<Rightarrow> if Zone a \<noteq> [] then None else
         (case parse_decimal bits of
            None \<Rightarrow> None
          | Some n \<Rightarrow> if n \<le> BitLen a then Some (PrefixFrom a n) else None))"

section \<open>Numerals read back\<close>

lemma itoa_base_facts:
  assumes "2 \<le> b" "b \<le> 16" "\<And>d. d < b \<Longrightarrow> f (lower_digits ! d) = Some d"
  shows "itoa_base b n \<noteq> [] \<and> (\<forall>c \<in> set (itoa_base b n). f c \<noteq> None) \<and>
    horner b (digit_values f (itoa_base b n)) = n \<and>
    (0 < n \<longrightarrow> f (hd (itoa_base b n)) \<noteq> Some 0) \<and>
    (n = 0 \<longrightarrow> length (itoa_base b n) = 1)"
proof (induction n rule: less_induct)
  case (less n)
  show ?case
  proof (cases "n < b")
    case True
    then show ?thesis using assms by (auto simp: itoa_base.simps [of b] digit_values_def horner_def)
  next
    case False
    have "n div b < n" "0 < n div b" using False assms(1) by (auto simp: div_greater_zero_iff)
    moreover have "n mod b < b" using assms(1) by simp
    ultimately show ?thesis using less.IH [of "n div b"] False assms(1) assms(3) [of "n mod b"]
      by (simp add: itoa_base.simps [of b n] digit_values_def)
  qed
qed

lemma length_itoa_base: "2 \<le> b \<Longrightarrow> n < b ^ Suc k \<Longrightarrow> length (itoa_base b n) \<le> Suc k"
proof (induction k arbitrary: n)
  case (Suc k)
  have "n div b < b ^ Suc k" using Suc.prems by (simp add: div_less_iff_less_mult mult.commute)
  with Suc.IH [of "n div b"] Suc.prems show ?case by (simp add: itoa_base.simps [of b n])
qed (simp add: itoa_base.simps)

lemma dec_digit_nth: "d < 10 \<Longrightarrow> dec_digit (lower_digits ! d) = Some d"
proof -
  assume "d < 10"
  then have "d \<in> {0,1,2,3,4,5,6,7,8,9}" by auto
  then show ?thesis by (auto simp: dec_digit_def lower_digits_def)
qed

lemma hex_digit_nth: "d < 16 \<Longrightarrow> hex_digit_value (lower_digits ! d) = Some d"
proof -
  assume "d < 16"
  then have "index_in ''0123456789abcdef'' (''0123456789abcdef'' ! d) = Some d"
    by (intro index_in_nth) simp_all
  then show ?thesis by (simp add: hex_digit_value_def lower_digits_def)
qed

lemma hex_digit_chars: "\<not> is_hex CHR '':''" "\<not> is_hex CHR ''.''" "\<not> is_hex CHR ''%''" "dec_digit CHR ''.'' = None" "dec_digit CHR '':'' = None"
  "dec_digit CHR ''%'' = None" "dec_digit CHR ''/'' = None" "dec_digit CHR ''0'' = Some 0"
  by (simp_all add: is_hex_def hex_digit_value_def dec_digit_def)

lemma Itoa_facts: "Itoa n \<noteq> [] \<and> (\<forall>c \<in> set (Itoa n). dec_digit c \<noteq> None) \<and>
    horner 10 (digit_values dec_digit (Itoa n)) = n \<and>
    (0 < n \<longrightarrow> dec_digit (hd (Itoa n)) \<noteq> Some 0) \<and> (n = 0 \<longrightarrow> length (Itoa n) = 1)"
  unfolding Itoa_def by (rule itoa_base_facts) (simp_all add: dec_digit_nth)

lemma hex_facts: "hex_numeral n \<noteq> [] \<and> (\<forall>c \<in> set (hex_numeral n). is_hex c) \<and>
    horner 16 (digit_values hex_digit_value (hex_numeral n)) = n"
  unfolding hex_numeral_def using itoa_base_facts [of 16 hex_digit_value n]
  by (simp add: hex_digit_nth is_hex_def)

lemma parse_decimal_Itoa: "parse_decimal (Itoa n) = Some n"
proof -
  have "\<not> (length (Itoa n) > 1 \<and> hd (Itoa n) = CHR ''0'')"
    using Itoa_facts [of n] hex_digit_chars(8) by (cases "n = 0") auto
  then show ?thesis using Itoa_facts [of n] by (simp add: parse_decimal_def)
qed

lemma length4: "length os = 4 \<Longrightarrow> \<exists>a b c d. os = [a, b, c, d]"
  by (auto simp: length_Suc_conv eval_nat_numeral)

lemma parse_octet_Itoa: "n < 256 \<Longrightarrow> parse_octet (Itoa n) = Some n"
  by (simp add: parse_octet_def parse_decimal_Itoa)

lemma parse4_string4:
  assumes "length os = 4" "\<forall>x \<in> set os. x < 256"
  shows "parse4 (string4 os) = Some os"
proof -
  have "CHR ''.'' \<notin> set (Itoa n)" for n using Itoa_facts [of n] hex_digit_chars(4) by metis
  then have "Split (CHR ''.'') (string4 os) = map Itoa os"
    unfolding string4_def using assms by (intro Split_Join) auto
  moreover obtain a b c d where "os = [a, b, c, d]"
    using length4 [OF assms(1)] by blast
  ultimately show ?thesis using assms(2) by (simp add: parse4_def parse_octet_Itoa)
qed

section \<open>IPv6 text\<close>

lemma hex_numeral_takeWhile:
  assumes "rest = [] \<or> \<not> is_hex (hd rest)"
  shows "takeWhile is_hex (hex_numeral x @ rest) = hex_numeral x"
    "dropWhile is_hex (hex_numeral x @ rest) = rest"
  using hex_facts [of x] assms by (cases rest; auto simp: takeWhile_append2 dropWhile_append2)+

lemma hex_numeral_colon:
  "takeWhile is_hex (hex_numeral x @ CHR '':'' # t) = hex_numeral x"
  "dropWhile is_hex (hex_numeral x @ CHR '':'' # t) = CHR '':'' # t"
  by (rule hex_numeral_takeWhile, simp add: hex_digit_chars)+

lemma length_hex_numeral: "x < 65536 \<Longrightarrow> length (hex_numeral x) \<le> 4"
  using length_itoa_base [of 16 x 3] by (simp add: hex_numeral_def)

lemma parse6_step:
  assumes "x < 65536"
  shows "parse6_fields (Suc k) (hex_numeral x) fs e = Some ([], fs @ [x], e)"
    "t \<noteq> [] \<Longrightarrow> hd t \<noteq> CHR '':'' \<Longrightarrow>
       parse6_fields (Suc k) (hex_numeral x @ CHR '':'' # t) fs e = parse6_fields k t (fs @ [x]) e"
    "parse6_fields (Suc k) (hex_numeral x @ CHR '':'' # CHR '':'' # t) fs None =
       (if t = [] then Some ([], fs @ [x], Some (Suc (length fs)))
        else parse6_fields k t (fs @ [x]) (Some (Suc (length fs))))"
proof -
  note h = hex_facts [of x] length_hex_numeral [OF assms]
  show "parse6_fields (Suc k) (hex_numeral x) fs e = Some ([], fs @ [x], e)"
    unfolding parse6_fields.simps Let_def hex_numeral_takeWhile [of "[]" x, unfolded append_Nil2, OF disjI1, OF refl]
    using h by auto
  show "parse6_fields (Suc k) (hex_numeral x @ CHR '':'' # t) fs e = parse6_fields k t (fs @ [x]) e"
    if "t \<noteq> []" "hd t \<noteq> CHR '':''"
    unfolding parse6_fields.simps Let_def hex_numeral_colon
    using that h by (cases t) auto
  show "parse6_fields (Suc k) (hex_numeral x @ CHR '':'' # CHR '':'' # t) fs None =
       (if t = [] then Some ([], fs @ [x], Some (Suc (length fs)))
        else parse6_fields k t (fs @ [x]) (Some (Suc (length fs))))"
    unfolding parse6_fields.simps Let_def
      hex_numeral_colon
    using h by auto
qed

lemma hd_hex_numeral: "hex_numeral x @ t \<noteq> [] \<and> hd (hex_numeral x @ t) \<noteq> CHR '':''"
  using hex_facts [of x] hex_digit_chars(1) by (cases "hex_numeral x") auto

lemma Join_hex_hd: "B \<noteq> [] \<Longrightarrow> Join (CHR '':'') (map hex_numeral B) @ t \<noteq> [] \<and>
    hd (Join (CHR '':'') (map hex_numeral B) @ t) \<noteq> CHR '':''"
  using hd_hex_numeral [of "hd B" "[]"] by (cases B rule: list.exhaust; cases "tl B") (auto simp: hd_append)

lemma parse6_tail:
  "B \<noteq> [] \<Longrightarrow> length B \<le> k \<Longrightarrow> \<forall>x \<in> set B. x < 65536 \<Longrightarrow>
    parse6_fields k (Join (CHR '':'') (map hex_numeral B)) fs e = Some ([], fs @ B, e)"
proof (induction B arbitrary: k fs)
  case (Cons x B)
  then obtain j where k: "k = Suc j" by (cases k) auto
  show ?case
  proof (cases B)
    case Nil
    with Cons k show ?thesis using parse6_step(1) [of x j fs e] by simp
  next
    case (Cons y ys)
    with Cons.prems Cons.IH [of j "fs @ [x]"] k parse6_step(2) [of x _ j fs e] Join_hex_hd [of B "[]"]
    show ?thesis by simp
  qed
qed simp

lemma parse6_head:
  "A \<noteq> [] \<Longrightarrow> length A \<le> k \<Longrightarrow> \<forall>x \<in> set A. x < 65536 \<Longrightarrow>
    parse6_fields k (Join (CHR '':'') (map hex_numeral A) @ CHR '':'' # CHR '':'' # t) fs None =
      (if t = [] then Some ([], fs @ A, Some (length (fs @ A)))
       else parse6_fields (k - length A) t (fs @ A) (Some (length (fs @ A))))"
proof (induction A arbitrary: k fs)
  case (Cons x A)
  then obtain j where k: "k = Suc j" by (cases k) auto
  show ?case
  proof (cases A)
    case Nil
    with Cons k show ?thesis using parse6_step(3) [of x j t fs] by simp
  next
    case (Cons y ys)
    with Cons.prems Cons.IH [of j "fs @ [x]"] k parse6_step(2) [of x _ j fs None]
      Join_hex_hd [of A "CHR '':'' # CHR '':'' # t"]
    show ?thesis by simp
  qed
qed simp

definition run_ok :: "nat list \<Rightarrow> nat \<times> nat \<Rightarrow> bool" where
  "run_ok fs r = (case r of (i, l) \<Rightarrow> l = 0 \<or>
     2 \<le> l \<and> i + l \<le> length fs \<and> take l (drop i fs) = replicate l 0)"

lemma takeWhile_zeros: "take (length (takeWhile (\<lambda>x. x = 0) xs)) xs = replicate (length (takeWhile (\<lambda>x. x = (0::nat)) xs)) 0"
  by (induction xs) auto

lemma zero_run_ok: "run_ok fs (zero_run fs)"
proof -
  have "\<forall>i \<in> set is. i < length fs \<Longrightarrow> run_ok fs r \<Longrightarrow>
    run_ok fs (foldl (\<lambda>(s, l) i. let r = length (takeWhile (\<lambda>x. x = 0) (drop i fs)) in
     if 2 \<le> r \<and> l < r then (i, r) else (s, l)) r is)" for r "is"
  proof (induction "is" arbitrary: r)
    case (Cons i "is")
    have "length (takeWhile (\<lambda>x. x = 0) (drop i fs)) \<le> length (drop i fs)" by (rule length_takeWhile_le)
    then have "run_ok fs ((\<lambda>(s, l) i. let r = length (takeWhile (\<lambda>x. x = 0) (drop i fs)) in
     if 2 \<le> r \<and> l < r then (i, r) else (s, l)) r i)"
      using Cons.prems takeWhile_zeros [of "drop i fs"] by (auto simp: run_ok_def Let_def split: prod.splits)
    with Cons show ?case by simp
  qed simp
  moreover have "run_ok fs (0, 0)" by (simp add: run_ok_def)
  ultimately show ?thesis unfolding zero_run_def by simp
qed

lemma string6_chars: "c \<in> set (string6 fs) \<Longrightarrow> c = CHR '':'' \<or> is_hex c"
proof -
  have J: "c \<in> set (Join (CHR '':'') (map hex_numeral xs)) \<Longrightarrow> c = CHR '':'' \<or> is_hex c" for xs
    using hex_facts by (induction xs rule: induct_list012) auto
  assume "c \<in> set (string6 fs)"
  then show ?thesis using J by (auto simp: string6_def split: prod.splits if_splits)
qed

lemma string6_colon: "2 \<le> length fs \<Longrightarrow> CHR '':'' \<in> set (string6 fs)"
proof -
  assume "2 \<le> length fs"
  then obtain x y ys where "fs = x # y # ys" by (cases fs; cases "tl fs") auto
  then show ?thesis by (cases "zero_run fs") (auto simp: string6_def)
qed

lemma parse6_string6:
  assumes "length fs = 8" "\<forall>x \<in> set fs. x < 65536"
  shows "parse6 (string6 fs) = Some fs"
proof -
  obtain i l where r: "zero_run fs = (i, l)" by fastforce
  note ok = zero_run_ok [of fs, unfolded r run_ok_def, simplified]
  have sub: "\<forall>x \<in> set (take i fs). x < 65536" "\<forall>x \<in> set (drop (i + l) fs). x < 65536"
    using assms(2) in_set_takeD in_set_dropD by fastforce+
  consider "l = 0" | (front) "l \<noteq> 0" "i = 0" | (inner) "l \<noteq> 0" "i \<noteq> 0" by blast
  then show ?thesis
  proof cases
    case 1
    then have s: "string6 fs = Join (CHR '':'') (map hex_numeral fs)" using r by (simp add: string6_def)
    have "take 2 (string6 fs) \<noteq> ''::''"
    proof
      assume "take 2 (string6 fs) = ''::''"
      then have "hd (string6 fs) = CHR '':''" by (cases "string6 fs") simp_all
      moreover have "fs \<noteq> []" using assms(1) by auto
      ultimately show False using Join_hex_hd [of fs "[]"] s by auto
    qed
    moreover have "fs \<noteq> []" using assms(1) by auto
    ultimately show ?thesis using s parse6_tail [of fs 8 "[]" None] assms by (auto simp: parse6_def expand6_def)
  next
    case front
    let ?B = "drop l fs"
    have s: "string6 fs = ''::'' @ Join (CHR '':'') (map hex_numeral ?B)" using r front by (simp add: string6_def)
    have fs: "fs = replicate l 0 @ ?B" using ok front append_take_drop_id [of l fs] by simp
    have l: "l \<le> 8" using ok front assms by simp
    show ?thesis
    proof (cases "?B = []")
      case True
      with s fs l assms show ?thesis by (simp add: parse6_def)
    next
      case False
      then have "parse6 (string6 fs) = expand6 ([], ?B, Some 0)"
        using s front parse6_tail [OF False, of 8 "[]" "Some 0"] sub Join_hex_hd [OF False, of "[]"] assms
        by (auto simp: parse6_def)
      also have "\<dots> = Some fs" using front l assms fs ok False by (auto simp: expand6_def)
      finally show ?thesis .
    qed
  next
    case inner
    let ?A = "take i fs" and ?B = "drop (i + l) fs"
    have s: "string6 fs = Join (CHR '':'') (map hex_numeral ?A) @ CHR '':'' # CHR '':'' # Join (CHR '':'') (map hex_numeral ?B)"
      using r inner by (simp add: string6_def)
    have A: "?A \<noteq> []" "length ?A = i" "length ?A \<le> 8" using inner ok assms by auto
    have fs: "fs = ?A @ replicate l 0 @ ?B"
      using ok inner append_take_drop_id [of i fs] append_take_drop_id [of l "drop i fs"] by (simp add: add.commute)
    have "take 2 (string6 fs) \<noteq> ''::''"
    proof
      assume "take 2 (string6 fs) = ''::''"
      then have "hd (string6 fs) = CHR '':''" by (cases "string6 fs") simp_all
      with Join_hex_hd [OF A(1)] s show False by metis
    qed
    then have p: "parse6 (string6 fs) = Option.bind (parse6_fields 8 (string6 fs) [] None) expand6"
      by (simp add: parse6_def)
    have "parse6_fields 8 (string6 fs) [] None = Some ([], ?A @ ?B, Some i)"
    proof (cases "?B = []")
      case True
      with s parse6_head [OF A(1,3) sub(1), of "Join (CHR '':'') (map hex_numeral ?B)" "[]"] A(2)
      show ?thesis by simp
    next
      case False
      have "length ?B \<le> 8 - length ?A" using A assms ok inner by simp
      then show ?thesis
        using s parse6_head [OF A(1,3) sub(1), of "Join (CHR '':'') (map hex_numeral ?B)" "[]"] A(2)
          parse6_tail [OF False _ sub(2), of "8 - length ?A" "?A" "Some i"] Join_hex_hd [OF False, of "[]"]
        by simp
    qed
    moreover have "expand6 ([], ?A @ ?B, Some i) = Some fs"
    proof -
      have "length (?A @ ?B) < 8" "8 - length (?A @ ?B) = l" using ok inner assms A by simp_all
      then show ?thesis using fs A(2) by (simp add: expand6_def)
    qed
    ultimately show ?thesis using p by simp
  qed
qed

lemma dec_is_hex: "dec_digit c \<noteq> None \<Longrightarrow> is_hex c"
  by (auto simp: dec_digit_def is_hex_def hex_digit_value_def split: option.splits if_splits)

lemma length_Itoa: "n < 256 \<Longrightarrow> length (Itoa n) \<le> 3"
  using length_itoa_base [of 10 n 2] by (simp add: Itoa_def)

lemma parse6_mapped:
  assumes "length os = 4" "\<forall>x \<in> set os. x < 256"
  shows "parse6 (''::ffff:'' @ string4 os) =
    Some [0, 0, 0, 0, 0, 65535, os ! 0 * 256 + os ! 1, os ! 2 * 256 + os ! 3]"
proof -
  obtain a b c d where os: "os = [a, b, c, d]"
    using length4 [OF assms(1)] by blast
  obtain t where s: "string4 os = Itoa a @ CHR ''.'' # t" by (simp add: string4_def os)
  have hx: "\<forall>x \<in> set (Itoa a). is_hex x" using Itoa_facts [of a] dec_is_hex by blast
  have tw: "takeWhile is_hex (string4 os) = Itoa a" "dropWhile is_hex (string4 os) = CHR ''.'' # t"
    unfolding s using hx hex_digit_chars by (simp_all add: takeWhile_append2 dropWhile_append2)
  have "Itoa a \<noteq> []" "\<not> length (Itoa a) > 4" using Itoa_facts [of a] length_Itoa [of a] assms os by auto
  then have step: "parse6_fields (Suc k) (string4 os) [65535] (Some 0) =
      Some ([], [65535, a * 256 + b, c * 256 + d], Some 0)" for k
    unfolding parse6_fields.simps Let_def tw using parse4_string4 [OF assms] os by simp
  have ne: "string4 os \<noteq> []" "hd (string4 os) \<noteq> CHR '':''"
    using Itoa_facts [of a] hx hex_digit_chars(1) unfolding s by (cases "Itoa a"; auto)+
  have ffff: "hex_numeral 65535 = ''ffff''" by (simp add: hex_numeral_def itoa_base.simps lower_digits_def)
  have "parse6_fields 8 (''ffff:'' @ string4 os) [] (Some 0) =
      Some ([], [65535, a * 256 + b, c * 256 + d], Some 0)"
    using parse6_step(2) [of 65535 "string4 os" 7 "[]" "Some 0", OF _ ne] step [of 6]
    by (simp add: ffff)
  moreover have "replicate 5 (0::nat) = [0, 0, 0, 0, 0]" by (simp add: numeral_eq_Suc)
  ultimately show ?thesis by (simp add: parse6_def expand6_def os)
qed

lemma digits_halves:
  "v div 256 ^ Suc k mod 256 * 256 + v div 256 ^ k mod 256 = v div 256 ^ k mod (65536::nat)"
  using mod_mult2_eq [of "v div 256 ^ k" 256 256] div_mult2_eq [of v "256 ^ k" 256]
  by (simp add: mult.commute)

lemma unat32_less: "unat (w :: 32 word) < 4294967296"
proof -
  have "unat w < 2 ^ LENGTH(32)" by (rule unsigned_less)
  then show ?thesis by simp
qed

lemma unat128_less: "unat (w :: 128 word) < 340282366920938463463374607431768211456"
proof -
  have "unat w < 2 ^ LENGTH(128)" by (rule unsigned_less)
  then show ?thesis by simp
qed

lemma find_skip: "\<forall>c \<in> set xs. \<not> P c \<Longrightarrow> find P (xs @ y # ys) = (if P y then Some y else find P ys)"
  by (induction xs) auto

lemma find_append_found: "find P xs = Some c \<Longrightarrow> find P (xs @ ys) = Some c"
  by (induction xs) (auto split: if_splits)

text \<open>Parsing the text of an address gives the address.\<close>

lemma ParseAddr_V4: "ParseAddr (addr_String (V4 w)) = Some (V4 w)"
proof -
  let ?os = "digits 256 4 (unat w)"
  have os: "length ?os = 4" "\<forall>x \<in> set ?os. x < 256" using digits_less [of 256] by auto
  obtain a b c d where abcd: "?os = [a, b, c, d]"
    using length4 [OF os(1)] by blast
  obtain t where s: "string4 ?os = Itoa a @ CHR ''.'' # t" by (simp add: string4_def abcd)
  have "\<forall>c \<in> set (Itoa a). \<not> addr_mark c"
    using Itoa_facts [of a] hex_digit_chars unfolding addr_mark_def by metis
  then have "find addr_mark (string4 ?os) = Some (CHR ''.'')"
    unfolding s by (simp add: find_skip addr_mark_def [of "CHR ''.''"])
  moreover have "word_of_nat (horner 256 ?os) = w"
    using unat32_less [of w] by (simp add: horner_digits)
  ultimately show ?thesis by (simp add: ParseAddr_def parse4_string4 [OF os])
qed

lemma ParseAddr_text6:
  assumes "\<forall>c \<in> set t. c = CHR '':'' \<or> c = CHR ''.'' \<or> is_hex c" "find addr_mark t = Some (CHR '':'')"
  shows "ParseAddr (t @ zone_suffix z) = map_option (\<lambda>fs. V6 (word_of_nat (horner 65536 fs)) z) (parse6 t)"
proof -
  have pct: "CHR ''%'' \<notin> set t" using assms(1) hex_digit_chars by fastforce
  have "Cut (t @ zone_suffix z) (CHR ''%'') = (t, z, z \<noteq> [])"
    using Cut_append [OF pct, of z] pct by (cases "z = []") (simp_all add: zone_suffix_def Cut_def)
  then show ?thesis by (simp add: ParseAddr_def find_append_found [OF assms(2)])
qed

lemma find_mark_string6:
  assumes "2 \<le> length fs" shows "find addr_mark (string6 fs) = Some (CHR '':'')"
proof -
  have "\<forall>c \<in> set (string6 fs). addr_mark c \<longleftrightarrow> c = CHR '':''"
    using string6_chars hex_digit_chars unfolding addr_mark_def by metis
  moreover have "\<exists>c \<in> set (string6 fs). addr_mark c" using string6_colon [OF assms] by (auto simp: addr_mark_def)
  ultimately show ?thesis by (metis find_None_iff find_SomeD option.exhaust)
qed

lemma string4_chars: "c \<in> set (string4 os) \<Longrightarrow> c = CHR ''.'' \<or> is_hex c"
proof -
  have "c \<in> set (Join (CHR ''.'') (map Itoa xs)) \<Longrightarrow> c = CHR ''.'' \<or> is_hex c" for xs
    using Itoa_facts dec_is_hex by (induction xs rule: induct_list012) auto
  then show "c \<in> set (string4 os) \<Longrightarrow> ?thesis" by (simp add: string4_def)
qed

lemma ParseAddr_V6: "ParseAddr (addr_String (V6 w z)) = Some (V6 w z)"
proof -
  let ?fs = "digits 65536 8 (unat w)" and ?os = "digits 256 4 (unat w)"
  have fs: "length ?fs = 8" "\<forall>x \<in> set ?fs. x < 65536" using digits_less [of 65536] by auto
  have w: "word_of_nat (horner 65536 ?fs) = w"
    using unat128_less [of w] by (simp add: horner_digits)
  show ?thesis
  proof (cases "take 6 ?fs = [0, 0, 0, 0, 0, 65535]")
    case False
    then have "addr_String (V6 w z) = string6 ?fs @ zone_suffix z" by (simp add: Let_def)
    moreover have "\<forall>c \<in> set (string6 ?fs). c = CHR '':'' \<or> c = CHR ''.'' \<or> is_hex c"
      using string6_chars by blast
    ultimately show ?thesis using ParseAddr_text6 find_mark_string6 fs w by (simp add: parse6_string6 [OF fs])
  next
    case True
    let ?t = "''::ffff:'' @ string4 ?os"
    have os: "length ?os = 4" "\<forall>x \<in> set ?os. x < 256" using digits_less [of 256] by auto
    have c: "\<forall>c \<in> set ?t. c = CHR '':'' \<or> c = CHR ''.'' \<or> is_hex c"
      using string4_chars by (auto simp: is_hex_def hex_digit_value_def)
    have s: "addr_String (V6 w z) = ?t @ zone_suffix z" using True by (simp add: Let_def)
    have m: "find addr_mark ?t = Some (CHR '':'')" by (simp add: addr_mark_def)
    have "?fs = take 6 ?fs @ drop 6 ?fs" by (rule append_take_drop_id [symmetric])
    moreover have "drop 6 ?fs = [?os ! 0 * 256 + ?os ! 1, ?os ! 2 * 256 + ?os ! 3]"
      using digits_halves [of "unat w" 2] digits_halves [of "unat w" 0]
      by (simp add: digits_def upt_rec)
    ultimately have "?fs = [0, 0, 0, 0, 0, 65535, ?os ! 0 * 256 + ?os ! 1, ?os ! 2 * 256 + ?os ! 3]"
      using True by (metis append_Cons append_Nil)
    with parse6_mapped [OF os] w show ?thesis unfolding s ParseAddr_text6 [OF c m] by simp
  qed
qed

lemma ParseAddr_String: "IsValid a \<Longrightarrow> ParseAddr (addr_String a) = Some a"
  by (cases a) (simp_all only: ParseAddr_V4 ParseAddr_V6 IsValid.simps)

lemma addr_String_inj: "IsValid a \<Longrightarrow> IsValid b \<Longrightarrow> addr_String a = addr_String b \<longleftrightarrow> a = b"
  by (metis ParseAddr_String option.inject)

section \<open>A prefix is a range of addresses\<close>

text \<open>The number of addresses of a prefix, and the lowest one as a number.\<close>

fun prefix_size :: "prefix \<Rightarrow> nat" where
  "prefix_size NoPrefix = 0" | "prefix_size (Prefix a n) = 2 ^ (BitLen a - n)"

definition prefix_base :: "prefix \<Rightarrow> nat" where
  "prefix_base p = addr_nat (Addr (Masked p))"

text \<open>The address of a prefix's family with a given value.\<close>

fun addr_like :: "addr \<Rightarrow> nat \<Rightarrow> addr" where
  "addr_like AddrInvalid k = AddrInvalid"
| "addr_like (V4 _) k = V4 (word_of_nat k)"
| "addr_like (V6 _ _) k = V6 (word_of_nat k) []"

lemma unat_drop_bit_div: "unat (drop_bit k (w :: 'a::len word)) = unat w div 2 ^ k"
proof -
  have "take_bit LENGTH('a) (unat w) = unat w" by (simp add: take_bit_nat_eq_self unsigned_less)
  then show ?thesis unfolding unsigned_drop_bit_eq by (simp add: drop_bit_eq_div [of _ "_ :: nat"])
qed

lemma unat_masked: "unat (push_bit k (drop_bit k (w :: 'a::len word))) = unat w div 2 ^ k * 2 ^ k"
proof -
  have "unat w div 2 ^ k * 2 ^ k \<le> unat w" by simp
  also have "\<dots> < 2 ^ LENGTH('a)" by (rule unsigned_less)
  finally have "unat w div 2 ^ k * 2 ^ k < 2 ^ LENGTH('a)" .
  then show ?thesis
    unfolding unsigned_push_bit_eq unat_drop_bit_div
    by (simp add: push_bit_eq_mult [of _ "_ :: nat"] take_bit_eq_mod [of _ "_ :: nat"])
qed

lemma xor_zero_iff: "x XOR y = 0 \<longleftrightarrow> x = (y :: 'a::len word)"
proof
  assume "x XOR y = 0"
  moreover have "x = (x XOR y) XOR y" by (simp only: xor.assoc xor_self_eq xor.right_neutral)
  ultimately show "x = y" by simp
qed simp

lemma drop_bit_xor_zero:
  "drop_bit k a XOR drop_bit k b = 0 \<longleftrightarrow> unat (a :: 'a::len word) div 2 ^ k = unat b div 2 ^ k"
proof -
  have "drop_bit k a = drop_bit k b \<longleftrightarrow> unat (drop_bit k a) = unat (drop_bit k b)"
    by (simp add: word_unat_eq_iff)
  then show ?thesis
    unfolding xor_zero_iff unat_drop_bit_div .
qed

lemma same_block: "x div m = y div m \<longleftrightarrow> y div m * m \<le> x \<and> x < y div m * m + m" if "0 < m" for x y m :: nat
proof -
  have "y div m * m \<le> x \<and> x < y div m * m + m \<longleftrightarrow> y div m \<le> x div m \<and> x div m < Suc (y div m)"
    using that by (simp add: less_eq_div_iff_mult_less_eq div_less_iff_less_mult add.commute)
  then show ?thesis by linarith
qed

lemma Contains_iff:
  assumes "prefix_IsValid p"
  shows "Contains p a \<longleftrightarrow> BitLen a = BitLen (Addr p) \<and> Zone a = [] \<and>
    prefix_base p \<le> addr_nat a \<and> addr_nat a < prefix_base p + prefix_size p"
proof (cases p)
  case (Prefix b n)
  have "0 < (2::nat) ^ k" for k by simp
  with Prefix assms show ?thesis
    by (cases b; cases a)
       (simp_all add: prefix_base_def drop_bit_xor_zero unat_masked same_block)
qed (use assms in simp)

lemma Contains_div:
  assumes "prefix_IsValid p"
  shows "Contains p a \<longleftrightarrow> BitLen a = BitLen (Addr p) \<and> Zone a = [] \<and>
    addr_nat a div prefix_size p = addr_nat (Addr p) div prefix_size p"
  using assms by (cases p; cases "Addr p"; cases a) (simp_all add: drop_bit_xor_zero)

lemma masked_addr_eq_iff:
  "IsValid a \<Longrightarrow> BitLen a = BitLen b \<Longrightarrow> masked_addr a m = masked_addr b m \<longleftrightarrow>
     addr_nat a div 2 ^ (BitLen a - m) = addr_nat b div 2 ^ (BitLen a - m)"
  by (cases a; cases b) (auto simp: word_unat_eq_iff unat_masked)

lemma div_pow_coarser: "x div 2 ^ k = y div 2 ^ k \<Longrightarrow> k \<le> j \<Longrightarrow> x div 2 ^ j = y div (2::nat) ^ j"
  by (metis div_mult2_eq le_add_diff_inverse power_add)

lemma addr_nat_less: "addr_nat a < 2 ^ BitLen a"
  using unat32_less unat128_less by (cases a) auto

text \<open>Two valid prefixes overlap exactly when an address is in both.\<close>

lemma Overlaps_iff:
  assumes p: "prefix_IsValid p" and q: "prefix_IsValid q"
  shows "Overlaps p q \<longleftrightarrow> (\<exists>a. Contains p a \<and> Contains q a)"
proof -
  obtain a n b m where pq: "p = Prefix a n" "q = Prefix b m" using p q by (cases p; cases q) auto
  have v: "IsValid a" "IsValid b" "n \<le> BitLen a" "m \<le> BitLen b" "Zone a = []" "Zone b = []"
    using p q pq by auto
  let ?k = "BitLen a - min n m"
  have ov: "Overlaps p q \<longleftrightarrow> BitLen a = BitLen b \<and> addr_nat a div 2 ^ ?k = addr_nat b div 2 ^ ?k"
    using p q pq v addr_nat_less [of a] addr_nat_less [of b]
    by (auto simp: Overlaps_def Let_def masked_addr_eq_iff min_def)
  have ct: "Contains p c \<and> Contains q c \<longleftrightarrow> BitLen c = BitLen a \<and> BitLen a = BitLen b \<and> Zone c = [] \<and>
     addr_nat c div 2 ^ (BitLen a - n) = addr_nat a div 2 ^ (BitLen a - n) \<and>
     addr_nat c div 2 ^ (BitLen b - m) = addr_nat b div 2 ^ (BitLen b - m)" for c
    unfolding Contains_div [OF p] Contains_div [OF q] using pq by auto
  show ?thesis
  proof
    assume "Overlaps p q"
    with ov have o: "BitLen a = BitLen b" "addr_nat a div 2 ^ ?k = addr_nat b div 2 ^ ?k" by auto
    show "\<exists>c. Contains p c \<and> Contains q c"
    proof (cases "n \<le> m")
      case True
      then have "Contains p b \<and> Contains q b" unfolding ct using o v by (simp add: min_def)
      then show ?thesis ..
    next
      case False
      then have "Contains p a \<and> Contains q a" unfolding ct using o v by (simp add: min_def)
      then show ?thesis ..
    qed
  next
    assume "\<exists>c. Contains p c \<and> Contains q c"
    then obtain c where "BitLen a = BitLen b"
      "addr_nat c div 2 ^ (BitLen a - n) = addr_nat a div 2 ^ (BitLen a - n)"
      "addr_nat c div 2 ^ (BitLen a - m) = addr_nat b div 2 ^ (BitLen a - m)"
      unfolding ct by auto
    moreover have "BitLen a - n \<le> ?k" "BitLen a - m \<le> ?k" by auto
    ultimately show "Overlaps p q" unfolding ov using div_pow_coarser by metis
  qed
qed

text \<open>Walking up from an address with \<open>Next\<close>.\<close>

lemma unat_plus_one: "w \<noteq> - 1 \<Longrightarrow> unat (w + 1) = Suc (unat (w :: 'a::len word))"
  by (metis add.commute eq_neg_iff_add_eq_0 unatSuc)

lemma Next_valid: "IsValid (Next a) \<Longrightarrow> IsValid a \<and> addr_nat (Next a) = Suc (addr_nat a) \<and>
    BitLen (Next a) = BitLen a \<and> Zone (Next a) = Zone a"
  by (cases a) (auto split: if_splits simp: unat_plus_one)

lemma addr_eqI: "BitLen a = BitLen b \<Longrightarrow> Zone a = Zone b \<Longrightarrow> addr_nat a = addr_nat b \<Longrightarrow> a = b"
  by (cases a; cases b) (auto simp: word_unat_eq_iff)

lemma addr_like_facts: "IsValid a \<Longrightarrow> k < 2 ^ BitLen a \<Longrightarrow>
    BitLen (addr_like a k) = BitLen a \<and> Zone (addr_like a k) = [] \<and> addr_nat (addr_like a k) = k"
  by (cases a) (simp_all add: unat_of_nat)

lemma IsValid_BitLen: "IsValid a \<longleftrightarrow> BitLen a \<noteq> 0"
  by (cases a) auto

lemma Is4_BitLen: "Is4 a \<longleftrightarrow> BitLen a = 32"
  by (cases a) auto


text \<open>\<open>netip.Addr.Compare\<close>: by family, then by value, then by zone.\<close>

instantiation addr :: linorder
begin

definition less_eq_addr :: "addr \<Rightarrow> addr \<Rightarrow> bool" where
  "less_eq_addr a b \<longleftrightarrow> BitLen a < BitLen b \<or> BitLen a = BitLen b \<and>
     (addr_nat a < addr_nat b \<or> addr_nat a = addr_nat b \<and> Zone a \<le> Zone b)"

definition less_addr :: "addr \<Rightarrow> addr \<Rightarrow> bool" where
  "less_addr a b \<longleftrightarrow> a \<le> b \<and> \<not> b \<le> a" for a b :: addr

instance
proof
  show "a \<le> b \<Longrightarrow> b \<le> a \<Longrightarrow> a = b" for a b :: addr
    by (rule addr_eqI) (auto simp: less_eq_addr_def)
qed (auto simp: less_eq_addr_def less_addr_def)

end

end
