(* ===== verification/Server_Config.thy ===== *)
theory Server_Config
  imports Netip
begin

text \<open>
  Package \<open>config\<close> (\<open>internal/config/config.go\<close>) and the two name parsers of
  \<open>internal/logging/logging.go\<close> it calls: the schema of the server's configuration, its
  defaults, and validation, which reports every problem it finds. A validator returns
  \<open>error option\<close>, \<open>None\<close> being Go's \<open>nil\<close>. Texts of errors keep the words that are fixed in
  the source and omit the values formatted into them.

  Two things are parameters: \<open>lc\<close>, the Unicode lower-case table outside ASCII, and
  \<open>parse_url\<close>, which gives the scheme and the host of what \<open>url.Parse\<close> accepts.
\<close>

section \<open>Joined errors\<close>

definition errors_Join :: "error list \<Rightarrow> error option" where
  "errors_Join es = (if es = [] then None else Some (ErrWrap [] es))"

definition check_that :: "bool \<Rightarrow> string \<Rightarrow> error list" where
  "check_that bad msg = (if bad then [ErrNew msg] else [])"

lemma errors_Join_None [simp]: "errors_Join es = None \<longleftrightarrow> es = []"
  by (simp add: errors_Join_def)

lemma check_that_Nil [simp]: "check_that b m = [] \<longleftrightarrow> \<not> b"
  by (simp add: check_that_def)

section \<open>Schema\<close>

type_synonym Environment = string
type_synonym Driver = string
type_synonym AuthProvider = string

definition EnvDevelopment :: Environment where "EnvDevelopment = ''development''"
definition EnvProduction :: Environment where "EnvProduction = ''production''"
definition DriverSQLite :: Driver where "DriverSQLite = ''sqlite''"
definition DriverPostgres :: Driver where "DriverPostgres = ''postgres''"
definition ProviderLocal :: AuthProvider where "ProviderLocal = ''local''"
definition ProviderOIDC :: AuthProvider where "ProviderOIDC = ''oidc''"

lemmas name_defs = EnvDevelopment_def EnvProduction_def DriverSQLite_def DriverPostgres_def
  ProviderLocal_def ProviderOIDC_def

record ServerConfig =
  Listen :: string
  BaseURL :: string
  AllowInsecureHTTP :: bool
  ReadTimeout :: duration
  WriteTimeout :: duration
  IdleTimeout :: duration
  ShutdownTimeout :: duration
  MaxBodyBytes :: int

record DatabaseConfig =
  db_Driver :: Driver
  db_Path :: string
  db_DSN :: string
  MaxOpenConns :: int
  MaxIdleConns :: int
  ConnMaxLifetime :: duration

record NetworkConfig =
  IPv4CIDR :: string
  IPv6CIDR :: string

record AuthConfig =
  Providers :: "AuthProvider list"
  SessionLifetime :: duration
  SessionIdleTimeout :: duration
  MinPasswordLength :: int

record RelayConfig =
  relay_Enabled :: bool

record LogConfig =
  log_Level :: string
  log_Format :: string
  log_AddSource :: bool

record RateLimitConfig =
  rl_Enabled :: bool
  RequestsPerMinute :: int
  Burst :: int
  AuthRequestsPerMinute :: int
  AuthBurst :: int

record ObservabilityConfig =
  MetricsEnabled :: bool

record Config =
  cfg_Environment :: Environment
  cfg_Server :: ServerConfig
  cfg_Database :: DatabaseConfig
  cfg_Network :: NetworkConfig
  cfg_Auth :: AuthConfig
  cfg_Relay :: RelayConfig
  cfg_Log :: LogConfig
  cfg_RateLimit :: RateLimitConfig
  cfg_Observability :: ObservabilityConfig

definition PasswordFloor :: int where "PasswordFloor = 12"

definition Default :: Config where
  "Default = \<lparr>
     cfg_Environment = EnvDevelopment,
     cfg_Server = \<lparr>Listen = '':8080'', BaseURL = ''http://localhost:8080'', AllowInsecureHTTP = False,
       ReadTimeout = 15 * Second, WriteTimeout = 30 * Second, IdleTimeout = 120 * Second,
       ShutdownTimeout = 20 * Second, MaxBodyBytes = 2 ^ 20\<rparr>,
     cfg_Database = \<lparr>db_Driver = DriverSQLite, db_Path = ''./data/headnet.db'', db_DSN = [],
       MaxOpenConns = 25, MaxIdleConns = 5, ConnMaxLifetime = 30 * Minute\<rparr>,
     cfg_Network = \<lparr>IPv4CIDR = ''100.100.0.0/16'', IPv6CIDR = ''fd7a:115c:a1e0::/48''\<rparr>,
     cfg_Auth = \<lparr>Providers = [ProviderLocal], SessionLifetime = 30 * 24 * Hour,
       SessionIdleTimeout = 7 * 24 * Hour, MinPasswordLength = PasswordFloor\<rparr>,
     cfg_Relay = \<lparr>relay_Enabled = False\<rparr>,
     cfg_Log = \<lparr>log_Level = ''info'', log_Format = ''json'', log_AddSource = False\<rparr>,
     cfg_RateLimit = \<lparr>rl_Enabled = True, RequestsPerMinute = 120, Burst = 30,
       AuthRequestsPerMinute = 10, AuthBurst = 5\<rparr>,
     cfg_Observability = \<lparr>MetricsEnabled = False\<rparr>\<rparr>"

definition IsProduction :: "Config \<Rightarrow> bool" where
  "IsProduction c \<longleftrightarrow> cfg_Environment c = EnvProduction"

section \<open>Address pools\<close>

definition MustParsePrefix :: "string \<Rightarrow> prefix" where
  "MustParsePrefix s = (case ParsePrefix s of Some p \<Rightarrow> p | None \<Rightarrow> NoPrefix)"

definition reservedIPv4 :: "prefix list" where
  "reservedIPv4 = map MustParsePrefix
     [''0.0.0.0/8'', ''127.0.0.0/8'', ''169.254.0.0/16'', ''224.0.0.0/4'', ''240.0.0.0/4'']"

definition reservedIPv6 :: "prefix list" where
  "reservedIPv6 = map MustParsePrefix [''::/128'', ''::1/128'', ''fe80::/10'', ''ff00::/8'']"

definition minIPv4PrefixBits :: int where "minIPv4PrefixBits = 8"
definition maxIPv4PrefixBits :: int where "maxIPv4PrefixBits = 30"
definition minIPv6PrefixBits :: int where "minIPv6PrefixBits = 16"
definition maxIPv6PrefixBits :: int where "maxIPv6PrefixBits = 120"

lemmas prefix_bounds = minIPv4PrefixBits_def maxIPv4PrefixBits_def minIPv6PrefixBits_def
  maxIPv6PrefixBits_def

definition parsePool :: "string \<Rightarrow> string \<Rightarrow> bool \<Rightarrow> int \<Rightarrow> int \<Rightarrow> prefix list \<Rightarrow> error + prefix" where
  "parsePool field value wantIPv4 minBits maxBits reserved =
     (if TrimSpace value = [] then Inl (ErrNew (field @ '': must be set''))
      else case ParsePrefix value of
        None \<Rightarrow> Inl (ErrNew (field @ '': is not a valid CIDR block''))
      | Some prefix \<Rightarrow>
          if Is4 (Addr prefix) \<noteq> wantIPv4 then
            Inl (ErrNew (field @ '': is not an '' @ (if wantIPv4 then ''IPv4'' else ''IPv6'') @ '' prefix''))
          else if Masked prefix \<noteq> prefix then Inl (ErrNew (field @ '': has host bits set''))
          else if \<exists>r \<in> set reserved. Overlaps prefix r then
            Inl (ErrNew (field @ '': overlaps the reserved range and cannot be used for an overlay network''))
          else if Bits prefix < minBits \<or> Bits prefix > maxBits then
            Inl (ErrNew (field @ '': prefix length is outside the supported range''))
          else Inr prefix)"

definition problem_of :: "error + 'a \<Rightarrow> error list" where
  "problem_of r = (case r of Inl e \<Rightarrow> [e] | Inr _ \<Rightarrow> [])"

definition prefix_of :: "error + prefix \<Rightarrow> prefix" where
  "prefix_of r = (case r of Inl _ \<Rightarrow> NoPrefix | Inr p \<Rightarrow> p)"

definition Network_Validate :: "NetworkConfig \<Rightarrow> error option" where
  "Network_Validate n = (
     let r4 = parsePool ''network.ipv4_cidr'' (IPv4CIDR n) True minIPv4PrefixBits maxIPv4PrefixBits reservedIPv4;
         r6 = (if TrimSpace (IPv6CIDR n) \<noteq> []
               then parsePool ''network.ipv6_cidr'' (IPv6CIDR n) False minIPv6PrefixBits maxIPv6PrefixBits reservedIPv6
               else Inr NoPrefix);
         v4 = prefix_of r4; v6 = prefix_of r6 in
     errors_Join (problem_of r4 @ problem_of r6 @
       check_that (prefix_IsValid v4 \<and> prefix_IsValid v6 \<and> Overlaps v4 v6)
         ''network: the IPv4 pool and the IPv6 pool overlap''))"

text \<open>\<open>netip.MustParsePrefix\<close> panics on what does not parse, which is \<open>None\<close> here.\<close>

definition IPv4Pool :: "NetworkConfig \<Rightarrow> prefix option" where
  "IPv4Pool n = ParsePrefix (IPv4CIDR n)"

definition IPv6Pool :: "NetworkConfig \<Rightarrow> (prefix \<times> bool) option" where
  "IPv6Pool n = (if TrimSpace (IPv6CIDR n) = [] then Some (NoPrefix, False)
     else map_option (\<lambda>p. (p, True)) (ParsePrefix (IPv6CIDR n)))"

section \<open>The other sections\<close>

definition validateEnvironment :: "Config \<Rightarrow> error option" where
  "validateEnvironment c =
     (if cfg_Environment c = EnvDevelopment \<or> cfg_Environment c = EnvProduction then None
      else if cfg_Environment c = [] then Some (ErrNew ''environment: must be set to development or production'')
      else Some (ErrNew ''environment: is not valid (expected development or production)''))"

text \<open>\<open>net.SplitHostPort\<close>: the port follows the last colon, an IPv6 host is in brackets.\<close>

definition rindex :: "char \<Rightarrow> string \<Rightarrow> nat option" where
  "rindex c s = (if c \<in> set s then Some (length s - Suc (length (takeWhile (\<lambda>x. x \<noteq> c) (rev s)))) else None)"

definition SplitHostPort :: "string \<Rightarrow> (string \<times> string) option" where
  "SplitHostPort s = (case rindex (CHR '':'') s of
     None \<Rightarrow> None
   | Some i \<Rightarrow>
       if s ! 0 = CHR ''['' then
         (case index_in s (CHR '']'') of
            None \<Rightarrow> None
          | Some close \<Rightarrow>
              if close + 1 \<noteq> i \<or> CHR ''['' \<in> set (drop 1 s) \<or> CHR '']'' \<in> set (drop (close + 1) s) then None
              else Some (take (close - 1) (drop 1 s), drop (i + 1) s))
       else if CHR '':'' \<in> set (take i s) \<or> CHR ''['' \<in> set s \<or> CHR '']'' \<in> set s then None
       else Some (take i s, drop (i + 1) s))"

definition Server_validate :: "(string \<Rightarrow> (string \<times> string) option) \<Rightarrow> ServerConfig \<Rightarrow> Environment \<Rightarrow> error option" where
  "Server_validate parse_url s env = errors_Join (
     (if Listen s = [] then [ErrNew ''server.listen: must be set'']
      else case SplitHostPort (Listen s) of
        None \<Rightarrow> [ErrNew ''server.listen: is not a host:port address'']
      | Some (_, port) \<Rightarrow> check_that (port = []) ''server.listen: does not specify a port'') @
     (if BaseURL s = [] then [ErrNew ''server.base_url: must be set to the URL clients will reach this server on'']
      else case parse_url (BaseURL s) of
        None \<Rightarrow> [ErrNew ''server.base_url: is not a valid URL'']
      | Some (scheme, host) \<Rightarrow>
          if scheme \<noteq> ''http'' \<and> scheme \<noteq> ''https'' then
            [ErrNew ''server.base_url: scheme is not supported (expected http or https)'']
          else if host = [] then [ErrNew ''server.base_url: has no host'']
          else check_that (env = EnvProduction \<and> scheme = ''http'' \<and> \<not> AllowInsecureHTTP s)
            ''server.base_url: plain HTTP is refused in production'') @
     concat (map (\<lambda>(name, value). check_that (value \<le> 0) (name @ '': must be greater than zero''))
       [(''server.read_timeout'', ReadTimeout s), (''server.write_timeout'', WriteTimeout s),
        (''server.idle_timeout'', IdleTimeout s), (''server.shutdown_timeout'', ShutdownTimeout s)]) @
     check_that (MaxBodyBytes s \<le> 0) ''server.max_body_bytes: must be greater than zero'')"

definition Database_validate :: "DatabaseConfig \<Rightarrow> error option" where
  "Database_validate d = errors_Join (
     (if db_Driver d = DriverSQLite then
        check_that (TrimSpace (db_Path d) = []) ''database.path: must be set when the driver is sqlite''
      else if db_Driver d = DriverPostgres then
        check_that (TrimSpace (db_DSN d) = []) ''database.dsn: must be set when the driver is postgres''
      else if db_Driver d = [] then [ErrNew ''database.driver: must be set to sqlite or postgres'']
      else [ErrNew ''database.driver: is not supported (expected sqlite or postgres)'']) @
     check_that (MaxOpenConns d \<le> 0) ''database.max_open_conns: must be greater than zero'' @
     check_that (MaxIdleConns d < 0) ''database.max_idle_conns: must not be negative'' @
     check_that (MaxOpenConns d > 0 \<and> MaxIdleConns d > MaxOpenConns d)
       ''database.max_idle_conns: must not exceed database.max_open_conns'' @
     check_that (ConnMaxLifetime d < 0) ''database.conn_max_lifetime: must not be negative'')"

text \<open>The loop over the providers, with the ones seen so far.\<close>

fun provider_problems :: "AuthProvider set \<Rightarrow> AuthProvider list \<Rightarrow> error list" where
  "provider_problems seen [] = []"
| "provider_problems seen (p # ps) =
     (if p \<noteq> ProviderLocal \<and> p \<noteq> ProviderOIDC then
        ErrNew ''auth.providers: is not supported'' # provider_problems seen ps
      else if p \<in> seen then ErrNew ''auth.providers: is listed more than once'' # provider_problems seen ps
      else provider_problems (insert p seen) ps)"

definition Auth_validate :: "AuthConfig \<Rightarrow> error option" where
  "Auth_validate a = (if Providers a = [] then Some (ErrNew ''auth.providers: at least one provider must be enabled'')
     else errors_Join (
       check_that (SessionLifetime a \<le> 0) ''auth.session_lifetime: must be greater than zero'' @
       check_that (SessionIdleTimeout a < 0) ''auth.session_idle_timeout: must not be negative'' @
       check_that (SessionIdleTimeout a > 0 \<and> SessionLifetime a > 0 \<and> SessionIdleTimeout a > SessionLifetime a)
         ''auth.session_idle_timeout: must not exceed auth.session_lifetime'' @
       check_that (MinPasswordLength a < PasswordFloor) ''auth.min_password_length: must be at least the floor'' @
       provider_problems {} (Providers a)))"

datatype Level = LevelDebug | LevelInfo | LevelWarn | LevelError

datatype Format = FormatJSON | FormatText

definition ParseLevel :: "(nat \<Rightarrow> nat) \<Rightarrow> string \<Rightarrow> Level option" where
  "ParseLevel lc name = (let s = ToLower lc (TrimSpace name) in
     if s = ''debug'' then Some LevelDebug
     else if s = [] \<or> s = ''info'' then Some LevelInfo
     else if s = ''warn'' \<or> s = ''warning'' then Some LevelWarn
     else if s = ''error'' then Some LevelError
     else None)"

definition ParseFormat :: "(nat \<Rightarrow> nat) \<Rightarrow> string \<Rightarrow> Format option" where
  "ParseFormat lc name = (let s = ToLower lc (TrimSpace name) in
     if s = [] \<or> s = ''json'' then Some FormatJSON else if s = ''text'' then Some FormatText else None)"

definition Log_validate :: "(nat \<Rightarrow> nat) \<Rightarrow> LogConfig \<Rightarrow> error option" where
  "Log_validate lc l = errors_Join (
     check_that (ParseLevel lc (log_Level l) = None) ''log.level: unknown log level'' @
     check_that (ParseFormat lc (log_Format l) = None) ''log.format: unknown log format'')"

definition RateLimit_validate :: "RateLimitConfig \<Rightarrow> error option" where
  "RateLimit_validate r = (if \<not> rl_Enabled r then None
     else errors_Join (
       check_that (RequestsPerMinute r \<le> 0) ''rate_limit.requests_per_minute: must be greater than zero'' @
       check_that (Burst r \<le> 0) ''rate_limit.burst: must be greater than zero'' @
       check_that (AuthRequestsPerMinute r \<le> 0) ''rate_limit.auth_requests_per_minute: must be greater than zero'' @
       check_that (AuthBurst r \<le> 0) ''rate_limit.auth_burst: must be greater than zero'' @
       check_that (AuthRequestsPerMinute r > RequestsPerMinute r)
         ''rate_limit.auth_requests_per_minute: must not exceed rate_limit.requests_per_minute''))"

definition add_problem :: "error option \<Rightarrow> error list" where
  "add_problem e = (case e of None \<Rightarrow> [] | Some err \<Rightarrow> [err])"

definition Config_Validate :: "(nat \<Rightarrow> nat) \<Rightarrow> (string \<Rightarrow> (string \<times> string) option) \<Rightarrow> Config \<Rightarrow> error option" where
  "Config_Validate lc parse_url c = errors_Join (
     add_problem (validateEnvironment c) @
     add_problem (Server_validate parse_url (cfg_Server c) (cfg_Environment c)) @
     add_problem (Database_validate (cfg_Database c)) @
     add_problem (Network_Validate (cfg_Network c)) @
     add_problem (Auth_validate (cfg_Auth c)) @
     add_problem (Log_validate lc (cfg_Log c)) @
     add_problem (RateLimit_validate (cfg_RateLimit c)))"

definition HasProvider :: "AuthConfig \<Rightarrow> AuthProvider \<Rightarrow> bool" where
  "HasProvider a p \<longleftrightarrow> p \<in> set (Providers a)"

section \<open>What a validated pool is\<close>

lemmas netip_defs [str_simps] = ParsePrefix_def ParseAddr_def addr_mark_def parse4_def parse6_def
  expand6_def parse_octet_def parse_decimal_def dec_digit_def hex_digit_value_def is_hex_def
  digit_values_def horner_def PrefixFrom_def MustParsePrefix_def Cut_def

lemmas parse6_fields_numeral [str_simps] =
  parse6_fields.simps(2) [of "pred_numeral k" for k, folded numeral_eq_Suc]

lemma replicate_numeral [str_simps]: "replicate (numeral k) x = x # replicate (pred_numeral k) x"
  by (simp add: numeral_eq_Suc)

lemma reservedIPv4_eq: "reservedIPv4 =
    [Prefix (V4 0) 8, Prefix (V4 0x7F000000) 8, Prefix (V4 0xA9FE0000) 16,
     Prefix (V4 0xE0000000) 4, Prefix (V4 0xF0000000) 4]"
  by (simp add: reservedIPv4_def str_simps Let_def)

lemma reservedIPv6_eq: "reservedIPv6 =
    [Prefix (V6 0 []) 128, Prefix (V6 1 []) 128, Prefix (V6 0xFE800000000000000000000000000000 []) 10,
     Prefix (V6 0xFF000000000000000000000000000000 []) 8]"
  by (simp add: reservedIPv6_def str_simps Let_def)

lemma reserved_valid: "r \<in> set reservedIPv4 \<union> set reservedIPv6 \<Longrightarrow> prefix_IsValid r"
  by (auto simp: reservedIPv4_eq reservedIPv6_eq)

lemma ParseAddr_valid: "ParseAddr s = Some a \<Longrightarrow> IsValid a"
  by (auto simp: ParseAddr_def split: option.splits if_splits prod.splits)

lemma ParsePrefix_valid: "ParsePrefix s = Some p \<Longrightarrow> prefix_IsValid p"
proof -
  have "BitLen (WithoutZone a) = BitLen a" "IsValid (WithoutZone a) = IsValid a" "Zone (WithoutZone a) = []" for a
    by (cases a; simp)+
  then show "ParsePrefix s = Some p \<Longrightarrow> ?thesis"
    by (auto simp: ParsePrefix_def PrefixFrom_def Let_def dest: ParseAddr_valid split: option.splits if_splits)
qed

text \<open>A pool of a family as the allocator needs it: canonical, sized, and clear of every reserved range.\<close>

definition pool_ok :: "nat \<Rightarrow> int \<Rightarrow> int \<Rightarrow> prefix list \<Rightarrow> prefix \<Rightarrow> bool" where
  "pool_ok len lo hi reserved p \<longleftrightarrow> prefix_IsValid p \<and> BitLen (Addr p) = len \<and> Masked p = p \<and>
     lo \<le> Bits p \<and> Bits p \<le> hi \<and> (\<forall>a. Contains p a \<longrightarrow> (\<forall>r \<in> set reserved. \<not> Contains r a))"

lemma parsePool_iff:
  assumes "\<forall>r \<in> set reserved. prefix_IsValid r"
  shows "parsePool f s want lo hi reserved = Inr p \<longleftrightarrow>
    TrimSpace s \<noteq> [] \<and> ParsePrefix s = Some p \<and> pool_ok (if want then 32 else 128) lo hi reserved p"
proof -
  have fam: "Is4 (Addr p) = want \<longleftrightarrow> BitLen (Addr p) = (if want then 32 else 128)" if "prefix_IsValid p"
    using that by (cases p; cases "Addr p") auto
  have ov: "(\<exists>r \<in> set reserved. Overlaps p r) \<longleftrightarrow> (\<exists>a. Contains p a \<and> (\<exists>r \<in> set reserved. Contains r a))"
    if "prefix_IsValid p" using that assms Overlaps_iff by blast
  show ?thesis
    using ParsePrefix_valid [of s p] fam ov
    by (auto simp: parsePool_def pool_ok_def split: option.splits if_splits)
qed

abbreviation pool4_ok :: "prefix \<Rightarrow> bool" where
  "pool4_ok \<equiv> pool_ok 32 8 30 reservedIPv4"

abbreviation pool6_ok :: "prefix \<Rightarrow> bool" where
  "pool6_ok \<equiv> pool_ok 128 16 120 reservedIPv6"

lemma families_disjoint: "BitLen (Addr p) = 32 \<Longrightarrow> BitLen (Addr q) = 128 \<Longrightarrow> \<not> Overlaps p q"
  by (auto simp: Overlaps_def)

text \<open>
  Validation of the pools is exact: it succeeds just when both texts parse to pools the
  allocator can use, the IPv6 one being optional. The overlap check between the two families
  can never fire.
\<close>

lemma Network_Validate_iff:
  "Network_Validate n = None \<longleftrightarrow>
     TrimSpace (IPv4CIDR n) \<noteq> [] \<and> (\<exists>v4. IPv4Pool n = Some v4 \<and> pool4_ok v4) \<and>
     (\<exists>v6 en. IPv6Pool n = Some (v6, en) \<and> (en \<longrightarrow> pool6_ok v6) \<and> (\<not> en \<longrightarrow> v6 = NoPrefix))"
proof -
  define r4 where "r4 = parsePool ''network.ipv4_cidr'' (IPv4CIDR n) True minIPv4PrefixBits maxIPv4PrefixBits reservedIPv4"
  define r6 where "r6 = parsePool ''network.ipv6_cidr'' (IPv6CIDR n) False minIPv6PrefixBits maxIPv6PrefixBits reservedIPv6"
  have p4: "r4 = Inr p \<longleftrightarrow> TrimSpace (IPv4CIDR n) \<noteq> [] \<and> ParsePrefix (IPv4CIDR n) = Some p \<and> pool4_ok p" for p
    unfolding r4_def using parsePool_iff [of reservedIPv4 _ _ True] reserved_valid by (simp add: prefix_bounds)
  have p6: "r6 = Inr p \<longleftrightarrow> TrimSpace (IPv6CIDR n) \<noteq> [] \<and> ParsePrefix (IPv6CIDR n) = Some p \<and> pool6_ok p" for p
    unfolding r6_def using parsePool_iff [of reservedIPv6 _ _ False] reserved_valid by (simp add: prefix_bounds)
  have dis: "\<not> Overlaps p q" if "r4 = Inr p" "r6 = Inr q" for p q
    using that families_disjoint by (simp add: p4 p6 pool_ok_def)
  have dis0: "\<not> Overlaps p NoPrefix" for p by (simp add: Overlaps_def)
  have "Network_Validate n = None \<longleftrightarrow> (\<exists>p. r4 = Inr p) \<and> (TrimSpace (IPv6CIDR n) = [] \<or> (\<exists>q. r6 = Inr q))"
    unfolding Network_Validate_def Let_def r4_def [symmetric] r6_def [symmetric]
    using dis dis0 by (cases r4; cases r6) (auto simp: problem_of_def prefix_of_def)
  then show ?thesis
    by (cases "TrimSpace (IPv6CIDR n) = []") (auto simp: p4 p6 IPv4Pool_def IPv6Pool_def)
qed

text \<open>Every problem is reported: the joined error holds one entry per failing section, in order.\<close>

lemma Config_Validate_None:
  "Config_Validate lc u c = None \<longleftrightarrow> validateEnvironment c = None \<and>
     Server_validate u (cfg_Server c) (cfg_Environment c) = None \<and> Database_validate (cfg_Database c) = None \<and>
     Network_Validate (cfg_Network c) = None \<and> Auth_validate (cfg_Auth c) = None \<and>
     Log_validate lc (cfg_Log c) = None \<and> RateLimit_validate (cfg_RateLimit c) = None"
  by (simp add: Config_Validate_def add_problem_def split: option.splits)

lemma provider_problems_Nil:
  "provider_problems seen ps = [] \<longleftrightarrow> distinct ps \<and> set ps \<subseteq> {ProviderLocal, ProviderOIDC} \<and> set ps \<inter> seen = {}"
  by (induction seen ps rule: provider_problems.induct) auto

lemma Auth_validate_None:
  "Auth_validate a = None \<longleftrightarrow> Providers a \<noteq> [] \<and> distinct (Providers a) \<and>
     set (Providers a) \<subseteq> {ProviderLocal, ProviderOIDC} \<and> 0 < SessionLifetime a \<and>
     0 \<le> SessionIdleTimeout a \<and> SessionIdleTimeout a \<le> SessionLifetime a \<and> PasswordFloor \<le> MinPasswordLength a"
  by (auto simp: Auth_validate_def provider_problems_Nil)

lemma RateLimit_validate_None:
  "RateLimit_validate r = None \<longleftrightarrow> (rl_Enabled r \<longrightarrow> 0 < RequestsPerMinute r \<and> 0 < Burst r \<and>
     0 < AuthRequestsPerMinute r \<and> 0 < AuthBurst r \<and> AuthRequestsPerMinute r \<le> RequestsPerMinute r)"
  by (auto simp: RateLimit_validate_def)

lemma Default_network: "Network_Validate (cfg_Network Default) = None"
  by (simp add: Default_def Network_Validate_def parsePool_def reservedIPv4_eq reservedIPv6_eq str_simps
      Let_def prefix_bounds Overlaps_def problem_of_def prefix_of_def)

end
