(* ===== verification/Storage_Schema.thy ===== *)
theory Storage_Schema
  imports Server_Config
begin

text \<open>
  The database (\<open>internal/storage/migrations\<close>): one record per row, one list per table, NULL
  columns as options. The constraints of the schema are \<open>schema_ok\<close>: primary keys, UNIQUE
  columns and foreign keys. Statements that would break one of them fail, as they do in SQLite
  with \<open>foreign_keys\<close> on and in PostgreSQL.
\<close>

section \<open>Rows\<close>

record meta_row =
  m_key :: string
  m_value :: string
  m_created_at :: instant
  m_updated_at :: instant

record user_row =
  u_id :: string
  u_email :: string
  u_email_norm :: string
  u_display_name :: string
  u_password_hash :: "string option"
  u_role :: string
  u_provider :: string
  u_created_at :: instant
  u_updated_at :: instant
  u_last_login_at :: "instant option"

record session_row =
  s_id :: string
  s_token_hash :: string
  s_csrf_hash :: string
  s_user_id :: string
  s_created_at :: instant
  s_last_used_at :: instant
  s_expires_at :: instant
  s_ip :: string
  s_user_agent :: string

record key_row =
  k_id :: string
  k_key_hash :: string
  k_display_hint :: string
  k_description :: string
  k_tags :: string
  k_created_by :: string
  k_created_at :: instant
  k_expires_at :: "instant option"
  k_max_uses :: int
  k_uses :: int
  k_revoked_at :: "instant option"

record device_row =
  d_id :: string
  d_user_id :: string
  d_name :: string
  d_public_key :: string
  d_os :: string
  d_hostname :: string
  d_ipv4 :: "string option"
  d_ipv6 :: "string option"
  d_enrolled_with :: "string option"
  d_created_at :: instant
  d_last_seen_at :: "instant option"
  d_revoked_at :: "instant option"

record token_row =
  t_device_id :: string
  t_token_hash :: string
  t_created_at :: instant

record alloc_row =
  a_address :: string
  a_family :: nat
  a_owner_id :: string
  a_allocated_at :: instant

text \<open>
  The bookkeeping table of the migrator (\<open>storage/migrate.go\<close>). It is the one table that may not
  exist: the migrator creates it.
\<close>

record ledger_row =
  l_version :: int
  l_name :: string
  l_checksum :: string
  l_applied_at :: instant

record db =
  server_metadata :: "meta_row list"
  users :: "user_row list"
  sessions :: "session_row list"
  setup_keys :: "key_row list"
  devices :: "device_row list"
  device_tokens :: "token_row list"
  ip_allocations :: "alloc_row list"
  schema_migrations :: "ledger_row list option"

definition empty_db :: db where
  "empty_db = \<lparr>server_metadata = [], users = [], sessions = [], setup_keys = [], devices = [],
     device_tokens = [], ip_allocations = [], schema_migrations = None\<rparr>"

section \<open>Statements on one table\<close>

text \<open>\<open>UPDATE t SET f WHERE P\<close> and \<open>DELETE FROM t WHERE P\<close>: the rows affected and the new table.\<close>

definition update_where :: "('r \<Rightarrow> bool) \<Rightarrow> ('r \<Rightarrow> 'r) \<Rightarrow> 'r list \<Rightarrow> nat \<times> 'r list" where
  "update_where P f t = (length (filter P t), map (\<lambda>r. if P r then f r else r) t)"

definition delete_where :: "('r \<Rightarrow> bool) \<Rightarrow> 'r list \<Rightarrow> nat \<times> 'r list" where
  "delete_where P t = (length (filter P t), filter (\<lambda>r. \<not> P r) t)"

text \<open>\<open>ORDER BY created_at DESC, id DESC\<close>.\<close>

definition newest_first :: "('r \<Rightarrow> instant) \<Rightarrow> ('r \<Rightarrow> string) \<Rightarrow> 'r list \<Rightarrow> 'r list" where
  "newest_first created ident t =
     rev (sort_key created (sort_key ident t))"

lemma update_where_simps [simp]:
  "fst (update_where P f t) = length (filter P t)"
  "snd (update_where P f t) = map (\<lambda>r. if P r then f r else r) t"
  "fst (delete_where P t) = length (filter P t)"
  "snd (delete_where P t) = filter (\<lambda>r. \<not> P r) t"
  by (simp_all add: update_where_def delete_where_def)

lemma set_newest_first [simp]: "set (newest_first c i t) = set t"
  by (simp add: newest_first_def)

lemma sorted_newest_first: "sorted_wrt (\<lambda>x y. c y \<le> c x) (newest_first c i t)"
proof -
  have "sorted (map c (sort_key c (sort_key i t)))" by simp
  then have "sorted_wrt (\<lambda>x y. c x \<le> c y) (sort_key c (sort_key i t))" by (simp add: sorted_map)
  then show ?thesis by (simp add: newest_first_def sorted_wrt_rev)
qed

lemma map_update_unchanged:
  "(\<And>r. col (f r) = col r) \<Longrightarrow> map col (map (\<lambda>r. if P r then f r else r) t) = map col t"
  by (induction t) auto

lemma set_update_unchanged:
  "(\<And>r. col (f r) = col r) \<Longrightarrow> col ` (\<lambda>r. if P r then f r else r) ` set t = col ` set t"
  using map_update_unchanged [of col f P t] by (metis (no_types, lifting) image_set)

section \<open>Constraints\<close>

definition metadata_schema :: "db \<Rightarrow> bool" where
  "metadata_schema d \<longleftrightarrow> distinct (map m_key (server_metadata d))"

definition users_schema :: "db \<Rightarrow> bool" where
  "users_schema d \<longleftrightarrow> distinct (map u_id (users d)) \<and> distinct (map u_email_norm (users d))"

definition sessions_schema :: "db \<Rightarrow> bool" where
  "sessions_schema d \<longleftrightarrow> distinct (map s_id (sessions d)) \<and> distinct (map s_token_hash (sessions d)) \<and>
     s_user_id ` set (sessions d) \<subseteq> u_id ` set (users d)"

definition keys_schema :: "db \<Rightarrow> bool" where
  "keys_schema d \<longleftrightarrow> distinct (map k_id (setup_keys d)) \<and> distinct (map k_key_hash (setup_keys d)) \<and>
     k_created_by ` set (setup_keys d) \<subseteq> u_id ` set (users d)"

definition devices_schema :: "db \<Rightarrow> bool" where
  "devices_schema d \<longleftrightarrow> distinct (map d_id (devices d)) \<and> distinct (map d_public_key (devices d)) \<and>
     d_user_id ` set (devices d) \<subseteq> u_id ` set (users d) \<and>
     (\<forall>r \<in> set (devices d). \<forall>k. d_enrolled_with r = Some k \<longrightarrow> k \<in> k_id ` set (setup_keys d))"

definition tokens_schema :: "db \<Rightarrow> bool" where
  "tokens_schema d \<longleftrightarrow> distinct (map t_device_id (device_tokens d)) \<and> distinct (map t_token_hash (device_tokens d)) \<and>
     t_device_id ` set (device_tokens d) \<subseteq> d_id ` set (devices d)"

definition allocations_schema :: "db \<Rightarrow> bool" where
  "allocations_schema d \<longleftrightarrow> distinct (map a_address (ip_allocations d))"

lemmas table_schemas = metadata_schema_def users_schema_def sessions_schema_def keys_schema_def
  devices_schema_def tokens_schema_def allocations_schema_def

definition schema_ok :: "db \<Rightarrow> bool" where
  "schema_ok d \<longleftrightarrow> metadata_schema d \<and> users_schema d \<and> sessions_schema d \<and> keys_schema d \<and>
     devices_schema d \<and> tokens_schema d \<and> allocations_schema d"

lemma schema_ok_empty: "schema_ok (empty_db\<lparr>schema_migrations := l\<rparr>)"
  by (simp add: schema_ok_def table_schemas empty_db_def)

end
