(* ===== verification/Auth_Tokens.thy ===== *)
theory Auth_Tokens
  imports Storage_Schema
begin

text \<open>
  The bearer credentials of package \<open>auth\<close> (\<open>internal/auth/session.go\<close>): \<open>NewToken\<close> draws
  random bytes and writes them in base64url, \<open>HashToken\<close> is what is stored in their place.
\<close>

definition NewToken :: "nat \<Rightarrow> ('d, string) comp" where
  "NewToken n = bindM (mapErr (wrap ''auth: generating a token'') (rand_Read n))
     (\<lambda>buf. returnM (EncodeToString RawURLEncoding buf))"

definition HashToken :: "string \<Rightarrow> string" where
  "HashToken token = hex_EncodeToString (Sum256 (bytes_of_string token))"

lemma NewToken_Ret:
  "NewToken n w = (Ret s, w') \<longleftrightarrow> n \<le> length (w_entropy w) \<and>
     s = EncodeToString RawURLEncoding (take n (w_entropy w)) \<and>
     w' = w\<lparr>w_entropy := drop n (w_entropy w)\<rparr>"
  by (auto simp: NewToken_def bindM_Ret rand_Read_def)

lemma NewToken_frame: "NewToken n w = (r, w') \<Longrightarrow> w_db w' = w_db w \<and> w_faults w' = w_faults w"
  by (auto simp: NewToken_def bindM_def mapErr_def rand_Read_def returnM_def split: if_splits)

lemma keeps_NewToken [pres_intros]: "keeps I (NewToken n)"
  by (rule keeps_frame) (auto dest: NewToken_frame)

lemma NewToken_no_Panic: "NewToken n w \<noteq> (Panic p, w')"
  by (auto simp: NewToken_def bindM_def mapErr_def rand_Read_def returnM_def split: if_splits)

lemma not_padded_raw [simp]: "\<not> enc_padded RawURLEncoding"
  by (simp add: RawURLEncoding_def)

lemma length_NewToken: "NewToken n w = (Ret s, w') \<Longrightarrow> length s = (4 * n + 2) div 3"
  by (auto simp: NewToken_Ret length_EncodeToString_raw)

lemma length_Sum256: "length (Sum256 m) = 32"
proof -
  have round: "length (sha_round s kw) = length s" for s kw
    by (cases "(s, kw)" rule: sha_round.cases) (simp_all add: Let_def)
  then have rounds: "length (foldl sha_round s kws) = length s" for s kws
    by (induction kws arbitrary: s) simp_all
  have "length (foldl sha_block h bs) = length h" for h bs
    by (induction bs arbitrary: h) (simp_all add: sha_block_def Let_def rounds)
  then show ?thesis by (simp add: Sum256_def Let_def length_concat o_def sum_list_triv sha_h0_def)
qed

lemma length_HashToken: "length (HashToken token) = 64"
  by (simp add: HashToken_def hex_EncodeToString_def length_concat o_def sum_list_triv length_Sum256)

lemma HashToken_nonempty [simp]: "HashToken token \<noteq> []"
  using length_HashToken [of token] by auto

end
