(* ===== verification/IPAM.thy ===== *)
theory IPAM
  imports Storage_Schema
begin

text \<open>
  Package \<open>network\<close> (\<open>internal/network/ipam.go\<close>): the allocator that hands out overlay
  addresses. Every read and write runs in the caller's transaction. What a concurrent
  transaction may commit between the allocator's reads and its INSERT is an argument,
  \<open>ev_rivals\<close>: for each address family and attempt, what their commits make of the table before the
  INSERT, be it rows added or rows released. \<open>ev_rand\<close> supplies the values of \<open>rand.IntN\<close>.
\<close>

section \<open>Errors and constants\<close>

definition ErrPoolExhausted :: error where
  "ErrPoolExhausted = ErrNew ''the address pool is exhausted''"

definition ErrAlreadyAllocated :: error where
  "ErrAlreadyAllocated = ErrNew ''the owner already holds an address''"

definition maxAllocationAttempts :: nat where "maxAllocationAttempts = 32"

definition scatterWindow :: nat where "scatterWindow = 256"

section \<open>Assignments\<close>

record Assignment =
  as_IPv4 :: addr
  as_IPv6 :: addr

definition no_assignment :: Assignment where
  "no_assignment = \<lparr>as_IPv4 = AddrInvalid, as_IPv6 = AddrInvalid\<rparr>"

definition HasIPv6 :: "Assignment \<Rightarrow> bool" where
  "HasIPv6 a \<longleftrightarrow> IsValid (as_IPv6 a)"

definition Addrs :: "Assignment \<Rightarrow> addr list" where
  "Addrs a = (if IsValid (as_IPv4 a) then [as_IPv4 a] else []) @ (if IsValid (as_IPv6 a) then [as_IPv6 a] else [])"

section \<open>The allocator\<close>

record Allocator =
  al_v4 :: prefix
  al_v6 :: prefix
  al_v4Broadcast :: addr

text \<open>\<open>lastAddr\<close>: from the last byte backwards, set the host bits.\<close>

fun lastAddr_loop :: "nat \<Rightarrow> nat \<Rightarrow> byte list \<Rightarrow> byte list" where
  "lastAddr_loop 0 hostBits bytes = bytes"
| "lastAddr_loop (Suc i) hostBits bytes = (if 0 < hostBits then
     let n = min 8 hostBits in
     lastAddr_loop i (hostBits - n) (bytes[i := bytes ! i OR drop_bit (8 - n) 0xff])
     else bytes)"

definition lastAddr :: "prefix \<Rightarrow> addr" where
  "lastAddr p = (let bytes = AsSlice (Addr (Masked p)) in
     AddrFromSlice (lastAddr_loop (length bytes) (nat (int (BitLen (Addr p)) - Bits p)) bytes))"

definition NewAllocator :: "NetworkConfig \<Rightarrow> (db, Allocator) comp" where
  "NewAllocator cfg = (case Network_Validate cfg of
     Some e \<Rightarrow> failM (wrap ''network'' e)
   | None \<Rightarrow> (case (IPv4Pool cfg, IPv6Pool cfg) of
       (Some v4, Some (v6, enabled)) \<Rightarrow>
         returnM \<lparr>al_v4 = v4, al_v6 = (if enabled then v6 else NoPrefix), al_v4Broadcast = lastAddr v4\<rparr>
     | _ \<Rightarrow> panicM ''netip.MustParsePrefix''))"

definition IPv6Enabled :: "Allocator \<Rightarrow> bool" where
  "IPv6Enabled a \<longleftrightarrow> prefix_IsValid (al_v6 a)"

definition familyOf :: "addr \<Rightarrow> nat" where
  "familyOf a = (if Is4 a then 4 else 6)"

definition familyOfPrefix :: "prefix \<Rightarrow> nat" where
  "familyOfPrefix p = familyOf (Addr p)"

section \<open>Choosing a candidate\<close>

text \<open>The addresses left from one on, which bounds the scan.\<close>

definition addrs_left :: "addr \<Rightarrow> nat" where
  "addrs_left a = (if IsValid a then 2 ^ BitLen a - addr_nat a else 0)"

lemma addrs_left_Next: "IsValid a \<Longrightarrow> addrs_left (Next a) < addrs_left a"
proof -
  assume a: "IsValid a"
  then have pos: "0 < addrs_left a" using addr_nat_less [of a] by (simp add: addrs_left_def)
  show ?thesis
  proof (cases "IsValid (Next a)")
    case True
    with a addr_nat_less [of "Next a"] Next_valid [OF True] show ?thesis by (simp add: addrs_left_def)
  next
    case False
    with pos show ?thesis by (simp add: addrs_left_def)
  qed
qed

function free_loop :: "prefix \<Rightarrow> addr \<Rightarrow> addr set \<Rightarrow> nat \<Rightarrow> addr \<Rightarrow> addr list \<Rightarrow> addr list" where
  "free_loop pool broadcast taken limit addr free =
     (if IsValid addr \<and> Contains pool addr then
        if Is4 addr \<and> addr = broadcast then free_loop pool broadcast taken limit (Next addr) free
        else if addr \<in> taken then free_loop pool broadcast taken limit (Next addr) free
        else let free' = free @ [addr] in
          if length free' = limit then free'
          else free_loop pool broadcast taken limit (Next addr) free'
      else free)"
  by auto

termination
  by (relation "measure (\<lambda>(_, _, _, _, addr, _). addrs_left addr)") (auto simp: addrs_left_Next)

declare free_loop.simps [simp del]

definition freeAddresses :: "Allocator \<Rightarrow> prefix \<Rightarrow> addr set \<Rightarrow> nat \<Rightarrow> addr list" where
  "freeAddresses a pool taken limit =
     free_loop pool (al_v4Broadcast a) taken limit (Next (Addr (Masked pool))) []"

definition pickCandidate :: "Allocator \<Rightarrow> nat \<Rightarrow> prefix \<Rightarrow> addr set \<Rightarrow> bool \<Rightarrow> error + addr" where
  "pickCandidate a rnd pool taken scatter = (
     let limit = (if scatter then scatterWindow else 1);
         free = freeAddresses a pool taken limit in
     if free = [] then Inl (wrap (prefix_String pool) ErrPoolExhausted)
     else if \<not> scatter then Inr (free ! 0)
     else Inr (free ! (rnd mod length free)))"

section \<open>The allocation table\<close>

fun parse_taken :: "prefix \<Rightarrow> addr set \<Rightarrow> string list \<Rightarrow> error + addr set" where
  "parse_taken pool taken [] = Inr taken"
| "parse_taken pool taken (text # rows) = (case ParseAddr text of
     None \<Rightarrow> Inl (ErrNew ''allocation table holds an unparseable address'')
   | Some addr \<Rightarrow> parse_taken pool (if Contains pool addr then insert addr taken else taken) rows)"

definition takenIn :: "prefix \<Rightarrow> (db, addr set) comp" where
  "takenIn pool = bindM
     (mapErr (wrap ''reading existing allocations'')
       (queryM (\<lambda>d. map a_address (filter (\<lambda>r. a_family r = familyOfPrefix pool) (ip_allocations d)))))
     (\<lambda>rows. case parse_taken pool {} rows of Inl e \<Rightarrow> failM e | Inr taken \<Rightarrow> returnM taken)"

text \<open>\<open>INSERT INTO ip_allocations ... ON CONFLICT (address) DO NOTHING\<close>.\<close>

definition insert_allocation :: "alloc_row \<Rightarrow> db \<Rightarrow> sql_code + nat \<times> db" where
  "insert_allocation r d = (if a_address r \<in> a_address ` set (ip_allocations d) then Inr (0, d)
     else Inr (1, d\<lparr>ip_allocations := ip_allocations d @ [r]\<rparr>))"

definition delete_allocations :: "string \<Rightarrow> db \<Rightarrow> sql_code + nat \<times> db" where
  "delete_allocations owner d = (let (n, t) = delete_where (\<lambda>r. a_owner_id r = owner) (ip_allocations d) in
     Inr (n, d\<lparr>ip_allocations := t\<rparr>))"

record alloc_env =
  ev_rand :: "nat \<Rightarrow> nat \<Rightarrow> nat"
  ev_rivals :: "nat \<Rightarrow> nat \<Rightarrow> alloc_row list \<Rightarrow> alloc_row list"

definition rivals_commit :: "(alloc_row list \<Rightarrow> alloc_row list) \<Rightarrow> (db, unit) comp" where
  "rivals_commit f w = (Ret (), w\<lparr>w_db := (w_db w)\<lparr>ip_allocations := f (ip_allocations (w_db w))\<rparr>\<rparr>)"

section \<open>Allocation\<close>

definition new_allocation :: "addr \<Rightarrow> string \<Rightarrow> instant \<Rightarrow> alloc_row" where
  "new_allocation candidate ownerID now = \<lparr>a_address = addr_String candidate,
     a_family = familyOf candidate, a_owner_id = ownerID, a_allocated_at = now\<rparr>"

fun allocate_loop :: "Allocator \<Rightarrow> alloc_env \<Rightarrow> prefix \<Rightarrow> string \<Rightarrow> instant \<Rightarrow> nat \<Rightarrow> nat \<Rightarrow> addr set \<Rightarrow> (db, addr) comp" where
  "allocate_loop a ev pool ownerID now 0 attempt taken =
     failM (ErrNew ''could not claim an address; another process may be allocating rapidly'')"
| "allocate_loop a ev pool ownerID now (Suc left) attempt taken =
     (case pickCandidate a (ev_rand ev (familyOfPrefix pool) attempt) pool taken (attempt > 0) of
        Inl e \<Rightarrow> failM e
      | Inr candidate \<Rightarrow>
          bindM (rivals_commit (ev_rivals ev (familyOfPrefix pool) attempt)) (\<lambda>_.
          bindM (mapErr (wrap ''recording the allocation'')
            (execM (insert_allocation (new_allocation candidate ownerID now)))) (\<lambda>result.
          bindM (mapErr (wrap ''recording the allocation'') (rowsAffected result)) (\<lambda>affected.
          if affected = 1 then returnM candidate
          else bindM (takenIn pool) (\<lambda>refreshed.
            allocate_loop a ev pool ownerID now left (Suc attempt) (insert candidate refreshed))))))"

definition allocateFrom :: "Allocator \<Rightarrow> alloc_env \<Rightarrow> prefix \<Rightarrow> string \<Rightarrow> instant \<Rightarrow> (db, addr) comp" where
  "allocateFrom a ev pool ownerID now = bindM (takenIn pool) (\<lambda>taken.
     allocate_loop a ev pool ownerID now maxAllocationAttempts 0 taken)"

fun collect_addresses :: "Assignment \<Rightarrow> string list \<Rightarrow> error + Assignment" where
  "collect_addresses as [] = Inr as"
| "collect_addresses as (text # rows) = (case ParseAddr text of
     None \<Rightarrow> Inl (ErrNew ''allocation table holds an unparseable address'')
   | Some addr \<Rightarrow> collect_addresses
       (if Is4 addr then as\<lparr>as_IPv4 := addr\<rparr> else as\<lparr>as_IPv6 := addr\<rparr>) rows)"

definition addressesOf :: "string \<Rightarrow> (db, Assignment) comp" where
  "addressesOf ownerID = bindM
     (mapErr (wrap (''reading the addresses of '' @ ownerID))
       (queryM (\<lambda>d. map a_address (filter (\<lambda>r. a_owner_id r = ownerID) (ip_allocations d)))))
     (\<lambda>rows. case collect_addresses no_assignment rows of Inl e \<Rightarrow> failM e | Inr as \<Rightarrow> returnM as)"

definition AddressesOf :: "string \<Rightarrow> (db, Assignment) comp" where
  "AddressesOf ownerID = addressesOf ownerID"

definition Allocate :: "Allocator \<Rightarrow> alloc_env \<Rightarrow> string \<Rightarrow> instant \<Rightarrow> (db, Assignment) comp" where
  "Allocate a ev ownerID now =
     (if ownerID = [] then failM (ErrNew ''network: an owner ID is required'')
      else bindM (addressesOf ownerID) (\<lambda>existing.
        if Addrs existing \<noteq> [] then failM (wrap ownerID ErrAlreadyAllocated)
        else bindM (mapErr (wrap ''allocating an IPv4 address'') (allocateFrom a ev (al_v4 a) ownerID now)) (\<lambda>v4.
          if IPv6Enabled a
          then bindM (mapErr (wrap ''allocating an IPv6 address'') (allocateFrom a ev (al_v6 a) ownerID now)) (\<lambda>v6.
            returnM \<lparr>as_IPv4 = v4, as_IPv6 = v6\<rparr>)
          else returnM \<lparr>as_IPv4 = v4, as_IPv6 = AddrInvalid\<rparr>)))"

definition Release :: "string \<Rightarrow> (db, nat) comp" where
  "Release ownerID = bindM
     (mapErr (wrap (''releasing the addresses of '' @ ownerID)) (execM (delete_allocations ownerID)))
     (\<lambda>result. mapErr (wrap (''releasing the addresses of '' @ ownerID)) (rowsAffected result))"

section \<open>The broadcast address\<close>

lemma lastAddr_loop_prefix:
  "i \<le> length xs \<Longrightarrow> lastAddr_loop i hb (xs @ ys) = lastAddr_loop i hb xs @ ys"
  by (induction i arbitrary: hb xs) (simp_all add: Let_def list_update_append nth_append)

lemma unat_ff: "n \<le> 8 \<Longrightarrow> unat (drop_bit (8 - n) (0xff :: byte)) = 2 ^ n - 1"
proof -
  assume "n \<le> 8"
  then have "n \<in> {0,1,2,3,4,5,6,7,8}" by auto
  then show ?thesis by (auto simp: unat_drop_bit_div)
qed

lemma or_low_bits:
  assumes "2 ^ n dvd unat b" "n \<le> 8"
  shows "unat (b OR drop_bit (8 - n) (0xff :: byte)) = unat b + (2 ^ n - 1)"
proof -
  obtain q where q: "unat b = 2 ^ n * q" using assms(1) by (auto simp: dvd_def)
  have "unat (b OR drop_bit (8 - n) 0xff) = unat b OR (2 ^ n - 1)"
    using unat_ff [OF assms(2)] by (simp add: unsigned_or_eq)
  also have "\<dots> = push_bit n q OR mask n"
    by (simp add: q push_bit_eq_mult mask_eq_exp_minus_1 mult.commute)
  also have "\<dots> = push_bit n q + mask n"
    by (rule disjunctive_add [symmetric]) (auto simp: bit_push_bit_iff bit_mask_iff)
  finally show ?thesis by (simp add: q push_bit_eq_mult mask_eq_exp_minus_1 mult.commute)
qed

lemma be_value_lastAddr_loop:
  "2 ^ hb dvd be_value bs \<Longrightarrow> hb \<le> 8 * length bs \<Longrightarrow>
    be_value (lastAddr_loop (length bs) hb bs) = be_value bs + (2 ^ hb - 1)"
proof (induction bs arbitrary: hb rule: rev_induct)
  case (snoc b bs)
  let ?n = "min 8 hb"
  have v: "2 ^ hb dvd be_value bs * 256 + unat b" using snoc.prems(1) by (simp add: be_value_append)
  have "(2::nat) ^ ?n dvd 256" using le_imp_power_dvd [of ?n 8 "2::nat"] by simp
  moreover have "(2::nat) ^ ?n dvd be_value bs * 256 + unat b"
    using v by (meson dvd_trans le_imp_power_dvd min.cobounded2)
  ultimately have low: "2 ^ ?n dvd unat b" by (metis dvd_add_right_iff dvd_mult)
  show ?case
  proof (cases "hb = 0")
    case False
    let ?b = "b OR drop_bit (8 - ?n) 0xff"
    have run: "lastAddr_loop (length (bs @ [b])) hb (bs @ [b]) =
        lastAddr_loop (length bs) (hb - ?n) bs @ [?b]"
      using False by (simp add: Let_def list_update_append lastAddr_loop_prefix)
    show ?thesis
    proof (cases "hb \<le> 8")
      case True
      then have z: "lastAddr_loop (length bs) (hb - ?n) bs = bs" by (cases bs rule: rev_cases) simp_all
      have "unat ?b = unat b + (2 ^ hb - 1)" using or_low_bits [OF low] True by (simp add: min_absorb2)
      then show ?thesis unfolding run z be_value_append by (simp only: add.assoc)
    next
      case big: False
      then have n: "?n = 8" by simp
      have "unat b = 0" using low n unat_byte_less [of b] by (auto simp: dvd_def)
      then have b: "unat ?b = 255" using or_low_bits [OF low] n by simp
      have "(2::nat) ^ hb = 2 ^ (hb - 8) * 256"
        using big power_add [of "2::nat" "hb - 8" 8] by simp
      then have pw: "2 ^ (hb - 8) dvd be_value bs" using v \<open>unat b = 0\<close> by simp
      have "be_value (lastAddr_loop (length bs) (hb - ?n) bs) = be_value bs + (2 ^ (hb - 8) - 1)"
        using snoc.IH [OF pw] snoc.prems(2) n by simp
      moreover obtain m where "(2::nat) ^ (hb - 8) = Suc m" by (metis not0_implies_Suc power_not_zero zero_neq_numeral)
      ultimately show ?thesis unfolding run be_value_append b
        using \<open>(2::nat) ^ hb = 2 ^ (hb - 8) * 256\<close> \<open>unat b = 0\<close> by simp
    qed
  qed (simp)
qed simp

lemma length_lastAddr_loop: "length (lastAddr_loop i hb bs) = length bs"
  by (induction i arbitrary: hb bs) (simp_all add: Let_def)

text \<open>The byte loop computes the highest address of the prefix.\<close>

lemma addr_nat_AsSlice: "be_value (AsSlice a) = addr_nat a"
  using unat32_less unat128_less
  by (cases a) (simp_all add: be_value_be_bytes be_value_horner [of "[]"])

lemma lastAddr_highest:
  assumes "prefix_IsValid p"
  shows "BitLen (lastAddr p) = BitLen (Addr p) \<and> Zone (lastAddr p) = [] \<and>
    addr_nat (lastAddr p) = prefix_base p + prefix_size p - 1"
proof -
  obtain a n where p: "p = Prefix a n" and a: "IsValid a" "n \<le> BitLen a" "Zone a = []" using assms by (cases p) auto
  let ?m = "masked_addr a n" and ?hb = "BitLen a - n"
  have base: "addr_nat ?m = addr_nat a div 2 ^ ?hb * 2 ^ ?hb" using a by (cases a) (simp_all add: unat_masked)
  have len: "length (AsSlice ?m) * 8 = BitLen a" using a by (cases a) simp_all
  have val: "be_value (lastAddr_loop (length (AsSlice ?m)) ?hb (AsSlice ?m)) = addr_nat ?m + (2 ^ ?hb - 1)"
    using be_value_lastAddr_loop [of ?hb "AsSlice ?m"] len by (simp add: addr_nat_AsSlice base)
  have "(256::nat) ^ length (AsSlice ?m) = 2 ^ BitLen a"
    using power_mult [of "2::nat" 8 "length (AsSlice ?m)"] len by (simp add: mult.commute)
  then have "addr_nat ?m + (2 ^ ?hb - 1) < 2 ^ BitLen a"
    using be_value_less [of "lastAddr_loop (length (AsSlice ?m)) ?hb (AsSlice ?m)"] val
    by (simp add: length_lastAddr_loop)
  then show ?thesis
    using val a len one_le_power [of "2::nat" ?hb]
    by (cases a) (simp_all add: lastAddr_def p Let_def AddrFromSlice_def length_lastAddr_loop
        prefix_base_def nat_diff_distrib unat_of_nat)
qed

section \<open>The scan for a free address\<close>

text \<open>The host addresses of a pool in ascending order: all but the network address.\<close>

definition pool_hosts :: "prefix \<Rightarrow> addr list" where
  "pool_hosts p = map (addr_like (Addr p)) [Suc (prefix_base p)..<prefix_base p + prefix_size p]"

definition usable :: "addr \<Rightarrow> addr set \<Rightarrow> addr \<Rightarrow> bool" where
  "usable broadcast taken a \<longleftrightarrow> \<not> (Is4 a \<and> a = broadcast) \<and> a \<notin> taken"

lemma prefix_end: "prefix_IsValid p \<Longrightarrow> prefix_base p + prefix_size p \<le> 2 ^ BitLen (Addr p)"
  using lastAddr_highest [of p] addr_nat_less [of "lastAddr p"] by (cases p) auto

lemma in_pool_hosts:
  assumes "prefix_IsValid p"
  shows "a \<in> set (pool_hosts p) \<longleftrightarrow> Contains p a \<and> a \<noteq> Addr (Masked p)"
proof -
  let ?b = "Addr p"
  have v: "IsValid ?b" using assms by (cases p) auto
  have like: "BitLen (addr_like ?b k) = BitLen ?b \<and> Zone (addr_like ?b k) = [] \<and> addr_nat (addr_like ?b k) = k"
    if "k < prefix_base p + prefix_size p" for k
    using that addr_like_facts [OF v, of k] prefix_end [OF assms] by auto
  have m: "BitLen (Addr (Masked p)) = BitLen ?b \<and> Zone (Addr (Masked p)) = [] \<and> addr_nat (Addr (Masked p)) = prefix_base p"
    using v by (cases p; cases ?b) (auto simp: prefix_base_def)
  show ?thesis
  proof
    assume "a \<in> set (pool_hosts p)"
    then obtain k where k: "a = addr_like ?b k" "prefix_base p < k" "k < prefix_base p + prefix_size p"
      by (auto simp: pool_hosts_def)
    with like [OF k(3)] m show "Contains p a \<and> a \<noteq> Addr (Masked p)"
      unfolding Contains_iff [OF assms] by auto
  next
    assume a: "Contains p a \<and> a \<noteq> Addr (Masked p)"
    then have k: "prefix_base p \<le> addr_nat a" "addr_nat a < prefix_base p + prefix_size p"
      "BitLen a = BitLen ?b" "Zone a = []" by (simp_all add: Contains_iff [OF assms])
    have eq: "addr_like ?b (addr_nat a) = a" by (rule addr_eqI) (use like [OF k(2)] k in auto)
    have "addr_nat a \<noteq> prefix_base p"
      using a m addr_eqI [of a "Addr (Masked p)"] k(3,4) by metis
    then have "addr_nat a \<in> set [Suc (prefix_base p)..<prefix_base p + prefix_size p]" using k by simp
    then have "addr_like ?b (addr_nat a) \<in> set (pool_hosts p)" unfolding pool_hosts_def set_map by (rule imageI)
    then show "a \<in> set (pool_hosts p)" unfolding eq .
  qed
qed

lemma free_loop_stop: "\<not> (IsValid addr \<and> Contains pool addr) \<Longrightarrow> free_loop pool bc taken limit addr free = free"
  by (subst free_loop.simps) (rule if_not_P)

lemma free_loop_step:
  "IsValid addr \<Longrightarrow> Contains pool addr \<Longrightarrow> free_loop pool bc taken limit addr free =
     (if usable bc taken addr then
        if Suc (length free) = limit then free @ [addr]
        else free_loop pool bc taken limit (Next addr) (free @ [addr])
      else free_loop pool bc taken limit (Next addr) free)"
  by (subst free_loop.simps) (auto simp: usable_def Let_def)

lemma word_of_nat_last: "k < 2 ^ LENGTH('a) \<Longrightarrow> word_of_nat k = (- 1 :: 'a::len word) \<longleftrightarrow> Suc k = 2 ^ LENGTH('a)"
  by (auto simp: word_unat_eq_iff unat_of_nat unsigned_minus_1_eq_mask mask_eq_exp_minus_1)

lemma Next_addr_like:
  assumes "IsValid b" "k < 2 ^ BitLen b"
  shows "Next (addr_like b k) = (if Suc k < 2 ^ BitLen b then addr_like b (Suc k) else AddrInvalid)"
proof (cases b)
  case (V4 w)
  then have "word_of_nat k = (- 1 :: 32 word) \<longleftrightarrow> \<not> Suc k < 2 ^ 32"
    using word_of_nat_last [where ?'a = 32, of k] assms by auto
  then show ?thesis unfolding V4 by (simp only: addr_like.simps Next.simps BitLen.simps of_nat_Suc add.commute split: if_split) simp
next
  case (V6 w z)
  then have "word_of_nat k = (- 1 :: 128 word) \<longleftrightarrow> \<not> Suc k < 2 ^ 128"
    using word_of_nat_last [where ?'a = 128, of k] assms by auto
  then show ?thesis unfolding V6 by (simp only: addr_like.simps Next.simps BitLen.simps of_nat_Suc add.commute split: if_split) simp
qed (use assms in simp)

lemma free_loop_walk:
  assumes "prefix_IsValid p" "prefix_base p \<le> k" "k \<le> prefix_base p + prefix_size p" "length free < limit"
    "addr = (if k < 2 ^ BitLen (Addr p) then addr_like (Addr p) k else AddrInvalid)"
  shows "free_loop p bc taken limit addr free = take limit (free @ filter (usable bc taken)
     (map (addr_like (Addr p)) [k..<prefix_base p + prefix_size p]))"
  using assms(2-5)
proof (induction "prefix_base p + prefix_size p - k" arbitrary: k free addr)
  case 0
  then have k: "k = prefix_base p + prefix_size p" by simp
  have "IsValid (Addr p)" using assms(1) by (cases p) auto
  then have "\<not> (IsValid addr \<and> Contains p addr)"
    using 0 k addr_like_facts [of "Addr p" k] by (auto simp: Contains_iff [OF assms(1)])
  with k 0 show ?case by (simp add: free_loop_stop)
next
  case (Suc m)
  have v: "IsValid (Addr p)" using assms(1) by (cases p) auto
  have k: "k < prefix_base p + prefix_size p" "k < 2 ^ BitLen (Addr p)"
    using Suc prefix_end [OF assms(1)] by linarith+
  note f = addr_like_facts [OF v k(2)]
  have addr: "addr = addr_like (Addr p) k" using Suc k by simp
  have nxt: "Next addr = (if Suc k < 2 ^ BitLen (Addr p) then addr_like (Addr p) (Suc k) else AddrInvalid)"
    using v k(2) Next_addr_like addr by blast
  have rec: "free_loop p bc taken limit (Next addr) fr = take limit (fr @ filter (usable bc taken)
     (map (addr_like (Addr p)) [Suc k..<prefix_base p + prefix_size p]))" if "length fr < limit" for fr
    by (rule Suc.hyps(1)) (use Suc k nxt that in auto)
  have up: "[k..<prefix_base p + prefix_size p] = k # [Suc k..<prefix_base p + prefix_size p]"
    using k by (simp add: upt_conv_Cons)
  have "IsValid addr" "Contains p addr"
    using f v k Suc.prems addr by (auto simp: Contains_iff [OF assms(1)] IsValid_BitLen)
  then show ?case using Suc.prems(3) rec [of free] rec [of "free @ [addr]"] unfolding up addr [symmetric]
    by (auto simp: free_loop_step addr [symmetric])
qed

lemma freeAddresses_eq:
  assumes "prefix_IsValid p" "0 < limit"
  shows "freeAddresses a p taken limit =
    take limit (filter (usable (al_v4Broadcast a) taken) (pool_hosts p))"
proof -
  have v: "IsValid (Addr p)" using assms(1) by (cases p) auto
  have pos: "0 < prefix_size p" using assms(1) by (cases p) auto
  have base: "prefix_base p < 2 ^ BitLen (Addr p)" using prefix_end [OF assms(1)] pos by linarith
  have m: "Addr (Masked p) = addr_like (Addr p) (prefix_base p)"
    using v base addr_like_facts [OF v base]
    by (intro addr_eqI; cases p; cases "Addr p") (auto simp: prefix_base_def)
  show ?thesis unfolding freeAddresses_def pool_hosts_def m Next_addr_like [OF v base]
    by (subst free_loop_walk [OF assms(1), where k = "Suc (prefix_base p)"]) (use assms pos in auto)
qed

lemma prefix_valid_Addr: "prefix_IsValid p \<Longrightarrow> IsValid (Addr p)"
  by (cases p) auto

lemma sorted_pool_hosts:
  assumes "prefix_IsValid p" shows "sorted_wrt (<) (pool_hosts p)"
proof -
  let ?f = "addr_like (Addr p)"
  have "?f i < ?f j" if "i < j" "j < prefix_base p + prefix_size p" for i j
  proof -
    have "j < 2 ^ BitLen (Addr p)" using that prefix_end [OF assms] by linarith
    with that addr_like_facts [OF prefix_valid_Addr [OF assms], of i] addr_like_facts [OF prefix_valid_Addr [OF assms], of j]
    show ?thesis by (simp add: less_addr_def less_eq_addr_def)
  qed
  then have "sorted_wrt (\<lambda>i j. ?f i < ?f j) [Suc (prefix_base p)..<prefix_base p + prefix_size p]"
    by (intro sorted_wrt_mono_rel [OF _ sorted_wrt_upt]) auto
  then show ?thesis by (simp add: pool_hosts_def sorted_wrt_map)
qed

section \<open>Candidates\<close>

lemma pickCandidate_set:
  "pickCandidate a rnd pool taken scatter = Inr c \<Longrightarrow> c \<in> set (freeAddresses a pool taken (if scatter then scatterWindow else 1))"
  by (auto simp: pickCandidate_def Let_def split: if_splits)

lemma pickCandidate_Inr:
  assumes "prefix_IsValid pool" "pickCandidate a rnd pool taken scatter = Inr c"
  shows "Contains pool c \<and> c \<noteq> Addr (Masked pool) \<and> usable (al_v4Broadcast a) taken c"
proof -
  define lim where "lim = (if scatter then scatterWindow else 1)"
  have lim: "0 < lim" by (simp add: lim_def scatterWindow_def)
  let ?free = "freeAddresses a pool taken lim"
  have "?free \<noteq> []" "c = ?free ! 0 \<or> c = ?free ! (rnd mod length ?free)"
    using assms(2) unfolding pickCandidate_def Let_def lim_def [symmetric] by (auto split: if_splits)
  then have "c \<in> set ?free" by auto
  then have "c \<in> set (filter (usable (al_v4Broadcast a) taken) (pool_hosts pool))"
    unfolding freeAddresses_eq [OF assms(1) lim] by (rule in_set_takeD)
  then show ?thesis by (simp add: in_pool_hosts [OF assms(1)])
qed

lemma pickCandidate_Inl:
  assumes "prefix_IsValid pool"
  shows "(\<exists>e. pickCandidate a rnd pool taken scatter = Inl e) \<longleftrightarrow>
    filter (usable (al_v4Broadcast a) taken) (pool_hosts pool) = []"
  using assms by (auto simp: pickCandidate_def Let_def freeAddresses_eq scatterWindow_def)

lemma pickCandidate_first:
  assumes "prefix_IsValid pool" "filter (usable (al_v4Broadcast a) taken) (pool_hosts pool) = c # cs"
  shows "pickCandidate a rnd pool taken False = Inr c"
  using assms by (simp add: pickCandidate_def Let_def freeAddresses_eq)

section \<open>Reading the table\<close>

lemma parse_taken_Inr:
  "parse_taken pool acc rows = Inr s \<longleftrightarrow> (\<forall>t \<in> set rows. ParseAddr t \<noteq> None) \<and>
     s = acc \<union> {a. Contains pool a \<and> (\<exists>t \<in> set rows. ParseAddr t = Some a)}"
  by (induction pool acc rows rule: parse_taken.induct) (auto split: option.splits if_splits)

lemma takenIn_frame: "takenIn pool w = (r, w') \<Longrightarrow> w_db w' = w_db w \<and> w_entropy w' = w_entropy w"
  unfolding takenIn_def
  by (auto simp: bindM_def mapErr_def returnM_def failM_def split: prod.splits res.splits sum.splits dest: queryM_frame)

definition read_in :: "prefix \<Rightarrow> alloc_row list \<Rightarrow> addr set" where
  "read_in pool t = {a. Contains pool a \<and> (\<exists>r \<in> set t. a_family r = familyOfPrefix pool \<and> ParseAddr (a_address r) = Some a)}"

lemma takenIn_Ret: "takenIn pool w = (Ret s, w') \<Longrightarrow> s = read_in pool (ip_allocations (w_db w))"
  unfolding takenIn_def read_in_def
  by (auto simp: bindM_Ret case_sum_Ret parse_taken_Inr dest!: queryM_Ret)

text \<open>Rows as the allocator writes them: the text of a valid address with its family.\<close>

definition alloc_row_ok :: "alloc_row \<Rightarrow> bool" where
  "alloc_row_ok r \<longleftrightarrow> (\<exists>a. IsValid a \<and> a_address r = addr_String a \<and> a_family r = familyOf a)"

definition alloc_ok :: "db \<Rightarrow> bool" where
  "alloc_ok d \<longleftrightarrow> distinct (map a_address (ip_allocations d)) \<and> (\<forall>r \<in> set (ip_allocations d). alloc_row_ok r)"

definition in_use :: "db \<Rightarrow> addr \<Rightarrow> bool" where
  "in_use d a \<longleftrightarrow> addr_String a \<in> a_address ` set (ip_allocations d)"

lemma Contains_valid: "Contains p a \<Longrightarrow> IsValid a \<and> BitLen a = BitLen (Addr p)"
  by (cases p; cases "Addr p"; cases a) auto

lemma familyOf_eq: "IsValid a \<Longrightarrow> IsValid b \<Longrightarrow> familyOf a = familyOf b \<longleftrightarrow> BitLen a = BitLen b"
  by (cases a; cases b) (auto simp: familyOf_def)

lemma read_in_rows:
  assumes "list_all alloc_row_ok t" "prefix_IsValid pool"
  shows "read_in pool t = {a. Contains pool a \<and> addr_String a \<in> a_address ` set t}"
proof -
  have "(\<exists>r \<in> set t. a_family r = familyOfPrefix pool \<and> ParseAddr (a_address r) = Some a) \<longleftrightarrow> addr_String a \<in> a_address ` set t"
    if c: "Contains pool a" for a
  proof -
    have v: "IsValid a" "familyOf a = familyOfPrefix pool"
      using Contains_valid [OF c] familyOf_eq [of a "Addr pool"] prefix_valid_Addr [OF assms(2)]
      by (simp_all add: familyOfPrefix_def)
    have "a_family r = familyOfPrefix pool \<and> ParseAddr (a_address r) = Some a \<longleftrightarrow> a_address r = addr_String a" if "r \<in> set t" for r
      using that assms(1) v ParseAddr_String addr_String_inj unfolding list_all_iff alloc_row_ok_def
      by (metis option.inject)
    then show ?thesis by (metis (no_types, lifting) image_iff)
  qed
  then show ?thesis unfolding read_in_def by blast
qed

lemma takenIn_in_use:
  assumes "takenIn pool w = (Ret s, w')" "alloc_ok (w_db w)" "prefix_IsValid pool"
  shows "s = {a. Contains pool a \<and> in_use (w_db w) a}"
  using takenIn_Ret [OF assms(1)] read_in_rows [OF _ assms(3)] assms(2) by (simp add: alloc_ok_def in_use_def list_all_iff)

lemma collect_addresses_Inr:
  "collect_addresses as rows = Inr as' \<Longrightarrow> Addrs as' = [] \<Longrightarrow> rows = []"
proof -
  have keep: "collect_addresses as rows = Inr as' \<Longrightarrow> Addrs as \<noteq> [] \<Longrightarrow> Addrs as' \<noteq> []" for as as' rows
    by (induction as rows rule: collect_addresses.induct)
       (auto simp: Addrs_def dest: ParseAddr_valid split: option.splits if_splits)
  have first: "collect_addresses as (t # ts) = Inr as' \<Longrightarrow> Addrs as' \<noteq> []" for t ts
  proof -
    assume run: "collect_addresses as (t # ts) = Inr as'"
    then obtain addr where a: "ParseAddr t = Some addr" by (auto split: option.splits)
    then have "Addrs (if Is4 addr then as\<lparr>as_IPv4 := addr\<rparr> else as\<lparr>as_IPv6 := addr\<rparr>) \<noteq> []"
      using ParseAddr_valid [OF a] by (simp add: Addrs_def)
    with run a keep show "Addrs as' \<noteq> []" by simp
  qed
  show "collect_addresses as rows = Inr as' \<Longrightarrow> Addrs as' = [] \<Longrightarrow> rows = []"
    using first by (cases rows) auto
qed

lemma addressesOf_frame: "addressesOf o1 w = (r, w') \<Longrightarrow> w_db w' = w_db w \<and> w_entropy w' = w_entropy w"
  unfolding addressesOf_def
  by (auto simp: bindM_def mapErr_def returnM_def failM_def split: prod.splits res.splits sum.splits dest: queryM_frame)

lemma addressesOf_none:
  assumes "addressesOf o1 w = (Ret as, w')" "Addrs as = []"
  shows "\<forall>r \<in> set (ip_allocations (w_db w)). a_owner_id r \<noteq> o1"
proof -
  have "collect_addresses no_assignment
      (map a_address (filter (\<lambda>r. a_owner_id r = o1) (ip_allocations (w_db w)))) = Inr as"
    using assms(1) unfolding addressesOf_def
    by (auto simp: bindM_Ret case_sum_Ret dest!: queryM_Ret)
  from collect_addresses_Inr [OF this assms(2)] show ?thesis by (auto simp: filter_empty_conv)
qed

section \<open>What an allocation does\<close>

definition add_allocations :: "alloc_row list \<Rightarrow> db \<Rightarrow> db" where
  "add_allocations rows d = d\<lparr>ip_allocations := ip_allocations d @ rows\<rparr>"

lemma add_allocations_append [simp]: "add_allocations ys (add_allocations xs d) = add_allocations (xs @ ys) d"
  by (simp add: add_allocations_def)

lemma add_allocations_Nil [simp]: "add_allocations [] d = d"
  by (simp add: add_allocations_def)

lemma ip_allocations_add [simp]: "ip_allocations (add_allocations xs d) = ip_allocations d @ xs"
  by (simp add: add_allocations_def)

lemma insert_allocation_eq:
  "insert_allocation r d = (if a_address r \<in> a_address ` set (ip_allocations d) then Inr (0, d)
     else Inr (1, add_allocations [r] d))"
  by (simp add: insert_allocation_def add_allocations_def)

text \<open>The database once rivals have committed what they do before the first \<open>n\<close> attempts.\<close>

definition rivalled :: "alloc_env \<Rightarrow> prefix \<Rightarrow> nat \<Rightarrow> db \<Rightarrow> db" where
  "rivalled ev pool n d = d\<lparr>ip_allocations := fold (ev_rivals ev (familyOfPrefix pool)) [0..<n] (ip_allocations d)\<rparr>"

lemma rivalled_0 [simp]: "rivalled ev pool 0 d = d"
  by (simp add: rivalled_def)

text \<open>
  A run that succeeds at attempt \<open>k\<close>, counted from attempt \<open>n\<close> on the table \<open>t\<close>: it chose among the free
  addresses of the table as it was last read, from which the address it had just lost is taken out, and
  no row held its choice in what rivals then left. The attempts before had lost theirs to a rival.
\<close>

definition chosen_from :: "Allocator \<Rightarrow> alloc_env \<Rightarrow> prefix \<Rightarrow> nat \<Rightarrow> addr set \<Rightarrow> alloc_row list \<Rightarrow> nat \<Rightarrow> addr set \<Rightarrow> bool" where
  "chosen_from a ev pool n taken t k used \<longleftrightarrow> (let F = ev_rivals ev (familyOfPrefix pool); u = fold F [n..<k] t in
     if k = n then used = taken
     else (\<exists>lost. used = insert lost (read_in pool u) \<and> addr_String lost \<in> a_address ` set u) \<and>
       (\<exists>cand. pickCandidate a (ev_rand ev (familyOfPrefix pool) n) pool taken (n > 0) = Inr cand \<and> addr_String cand \<in> a_address ` set (F n t)))"

lemma chosen_from_later:
  assumes "chosen_from a ev pool (Suc n) (insert cand (read_in pool (F n t))) (F n t) k used" "Suc n \<le> k" "F = ev_rivals ev (familyOfPrefix pool)"
    "pickCandidate a (ev_rand ev (familyOfPrefix pool) n) pool taken (n > 0) = Inr cand" "addr_String cand \<in> a_address ` set (F n t)"
  shows "chosen_from a ev pool n taken t k used"
proof -
  have fold: "fold F [n..<k] t = fold F [Suc n..<k] (F n t)" using assms(2) by (simp add: upt_conv_Cons)
  show ?thesis
    using assms unfolding chosen_from_def Let_def assms(3) [symmetric] fold by (cases "k = Suc n") auto
qed

lemma allocate_loop_Ret:
  assumes "prefix_IsValid pool"
    "allocate_loop a ev pool o1 now left n taken w = (Ret c, w')" "ip_allocations (w_db w) = t"
  defines "F \<equiv> ev_rivals ev (familyOfPrefix pool)"
  shows "\<exists>k used. n \<le> k \<and> k < n + left \<and> chosen_from a ev pool n taken t k used \<and>
     c \<in> set (freeAddresses a pool used (if 0 < k then scatterWindow else 1)) \<and>
     w_db w' = (w_db w)\<lparr>ip_allocations := fold F [n..<Suc k] t @ [new_allocation c o1 now]\<rparr> \<and>
     addr_String c \<notin> a_address ` set (fold F [n..<Suc k] t) \<and>
     Contains pool c \<and> c \<noteq> Addr (Masked pool) \<and> \<not> (Is4 c \<and> c = al_v4Broadcast a) \<and> w_entropy w' = w_entropy w"
  using assms(2,3)
proof (induction left arbitrary: n taken w t)
  case (Suc left)
  obtain cand where cand: "pickCandidate a (ev_rand ev (familyOfPrefix pool) n) pool taken (n > 0) = Inr cand"
    using Suc.prems(1) by (auto split: sum.splits)
  note pick = pickCandidate_Inr [OF assms(1) cand] pickCandidate_set [OF cand]
  define w1 where "w1 = w\<lparr>w_db := (w_db w)\<lparr>ip_allocations := F n t\<rparr>\<rparr>"
  obtain i w2 m w3 where ins: "execM (insert_allocation (new_allocation cand o1 now)) w1 = (Ret i, w2)"
    and rows: "rowsAffected i w2 = (Ret m, w3)"
    and rest: "(if m = 1 then returnM cand else bindM (takenIn pool) (\<lambda>refreshed.
       allocate_loop a ev pool o1 now left (Suc n) (insert cand refreshed))) w3 = (Ret c, w')"
    using Suc.prems cand by (auto simp: bindM_Ret rivals_commit_def w1_def F_def)
  have kn: "m = i" "w_db w3 = w_db w2" "w_entropy w3 = w_entropy w2"
    using rowsAffected_Ret [OF rows] rowsAffected_frame [OF rows] by auto
  have st: "insert_allocation (new_allocation cand o1 now) (w_db w1) = Inr (i, w_db w2)" "w_entropy w2 = w_entropy w"
    using execM_Ret [OF ins] by (auto simp: w1_def)
  show ?case
  proof (cases "addr_String cand \<in> a_address ` set (F n t)")
    case False
    then have "i = 1" "w_db w2 = add_allocations [new_allocation cand o1 now] (w_db w1)"
      using st(1) by (auto simp: insert_allocation_eq w1_def new_allocation_def)
    then have "c = cand" "w_db w' = (w_db w)\<lparr>ip_allocations := F n t @ [new_allocation c o1 now]\<rparr>" "w_entropy w' = w_entropy w"
      using rest kn st(2) by (auto simp: w1_def add_allocations_def)
    then show ?thesis using pick False by (intro exI [of _ n] exI [of _ taken]) (auto simp: usable_def chosen_from_def)
  next
    case True
    then have "i = 0" "w_db w2 = w_db w1" using st(1) by (auto simp: insert_allocation_eq w1_def new_allocation_def)
    with rest kn obtain refreshed w4 where r: "takenIn pool w3 = (Ret refreshed, w4)"
      and rec: "allocate_loop a ev pool o1 now left (Suc n) (insert cand refreshed) w4 = (Ret c, w')"
      by (auto simp: bindM_Ret)
    have w4: "w_db w4 = (w_db w)\<lparr>ip_allocations := F n t\<rparr>" "w_entropy w4 = w_entropy w" "refreshed = read_in pool (F n t)"
      using takenIn_frame [OF r] takenIn_Ret [OF r] kn st \<open>w_db w2 = w_db w1\<close> by (simp_all add: w1_def)
    then have "ip_allocations (w_db w4) = F n t" by simp
    from Suc.IH [OF rec this] obtain k used where k: "Suc n \<le> k" "k < Suc n + left"
      "chosen_from a ev pool (Suc n) (insert cand refreshed) (F n t) k used" "c \<in> set (freeAddresses a pool used (if 0 < k then scatterWindow else 1))"
      "w_db w' = (w_db w4)\<lparr>ip_allocations := fold F [Suc n..<Suc k] (F n t) @ [new_allocation c o1 now]\<rparr>"
      "addr_String c \<notin> a_address ` set (fold F [Suc n..<Suc k] (F n t))"
      "Contains pool c \<and> c \<noteq> Addr (Masked pool) \<and> \<not> (Is4 c \<and> c = al_v4Broadcast a)" "w_entropy w' = w_entropy w4"
      by blast
    have fold: "fold F [n..<Suc k] t = fold F [Suc n..<Suc k] (F n t)" using k(1) by (subst upt_conv_Cons) simp_all
    have "chosen_from a ev pool n taken t k used" using chosen_from_later [of a ev pool n cand F t k used taken] k(1,3) w4(3) cand True F_def by simp
    moreover have "w_db w' = (w_db w)\<lparr>ip_allocations := fold F [n..<Suc k] t @ [new_allocation c o1 now]\<rparr>" using k(5) w4(1) fold by simp
    moreover have "n \<le> k" "k < n + Suc left" "w_entropy w' = w_entropy w" using k(1,2,8) w4(2) by simp_all
    ultimately show ?thesis using k(4,7) k(6) [folded fold] by blast
  qed
qed simp

text \<open>The same from the first attempt on.\<close>

lemma allocateFrom_run:
  assumes "prefix_IsValid pool" "allocateFrom a ev pool o1 now w = (Ret c, w')"
  shows "\<exists>k used. k < maxAllocationAttempts \<and>
     chosen_from a ev pool 0 (read_in pool (ip_allocations (w_db w))) (ip_allocations (w_db w)) k used \<and>
     c \<in> set (freeAddresses a pool used (if 0 < k then scatterWindow else 1)) \<and>
     w_db w' = add_allocations [new_allocation c o1 now] (rivalled ev pool (Suc k) (w_db w)) \<and> \<not> in_use (rivalled ev pool (Suc k) (w_db w)) c \<and>
     Contains pool c \<and> c \<noteq> Addr (Masked pool) \<and> \<not> (Is4 c \<and> c = al_v4Broadcast a) \<and> w_entropy w' = w_entropy w"
proof -
  obtain taken w1 where r: "takenIn pool w = (Ret taken, w1)"
    and loop: "allocate_loop a ev pool o1 now maxAllocationAttempts 0 taken w1 = (Ret c, w')"
    using assms(2) unfolding allocateFrom_def by (auto simp: bindM_Ret)
  then have w1: "w_db w1 = w_db w" "w_entropy w1 = w_entropy w" "taken = read_in pool (ip_allocations (w_db w))"
    using takenIn_frame [OF r] takenIn_Ret [OF r] by auto
  have D: "add_allocations [new_allocation c o1 now] (rivalled ev pool n (w_db w)) =
      (w_db w)\<lparr>ip_allocations := fold (ev_rivals ev (familyOfPrefix pool)) [0..<n] (ip_allocations (w_db w)) @ [new_allocation c o1 now]\<rparr>"
    "in_use (rivalled ev pool n (w_db w)) c \<longleftrightarrow> addr_String c \<in> a_address ` set (fold (ev_rivals ev (familyOfPrefix pool)) [0..<n] (ip_allocations (w_db w)))" for n
    by (simp_all add: rivalled_def add_allocations_def in_use_def)
  show ?thesis
    using allocate_loop_Ret [OF assms(1) loop refl] unfolding w1 D by (simp only: add_0) blast
qed

section \<open>The allocator without rivals\<close>

definition quiet :: "(nat \<Rightarrow> nat) \<Rightarrow> alloc_env" where
  "quiet rnd = \<lparr>ev_rand = (\<lambda>_. rnd), ev_rivals = (\<lambda>_ _ t. t)\<rparr>"

lemma rivalled_quiet [simp]: "rivalled (quiet rnd) pool n d = d"
proof -
  have "fold (\<lambda>_ t. t) ns t = t" for ns :: "nat list" and t :: "alloc_row list" by (induction ns) simp_all
  then show ?thesis by (simp add: rivalled_def quiet_def)
qed

definition allocator_ok :: "Allocator \<Rightarrow> bool" where
  "allocator_ok a \<longleftrightarrow> pool4_ok (al_v4 a) \<and> (al_v6 a = NoPrefix \<or> pool6_ok (al_v6 a)) \<and>
     al_v4Broadcast a = lastAddr (al_v4 a)"

lemma pool_ok_valid: "pool_ok len lo hi res p \<Longrightarrow> prefix_IsValid p"
  by (simp add: pool_ok_def)

lemma NewAllocator_ok:
  "NewAllocator cfg w = (Ret a, w') \<longleftrightarrow> w' = w \<and> Network_Validate cfg = None \<and> allocator_ok a \<and>
     IPv4Pool cfg = Some (al_v4 a) \<and> (\<exists>en. IPv6Pool cfg = Some (al_v6 a, en))"
  (is "?lhs \<longleftrightarrow> ?rhs")
proof (cases "Network_Validate cfg = None")
  case True
  then obtain v4 v6 en where p: "IPv4Pool cfg = Some v4" "pool4_ok v4" "IPv6Pool cfg = Some (v6, en)"
    "en \<longrightarrow> pool6_ok v6" "\<not> en \<longrightarrow> v6 = NoPrefix"
    unfolding Network_Validate_iff by blast
  then have "NewAllocator cfg w = (Ret \<lparr>al_v4 = v4, al_v6 = v6, al_v4Broadcast = lastAddr v4\<rparr>, w)"
    using True by (auto simp: NewAllocator_def returnM_def)
  with p True show ?thesis by (cases a) (auto simp: allocator_ok_def)
qed (auto simp: NewAllocator_def failM_def split: option.splits)

lemma allocateFrom_Ret:
  assumes "prefix_IsValid pool" "allocateFrom a (quiet rnd) pool o1 now w = (Ret c, w')"
  shows "w_db w' = add_allocations [new_allocation c o1 now] (w_db w) \<and> \<not> in_use (w_db w) c \<and>
     Contains pool c \<and> c \<noteq> Addr (Masked pool) \<and> \<not> (Is4 c \<and> c = al_v4Broadcast a) \<and>
     w_entropy w' = w_entropy w"
  using allocateFrom_run [OF assms] by auto

lemma in_use_add: "in_use (add_allocations rs d) a \<longleftrightarrow> in_use d a \<or> addr_String a \<in> a_address ` set rs"
  by (auto simp: in_use_def)

text \<open>What a successful \<open>Allocate\<close> did.\<close>

lemma Allocate_Ret:
  assumes "allocator_ok a" "Allocate a (quiet rnd) o1 now w = (Ret as, w')"
  shows "w_db w' = add_allocations (map (\<lambda>c. new_allocation c o1 now) (Addrs as)) (w_db w) \<and>
     (\<forall>r \<in> set (ip_allocations (w_db w)). a_owner_id r \<noteq> o1) \<and> o1 \<noteq> [] \<and>
     (\<forall>c \<in> set (Addrs as). \<not> in_use (w_db w) c) \<and> w_entropy w' = w_entropy w \<and>
     Contains (al_v4 a) (as_IPv4 as) \<and> as_IPv4 as \<noteq> Addr (al_v4 a) \<and> as_IPv4 as \<noteq> lastAddr (al_v4 a) \<and>
     (if IPv6Enabled a then Contains (al_v6 a) (as_IPv6 as) \<and> as_IPv6 as \<noteq> Addr (al_v6 a)
      else as_IPv6 as = AddrInvalid)"
proof -
  have v4: "prefix_IsValid (al_v4 a)" "Masked (al_v4 a) = al_v4 a" "BitLen (Addr (al_v4 a)) = 32"
    using assms(1) by (auto simp: allocator_ok_def pool_ok_def)
  have v6: "Masked (al_v6 a) = al_v6 a" if "IPv6Enabled a"
    using assms(1) that by (auto simp: allocator_ok_def pool_ok_def IPv6Enabled_def)
  obtain ex w1 c4 w2 where o1: "o1 \<noteq> []" and ex: "addressesOf o1 w = (Ret ex, w1)" "Addrs ex = []"
    and a4: "allocateFrom a (quiet rnd) (al_v4 a) o1 now w1 = (Ret c4, w2)"
    and rest: "(if IPv6Enabled a
          then bindM (mapErr (wrap ''allocating an IPv6 address'') (allocateFrom a (quiet rnd) (al_v6 a) o1 now)) (\<lambda>v6.
            returnM \<lparr>as_IPv4 = c4, as_IPv6 = v6\<rparr>)
          else returnM \<lparr>as_IPv4 = c4, as_IPv6 = AddrInvalid\<rparr>) w2 = (Ret as, w')"
    using assms(2) unfolding Allocate_def by (auto simp: bindM_Ret split: if_splits)
  have w1: "w_db w1 = w_db w" "w_entropy w1 = w_entropy w" using addressesOf_frame [OF ex(1)] by auto
  note r4 = allocateFrom_Ret [OF v4(1) a4]
  have is4: "Is4 c4" "IsValid c4" using r4 Contains_valid v4(3) Is4_BitLen by auto
  note none = addressesOf_none [OF ex]
  show ?thesis
  proof (cases "IPv6Enabled a")
    case False
    with rest r4 w1 o1 none is4 v4 assms(1) show ?thesis by (auto simp: Addrs_def allocator_ok_def)
  next
    case True
    then have valid6: "prefix_IsValid (al_v6 a)" by (simp add: IPv6Enabled_def)
    obtain c6 where a6: "allocateFrom a (quiet rnd) (al_v6 a) o1 now w2 = (Ret c6, w')"
      and as: "as = \<lparr>as_IPv4 = c4, as_IPv6 = c6\<rparr>"
      using rest True by (auto simp: bindM_Ret)
    note r6 = allocateFrom_Ret [OF valid6 a6]
    have "IsValid c6" using r6 Contains_valid by blast
    with True r4 r6 w1 o1 none is4 v4 v6 assms(1) as show ?thesis
      by (auto simp: Addrs_def allocator_ok_def in_use_add)
  qed
qed

lemma Release_Ret:
  "Release o1 w = (Ret n, w') \<Longrightarrow>
     w_db w' = (w_db w)\<lparr>ip_allocations := filter (\<lambda>r. a_owner_id r \<noteq> o1) (ip_allocations (w_db w))\<rparr> \<and>
     w_entropy w' = w_entropy w"
  unfolding Release_def
  by (auto simp: bindM_Ret delete_allocations_def Let_def delete_where_def
      dest!: execM_Ret rowsAffected_frame)

section \<open>Totality\<close>

text \<open>The addresses of a pool that are still free, lowest first.\<close>

definition free_in :: "Allocator \<Rightarrow> prefix \<Rightarrow> db \<Rightarrow> addr list" where
  "free_in a pool d = filter (\<lambda>c. \<not> (Is4 c \<and> c = al_v4Broadcast a) \<and> \<not> in_use d c) (pool_hosts pool)"

lemma alloc_ok_parses: "alloc_ok d \<Longrightarrow> r \<in> set (ip_allocations d) \<Longrightarrow> \<exists>a. ParseAddr (a_address r) = Some a"
  by (auto simp: alloc_ok_def alloc_row_ok_def ParseAddr_String)

lemma calm_takenIn:
  assumes "w_faults w = []" "alloc_ok (w_db w)" "prefix_IsValid pool"
  shows "takenIn pool w = (Ret {a. Contains pool a \<and> in_use (w_db w) a}, w)"
proof -
  let ?rows = "map a_address (filter (\<lambda>r. a_family r = familyOfPrefix pool) (ip_allocations (w_db w)))"
  have "\<forall>t \<in> set ?rows. ParseAddr t \<noteq> None" using alloc_ok_parses [OF assms(2)] by auto
  then obtain s where "parse_taken pool {} ?rows = Inr s" using parse_taken_Inr by blast
  then have run: "takenIn pool w = (Ret s, w)"
    unfolding takenIn_def by (simp add: bindM_def mapErr_def calm_queryM [OF assms(1)] returnM_def)
  from takenIn_in_use [OF run assms(2,3)] run show ?thesis by simp
qed

lemma filter_usable_taken:
  "prefix_IsValid pool \<Longrightarrow> filter (usable (al_v4Broadcast a) {c. Contains pool c \<and> in_use d c}) (pool_hosts pool) = free_in a pool d"
  unfolding free_in_def by (rule filter_cong) (auto simp: usable_def in_pool_hosts)

text \<open>
  Without faults and rivals \<open>allocateFrom\<close> takes the lowest free address, and reports an
  exhausted pool exactly when there is none.
\<close>

lemma calm_allocateFrom:
  assumes "w_faults w = []" "alloc_ok (w_db w)" "prefix_IsValid pool"
  shows "allocateFrom a (quiet rnd) pool o1 now w = (case free_in a pool (w_db w) of
      [] \<Rightarrow> (Err (wrap (prefix_String pool) ErrPoolExhausted), w)
    | c # _ \<Rightarrow> (Ret c, w\<lparr>w_db := add_allocations [new_allocation c o1 now] (w_db w)\<rparr>))"
proof -
  let ?t = "{a. Contains pool a \<and> in_use (w_db w) a}"
  have start: "allocateFrom a (quiet rnd) pool o1 now w =
      allocate_loop a (quiet rnd) pool o1 now (Suc 31) 0 ?t w"
  proof -
    have "maxAllocationAttempts = Suc 31" by (simp add: maxAllocationAttempts_def)
    then show ?thesis unfolding allocateFrom_def bindM_def calm_takenIn [OF assms] by (simp only: prod.case res.case)
  qed
  show ?thesis
  proof (cases "free_in a pool (w_db w)")
    case Nil
    then have "freeAddresses a pool ?t 1 = []"
      by (simp add: freeAddresses_eq [OF assms(3)] filter_usable_taken [OF assms(3)])
    then have "pickCandidate a (rnd 0) pool ?t False = Inl (wrap (prefix_String pool) ErrPoolExhausted)"
      by (simp add: pickCandidate_def Let_def)
    with Nil show ?thesis unfolding start allocate_loop.simps by (simp add: quiet_def failM_def)
  next
    case (Cons c cs)
    have pick: "pickCandidate a (rnd 0) pool ?t False = Inr c"
      by (rule pickCandidate_first [OF assms(3)]) (simp add: filter_usable_taken [OF assms(3)] Cons)
    have "\<not> in_use (w_db w) c" using Cons unfolding free_in_def by (metis (no_types, lifting) filter_eq_ConsD)
    then have "execM (insert_allocation (new_allocation c o1 now)) w =
        (Ret 1, w\<lparr>w_db := add_allocations [new_allocation c o1 now] (w_db w)\<rparr>)"
      by (simp add: calm_execM [OF assms(1)] insert_allocation_eq in_use_def new_allocation_def)
    then have "allocate_loop a (quiet rnd) pool o1 now (Suc 31) 0 ?t w =
        (Ret c, w\<lparr>w_db := add_allocations [new_allocation c o1 now] (w_db w)\<rparr>)"
      using pick assms(1) unfolding allocate_loop.simps
      by (simp add: quiet_def rivals_commit_def bindM_def mapErr_def calm_rowsAffected returnM_def)
    with Cons show ?thesis unfolding start by simp
  qed
qed

lemma free_in_least:
  assumes "prefix_IsValid pool" "free_in a pool d = c # cs" "Contains pool b" "b \<noteq> Addr (Masked pool)"
    "\<not> (Is4 b \<and> b = al_v4Broadcast a)" "\<not> in_use d b"
  shows "c \<le> b"
proof -
  have "sorted_wrt (<) (free_in a pool d)" unfolding free_in_def by (intro sorted_wrt_filter sorted_pool_hosts assms)
  moreover have "b \<in> set (free_in a pool d)" using assms(3-6) in_pool_hosts [OF assms(1)] by (simp add: free_in_def)
  ultimately show ?thesis using assms(2) by auto
qed

lemma alloc_ok_add:
  assumes "alloc_ok d" "\<forall>c \<in> set cs. IsValid c \<and> \<not> in_use d c" "distinct cs"
  shows "alloc_ok (add_allocations (map (\<lambda>c. new_allocation c o1 now) cs) d)"
proof -
  have "distinct (map addr_String cs)"
    using assms(2,3) addr_String_inj by (auto simp: distinct_map inj_on_def)
  with assms show ?thesis
    unfolding alloc_ok_def alloc_row_ok_def in_use_def
    by (auto simp: new_allocation_def o_def image_iff) metis
qed

lemma calm_Allocate:
  assumes ok: "w_faults w = []" "alloc_ok (w_db w)" "allocator_ok a"
    and o1: "o1 \<noteq> []" "\<forall>r \<in> set (ip_allocations (w_db w)). a_owner_id r \<noteq> o1"
    and free: "free_in a (al_v4 a) (w_db w) \<noteq> []" "IPv6Enabled a \<longrightarrow> free_in a (al_v6 a) (w_db w) \<noteq> []"
  shows "\<exists>as. Allocate a (quiet rnd) o1 now w =
    (Ret as, w\<lparr>w_db := add_allocations (map (\<lambda>c. new_allocation c o1 now) (Addrs as)) (w_db w)\<rparr>)"
proof -
  have v4: "prefix_IsValid (al_v4 a)" "BitLen (Addr (al_v4 a)) = 32"
    using ok(3) by (auto simp: allocator_ok_def pool_ok_def)
  obtain c cs where c: "free_in a (al_v4 a) (w_db w) = c # cs" using free(1) by (cases "free_in a (al_v4 a) (w_db w)") auto
  then have cf: "c \<in> set (free_in a (al_v4 a) (w_db w))" by simp
  then have cc: "IsValid c" "\<not> in_use (w_db w) c" "Contains (al_v4 a) c" "BitLen c = 32"
    using v4 Contains_valid by (auto simp: free_in_def in_pool_hosts)
  let ?w = "w\<lparr>w_db := add_allocations [new_allocation c o1 now] (w_db w)\<rparr>"
  have ex: "addressesOf o1 w = (Ret no_assignment, w)"
    using o1(2) by (simp add: addressesOf_def bindM_def mapErr_def calm_queryM [OF ok(1)] returnM_def filter_False)
  have a4: "allocateFrom a (quiet rnd) (al_v4 a) o1 now w = (Ret c, ?w)"
    using calm_allocateFrom [OF ok(1,2) v4(1)] c by simp
  have run: "Allocate a (quiet rnd) o1 now w = (if IPv6Enabled a
          then bindM (mapErr (wrap ''allocating an IPv6 address'') (allocateFrom a (quiet rnd) (al_v6 a) o1 now)) (\<lambda>v6.
            returnM \<lparr>as_IPv4 = c, as_IPv6 = v6\<rparr>)
          else returnM \<lparr>as_IPv4 = c, as_IPv6 = AddrInvalid\<rparr>) ?w"
    using o1(1) by (simp add: Allocate_def bindM_def mapErr_def ex a4 Addrs_def no_assignment_def)
  show ?thesis
  proof (cases "IPv6Enabled a")
    case False
    then show ?thesis unfolding run
      by (intro exI [of _ "\<lparr>as_IPv4 = c, as_IPv6 = AddrInvalid\<rparr>"]) (simp add: returnM_def Addrs_def cc)
  next
    case True
    then have v6: "prefix_IsValid (al_v6 a)" "BitLen (Addr (al_v6 a)) = 128"
      using ok(3) by (auto simp: allocator_ok_def pool_ok_def IPv6Enabled_def)
    have ok': "alloc_ok (w_db ?w)" using alloc_ok_add [of "w_db w" "[c]"] ok(2) cc by simp
    have same: "free_in a (al_v6 a) (w_db ?w) = free_in a (al_v6 a) (w_db w)"
      unfolding free_in_def
    proof (rule filter_cong)
      fix b assume "b \<in> set (pool_hosts (al_v6 a))"
      then have "BitLen b = 128" "IsValid b" using Contains_valid v6 by (auto simp: in_pool_hosts)
      then have "addr_String b \<noteq> addr_String c" using cc addr_String_inj by fastforce
      then show "(\<not> (Is4 b \<and> b = al_v4Broadcast a) \<and> \<not> in_use (w_db ?w) b) =
          (\<not> (Is4 b \<and> b = al_v4Broadcast a) \<and> \<not> in_use (w_db w) b)"
        by (simp add: in_use_add new_allocation_def)
    qed simp
    obtain e es where e: "free_in a (al_v6 a) (w_db w) = e # es"
      using free(2) True by (cases "free_in a (al_v6 a) (w_db w)") auto
    then have "e \<in> set (free_in a (al_v6 a) (w_db w))" by simp
    then have "IsValid e" using v6 Contains_valid by (auto simp: free_in_def in_pool_hosts)
    moreover have "allocateFrom a (quiet rnd) (al_v6 a) o1 now ?w =
        (Ret e, ?w\<lparr>w_db := add_allocations [new_allocation e o1 now] (w_db ?w)\<rparr>)"
      using calm_allocateFrom [OF _ ok' v6(1)] ok(1) same e by simp
    ultimately show ?thesis unfolding run using True
      by (intro exI [of _ "\<lparr>as_IPv4 = c, as_IPv6 = e\<rparr>"])
         (simp add: bindM_def mapErr_def returnM_def Addrs_def cc)
  qed
qed

section \<open>The contract\<close>

text \<open>
  What the device store relies on: an allocation gives an owner that held nothing addresses
  that nobody held, a release takes all of an owner's addresses back, and neither touches
  another owner or anything but the allocations (\<open>rest\<close> is the part of the database outside
  them). From that alone no two owners ever share an address.
\<close>

locale address_pool =
  fixes ok :: "'d \<Rightarrow> bool" and held :: "'d \<Rightarrow> string \<Rightarrow> addr set" and rest :: "'d \<Rightarrow> 'r"
    and allocate :: "string \<Rightarrow> instant \<Rightarrow> ('d, Assignment) comp"
    and release :: "string \<Rightarrow> ('d, nat) comp"
  assumes allocate_ok: "ok (w_db w) \<Longrightarrow> allocate owner now w = (Ret as, w') \<Longrightarrow> ok (w_db w')"
    and allocate_new: "ok (w_db w) \<Longrightarrow> allocate owner now w = (Ret as, w') \<Longrightarrow> held (w_db w) owner = {}"
    and allocate_held: "ok (w_db w) \<Longrightarrow> allocate owner now w = (Ret as, w') \<Longrightarrow>
      held (w_db w') = (held (w_db w))(owner := set (Addrs as))"
    and allocate_fresh: "ok (w_db w) \<Longrightarrow> allocate owner now w = (Ret as, w') \<Longrightarrow>
      c \<in> set (Addrs as) \<Longrightarrow> c \<notin> held (w_db w) other"
    and allocate_some: "ok (w_db w) \<Longrightarrow> allocate owner now w = (Ret as, w') \<Longrightarrow> IsValid (as_IPv4 as)"
    and allocate_rest: "ok (w_db w) \<Longrightarrow> allocate owner now w = (Ret as, w') \<Longrightarrow> rest (w_db w') = rest (w_db w)"
    and release_ok: "ok (w_db w) \<Longrightarrow> release owner w = (Ret n, w') \<Longrightarrow> ok (w_db w')"
    and release_held: "ok (w_db w) \<Longrightarrow> release owner w = (Ret n, w') \<Longrightarrow>
      held (w_db w') = (held (w_db w))(owner := {})"
    and release_rest: "ok (w_db w) \<Longrightarrow> release owner w = (Ret n, w') \<Longrightarrow> rest (w_db w') = rest (w_db w)"
begin

definition exclusive :: "'d \<Rightarrow> bool" where
  "exclusive d \<longleftrightarrow> (\<forall>x y. x \<noteq> y \<longrightarrow> held d x \<inter> held d y = {})"

lemma allocate_exclusive:
  "ok (w_db w) \<Longrightarrow> exclusive (w_db w) \<Longrightarrow> allocate owner now w = (Ret as, w') \<Longrightarrow> exclusive (w_db w')"
  using allocate_fresh [of w owner now as w'] unfolding exclusive_def
  by (simp only: allocate_held [of w owner now as w']) auto

lemma release_exclusive:
  "ok (w_db w) \<Longrightarrow> exclusive (w_db w) \<Longrightarrow> release owner w = (Ret n, w') \<Longrightarrow> exclusive (w_db w')"
  unfolding exclusive_def by (simp only: release_held [of w owner n w']) auto

lemma allocate_nonempty: "ok (w_db w) \<Longrightarrow> allocate owner now w = (Ret as, w') \<Longrightarrow> held (w_db w') owner \<noteq> {}"
  using allocate_some [of w owner now as w'] by (simp add: allocate_held [of w owner now as w'] Addrs_def)

lemma allocate_then_release:
  assumes "ok (w_db w)" "allocate owner now w = (Ret as, w1)" "release owner w1 = (Ret n, w2)"
  shows "held (w_db w2) = held (w_db w)"
proof
  fix x
  have "ok (w_db w1)" using allocate_ok assms by blast
  then show "held (w_db w2) x = held (w_db w) x"
    using release_held [OF _ assms(3)] allocate_held [OF assms(1,2)] allocate_new [OF assms(1,2)] by simp
qed

end

definition held_by :: "db \<Rightarrow> string \<Rightarrow> addr set" where
  "held_by d owner = {a. IsValid a \<and> (\<exists>r \<in> set (ip_allocations d). a_owner_id r = owner \<and> a_address r = addr_String a)}"

definition outside_allocations :: "db \<Rightarrow> db" where
  "outside_allocations d = d\<lparr>ip_allocations := []\<rparr>"

lemma Addrs_distinct: "BitLen (as_IPv4 as) = 32 \<Longrightarrow> as_IPv6 as = AddrInvalid \<or> BitLen (as_IPv6 as) = 128 \<Longrightarrow>
    distinct (Addrs as) \<and> (\<forall>c \<in> set (Addrs as). IsValid c)"
  by (auto simp: Addrs_def IsValid_BitLen)

lemma Allocate_Addrs:
  assumes "allocator_ok a" "Allocate a (quiet rnd) o1 now w = (Ret as, w')"
  shows "distinct (Addrs as) \<and> (\<forall>c \<in> set (Addrs as). IsValid c) \<and> IsValid (as_IPv4 as)"
proof -
  note r = Allocate_Ret [OF assms]
  have len: "BitLen (Addr (al_v4 a)) = 32" "IPv6Enabled a \<Longrightarrow> BitLen (Addr (al_v6 a)) = 128"
    using assms(1) by (auto simp: allocator_ok_def pool_ok_def IPv6Enabled_def)
  have v: "BitLen (as_IPv4 as) = 32" "IsValid (as_IPv4 as)"
    using r Contains_valid [of "al_v4 a" "as_IPv4 as"] len by simp_all
  have "as_IPv6 as = AddrInvalid \<or> BitLen (as_IPv6 as) = 128"
    using r Contains_valid [of "al_v6 a" "as_IPv6 as"] len by (cases "IPv6Enabled a") simp_all
  with v Addrs_distinct show ?thesis by blast
qed

lemma new_allocation_sel [simp]:
  "a_address (new_allocation c o1 now) = addr_String c" "a_owner_id (new_allocation c o1 now) = o1"
  "a_family (new_allocation c o1 now) = familyOf c"
  by (simp_all add: new_allocation_def)

lemma held_by_add:
  "held_by (add_allocations (map (\<lambda>c. new_allocation c o1 now) cs) d) owner =
     held_by d owner \<union> (if owner = o1 then {a. IsValid a \<and> addr_String a \<in> addr_String ` set cs} else {})"
  by (auto simp: held_by_def bex_Un image_iff) metis

lemma addr_String_image: "\<forall>c \<in> set cs. IsValid c \<Longrightarrow> {a. IsValid a \<and> addr_String a \<in> addr_String ` set cs} = set cs"
  using addr_String_inj by blast

lemma alloc_ok_filter: "alloc_ok d \<Longrightarrow> alloc_ok (d\<lparr>ip_allocations := filter P (ip_allocations d)\<rparr>)"
  by (auto simp: alloc_ok_def distinct_map_filterI)

interpretation ipam: address_pool
  "\<lambda>d. alloc_ok d \<and> allocator_ok a" held_by outside_allocations "Allocate a (quiet rnd)" Release
  for a rnd
proof
  fix w :: "db world" and owner now as w'
  assume ok: "alloc_ok (w_db w) \<and> allocator_ok a" and run: "Allocate a (quiet rnd) owner now w = (Ret as, w')"
  note r = Allocate_Ret [OF conjunct2 [OF ok] run] and v = Allocate_Addrs [OF conjunct2 [OF ok] run]
  show "alloc_ok (w_db w') \<and> allocator_ok a" using r v ok alloc_ok_add by auto
  show none: "held_by (w_db w) owner = {}" using r by (auto simp: held_by_def)
  show "held_by (w_db w') = (held_by (w_db w))(owner := set (Addrs as))"
  proof
    fix x
    have "held_by (w_db w') x = held_by (w_db w) x \<union> (if x = owner then set (Addrs as) else {})"
      using r v addr_String_image [of "Addrs as"] by (simp add: held_by_add)
    with none show "held_by (w_db w') x = ((held_by (w_db w))(owner := set (Addrs as))) x" by simp
  qed
  show "c \<notin> held_by (w_db w) other" if "c \<in> set (Addrs as)" for c other
    using that r by (force simp: held_by_def in_use_def)
  show "IsValid (as_IPv4 as)" using v by simp
  show "outside_allocations (w_db w') = outside_allocations (w_db w)"
    using r by (simp add: outside_allocations_def add_allocations_def)
next
  fix w :: "db world" and owner n w'
  assume ok: "alloc_ok (w_db w) \<and> allocator_ok a" and run: "Release owner w = (Ret n, w')"
  note r = Release_Ret [OF run]
  show "alloc_ok (w_db w') \<and> allocator_ok a" using r ok alloc_ok_filter by simp
  show "held_by (w_db w') = (held_by (w_db w))(owner := {})" using r by (auto simp: held_by_def fun_eq_iff)
  show "outside_allocations (w_db w') = outside_allocations (w_db w)" using r by (simp add: outside_allocations_def)
qed
end
