(* ===== verification/Setup_Keys.thy ===== *)
theory Setup_Keys
  imports Auth_Tokens IPAM
begin

text \<open>
  Setup keys of package \<open>devices\<close> (\<open>internal/devices/setupkey.go\<close>) and the store they share
  with devices (\<open>store.go\<close>). \<open>st_lower\<close> is the Unicode lower-case table outside ASCII and
  \<open>st_IntN\<close> the values of \<open>rand.IntN\<close>, both parameters of the store.
\<close>

record Store =
  st_allocator :: Allocator
  st_lower :: "nat \<Rightarrow> nat"
  st_IntN :: "nat \<Rightarrow> nat"

text \<open>\<open>NewStore\<close>, for a database handle of any type: the database itself is part of the world.\<close>

definition NewStore :: "(nat \<Rightarrow> nat) \<Rightarrow> (nat \<Rightarrow> nat) \<Rightarrow> 'h option \<Rightarrow> Allocator option \<Rightarrow> error + Store" where
  "NewStore lower intN handle allocator = (case handle of
     None \<Rightarrow> Inl (ErrNew ''devices: a database handle is required'')
   | Some _ \<Rightarrow> (case allocator of
       None \<Rightarrow> Inl (ErrNew ''devices: an address allocator is required'')
     | Some a \<Rightarrow> Inr \<lparr>st_allocator = a, st_lower = lower, st_IntN = intN\<rparr>))"

section \<open>Keys\<close>

definition SetupKeyIDPrefix :: string where "SetupKeyIDPrefix = ''sk''"
definition setupKeyTokenBytes :: nat where "setupKeyTokenBytes = 32"
definition displayHintLength :: nat where "displayHintLength = 8"
definition DefaultExpiry :: duration where "DefaultExpiry = 7 * 24 * Hour"
definition maxDescriptionLength :: nat where "maxDescriptionLength = 200"

definition ErrKeyNotFound :: error where "ErrKeyNotFound = ErrNew ''no such setup key''"
definition ErrKeyRevoked :: error where "ErrKeyRevoked = ErrNew ''the setup key has been revoked''"
definition ErrKeyExpired :: error where "ErrKeyExpired = ErrNew ''the setup key has expired''"
definition ErrKeyExhausted :: error where
  "ErrKeyExhausted = ErrNew ''the setup key has been used the maximum number of times''"

lemmas key_errors = ErrKeyNotFound_def ErrKeyRevoked_def ErrKeyExpired_def ErrKeyExhausted_def

record SetupKey =
  sk_ID :: string
  sk_DisplayHint :: string
  sk_Description :: string
  sk_Tags :: "string list"
  sk_CreatedBy :: string
  sk_CreatedAt :: instant
  sk_ExpiresAt :: "instant option"
  sk_MaxUses :: int
  sk_Uses :: int
  sk_RevokedAt :: "instant option"
  sk_keyHash :: string

definition key_Revoked :: "SetupKey \<Rightarrow> bool" where
  "key_Revoked k \<longleftrightarrow> sk_RevokedAt k \<noteq> None"

definition key_Expired :: "SetupKey \<Rightarrow> instant \<Rightarrow> bool" where
  "key_Expired k now \<longleftrightarrow> (case sk_ExpiresAt k of None \<Rightarrow> False | Some t \<Rightarrow> \<not> now < t)"

definition key_Exhausted :: "SetupKey \<Rightarrow> bool" where
  "key_Exhausted k \<longleftrightarrow> 0 < sk_MaxUses k \<and> sk_MaxUses k \<le> sk_Uses k"

definition SingleUse :: "SetupKey \<Rightarrow> bool" where
  "SingleUse k \<longleftrightarrow> sk_MaxUses k = 1"

definition Redeemable :: "SetupKey \<Rightarrow> instant \<Rightarrow> error option" where
  "Redeemable k now = (if key_Revoked k then Some ErrKeyRevoked
     else if key_Expired k now then Some ErrKeyExpired
     else if key_Exhausted k then Some ErrKeyExhausted
     else None)"

text \<open>
  What \<open>fmt\<close> prints of a key (\<open>String\<close> and \<open>GoString\<close>): the identifier, the hint and the
  counters, never the hash.
\<close>

definition Itoa_int :: "int \<Rightarrow> string" where
  "Itoa_int n = (if n < 0 then CHR ''-'' # Itoa (nat (- n)) else Itoa (nat n))"

definition key_String :: "SetupKey \<Rightarrow> string" where
  "key_String k = ''SetupKey{ID:'' @ sk_ID k @ '' Hint:'' @ sk_DisplayHint k @ '' Uses:'' @
     Itoa_int (sk_Uses k) @ ''/'' @ Itoa_int (sk_MaxUses k) @ ''}''"

definition key_GoString :: "SetupKey \<Rightarrow> string" where
  "key_GoString k = key_String k"

record NewSetupKey =
  nk_Description :: string
  nk_Tags :: "string list"
  nk_ExpiresIn :: duration
  nk_NeverExpires :: bool
  nk_MaxUses :: int

record IssuedSetupKey =
  ik_Key :: SetupKey
  ik_Token :: string

section \<open>Text\<close>

fun normalise_from :: "(nat \<Rightarrow> nat) \<Rightarrow> string set \<Rightarrow> string list \<Rightarrow> string list" where
  "normalise_from lc seen [] = []"
| "normalise_from lc seen (t # ts) = (let tag = ToLower lc (TrimSpace t) in
     if tag = [] then normalise_from lc seen ts
     else if tag \<in> seen then normalise_from lc seen ts
     else tag # normalise_from lc (insert tag seen) ts)"

definition normaliseTags :: "(nat \<Rightarrow> nat) \<Rightarrow> string list \<Rightarrow> string list" where
  "normaliseTags lc tags = normalise_from lc {} tags"

definition splitTags :: "(nat \<Rightarrow> nat) \<Rightarrow> string \<Rightarrow> string list" where
  "splitTags lc joined = (if joined = [] then [] else normaliseTags lc (Split (CHR '','') joined))"

definition truncate_str :: "string \<Rightarrow> nat \<Rightarrow> string" where
  "truncate_str s limit = (let rs = runes s in
     if length rs \<le> limit then s else string_of_runes (take limit rs))"

section \<open>Statements\<close>

definition insert_setup_key :: "key_row \<Rightarrow> db \<Rightarrow> sql_code + nat \<times> db" where
  "insert_setup_key r d =
     (if k_id r \<in> k_id ` set (setup_keys d) \<or> k_key_hash r \<in> k_key_hash ` set (setup_keys d)
      then Inl UniqueViolation
      else if k_created_by r \<notin> u_id ` set (users d) then Inl ForeignKeyViolation
      else Inr (1, d\<lparr>setup_keys := setup_keys d @ [r]\<rparr>))"

definition update_setup_keys :: "(key_row \<Rightarrow> bool) \<Rightarrow> (key_row \<Rightarrow> key_row) \<Rightarrow> db \<Rightarrow> sql_code + nat \<times> db" where
  "update_setup_keys P f d = (let (n, t) = update_where P f (setup_keys d) in Inr (n, d\<lparr>setup_keys := t\<rparr>))"

definition scanSetupKey :: "Store \<Rightarrow> key_row \<Rightarrow> SetupKey" where
  "scanSetupKey s r = \<lparr>sk_ID = k_id r, sk_DisplayHint = k_display_hint r, sk_Description = k_description r,
     sk_Tags = splitTags (st_lower s) (k_tags r), sk_CreatedBy = k_created_by r, sk_CreatedAt = k_created_at r,
     sk_ExpiresAt = k_expires_at r, sk_MaxUses = k_max_uses r, sk_Uses = k_uses r,
     sk_RevokedAt = k_revoked_at r, sk_keyHash = k_key_hash r\<rparr>"

section \<open>Operations\<close>

definition CreateSetupKey :: "Store \<Rightarrow> string \<Rightarrow> NewSetupKey \<Rightarrow> instant \<Rightarrow> (db, IssuedSetupKey) comp" where
  "CreateSetupKey s createdBy inp now =
     (if createdBy = [] then failM (ErrNew ''devices: a creating user is required'')
      else if nk_MaxUses inp < 0 then failM (ErrNew ''devices: max uses must not be negative'')
      else if nk_ExpiresIn inp < 0 then failM (ErrNew ''devices: expiry must not be negative'')
      else bindM (NewToken setupKeyTokenBytes) (\<lambda>token.
        bindM (NewID SetupKeyIDPrefix) (\<lambda>ident.
        let lifetime = (if nk_ExpiresIn inp = 0 then DefaultExpiry else nk_ExpiresIn inp);
            key = \<lparr>sk_ID = ident, sk_DisplayHint = take displayHintLength token,
              sk_Description = truncate_str (TrimSpace (nk_Description inp)) maxDescriptionLength,
              sk_Tags = normaliseTags (st_lower s) (nk_Tags inp), sk_CreatedBy = createdBy, sk_CreatedAt = now,
              sk_ExpiresAt = (if nk_NeverExpires inp then None else Some (time_Add now lifetime)),
              sk_MaxUses = nk_MaxUses inp, sk_Uses = 0, sk_RevokedAt = None, sk_keyHash = HashToken token\<rparr> in
        bindM (mapErr (wrap ''creating the setup key'') (execM (insert_setup_key
            \<lparr>k_id = sk_ID key, k_key_hash = sk_keyHash key, k_display_hint = sk_DisplayHint key,
             k_description = sk_Description key, k_tags = Join (CHR '','') (sk_Tags key),
             k_created_by = sk_CreatedBy key, k_created_at = sk_CreatedAt key, k_expires_at = sk_ExpiresAt key,
             k_max_uses = sk_MaxUses key, k_uses = 0, k_revoked_at = None\<rparr>))) (\<lambda>_.
        returnM \<lparr>ik_Key = key, ik_Token = token\<rparr>))))"

definition oneSetupKey :: "Store \<Rightarrow> (key_row \<Rightarrow> bool) \<Rightarrow> (db, SetupKey) comp" where
  "oneSetupKey s P = bindM (mapErr (wrap ''reading the setup key'') (queryM (\<lambda>d. find P (setup_keys d))))
     (\<lambda>row. case row of None \<Rightarrow> failM ErrKeyNotFound | Some r \<Rightarrow> returnM (scanSetupKey s r))"

definition SetupKeyByToken :: "Store \<Rightarrow> string \<Rightarrow> (db, SetupKey) comp" where
  "SetupKeyByToken s token = (if token = [] then failM ErrKeyNotFound
     else oneSetupKey s (\<lambda>r. k_key_hash r = HashToken token))"

definition SetupKeyByID :: "Store \<Rightarrow> string \<Rightarrow> (db, SetupKey) comp" where
  "SetupKeyByID s ident = oneSetupKey s (\<lambda>r. k_id r = ident)"

definition setupKeyByIDTx :: "Store \<Rightarrow> string \<Rightarrow> (db, SetupKey) comp" where
  "setupKeyByIDTx s ident = oneSetupKey s (\<lambda>r. k_id r = ident)"

definition ListSetupKeys :: "Store \<Rightarrow> (db, SetupKey list) comp" where
  "ListSetupKeys s = bindM (mapErr (wrap ''listing setup keys'')
       (queryM (\<lambda>d. newest_first k_created_at k_id (setup_keys d))))
     (\<lambda>rows. returnM (map (scanSetupKey s) rows))"

definition RevokeSetupKey :: "Store \<Rightarrow> string \<Rightarrow> instant \<Rightarrow> (db, unit) comp" where
  "RevokeSetupKey s ident now =
     bindM (mapErr (wrap ''revoking the setup key'')
       (execM (update_setup_keys (\<lambda>r. k_id r = ident \<and> k_revoked_at r = None) (\<lambda>r. r\<lparr>k_revoked_at := Some now\<rparr>))))
     (\<lambda>result. bindM (tryM (rowsAffected result)) (\<lambda>affected.
       if affected = Inr 0 then bindM (SetupKeyByID s ident) (\<lambda>_. returnM ()) else returnM ()))"

text \<open>The condition of the redeeming UPDATE.\<close>

definition redeemable_row :: "string \<Rightarrow> instant \<Rightarrow> key_row \<Rightarrow> bool" where
  "redeemable_row ident now r \<longleftrightarrow> k_id r = ident \<and> k_revoked_at r = None \<and>
     (case k_expires_at r of None \<Rightarrow> True | Some t \<Rightarrow> now < t) \<and> (k_max_uses r = 0 \<or> k_uses r < k_max_uses r)"

definition consumeSetupKey :: "Store \<Rightarrow> SetupKey \<Rightarrow> instant \<Rightarrow> (db, SetupKey) comp" where
  "consumeSetupKey s key now =
     bindM (mapErr (wrap ''consuming the setup key'')
       (execM (update_setup_keys (redeemable_row (sk_ID key) now) (\<lambda>r. r\<lparr>k_uses := k_uses r + 1\<rparr>)))) (\<lambda>result.
     bindM (mapErr (wrap ''consuming the setup key'') (rowsAffected result)) (\<lambda>affected.
     if affected = 0 then
       bindM (setupKeyByIDTx s (sk_ID key)) (\<lambda>fresh.
         case Redeemable fresh now of Some reason \<Rightarrow> failM reason | None \<Rightarrow> failM ErrKeyExhausted)
     else returnM (key\<lparr>sk_Uses := sk_Uses key + 1\<rparr>)))"

section \<open>Bounded text\<close>

text \<open>Truncation keeps the first runes, and never more of them than the limit.\<close>

lemma runes_truncate_str: "runes (truncate_str s limit) = take limit (runes s)"
proof -
  have "\<forall>r \<in> set (take limit (runes s)). valid_rune r" using runes_valid in_set_takeD by metis
  then show ?thesis by (simp add: truncate_str_def Let_def runes_string_of_runes)
qed

section \<open>Tags\<close>

text \<open>What is assumed of the Unicode lower-case table beyond ASCII.\<close>

definition lower_table_ok :: "(nat \<Rightarrow> nat) \<Rightarrow> bool" where
  "lower_table_ok lc \<longleftrightarrow> (\<forall>r. 0x80 \<le> r \<longrightarrow> valid_rune r \<longrightarrow>
     valid_rune (lc r) \<and> lower_rune lc (lc r) = lc r \<and> is_space (lc r) = is_space r)"

lemma lower_rune_facts:
  assumes "lower_table_ok lc" "valid_rune r"
  shows "valid_rune (lower_rune lc r)" "lower_rune lc (lower_rune lc r) = lower_rune lc r"
    "is_space (lower_rune lc r) = is_space r"
  using assms by (auto simp: lower_table_ok_def lower_rune_def valid_rune_small is_space_def)

lemma chunks_ToLower:
  assumes "lower_table_ok lc"
  shows "chunks (ToLower lc s) = map (\<lambda>r. (lower_rune lc r, encode_rune (lower_rune lc r))) (runes s)"
  unfolding ToLower_def using assms runes_valid lower_rune_facts(1)
  by (subst chunks_string_of_runes) auto

lemma TrimSpace_ToLower_TrimSpace:
  assumes "lower_table_ok lc"
  shows "TrimSpace (ToLower lc (TrimSpace s)) = ToLower lc (TrimSpace s)"
proof -
  let ?t = "TrimSpace s"
  let ?cs = "chunks (ToLower lc ?t)"
  have cs: "?cs = map (\<lambda>r. (lower_rune lc r, encode_rune (lower_rune lc r))) (runes ?t)"
    by (rule chunks_ToLower [OF assms])
  have ends: "chunks ?t = [] \<or> \<not> is_space (fst (hd (chunks ?t))) \<and> \<not> is_space (fst (last (chunks ?t)))"
    unfolding chunks_TrimSpace by (rule trim_chunks_ends)
  have "trim_chunks ?cs = ?cs"
  proof (rule trim_chunks_id)
    show "?cs = [] \<or> \<not> is_space (fst (hd ?cs)) \<and> \<not> is_space (fst (last ?cs))"
    proof (cases "chunks ?t = []")
      case False
      then have ne: "runes ?t \<noteq> []" by (simp add: runes_def)
      have "valid_rune (hd (runes ?t))" "valid_rune (last (runes ?t))"
        using ne runes_valid by (metis hd_in_set, metis last_in_set)
      with ends False ne show ?thesis
        unfolding cs by (simp add: hd_map last_map lower_rune_facts [OF assms] runes_def)
    next
      case True
      then have "runes ?t = []" by (simp add: runes_def)
      then have "?cs = []" unfolding cs by simp
      then show ?thesis ..
    qed
  qed
  then show ?thesis unfolding TrimSpace_def [of "ToLower lc ?t"] using concat_chunks by simp
qed

lemma ToLower_idem: "lower_table_ok lc \<Longrightarrow> ToLower lc (ToLower lc s) = ToLower lc s"
proof -
  assume lc: "lower_table_ok lc"
  have "map (lower_rune lc \<circ> lower_rune lc) (runes s) = map (lower_rune lc) (runes s)"
    using runes_valid lower_rune_facts(2) [OF lc] by simp
  moreover have "runes (ToLower lc s) = map (lower_rune lc) (runes s)"
    unfolding ToLower_def using runes_valid lower_rune_facts(1) [OF lc] by (intro runes_string_of_runes) auto
  ultimately show ?thesis
    unfolding ToLower_def [of lc "ToLower lc s"] by (simp only: map_map) (simp only: ToLower_def)
qed

definition normal_tag :: "(nat \<Rightarrow> nat) \<Rightarrow> string \<Rightarrow> bool" where
  "normal_tag lc t \<longleftrightarrow> t \<noteq> [] \<and> ToLower lc (TrimSpace t) = t"

lemma normal_tag_lower:
  "lower_table_ok lc \<Longrightarrow> ToLower lc (TrimSpace t) \<noteq> [] \<Longrightarrow> normal_tag lc (ToLower lc (TrimSpace t))"
  by (simp add: normal_tag_def TrimSpace_ToLower_TrimSpace ToLower_idem)

lemma normalise_from_facts:
  "lower_table_ok lc \<Longrightarrow> distinct (normalise_from lc seen ts) \<and> set (normalise_from lc seen ts) \<inter> seen = {} \<and>
     (\<forall>t \<in> set (normalise_from lc seen ts). normal_tag lc t)"
  by (induction lc seen ts rule: normalise_from.induct)
     (auto simp: Let_def normal_tag_lower)

lemma normalise_from_id:
  "distinct ts \<Longrightarrow> set ts \<inter> seen = {} \<Longrightarrow> \<forall>t \<in> set ts. normal_tag lc t \<Longrightarrow> normalise_from lc seen ts = ts"
  by (induction lc seen ts rule: normalise_from.induct) (auto simp: Let_def normal_tag_def)

text \<open>Tags without a comma survive being stored: joined into one column and split again.\<close>

lemma splitTags_Join:
  assumes "lower_table_ok lc" "\<forall>t \<in> set (normaliseTags lc tags). CHR '','' \<notin> set t"
  shows "splitTags lc (Join (CHR '','') (normaliseTags lc tags)) = normaliseTags lc tags"
proof (cases "normaliseTags lc tags = []")
  case False
  note f = normalise_from_facts [OF assms(1), of "{}" tags, folded normaliseTags_def]
  have "Join (CHR '','') ts \<noteq> []" if "ts \<noteq> []" "\<forall>t \<in> set ts. t \<noteq> []" for ts
    using that by (cases ts; cases "tl ts") auto
  then have "Join (CHR '','') (normaliseTags lc tags) \<noteq> []" using False f by (auto simp: normal_tag_def)
  then show ?thesis
    using False f assms(2) normalise_from_id [of "normaliseTags lc tags" "{}" lc]
    by (simp add: splitTags_def Split_Join) (simp add: normaliseTags_def)
qed (simp add: splitTags_def)

section \<open>Rows\<close>

definition keys_ok :: "db \<Rightarrow> bool" where
  "keys_ok d \<longleftrightarrow> (\<forall>r \<in> set (setup_keys d). 0 \<le> k_max_uses r \<and> 0 \<le> k_uses r \<and>
     (0 < k_max_uses r \<longrightarrow> k_uses r \<le> k_max_uses r))"

text \<open>The redeeming UPDATE selects a row just when \<open>Redeemable\<close> has no objection to it.\<close>

lemma redeemable_row_iff:
  "0 \<le> k_max_uses r \<Longrightarrow> redeemable_row ident now r \<longleftrightarrow>
     k_id r = ident \<and> Redeemable (scanSetupKey s r) now = None"
  by (auto simp: redeemable_row_def Redeemable_def key_Revoked_def key_Expired_def key_Exhausted_def
      scanSetupKey_def split: option.splits)

lemma oneSetupKey_frame: "oneSetupKey s P w = (r, w') \<Longrightarrow> w_db w' = w_db w \<and> w_entropy w' = w_entropy w"
  unfolding oneSetupKey_def
  by (auto simp: bindM_def mapErr_def returnM_def failM_def split: prod.splits res.splits option.splits dest: queryM_frame)

lemma case_option_Ret:
  "(case v of None \<Rightarrow> failM e | Some x \<Rightarrow> returnM (f x)) w = (Ret y, w') \<longleftrightarrow> (\<exists>x. v = Some x \<and> y = f x) \<and> w' = w"
  by (cases v) auto

lemma case_option_fail [simp]:
  "(case v of None \<Rightarrow> failM e | Some x \<Rightarrow> failM (f x)) w \<noteq> (Ret y, w')"
  by (cases v) auto

lemma oneSetupKey_Ret:
  "oneSetupKey s P w = (Ret k, w') \<Longrightarrow> \<exists>r. find P (setup_keys (w_db w)) = Some r \<and> k = scanSetupKey s r"
  unfolding oneSetupKey_def by (auto simp: bindM_Ret case_option_Ret dest!: queryM_Ret)

lemma consumeSetupKey_Ret:
  assumes "consumeSetupKey s key now w = (Ret key', w')"
  shows "(\<exists>r \<in> set (setup_keys (w_db w)). redeemable_row (sk_ID key) now r) \<and>
    w_db w' = (w_db w)\<lparr>setup_keys := map (\<lambda>r. if redeemable_row (sk_ID key) now r then r\<lparr>k_uses := k_uses r + 1\<rparr> else r)
      (setup_keys (w_db w))\<rparr> \<and> w_entropy w' = w_entropy w"
proof -
  obtain n w1 k w2 where up: "execM (update_setup_keys (redeemable_row (sk_ID key) now) (\<lambda>r. r\<lparr>k_uses := k_uses r + 1\<rparr>)) w = (Ret n, w1)"
    and ra: "rowsAffected n w1 = (Ret k, w2)"
    and rest: "(if k = 0 then
       bindM (setupKeyByIDTx s (sk_ID key)) (\<lambda>fresh.
         case Redeemable fresh now of Some reason \<Rightarrow> failM reason | None \<Rightarrow> failM ErrKeyExhausted)
     else returnM (key\<lparr>sk_Uses := sk_Uses key + 1\<rparr>)) w2 = (Ret key', w')"
    using assms unfolding consumeSetupKey_def by (auto simp: bindM_Ret)
  have "k \<noteq> 0" using rest by (cases "k = 0") (auto simp: bindM_Ret)
  moreover have "k = n" using rowsAffected_Ret [OF ra] .
  ultimately show ?thesis
    using execM_Ret [OF up] rowsAffected_frame [OF ra] rest
    by (auto simp: update_setup_keys_def update_where_def filter_empty_conv)
qed
end
