(* ===== verification/Devices.thy ===== *)
theory Devices
  imports Setup_Keys
begin

text \<open>
  The device inventory (\<open>internal/devices/device.go\<close>) and device credentials
  (\<open>internal/devices/token.go\<close>). \<open>create\<close> redeems the setup key, allocates the addresses and
  writes the device and its credential in one transaction; \<open>Revoke\<close> undoes the last three in
  another.
\<close>

section \<open>Devices\<close>

definition DeviceIDPrefix :: string where "DeviceIDPrefix = ''dev''"
definition wireGuardKeyLength :: nat where "wireGuardKeyLength = 32"
definition maxNameLength :: nat where "maxNameLength = 64"
definition maxMetadataLength :: nat where "maxMetadataLength = 128"

definition ErrDeviceNotFound :: error where "ErrDeviceNotFound = ErrNew ''no such device''"
definition ErrPublicKeyTaken :: error where "ErrPublicKeyTaken = ErrNew ''that public key is already registered''"
definition ErrInvalidPublicKey :: error where
  "ErrInvalidPublicKey = ErrNew ''that is not a valid WireGuard public key''"
definition ErrInvalidName :: error where "ErrInvalidName = ErrNew ''the device needs a name''"
definition ErrDeviceRevoked :: error where "ErrDeviceRevoked = ErrNew ''the device has been revoked''"

record Device =
  dv_ID :: string
  dv_UserID :: string
  dv_Name :: string
  dv_PublicKey :: string
  dv_OS :: string
  dv_Hostname :: string
  dv_IPv4 :: addr
  dv_IPv6 :: addr
  dv_EnrolledWith :: string
  dv_CreatedAt :: instant
  dv_LastSeenAt :: "instant option"
  dv_RevokedAt :: "instant option"

definition Revoked :: "Device \<Rightarrow> bool" where
  "Revoked d \<longleftrightarrow> dv_RevokedAt d \<noteq> None"

definition device_Addrs :: "Device \<Rightarrow> addr list" where
  "device_Addrs d = (if IsValid (dv_IPv4 d) then [dv_IPv4 d] else []) @ (if IsValid (dv_IPv6 d) then [dv_IPv6 d] else [])"

definition ValidatePublicKey :: "string \<Rightarrow> error option" where
  "ValidatePublicKey key = (let trimmed = TrimSpace key in
     if trimmed = [] then Some (wrap ''it is empty'' ErrInvalidPublicKey)
     else case DecodeString StdEncoding trimmed of
       None \<Rightarrow> Some (wrap ''it is not valid base64'' ErrInvalidPublicKey)
     | Some raw \<Rightarrow>
         if length raw \<noteq> wireGuardKeyLength then Some (wrap ''it decodes to the wrong length'' ErrInvalidPublicKey)
         else if list_all (\<lambda>b. b = 0) raw then Some (wrap ''it is all zeroes'' ErrInvalidPublicKey)
         else None)"

record NewDevice =
  nd_Name :: string
  nd_PublicKey :: string
  nd_OS :: string
  nd_Hostname :: string

record Scope =
  sc_UserID :: string
  sc_All :: bool

definition ScopeFor :: "string \<Rightarrow> bool \<Rightarrow> Scope" where
  "ScopeFor userID admin = \<lparr>sc_UserID = userID, sc_All = admin\<rparr>"

definition in_scope :: "Scope \<Rightarrow> device_row \<Rightarrow> bool" where
  "in_scope sc r \<longleftrightarrow> sc_All sc \<or> d_user_id r = sc_UserID sc"

section \<open>Rows\<close>

definition addrOrNil :: "addr \<Rightarrow> string option" where
  "addrOrNil a = (if IsValid a then Some (addr_String a) else None)"

definition nullableID :: "string \<Rightarrow> string option" where
  "nullableID ident = (if ident = [] then None else Some ident)"

definition parse_or_zero :: "string option \<Rightarrow> addr" where
  "parse_or_zero c = (case c of None \<Rightarrow> AddrInvalid
     | Some t \<Rightarrow> (case ParseAddr t of Some a \<Rightarrow> a | None \<Rightarrow> AddrInvalid))"

definition scanDevice :: "device_row \<Rightarrow> Device" where
  "scanDevice r = \<lparr>dv_ID = d_id r, dv_UserID = d_user_id r, dv_Name = d_name r, dv_PublicKey = d_public_key r,
     dv_OS = d_os r, dv_Hostname = d_hostname r, dv_IPv4 = parse_or_zero (d_ipv4 r), dv_IPv6 = parse_or_zero (d_ipv6 r),
     dv_EnrolledWith = (case d_enrolled_with r of None \<Rightarrow> [] | Some k \<Rightarrow> k), dv_CreatedAt = d_created_at r,
     dv_LastSeenAt = d_last_seen_at r, dv_RevokedAt = d_revoked_at r\<rparr>"

definition insert_device :: "device_row \<Rightarrow> db \<Rightarrow> sql_code + nat \<times> db" where
  "insert_device r d =
     (if d_id r \<in> d_id ` set (devices d) \<or> d_public_key r \<in> d_public_key ` set (devices d) then Inl UniqueViolation
      else if d_user_id r \<notin> u_id ` set (users d) \<or>
        (case d_enrolled_with r of None \<Rightarrow> False | Some k \<Rightarrow> k \<notin> k_id ` set (setup_keys d)) then Inl ForeignKeyViolation
      else Inr (1, d\<lparr>devices := devices d @ [r]\<rparr>))"

definition update_devices :: "(db \<Rightarrow> device_row \<Rightarrow> bool) \<Rightarrow> (device_row \<Rightarrow> device_row) \<Rightarrow> db \<Rightarrow> sql_code + nat \<times> db" where
  "update_devices P f d = (let (n, t) = update_where (P d) f (devices d) in Inr (n, d\<lparr>devices := t\<rparr>))"

definition insert_device_token :: "token_row \<Rightarrow> db \<Rightarrow> sql_code + nat \<times> db" where
  "insert_device_token r d =
     (if t_device_id r \<in> t_device_id ` set (device_tokens d) \<or> t_token_hash r \<in> t_token_hash ` set (device_tokens d)
      then Inl UniqueViolation
      else if t_device_id r \<notin> d_id ` set (devices d) then Inl ForeignKeyViolation
      else Inr (1, d\<lparr>device_tokens := device_tokens d @ [r]\<rparr>))"

definition delete_device_tokens :: "string \<Rightarrow> db \<Rightarrow> sql_code + nat \<times> db" where
  "delete_device_tokens ident d = (let (n, t) = delete_where (\<lambda>r. t_device_id r = ident) (device_tokens d) in
     Inr (n, d\<lparr>device_tokens := t\<rparr>))"

section \<open>Registration and enrolment\<close>

definition device_row_of :: "Device \<Rightarrow> device_row" where
  "device_row_of d = \<lparr>d_id = dv_ID d, d_user_id = dv_UserID d, d_name = dv_Name d, d_public_key = dv_PublicKey d,
     d_os = dv_OS d, d_hostname = dv_Hostname d, d_ipv4 = addrOrNil (dv_IPv4 d), d_ipv6 = addrOrNil (dv_IPv6 d),
     d_enrolled_with = nullableID (dv_EnrolledWith d), d_created_at = dv_CreatedAt d, d_last_seen_at = None,
     d_revoked_at = None\<rparr>"

definition redeem :: "Store \<Rightarrow> string \<Rightarrow> instant \<Rightarrow> (db, unit) comp" where
  "redeem s setupKeyID now = (if setupKeyID \<noteq> [] then
     bindM (setupKeyByIDTx s setupKeyID) (\<lambda>key. bindM (consumeSetupKey s key now) (\<lambda>_. returnM ()))
     else returnM ())"

definition create_tx :: "Store \<Rightarrow> Device \<Rightarrow> string \<Rightarrow> instant \<Rightarrow> (db, Device) comp" where
  "create_tx s device tokenHash now =
     bindM (redeem s (dv_EnrolledWith device) now) (\<lambda>_.
     bindM (Allocate (st_allocator s) (quiet (st_IntN s)) (dv_ID device) now) (\<lambda>assignment.
     let dev = device\<lparr>dv_IPv4 := as_IPv4 assignment, dv_IPv6 := as_IPv6 assignment\<rparr> in
     bindM (mapErr (\<lambda>e. if IsUniqueViolation e then wrap (dv_PublicKey dev) ErrPublicKeyTaken
                        else wrap ''creating the device'' e)
       (execM (insert_device (device_row_of dev)))) (\<lambda>_.
     bindM (if tokenHash \<noteq> [] then
         mapErr (wrap ''creating the device credential'') (execM (insert_device_token
           \<lparr>t_device_id = dv_ID dev, t_token_hash = tokenHash, t_created_at = now\<rparr>))
       else returnM 0) (\<lambda>_.
     returnM dev))))"

definition create :: "Store \<Rightarrow> string \<Rightarrow> NewDevice \<Rightarrow> string \<Rightarrow> string \<Rightarrow> instant \<Rightarrow> (db, Device) comp" where
  "create s userID inp setupKeyID tokenHash now = (
     let name = truncate_str (TrimSpace (nd_Name inp)) maxNameLength; publicKey = TrimSpace (nd_PublicKey inp) in
     if name = [] then failM ErrInvalidName
     else case ValidatePublicKey publicKey of
       Some e \<Rightarrow> failM e
     | None \<Rightarrow> bindM (NewID DeviceIDPrefix) (\<lambda>ident.
         InTx (create_tx s \<lparr>dv_ID = ident, dv_UserID = userID, dv_Name = name, dv_PublicKey = publicKey,
           dv_OS = truncate_str (TrimSpace (nd_OS inp)) maxMetadataLength,
           dv_Hostname = truncate_str (TrimSpace (nd_Hostname inp)) maxMetadataLength,
           dv_IPv4 = AddrInvalid, dv_IPv6 = AddrInvalid, dv_EnrolledWith = setupKeyID, dv_CreatedAt = now,
           dv_LastSeenAt = None, dv_RevokedAt = None\<rparr> tokenHash now)))"

definition Register :: "Store \<Rightarrow> string \<Rightarrow> NewDevice \<Rightarrow> instant \<Rightarrow> (db, Device) comp" where
  "Register s userID inp now = (if userID = [] then failM (ErrNew ''devices: an owning user is required'')
     else create s userID inp [] [] now)"

definition deviceTokenPrefix :: string where "deviceTokenPrefix = ''hnd_''"

definition Enroll :: "Store \<Rightarrow> string \<Rightarrow> NewDevice \<Rightarrow> instant \<Rightarrow> (db, Device \<times> string) comp" where
  "Enroll s token inp now = bindM (SetupKeyByToken s token) (\<lambda>key.
     case Redeemable key now of
       Some reason \<Rightarrow> failM reason
     | None \<Rightarrow> bindM (NewToken 32) (\<lambda>raw.
         let secret = deviceTokenPrefix @ raw in
         bindM (create s (sk_CreatedBy key) inp (sk_ID key) (HashToken secret) now) (\<lambda>device.
         returnM (device, secret))))"

section \<open>Reading\<close>

definition ByID :: "string \<Rightarrow> Scope \<Rightarrow> (db, Device) comp" where
  "ByID ident sc = bindM (mapErr (wrap ''reading the device'')
       (queryM (\<lambda>d. find (\<lambda>r. d_id r = ident \<and> in_scope sc r) (devices d))))
     (\<lambda>row. case row of None \<Rightarrow> failM ErrDeviceNotFound | Some r \<Rightarrow> returnM (scanDevice r))"

definition List_devices :: "Scope \<Rightarrow> (db, Device list) comp" where
  "List_devices sc = bindM (mapErr (wrap ''listing devices'')
       (queryM (\<lambda>d. newest_first d_created_at d_id (filter (in_scope sc) (devices d)))))
     (\<lambda>rows. returnM (map scanDevice rows))"

definition Count :: "Scope \<Rightarrow> (db, nat) comp" where
  "Count sc = mapErr (wrap ''counting devices'') (queryM (\<lambda>d. length (filter (in_scope sc) (devices d))))"

section \<open>Revocation and check-in\<close>

definition revoke_tx :: "string \<Rightarrow> instant \<Rightarrow> (db, unit) comp" where
  "revoke_tx ident now =
     bindM (Release ident) (\<lambda>_.
     bindM (mapErr (wrap ''revoking the device'') (execM (update_devices
       (\<lambda>_ r. d_id r = ident \<and> d_revoked_at r = None)
       (\<lambda>r. r\<lparr>d_revoked_at := Some now, d_ipv4 := None, d_ipv6 := None\<rparr>)))) (\<lambda>result.
     bindM (tryM (rowsAffected result)) (\<lambda>affected.
     if affected = Inr 0 then failM ErrDeviceRevoked
     else bindM (mapErr (wrap ''revoking the device credential'') (execM (delete_device_tokens ident))) (\<lambda>_.
       returnM ()))))"

definition Revoke :: "string \<Rightarrow> Scope \<Rightarrow> instant \<Rightarrow> (db, unit) comp" where
  "Revoke ident sc now = bindM (ByID ident sc) (\<lambda>device.
     if Revoked device then failM ErrDeviceRevoked else InTx (revoke_tx (dv_ID device) now))"

definition RecordSeen :: "string \<Rightarrow> instant \<Rightarrow> (db, unit) comp" where
  "RecordSeen ident now = bindM (mapErr (wrap ''recording the device check-in'') (execM (update_devices
       (\<lambda>_ r. d_id r = ident \<and> d_revoked_at r = None) (\<lambda>r. r\<lparr>d_last_seen_at := Some now\<rparr>))))
     (\<lambda>_. returnM ())"

section \<open>Device credentials\<close>

definition ErrDeviceTokenInvalid :: error where
  "ErrDeviceTokenInvalid = ErrNew ''the device credential is not valid''"

definition validDeviceToken :: "string \<Rightarrow> bool" where
  "validDeviceToken token = (
     if \<not> HasPrefix token deviceTokenPrefix \<or> length token \<noteq> length deviceTokenPrefix + 43 then False
     else case DecodeString (Strict RawURLEncoding) (TrimPrefix token deviceTokenPrefix) of
       None \<Rightarrow> False | Some raw \<Rightarrow> length raw = 32)"

definition holds_token :: "string \<Rightarrow> db \<Rightarrow> device_row \<Rightarrow> bool" where
  "holds_token h d r \<longleftrightarrow> d_revoked_at r = None \<and>
     d_id r \<in> t_device_id ` {t \<in> set (device_tokens d). t_token_hash t = h}"

definition Authenticate :: "string \<Rightarrow> (db, Device) comp" where
  "Authenticate token = (if \<not> validDeviceToken token then failM ErrDeviceTokenInvalid
     else bindM (mapErr (wrap ''authenticating the device'')
         (queryM (\<lambda>d. find (holds_token (HashToken token) d) (devices d))))
       (\<lambda>row. case row of None \<Rightarrow> failM ErrDeviceTokenInvalid | Some r \<Rightarrow> returnM (scanDevice r)))"

definition Heartbeat :: "string \<Rightarrow> instant \<Rightarrow> (db, unit) comp" where
  "Heartbeat token now = (if \<not> validDeviceToken token then failM ErrDeviceTokenInvalid
     else bindM (mapErr (wrap ''recording the authenticated check-in'') (execM (update_devices
         (holds_token (HashToken token)) (\<lambda>r. r\<lparr>d_last_seen_at := Some now\<rparr>)))) (\<lambda>result.
       bindM (mapErr (wrap ''checking the authenticated check-in'') (rowsAffected result)) (\<lambda>n.
       if n \<noteq> 1 then failM ErrDeviceTokenInvalid else returnM ())))"

section \<open>What a successful creation wrote\<close>

definition redeemed_keys :: "string \<Rightarrow> instant \<Rightarrow> key_row list \<Rightarrow> key_row list" where
  "redeemed_keys ident now ks = (if ident = [] then ks
     else map (\<lambda>r. if redeemable_row ident now r then r\<lparr>k_uses := k_uses r + 1\<rparr> else r) ks)"

definition token_rows :: "string \<Rightarrow> string \<Rightarrow> instant \<Rightarrow> token_row list" where
  "token_rows ident h now = (if h = [] then [] else [\<lparr>t_device_id = ident, t_token_hash = h, t_created_at = now\<rparr>])"

definition created_db :: "Device \<Rightarrow> string \<Rightarrow> instant \<Rightarrow> db \<Rightarrow> db" where
  "created_db dev h now d = d\<lparr>setup_keys := redeemed_keys (dv_EnrolledWith dev) now (setup_keys d),
     ip_allocations := ip_allocations d @ map (\<lambda>c. new_allocation c (dv_ID dev) now) (device_Addrs dev),
     devices := devices d @ [device_row_of dev],
     device_tokens := device_tokens d @ token_rows (dv_ID dev) h now\<rparr>"

lemma redeem_Ret:
  assumes "redeem s ident now w = (Ret u, w')"
  shows "w_db w' = (w_db w)\<lparr>setup_keys := redeemed_keys ident now (setup_keys (w_db w))\<rparr> \<and>
    (ident \<noteq> [] \<longrightarrow> (\<exists>r \<in> set (setup_keys (w_db w)). redeemable_row ident now r)) \<and> w_entropy w' = w_entropy w"
proof (cases "ident = []")
  case False
  then obtain key w1 key' where k: "oneSetupKey s (\<lambda>r. k_id r = ident) w = (Ret key, w1)"
    and c: "consumeSetupKey s key now w1 = (Ret key', w')"
    using assms by (auto simp: redeem_def bindM_Ret setupKeyByIDTx_def)
  have "sk_ID key = ident" using oneSetupKey_Ret [OF k] by (auto simp: scanSetupKey_def dest: find_SomeD)
  with False oneSetupKey_frame [OF k] consumeSetupKey_Ret [OF c] show ?thesis by (simp add: redeemed_keys_def)
qed (use assms in \<open>simp add: redeem_def redeemed_keys_def\<close>)

text \<open>The conditions under which the statements of \<open>create\<close> went through.\<close>

definition create_guards :: "Store \<Rightarrow> Device \<Rightarrow> string \<Rightarrow> instant \<Rightarrow> db \<Rightarrow> bool" where
  "create_guards s dev h now d \<longleftrightarrow>
     (dv_EnrolledWith dev \<noteq> [] \<longrightarrow> (\<exists>r \<in> set (setup_keys d). redeemable_row (dv_EnrolledWith dev) now r)) \<and>
     (\<forall>r \<in> set (ip_allocations d). a_owner_id r \<noteq> dv_ID dev) \<and>
     (\<forall>c \<in> set (device_Addrs dev). \<not> in_use d c) \<and> distinct (device_Addrs dev) \<and> IsValid (dv_IPv4 dev) \<and>
     Contains (al_v4 (st_allocator s)) (dv_IPv4 dev) \<and>
     dv_IPv4 dev \<noteq> Addr (al_v4 (st_allocator s)) \<and> dv_IPv4 dev \<noteq> lastAddr (al_v4 (st_allocator s)) \<and>
     (if IPv6Enabled (st_allocator s) then Contains (al_v6 (st_allocator s)) (dv_IPv6 dev) else dv_IPv6 dev = AddrInvalid) \<and>
     dv_ID dev \<notin> d_id ` set (devices d) \<and> dv_PublicKey dev \<notin> d_public_key ` set (devices d) \<and>
     dv_UserID dev \<in> u_id ` set (users d) \<and>
     (dv_EnrolledWith dev \<noteq> [] \<longrightarrow> dv_EnrolledWith dev \<in> k_id ` set (setup_keys d)) \<and>
     (h \<noteq> [] \<longrightarrow> dv_ID dev \<notin> t_device_id ` set (device_tokens d) \<and> h \<notin> t_token_hash ` set (device_tokens d))"

lemma redeemed_keys_ids: "map k_id (redeemed_keys i now ks) = map k_id ks"
  by (simp add: redeemed_keys_def)

lemma image_redeemed_keys: "k_id ` set (redeemed_keys i now ks) = k_id ` set ks"
  using redeemed_keys_ids by (metis image_set)

lemma device_Addrs_assigned:
  "device_Addrs (dev\<lparr>dv_IPv4 := as_IPv4 a, dv_IPv6 := as_IPv6 a\<rparr>) = Addrs a"
  by (simp add: device_Addrs_def Addrs_def)

lemma create_tx_Ret:
  assumes "allocator_ok (st_allocator s)" "create_tx s device h now w = (Ret dev, w')"
  shows "\<exists>as :: Assignment. dev = device\<lparr>dv_IPv4 := as_IPv4 as, dv_IPv6 := as_IPv6 as\<rparr> \<and>
    create_guards s dev h now (w_db w) \<and> w_db w' = created_db dev h now (w_db w) \<and> w_entropy w' = w_entropy w"
proof -
  obtain w1 as w2 n w3 m w4 where
    red: "redeem s (dv_EnrolledWith device) now w = (Ret (), w1)"
    and al: "Allocate (st_allocator s) (quiet (st_IntN s)) (dv_ID device) now w1 = (Ret as, w2)"
    and dev: "dev = device\<lparr>dv_IPv4 := as_IPv4 as, dv_IPv6 := as_IPv6 as\<rparr>"
    and ins: "execM (insert_device (device_row_of dev)) w2 = (Ret n, w3)"
    and tok: "(if h \<noteq> [] then
         mapErr (wrap ''creating the device credential'') (execM (insert_device_token
           \<lparr>t_device_id = dv_ID dev, t_token_hash = h, t_created_at = now\<rparr>))
       else returnM 0) w3 = (Ret m, w4)" and "w' = w4"
    using assms(2) unfolding create_tx_def by (auto simp: bindM_Ret Let_def)
  note r = redeem_Ret [OF red] and a = Allocate_Ret [OF assms(1) al] and v = Allocate_Addrs [OF assms(1) al]
    and i = execM_Ret [OF ins]
  have sel: "dv_ID dev = dv_ID device" "dv_EnrolledWith dev = dv_EnrolledWith device"
    "device_Addrs dev = Addrs as" "dv_IPv4 dev = as_IPv4 as" "dv_IPv6 dev = as_IPv6 as"
    unfolding dev by (simp_all add: device_Addrs_assigned)
  have use: "in_use (w_db w1) c \<longleftrightarrow> in_use (w_db w) c" for c using r by (simp add: in_use_def)
  have g: "d_id (device_row_of dev) \<notin> d_id ` set (devices (w_db w2))"
    "d_public_key (device_row_of dev) \<notin> d_public_key ` set (devices (w_db w2))"
    "d_user_id (device_row_of dev) \<in> u_id ` set (users (w_db w2))"
    "\<forall>k. d_enrolled_with (device_row_of dev) = Some k \<longrightarrow> k \<in> k_id ` set (setup_keys (w_db w2))"
    "w_db w3 = (w_db w2)\<lparr>devices := devices (w_db w2) @ [device_row_of dev]\<rparr>"
    using i by (auto simp: insert_device_def split: if_splits option.splits)
  have t: "h = [] \<longrightarrow> w_db w4 = w_db w3 \<and> w_entropy w4 = w_entropy w3"
    "h \<noteq> [] \<longrightarrow> w_db w4 = (w_db w3)\<lparr>device_tokens := device_tokens (w_db w3) @ token_rows (dv_ID dev) h now\<rparr> \<and>
       dv_ID dev \<notin> t_device_id ` set (device_tokens (w_db w3)) \<and> h \<notin> t_token_hash ` set (device_tokens (w_db w3)) \<and>
       w_entropy w4 = w_entropy w3"
    using tok by (auto simp: insert_device_token_def token_rows_def split: if_splits dest!: execM_Ret)
  have db: "w_db w' = created_db dev h now (w_db w)"
    using r a g(5) t sel \<open>w' = w4\<close>
    by (cases "h = []") (auto simp: created_db_def add_allocations_def token_rows_def)
  have guards: "create_guards s dev h now (w_db w)"
    unfolding create_guards_def using r a v g t use sel
    by (auto simp: add_allocations_def image_redeemed_keys device_row_of_def nullableID_def)
  have "w_entropy w' = w_entropy w" using r a i t \<open>w' = w4\<close> by (cases "h = []") auto
  with db dev guards show ?thesis by blast
qed

section \<open>Consistency of the inventory\<close>

text \<open>
  Beyond the constraints of the schema: the addresses in a device's row are those allocated
  to it, an active device has one and a revoked device has neither addresses nor a credential;
  every allocation belongs to a device; a setup key has been used as often as devices record
  it, and never more often than it allows.
\<close>

definition row_addrs :: "device_row \<Rightarrow> addr set" where
  "row_addrs r = {a. IsValid a \<and> (d_ipv4 r = Some (addr_String a) \<or> d_ipv6 r = Some (addr_String a))}"

definition devices_ok :: "db \<Rightarrow> bool" where
  "devices_ok d \<longleftrightarrow>
     (\<forall>r \<in> set (devices d). held_by d (d_id r) = row_addrs r \<and>
        (d_revoked_at r = None \<longrightarrow> row_addrs r \<noteq> {}) \<and>
        (d_revoked_at r \<noteq> None \<longrightarrow> d_ipv4 r = None \<and> d_ipv6 r = None \<and> d_id r \<notin> t_device_id ` set (device_tokens d))) \<and>
     (\<forall>a \<in> set (ip_allocations d). a_owner_id a \<in> d_id ` set (devices d))"

definition uses_ok :: "db \<Rightarrow> bool" where
  "uses_ok d \<longleftrightarrow> (\<forall>k \<in> set (setup_keys d).
     k_uses k = int (length (filter (\<lambda>r. d_enrolled_with r = Some (k_id k)) (devices d))))"

definition consistent :: "db \<Rightarrow> bool" where
  "consistent d \<longleftrightarrow> schema_ok d \<and> alloc_ok d \<and> keys_ok d \<and> devices_ok d \<and> uses_ok d"

lemma consistent_empty: "consistent (empty_db\<lparr>schema_migrations := l\<rparr>)"
  by (simp add: consistent_def schema_ok_empty [of l] alloc_ok_def keys_ok_def devices_ok_def uses_ok_def)
     (simp add: empty_db_def)

lemma created_sel [simp]:
  "server_metadata (created_db dev h now d) = server_metadata d" "users (created_db dev h now d) = users d"
  "sessions (created_db dev h now d) = sessions d"
  "setup_keys (created_db dev h now d) = redeemed_keys (dv_EnrolledWith dev) now (setup_keys d)"
  "devices (created_db dev h now d) = devices d @ [device_row_of dev]"
  "device_tokens (created_db dev h now d) = device_tokens d @ token_rows (dv_ID dev) h now"
  "ip_allocations (created_db dev h now d) = ip_allocations d @ map (\<lambda>c. new_allocation c (dv_ID dev) now) (device_Addrs dev)"
  by (simp_all add: created_db_def)

lemma device_row_sel [simp]:
  "d_id (device_row_of dev) = dv_ID dev" "d_user_id (device_row_of dev) = dv_UserID dev"
  "d_public_key (device_row_of dev) = dv_PublicKey dev" "d_enrolled_with (device_row_of dev) = nullableID (dv_EnrolledWith dev)"
  "d_revoked_at (device_row_of dev) = None" "d_ipv4 (device_row_of dev) = addrOrNil (dv_IPv4 dev)"
  "d_ipv6 (device_row_of dev) = addrOrNil (dv_IPv6 dev)"
  by (simp_all add: device_row_of_def)

lemma created_keys_schema: "keys_schema d \<Longrightarrow> keys_schema (created_db dev h now d)"
proof -
  let ?ks = "redeemed_keys (dv_EnrolledWith dev) now (setup_keys d)"
  have "map k_key_hash ?ks = map k_key_hash (setup_keys d)" "map k_created_by ?ks = map k_created_by (setup_keys d)"
    by (simp_all add: redeemed_keys_def)
  moreover from this have "k_created_by ` set ?ks = k_created_by ` set (setup_keys d)" by (metis image_set)
  ultimately show "keys_schema d \<Longrightarrow> ?thesis" by (simp add: keys_schema_def redeemed_keys_ids)
qed

lemma created_devices_schema:
  "devices_schema d \<Longrightarrow> create_guards s dev h now d \<Longrightarrow> devices_schema (created_db dev h now d)"
  by (auto simp: devices_schema_def create_guards_def image_redeemed_keys nullableID_def split: if_splits)

lemma created_tokens_schema:
  "tokens_schema d \<Longrightarrow> create_guards s dev h now d \<Longrightarrow> tokens_schema (created_db dev h now d)"
  by (auto simp: tokens_schema_def create_guards_def token_rows_def)

lemma device_Addrs_valid: "c \<in> set (device_Addrs dev) \<Longrightarrow> IsValid c"
  by (auto simp: device_Addrs_def split: if_splits)

lemma created_alloc_ok:
  assumes "alloc_ok d" "create_guards s dev h now d"
  shows "alloc_ok (created_db dev h now d)"
proof -
  have "alloc_ok (add_allocations (map (\<lambda>c. new_allocation c (dv_ID dev) now) (device_Addrs dev)) d)"
    using assms device_Addrs_valid by (intro alloc_ok_add) (auto simp: create_guards_def)
  then show ?thesis by (simp add: alloc_ok_def)
qed

lemma created_schema_ok:
  assumes "schema_ok d" "create_guards s dev h now d" "alloc_ok d"
  shows "schema_ok (created_db dev h now d)"
  using assms created_keys_schema [of d dev h now] created_devices_schema [of d s dev h now]
    created_tokens_schema [of d s dev h now] created_alloc_ok [of d s dev h now]
  by (simp add: schema_ok_def metadata_schema_def users_schema_def sessions_schema_def allocations_schema_def alloc_ok_def)

lemma created_keys_ok:
  assumes "keys_ok d" shows "keys_ok (created_db dev h now d)"
  using assms by (auto simp: keys_ok_def redeemed_keys_def redeemable_row_def)

lemma held_by_created:
  "create_guards s dev h now d \<Longrightarrow> held_by (created_db dev h now d) owner =
     (if owner = dv_ID dev then set (device_Addrs dev) else held_by d owner)"
proof -
  assume g: "create_guards s dev h now d"
  have "held_by (created_db dev h now d) owner =
     held_by (add_allocations (map (\<lambda>c. new_allocation c (dv_ID dev) now) (device_Addrs dev)) d) owner"
    by (simp add: held_by_def)
  also have "\<dots> = held_by d owner \<union> (if owner = dv_ID dev then set (device_Addrs dev) else {})"
    unfolding held_by_add using addr_String_image [of "device_Addrs dev"] device_Addrs_valid by simp
  finally show ?thesis using g by (auto simp: held_by_def create_guards_def)
qed

lemma row_addrs_device: "row_addrs (device_row_of dev) = set (device_Addrs dev)"
  using addr_String_inj by (auto simp: row_addrs_def device_Addrs_def addrOrNil_def split: if_splits)

lemma created_devices_ok:
  assumes "devices_ok d" "tokens_schema d" "create_guards s dev h now d"
  shows "devices_ok (created_db dev h now d)"
proof -
  have fresh: "dv_ID dev \<notin> d_id ` set (devices d)" using assms(3) by (simp add: create_guards_def)
  then have new: "\<forall>r \<in> set (devices d). d_id r \<noteq> dv_ID dev" by force
  have ne: "set (device_Addrs dev) \<noteq> {}" using assms(3) by (auto simp: create_guards_def device_Addrs_def)
  show ?thesis
    using assms(1) new ne
    by (auto simp: devices_ok_def held_by_created [OF assms(3)] row_addrs_device token_rows_def)
qed

lemma created_uses_ok:
  assumes "uses_ok d" "keys_schema d" "create_guards s dev h now d"
  shows "uses_ok (created_db dev h now d)"
proof (cases "dv_EnrolledWith dev = []")
  case True
  then show ?thesis using assms(1) by (simp add: uses_ok_def redeemed_keys_def nullableID_def)
next
  case False
  then obtain k where k: "k \<in> set (setup_keys d)" "redeemable_row (dv_EnrolledWith dev) now k"
    using assms(3) by (auto simp: create_guards_def)
  have kid: "k_id k = dv_EnrolledWith dev" using k by (simp add: redeemable_row_def)
  have uniq: "redeemable_row (dv_EnrolledWith dev) now r \<longleftrightarrow> k_id r = dv_EnrolledWith dev" if "r \<in> set (setup_keys d)" for r
  proof
    assume "k_id r = dv_EnrolledWith dev"
    then have "r = k" using that k(1) kid assms(2) by (auto simp: keys_schema_def distinct_map inj_on_def)
    then show "redeemable_row (dv_EnrolledWith dev) now r" using k by simp
  qed (simp add: redeemable_row_def)
  show ?thesis using assms(1) False uniq
    by (auto simp: uses_ok_def redeemed_keys_def nullableID_def)
qed

lemma created_consistent:
  "consistent d \<Longrightarrow> create_guards s dev h now d \<Longrightarrow> consistent (created_db dev h now d)"
  unfolding consistent_def
  using created_schema_ok created_alloc_ok created_keys_ok created_devices_ok created_uses_ok
  by (auto simp: schema_ok_def)

section \<open>What a successful revocation wrote\<close>

definition revoked_db :: "string \<Rightarrow> instant \<Rightarrow> db \<Rightarrow> db" where
  "revoked_db ident now d = d\<lparr>ip_allocations := filter (\<lambda>r. a_owner_id r \<noteq> ident) (ip_allocations d),
     devices := map (\<lambda>r. if d_id r = ident \<and> d_revoked_at r = None
       then r\<lparr>d_revoked_at := Some now, d_ipv4 := None, d_ipv6 := None\<rparr> else r) (devices d),
     device_tokens := filter (\<lambda>t. t_device_id t \<noteq> ident) (device_tokens d)\<rparr>"

lemma revoke_tx_Ret:
  assumes "revoke_tx ident now w = (Ret u, w')"
  shows "w_db w' = revoked_db ident now (w_db w)"
proof -
  obtain n w1 m w2 x w3 k where rel: "Release ident w = (Ret n, w1)"
    and up: "execM (update_devices (\<lambda>_ r. d_id r = ident \<and> d_revoked_at r = None)
       (\<lambda>r. r\<lparr>d_revoked_at := Some now, d_ipv4 := None, d_ipv6 := None\<rparr>)) w1 = (Ret m, w2)"
    and ra: "tryM (rowsAffected m) w2 = (Ret x, w3)"
    and del: "execM (delete_device_tokens ident) w3 = (Ret k, w')"
    using assms unfolding revoke_tx_def by (auto simp: bindM_Ret split: if_splits)
  have "w_db w3 = w_db w2" using ra by (auto simp: tryM_Ret split: sum.splits dest: rowsAffected_frame)
  moreover have "w_db w2 = (w_db w1)\<lparr>devices := map (\<lambda>r. if d_id r = ident \<and> d_revoked_at r = None
       then r\<lparr>d_revoked_at := Some now, d_ipv4 := None, d_ipv6 := None\<rparr> else r) (devices (w_db w1))\<rparr>"
    using execM_Ret [OF up] by (auto simp: update_devices_def update_where_def)
  moreover have "w_db w' = (w_db w3)\<lparr>device_tokens := filter (\<lambda>t. t_device_id t \<noteq> ident) (device_tokens (w_db w3))\<rparr>"
    using execM_Ret [OF del] by (auto simp: delete_device_tokens_def delete_where_def)
  ultimately show ?thesis using Release_Ret [OF rel] by (simp add: revoked_db_def)
qed

lemma revoked_cols:
  "map d_id (devices (revoked_db i now d)) = map d_id (devices d)"
  "map d_public_key (devices (revoked_db i now d)) = map d_public_key (devices d)"
  "map d_user_id (devices (revoked_db i now d)) = map d_user_id (devices d)"
  "map d_enrolled_with (devices (revoked_db i now d)) = map d_enrolled_with (devices d)"
  by (simp_all add: revoked_db_def)

lemma revoked_sel [simp]:
  "server_metadata (revoked_db i now d) = server_metadata d" "users (revoked_db i now d) = users d"
  "sessions (revoked_db i now d) = sessions d" "setup_keys (revoked_db i now d) = setup_keys d"
  "device_tokens (revoked_db i now d) = filter (\<lambda>t. t_device_id t \<noteq> i) (device_tokens d)"
  "ip_allocations (revoked_db i now d) = filter (\<lambda>r. a_owner_id r \<noteq> i) (ip_allocations d)"
  by (simp_all add: revoked_db_def)

text \<open>
  Statements that leave the identifying columns of the devices alone and only shrink the
  tables that point at them keep the constraints.
\<close>

lemma schema_ok_devices_columns:
  assumes "schema_ok d" "map d_id (devices e) = map d_id (devices d)"
    "map d_public_key (devices e) = map d_public_key (devices d)"
    "map d_user_id (devices e) = map d_user_id (devices d)"
    "map d_enrolled_with (devices e) = map d_enrolled_with (devices d)"
    "server_metadata e = server_metadata d" "users e = users d" "sessions e = sessions d" "setup_keys e = setup_keys d"
    "device_tokens e = filter P (device_tokens d)" "ip_allocations e = filter Q (ip_allocations d)"
  shows "schema_ok e"
proof -
  have ids: "d_id ` set (devices e) = d_id ` set (devices d)" "d_user_id ` set (devices e) = d_user_id ` set (devices d)"
    "d_enrolled_with ` set (devices e) = d_enrolled_with ` set (devices d)"
    using assms(2,4,5) by (metis image_set)+
  have enr: "(\<forall>r \<in> set (devices e). \<forall>k. d_enrolled_with r = Some k \<longrightarrow> R k) \<longleftrightarrow>
      (\<forall>r \<in> set (devices d). \<forall>k. d_enrolled_with r = Some k \<longrightarrow> R k)" for R
    using ids(3) by (metis (no_types, lifting) image_iff)
  have "devices_schema e" using assms(1) ids enr by (simp add: schema_ok_def devices_schema_def assms(2-9))
  moreover have "tokens_schema e"
    using assms(1) ids by (auto simp: schema_ok_def tokens_schema_def assms(10) distinct_map_filterI)
  moreover have "allocations_schema e"
    using assms(1) by (simp add: schema_ok_def allocations_schema_def assms(11) distinct_map_filterI)
  ultimately show ?thesis using assms(1)
    by (simp add: schema_ok_def metadata_schema_def users_schema_def sessions_schema_def keys_schema_def assms(6-9))
qed

lemma uses_ok_enrolled:
  "uses_ok d \<Longrightarrow> setup_keys e = setup_keys d \<Longrightarrow> map d_enrolled_with (devices e) = map d_enrolled_with (devices d) \<Longrightarrow> uses_ok e"
proof -
  assume u: "uses_ok d" and k: "setup_keys e = setup_keys d"
    and m: "map d_enrolled_with (devices e) = map d_enrolled_with (devices d)"
  have g: "length (filter (\<lambda>r. d_enrolled_with r = x) t) = length (filter (\<lambda>y. y = x) (map d_enrolled_with t))" for x t
    by (simp add: filter_map o_def)
  have "length (filter (\<lambda>r. d_enrolled_with r = x) (devices e)) = length (filter (\<lambda>r. d_enrolled_with r = x) (devices d))" for x
    unfolding g m ..
  with u k show "uses_ok e" by (simp only: uses_ok_def)
qed

lemma revoked_consistent:
  assumes "consistent d" shows "consistent (revoked_db i now d)"
proof -
  have d: "devices_ok d" "alloc_ok d" "schema_ok d" "keys_ok d" "uses_ok d" using assms by (auto simp: consistent_def)
  have held: "held_by (revoked_db i now d) = (held_by d)(i := {})"
    by (auto simp: held_by_def fun_eq_iff)
  have dev: "devices_ok (revoked_db i now d)"
    unfolding devices_ok_def
  proof (intro conjI ballI)
    fix r assume "r \<in> set (devices (revoked_db i now d))"
    then obtain q where q: "q \<in> set (devices d)" and r: "r = (if d_id q = i \<and> d_revoked_at q = None
       then q\<lparr>d_revoked_at := Some now, d_ipv4 := None, d_ipv6 := None\<rparr> else q)"
      by (auto simp: revoked_db_def)
    note dq = d(1) [unfolded devices_ok_def, THEN conjunct1, rule_format, OF q]
    show "held_by (revoked_db i now d) (d_id r) = row_addrs r" unfolding held r using dq by (auto simp: row_addrs_def)
    show "d_revoked_at r = None \<longrightarrow> row_addrs r \<noteq> {}" using dq r by auto
    show "d_revoked_at r \<noteq> None \<longrightarrow> d_ipv4 r = None \<and> d_ipv6 r = None \<and>
        d_id r \<notin> t_device_id ` set (device_tokens (revoked_db i now d))" using dq r by auto
  next
    fix a assume "a \<in> set (ip_allocations (revoked_db i now d))"
    then have "a_owner_id a \<in> d_id ` set (devices d)" using d(1) by (simp add: devices_ok_def)
    then show "a_owner_id a \<in> d_id ` set (devices (revoked_db i now d))" using revoked_cols(1) by (metis image_set)
  qed
  have "schema_ok (revoked_db i now d)"
    by (rule schema_ok_devices_columns [OF d(3)]) (simp_all add: revoked_cols)
  moreover have "alloc_ok (revoked_db i now d)" using alloc_ok_filter [OF d(2)] by (simp add: alloc_ok_def)
  moreover have "keys_ok (revoked_db i now d)" using d(4) by (simp add: keys_ok_def)
  moreover have "uses_ok (revoked_db i now d)" by (rule uses_ok_enrolled [OF d(5)]) (simp_all add: revoked_cols)
  ultimately show ?thesis using dev by (simp add: consistent_def)
qed

section \<open>Every operation keeps the inventory consistent\<close>

lemma seen_consistent:
  assumes "consistent d"
  shows "consistent (d\<lparr>devices := map (\<lambda>r. if P r then r\<lparr>d_last_seen_at := Some now\<rparr> else r) (devices d)\<rparr>)"
    (is "consistent ?e")
proof -
  let ?f = "\<lambda>r. if P r then r\<lparr>d_last_seen_at := Some now\<rparr> else r"
  have d: "devices_ok d" "alloc_ok d" "schema_ok d" "keys_ok d" "uses_ok d" using assms by (auto simp: consistent_def)
  have cols: "map d_id (devices ?e) = map d_id (devices d)" "map d_public_key (devices ?e) = map d_public_key (devices d)"
    "map d_user_id (devices ?e) = map d_user_id (devices d)" "map d_enrolled_with (devices ?e) = map d_enrolled_with (devices d)"
    by simp_all
  have same: "d_id (?f r) = d_id r" "row_addrs (?f r) = row_addrs r" "d_revoked_at (?f r) = d_revoked_at r"
    "d_ipv4 (?f r) = d_ipv4 r" "d_ipv6 (?f r) = d_ipv6 r" for r by (simp_all add: row_addrs_def)
  have held: "held_by ?e = held_by d" by (simp add: held_by_def fun_eq_iff)
  have ids: "d_id ` set (devices ?e) = d_id ` set (devices d)" using cols(1) by (metis image_set)
  have "devices_ok ?e"
    unfolding devices_ok_def
  proof (intro conjI ballI)
    fix r assume "r \<in> set (devices ?e)"
    then obtain q where q: "q \<in> set (devices d)" "r = ?f q" by auto
    note dq = d(1) [unfolded devices_ok_def, THEN conjunct1, rule_format, OF q(1)]
    show "held_by ?e (d_id r) = row_addrs r" unfolding held q(2) same using dq by blast
    show "d_revoked_at r = None \<longrightarrow> row_addrs r \<noteq> {}" unfolding q(2) same using dq by blast
    show "d_revoked_at r \<noteq> None \<longrightarrow> d_ipv4 r = None \<and> d_ipv6 r = None \<and> d_id r \<notin> t_device_id ` set (device_tokens ?e)"
      unfolding q(2) same using dq by simp
  next
    fix a assume "a \<in> set (ip_allocations ?e)"
    then show "a_owner_id a \<in> d_id ` set (devices ?e)" unfolding ids using d(1) by (simp add: devices_ok_def)
  qed
  moreover have "schema_ok ?e"
    by (rule schema_ok_devices_columns [OF d(3), where P = "\<lambda>_. True" and Q = "\<lambda>_. True"]) simp_all
  moreover have "uses_ok ?e" by (rule uses_ok_enrolled [OF d(5)]) simp_all
  moreover have "alloc_ok ?e" "keys_ok ?e" using d(2,4) by (simp_all add: alloc_ok_def keys_ok_def)
  ultimately show ?thesis by (simp add: consistent_def)
qed

text \<open>A new key has been used by nobody, because a device records only a key that exists.\<close>

lemma insert_setup_key_consistent:
  assumes "consistent d" "insert_setup_key r d = Inr (n, e)" "k_uses r = 0" "0 \<le> k_max_uses r"
  shows "consistent e"
proof -
  have d: "devices_ok d" "alloc_ok d" "schema_ok d" "keys_ok d" "uses_ok d" using assms(1) by (auto simp: consistent_def)
  have e: "e = d\<lparr>setup_keys := setup_keys d @ [r]\<rparr>" "k_id r \<notin> k_id ` set (setup_keys d)"
    "k_key_hash r \<notin> k_key_hash ` set (setup_keys d)" "k_created_by r \<in> u_id ` set (users d)"
    using assms(2) by (auto simp: insert_setup_key_def split: if_splits)
  have none: "d_enrolled_with x \<noteq> Some (k_id r)" if "x \<in> set (devices d)" for x
    using that d(3) e(2) by (auto simp: schema_ok_def devices_schema_def)
  have "uses_ok e" using d(5) e none assms(3) by (simp add: uses_ok_def filter_False)
  moreover have "schema_ok e" using d(3) e by (auto simp: schema_ok_def table_schemas)
  moreover have "keys_ok e" using d(4) e assms(3,4) by (simp add: keys_ok_def)
  moreover have "alloc_ok e" "devices_ok e" using d(1,2) e by (simp_all add: alloc_ok_def devices_ok_def held_by_def)
  ultimately show ?thesis by (simp add: consistent_def)
qed

lemma revoke_key_consistent:
  assumes "consistent d"
    "update_setup_keys P (\<lambda>r. r\<lparr>k_revoked_at := Some now\<rparr>) d = Inr (n, e)"
  shows "consistent e"
proof -
  let ?f = "\<lambda>r. if P r then r\<lparr>k_revoked_at := Some now\<rparr> else r"
  have d: "devices_ok d" "alloc_ok d" "schema_ok d" "keys_ok d" "uses_ok d" using assms(1) by (auto simp: consistent_def)
  have e: "e = d\<lparr>setup_keys := map ?f (setup_keys d)\<rparr>" using assms(2) by (auto simp: update_setup_keys_def update_where_def)
  have cols: "map k_id (setup_keys e) = map k_id (setup_keys d)" "map k_key_hash (setup_keys e) = map k_key_hash (setup_keys d)"
    "map k_created_by (setup_keys e) = map k_created_by (setup_keys d)" unfolding e by simp_all
  have "k_id ` set (setup_keys e) = k_id ` set (setup_keys d)" "k_created_by ` set (setup_keys e) = k_created_by ` set (setup_keys d)"
    using cols by (metis image_set)+
  then have "schema_ok e" using d(3) cols by (simp add: schema_ok_def table_schemas) (simp add: e)
  moreover have "uses_ok e" using d(5) by (auto simp: uses_ok_def e)
  moreover have "keys_ok e" using d(4) by (auto simp: keys_ok_def e)
  moreover have "alloc_ok e" "devices_ok e" using d(1,2) by (simp_all add: e alloc_ok_def devices_ok_def held_by_def)
  ultimately show ?thesis by (simp add: consistent_def)
qed

lemma keeps_oneSetupKey [pres_intros]: "keeps I (oneSetupKey s P)"
  by (rule keeps_frame) (auto dest: oneSetupKey_frame)

lemma keeps_SetupKeyByToken [pres_intros]: "keeps I (SetupKeyByToken s t)"
  unfolding SetupKeyByToken_def by (intro pres_intros)

lemma keeps_ByID [pres_intros]: "keeps I (ByID i sc)"
  unfolding ByID_def by (intro pres_intros)

lemma commits_create_tx: "allocator_ok (st_allocator s) \<Longrightarrow> commits consistent (create_tx s dev h now)"
  unfolding commits_def using create_tx_Ret created_consistent by metis

lemma commits_revoke_tx: "commits consistent (revoke_tx i now)"
  unfolding commits_def using revoke_tx_Ret revoked_consistent by metis

lemma keeps_create [pres_intros]: "allocator_ok (st_allocator s) \<Longrightarrow> keeps consistent (create s u inp k h now)"
  unfolding create_def Let_def by (intro pres_intros commits_create_tx)

lemma keeps_Register: "allocator_ok (st_allocator s) \<Longrightarrow> keeps consistent (Register s u inp now)"
  unfolding Register_def by (intro pres_intros)

lemma keeps_Enroll: "allocator_ok (st_allocator s) \<Longrightarrow> keeps consistent (Enroll s token inp now)"
  unfolding Enroll_def Let_def by (intro pres_intros)

lemma keeps_Revoke: "keeps consistent (Revoke i sc now)"
  unfolding Revoke_def by (intro pres_intros commits_revoke_tx)

lemma keeps_RecordSeen: "keeps consistent (RecordSeen i now)"
  unfolding RecordSeen_def
  by (intro pres_intros keeps_execM) (auto simp: update_devices_def update_where_def intro: seen_consistent)

lemma keeps_Heartbeat: "keeps consistent (Heartbeat token now)"
  unfolding Heartbeat_def
  by (intro pres_intros keeps_execM) (auto simp: update_devices_def update_where_def intro: seen_consistent)

lemma keeps_CreateSetupKey: "keeps consistent (CreateSetupKey s u inp now)"
  unfolding CreateSetupKey_def Let_def
  by (intro pres_intros keeps_execM) (auto elim: insert_setup_key_consistent)

lemma keeps_RevokeSetupKey: "keeps consistent (RevokeSetupKey s i now)"
  unfolding RevokeSetupKey_def SetupKeyByID_def
  by (intro pres_intros keeps_execM) (auto elim: revoke_key_consistent)
end
