(* ===== verification/Passwords.thy ===== *)
theory Passwords
  imports Devices
begin

text \<open>
  Password hashes of package \<open>auth\<close> (\<open>internal/auth/password.go\<close>). \<open>argon2.IDKey\<close> is code of
  another module and a parameter, \<open>idkey\<close>; the text around it is modelled in full, with the
  scanning of \<open>fmt.Sscanf\<close>.
\<close>

section \<open>Scanning numbers\<close>

text \<open>
  What \<open>fmt.Sscanf\<close> does for a literal and for the verb \<open>%d\<close>: blanks before a number are
  skipped but a newline is an error, digits are read greedily, and what follows the last verb
  is left unread.
\<close>

definition scan_literal :: "string \<Rightarrow> string \<Rightarrow> string option" where
  "scan_literal lit s = (if take (length lit) s = lit then Some (drop (length lit) s) else None)"

definition skip_blank :: "string \<Rightarrow> string option" where
  "skip_blank s = (let cs = chunks s in
     if 10 \<in> fst ` set (takeWhile (\<lambda>c. is_space (fst c)) cs) then None
     else Some (concat (map snd (dropWhile (\<lambda>c. is_space (fst c)) cs))))"

definition is_digit :: "char \<Rightarrow> bool" where
  "is_digit c \<longleftrightarrow> dec_digit c \<noteq> None"

definition scan_digits :: "string \<Rightarrow> (nat \<times> string) option" where
  "scan_digits s = (let ds = takeWhile is_digit s in
     if ds = [] then None else Some (horner 10 (digit_values dec_digit ds), drop (length ds) s))"

definition scan_uint :: "nat \<Rightarrow> string \<Rightarrow> (nat \<times> string) option" where
  "scan_uint bits s = (case skip_blank s of None \<Rightarrow> None
     | Some t \<Rightarrow> (case scan_digits t of None \<Rightarrow> None
         | Some (v, rest) \<Rightarrow> if 2 ^ bits \<le> v then None else Some (v, rest)))"

definition scan_int :: "string \<Rightarrow> (int \<times> string) option" where
  "scan_int s = (case skip_blank s of None \<Rightarrow> None
     | Some t \<Rightarrow> (let neg = (t \<noteq> [] \<and> hd t = CHR ''-''); signed = (t \<noteq> [] \<and> (hd t = CHR ''-'' \<or> hd t = CHR ''+'')) in
         case scan_digits (if signed then tl t else t) of None \<Rightarrow> None
         | Some (v, rest) \<Rightarrow> let i = (if neg then - int v else int v) in
             if int64_range i then Some (i, rest) else None))"

definition scan_version :: "string \<Rightarrow> int option" where
  "scan_version s = (case scan_literal ''v='' s of None \<Rightarrow> None
     | Some t \<Rightarrow> map_option fst (scan_int t))"

definition scan_costs :: "string \<Rightarrow> (nat \<times> nat \<times> nat) option" where
  "scan_costs s = (case scan_literal ''m='' s of None \<Rightarrow> None | Some s1 \<Rightarrow>
     (case scan_uint 32 s1 of None \<Rightarrow> None | Some (m, s2) \<Rightarrow>
     (case scan_literal '',t='' s2 of None \<Rightarrow> None | Some s3 \<Rightarrow>
     (case scan_uint 32 s3 of None \<Rightarrow> None | Some (t, s4) \<Rightarrow>
     (case scan_literal '',p='' s4 of None \<Rightarrow> None | Some s5 \<Rightarrow>
     (case scan_uint 8 s5 of None \<Rightarrow> None | Some (p, _) \<Rightarrow> Some (m, t, p)))))))"

section \<open>Hashes\<close>

definition MinPasswordLength :: int where "MinPasswordLength = 12"
definition MaxPasswordLength :: int where "MaxPasswordLength = 1024"

definition ErrPasswordTooShort :: error where "ErrPasswordTooShort = ErrNew ''the password is too short''"
definition ErrPasswordTooLong :: error where "ErrPasswordTooLong = ErrNew ''the password is too long''"
definition ErrInvalidHash :: error where "ErrInvalidHash = ErrNew ''the stored password hash is malformed''"
definition ErrIncompatibleVersion :: error where
  "ErrIncompatibleVersion = ErrNew ''the stored password hash uses an unsupported Argon2 version''"

lemmas password_errors = ErrPasswordTooShort_def ErrPasswordTooLong_def ErrInvalidHash_def ErrIncompatibleVersion_def

record Params =
  pm_Memory :: "32 word"
  pm_Iterations :: "32 word"
  pm_Parallelism :: "8 word"
  pm_SaltLength :: "32 word"
  pm_KeyLength :: "32 word"

definition zero_params :: Params where
  "zero_params = \<lparr>pm_Memory = 0, pm_Iterations = 0, pm_Parallelism = 0, pm_SaltLength = 0, pm_KeyLength = 0\<rparr>"

definition DefaultParams :: Params where
  "DefaultParams = \<lparr>pm_Memory = 19 * 1024, pm_Iterations = 2, pm_Parallelism = 1, pm_SaltLength = 16, pm_KeyLength = 32\<rparr>"

definition Params_valid :: "Params \<Rightarrow> bool" where
  "Params_valid p \<longleftrightarrow> pm_Memory p > 0 \<and> pm_Iterations p > 0 \<and> pm_Parallelism p > 0 \<and>
     pm_SaltLength p \<ge> 8 \<and> pm_KeyLength p \<ge> 16"

definition weakerThan :: "Params \<Rightarrow> Params \<Rightarrow> bool" where
  "weakerThan p other \<longleftrightarrow> pm_Memory p < pm_Memory other \<or> pm_Iterations p < pm_Iterations other \<or>
     pm_KeyLength p < pm_KeyLength other"

type_synonym idkey = "byte list \<Rightarrow> byte list \<Rightarrow> 32 word \<Rightarrow> 32 word \<Rightarrow> 8 word \<Rightarrow> 32 word \<Rightarrow> byte list"

text \<open>The version of the algorithm the library implements, \<open>argon2.Version\<close> (0x13).\<close>

definition argon2_Version :: nat where "argon2_Version = 19"

definition CheckPasswordLength :: "string \<Rightarrow> int \<Rightarrow> error option" where
  "CheckPasswordLength password minimum = (
     let minimum = (if minimum < MinPasswordLength then MinPasswordLength else minimum);
         len = int (length (runes password)) in
     if len < minimum then Some (wrap ''it must be at least the minimum'' ErrPasswordTooShort)
     else if len > MaxPasswordLength then Some (wrap ''it must be at most 1024 characters'' ErrPasswordTooLong)
     else None)"

definition HashPassword :: "idkey \<Rightarrow> string \<Rightarrow> Params \<Rightarrow> ('d, string) comp" where
  "HashPassword idkey password p0 = (let p = (if p0 = zero_params then DefaultParams else p0) in
     if \<not> Params_valid p then failM (ErrNew ''auth: invalid Argon2id parameters'')
     else case CheckPasswordLength password MinPasswordLength of
       Some e \<Rightarrow> failM e
     | None \<Rightarrow> bindM (mapErr (wrap ''auth: generating a salt'') (rand_Read (unat (pm_SaltLength p)))) (\<lambda>salt.
         let key = idkey (bytes_of_string password) salt (pm_Iterations p) (pm_Memory p) (pm_Parallelism p) (pm_KeyLength p) in
         returnM (''$argon2id$v='' @ Itoa argon2_Version @ ''$m='' @ Itoa (unat (pm_Memory p)) @ '',t='' @
           Itoa (unat (pm_Iterations p)) @ '',p='' @ Itoa (unat (pm_Parallelism p)) @ ''$'' @
           EncodeToString RawStdEncoding salt @ ''$'' @ EncodeToString RawStdEncoding key)))"

definition decodeHash :: "string \<Rightarrow> error + Params \<times> byte list \<times> byte list" where
  "decodeHash encoded = (let parts = Split (CHR ''$'') encoded in
     if length parts \<noteq> 6 \<or> parts ! 0 \<noteq> [] then Inl ErrInvalidHash
     else if parts ! 1 \<noteq> ''argon2id'' then Inl (wrap ''algorithm is not argon2id'' ErrInvalidHash)
     else case scan_version (parts ! 2) of
       None \<Rightarrow> Inl ErrInvalidHash
     | Some version \<Rightarrow> if version \<noteq> int argon2_Version then Inl (wrap ''found another version'' ErrIncompatibleVersion)
       else case scan_costs (parts ! 3) of
         None \<Rightarrow> Inl ErrInvalidHash
       | Some (m, t, l) \<Rightarrow> (case DecodeString (Strict RawStdEncoding) (parts ! 4) of
           None \<Rightarrow> Inl ErrInvalidHash
         | Some salt \<Rightarrow> (case DecodeString (Strict RawStdEncoding) (parts ! 5) of
             None \<Rightarrow> Inl ErrInvalidHash
           | Some key \<Rightarrow>
               let p = \<lparr>pm_Memory = word_of_nat m, pm_Iterations = word_of_nat t, pm_Parallelism = word_of_nat l,
                 pm_SaltLength = word_of_nat (length salt), pm_KeyLength = word_of_nat (length key)\<rparr> in
               if \<not> Params_valid p then Inl ErrInvalidHash else Inr (p, salt, key))))"

definition VerifyPassword :: "idkey \<Rightarrow> string \<Rightarrow> string \<Rightarrow> error + bool \<times> bool" where
  "VerifyPassword idkey password encoded = (case decodeHash encoded of
     Inl e \<Rightarrow> Inl e
   | Inr (p, salt, want) \<Rightarrow>
       let got = idkey (bytes_of_string password) salt (pm_Iterations p) (pm_Memory p) (pm_Parallelism p) (pm_KeyLength p) in
       if got \<noteq> want then Inr (False, False) else Inr (True, weakerThan p DefaultParams))"

definition DummyHash :: "idkey \<Rightarrow> ('d, string) comp" where
  "DummyHash idkey = bindM (mapErr (wrap ''auth: generating a dummy hash'') (rand_Read 32)) (\<lambda>filler.
     HashPassword idkey (EncodeToString RawStdEncoding filler) DefaultParams)"

section \<open>Round trip of the encoding\<close>

lemma of_char_digit: "is_digit c \<Longrightarrow> 48 \<le> (of_char c :: nat) \<and> (of_char c :: nat) \<le> 57"
  by (auto simp: is_digit_def dec_digit_def split: if_splits)

lemma skip_blank_digit:
  assumes "s \<noteq> []" "is_digit (hd s)"
  shows "skip_blank s = Some s"
proof -
  obtain c t where s: "s = c # t" using assms(1) by (cases s) auto
  have r: "48 \<le> (of_char c :: nat)" "(of_char c :: nat) \<le> 57" using of_char_digit assms(2) s by auto
  then have "decode_rune s = (of_char c, 1)" by (simp add: decode_rune_def s Let_def)
  moreover have "\<not> is_space (of_char c)" using r by (auto simp: is_space_def)
  ultimately have "takeWhile (\<lambda>c. is_space (fst c)) (chunks s) = []" "dropWhile (\<lambda>c. is_space (fst c)) (chunks s) = chunks s"
    using assms(1) by (simp_all add: chunks_step)
  then show ?thesis by (simp add: skip_blank_def Let_def concat_chunks)
qed

lemma Itoa_digits: "Itoa n \<noteq> []" "\<forall>c \<in> set (Itoa n). is_digit c" "horner 10 (digit_values dec_digit (Itoa n)) = n"
  using Itoa_facts [of n] by (simp_all add: is_digit_def)

lemma scan_digits_Itoa:
  assumes "rest = [] \<or> \<not> is_digit (hd rest)"
  shows "scan_digits (Itoa n @ rest) = Some (n, rest)"
proof -
  have "takeWhile is_digit (Itoa n @ rest) = Itoa n"
    using assms Itoa_digits(2) [of n] by (cases rest) (simp_all add: takeWhile_append2)
  then show ?thesis by (simp add: scan_digits_def Itoa_digits)
qed

lemma skip_blank_Itoa: "skip_blank (Itoa n @ rest) = Some (Itoa n @ rest)"
  using Itoa_digits [of n] by (intro skip_blank_digit) auto

lemma scan_uint_Itoa:
  "rest = [] \<or> \<not> is_digit (hd rest) \<Longrightarrow> n < 2 ^ bits \<Longrightarrow> scan_uint bits (Itoa n @ rest) = Some (n, rest)"
  by (simp add: scan_uint_def skip_blank_Itoa scan_digits_Itoa)

lemma scan_int_Itoa: "n < 2 ^ 63 \<Longrightarrow> scan_int (Itoa n) = Some (int n, [])"
proof -
  assume n: "n < 2 ^ 63"
  have "is_digit (hd (Itoa n))" using Itoa_digits [of n] by auto
  then have "hd (Itoa n) \<noteq> CHR ''-'' \<and> hd (Itoa n) \<noteq> CHR ''+''" by (auto simp: is_digit_def dec_digit_def)
  moreover have "int64_range (int n)" using n by (simp add: int64_range_def)
  ultimately show ?thesis
    using skip_blank_Itoa [of n "[]"] scan_digits_Itoa [of "[]" n] by (simp add: scan_int_def Let_def)
qed

lemma not_digit_comma: "\<not> is_digit CHR '',''"
  by (simp add: is_digit_def dec_digit_def)

lemma scan_literal_append [simp]: "scan_literal lit (lit @ s) = Some s"
  by (simp add: scan_literal_def)

lemma scan_costs_print:
  assumes "m < 2 ^ 32" "t < 2 ^ 32" "p < 2 ^ 8"
  shows "scan_costs (''m='' @ Itoa m @ '',t='' @ Itoa t @ '',p='' @ Itoa p) = Some (m, t, p)"
proof -
  have "scan_uint 32 (Itoa m @ '',t='' @ r) = Some (m, '',t='' @ r)" for r
    using assms(1) not_digit_comma by (intro scan_uint_Itoa) auto
  moreover have "scan_uint 32 (Itoa t @ '',p='' @ r) = Some (t, '',p='' @ r)" for r
    using assms(2) not_digit_comma by (intro scan_uint_Itoa) auto
  moreover have "scan_uint 8 (Itoa p) = Some (p, [])"
    using assms(3) scan_uint_Itoa [of "[]" p 8] by simp
  ultimately show ?thesis unfolding scan_costs_def by (simp add: scan_literal_def)
qed

lemma set_Encode_RawStd: "set (EncodeToString RawStdEncoding bs) \<subseteq> set std_alphabet"
proof -
  have "sextet e v k \<in> set (enc_alphabet e)" if "wf_encoding e" for e v k using sextet_in that by blast
  moreover have "set (EncodeToString e bs) \<subseteq> set (enc_alphabet e)" if "wf_encoding e" "\<not> enc_padded e" for e
    using that by (induction e bs rule: EncodeToString.induct) (auto simp: padding_def Let_def sextet_in)
  moreover have "enc_alphabet RawStdEncoding = std_alphabet" "wf_encoding RawStdEncoding" "\<not> enc_padded RawStdEncoding"
    by (simp_all add: RawStdEncoding_def [THEN arg_cong [where f = enc_alphabet]] RawStdEncoding_def [THEN arg_cong [where f = enc_padded]])
  ultimately show ?thesis by metis
qed

lemma Decode_Encode_RawStd: "DecodeString (Strict RawStdEncoding) (EncodeToString RawStdEncoding bs) = Some bs"
proof -
  have "EncodeToString (Strict e) bs = EncodeToString e bs" for e
    by (induction e bs rule: EncodeToString.induct) (simp_all add: sextet_def padding_def Strict_def Let_def)
  then show ?thesis using DecodeString_EncodeToString [of "Strict RawStdEncoding" bs] by simp
qed

definition encode_hash :: "Params \<Rightarrow> byte list \<Rightarrow> byte list \<Rightarrow> string" where
  "encode_hash p salt key = ''$argon2id$v='' @ Itoa argon2_Version @ ''$m='' @ Itoa (unat (pm_Memory p)) @ '',t='' @
     Itoa (unat (pm_Iterations p)) @ '',p='' @ Itoa (unat (pm_Parallelism p)) @ ''$'' @
     EncodeToString RawStdEncoding salt @ ''$'' @ EncodeToString RawStdEncoding key"

lemma Split_encode_hash: "Split (CHR ''$'') (encode_hash p salt key) = [[], ''argon2id'', ''v='' @ Itoa argon2_Version,
    ''m='' @ Itoa (unat (pm_Memory p)) @ '',t='' @ Itoa (unat (pm_Iterations p)) @ '',p='' @ Itoa (unat (pm_Parallelism p)),
    EncodeToString RawStdEncoding salt, EncodeToString RawStdEncoding key]" (is "_ = ?parts")
proof -
  have "CHR ''$'' \<notin> set (Itoa n)" for n
    using Itoa_digits(2) [of n] by (auto simp: is_digit_def dec_digit_def)
  moreover have "CHR ''$'' \<notin> set (EncodeToString RawStdEncoding bs)" for bs
    using set_Encode_RawStd [of bs] by (auto simp: std_alphabet_def)
  ultimately have "\<forall>x \<in> set ?parts. CHR ''$'' \<notin> set x" by simp
  moreover have "encode_hash p salt key = Join (CHR ''$'') ?parts" by (simp add: encode_hash_def)
  ultimately show ?thesis using Split_Join [of ?parts "CHR ''$''"] by simp
qed

lemma decode_encode_hash:
  assumes "Params_valid p" "length salt = unat (pm_SaltLength p)" "length key = unat (pm_KeyLength p)"
  shows "decodeHash (encode_hash p salt key) = Inr (p, salt, key)"
proof -
  have v: "scan_version (''v='' @ Itoa argon2_Version) = Some (int argon2_Version)"
    using scan_int_Itoa [of argon2_Version] by (simp add: scan_version_def argon2_Version_def scan_literal_def)
  have c: "scan_costs (''m='' @ Itoa (unat (pm_Memory p)) @ '',t='' @ Itoa (unat (pm_Iterations p)) @ '',p='' @
      Itoa (unat (pm_Parallelism p))) = Some (unat (pm_Memory p), unat (pm_Iterations p), unat (pm_Parallelism p))"
    using unsigned_less [of "pm_Memory p"] unsigned_less [of "pm_Iterations p"] unsigned_less [of "pm_Parallelism p"]
    by (intro scan_costs_print) simp_all
  have "\<lparr>pm_Memory = word_of_nat (unat (pm_Memory p)), pm_Iterations = word_of_nat (unat (pm_Iterations p)),
      pm_Parallelism = word_of_nat (unat (pm_Parallelism p)), pm_SaltLength = word_of_nat (length salt),
      pm_KeyLength = word_of_nat (length key)\<rparr> = p"
    using assms(2,3) by simp
  then show ?thesis
    unfolding decodeHash_def Let_def Split_encode_hash using v c assms(1) Decode_Encode_RawStd by simp
qed

section \<open>Hashing then verifying\<close>

text \<open>What is assumed of \<open>argon2.IDKey\<close>: it derives as many bytes as it is asked for.\<close>

definition idkey_ok :: "idkey \<Rightarrow> bool" where
  "idkey_ok idkey \<longleftrightarrow> (\<forall>pw salt t m l n. length (idkey pw salt t m l n) = unat n)"

definition effective :: "Params \<Rightarrow> Params" where
  "effective p = (if p = zero_params then DefaultParams else p)"

lemma HashPassword_Ret:
  "HashPassword idkey password p w = (Ret enc, w') \<longleftrightarrow>
     Params_valid (effective p) \<and> CheckPasswordLength password MinPasswordLength = None \<and>
     unat (pm_SaltLength (effective p)) \<le> length (w_entropy w) \<and>
     (let salt = take (unat (pm_SaltLength (effective p))) (w_entropy w) in
       enc = encode_hash (effective p) salt (idkey (bytes_of_string password) salt (pm_Iterations (effective p))
         (pm_Memory (effective p)) (pm_Parallelism (effective p)) (pm_KeyLength (effective p)))) \<and>
     w' = w\<lparr>w_entropy := drop (unat (pm_SaltLength (effective p))) (w_entropy w)\<rparr>"
  unfolding HashPassword_def effective_def [symmetric]
  by (auto simp: Let_def bindM_Ret rand_Read_def encode_hash_def split: option.splits)

lemma HashPassword_frame: "HashPassword idkey password p w = (r, w') \<Longrightarrow> w_db w' = w_db w \<and> w_faults w' = w_faults w"
  by (auto simp: HashPassword_def Let_def bindM_def mapErr_def rand_Read_def returnM_def failM_def split: if_splits option.splits)

lemma keeps_HashPassword [pres_intros]: "keeps I (HashPassword idkey password p)"
  by (rule keeps_frame) (auto dest: HashPassword_frame)

lemma VerifyPassword_Hash:
  assumes "idkey_ok idkey" "HashPassword idkey password p w = (Ret enc, w')"
  shows "VerifyPassword idkey password enc = Inr (True, weakerThan (effective p) DefaultParams)"
  using assms by (auto simp: HashPassword_Ret VerifyPassword_def Let_def decode_encode_hash idkey_ok_def)

lemma VerifyPassword_True:
  "VerifyPassword idkey password enc = Inr (True, b) \<Longrightarrow> \<exists>p salt key. decodeHash enc = Inr (p, salt, key) \<and>
     idkey (bytes_of_string password) salt (pm_Iterations p) (pm_Memory p) (pm_Parallelism p) (pm_KeyLength p) = key \<and>
     b = weakerThan p DefaultParams"
  by (auto simp: VerifyPassword_def Let_def split: sum.splits if_splits)

end
