(* ===== verification/Metadata.thy ===== *)
theory Metadata
  imports Devices
begin

text \<open>
  The metadata table (\<open>internal/storage/metadata.go\<close>): the identity of the deployment and the
  claim of the first administrator. Both are written with \<open>ON CONFLICT DO NOTHING\<close>, which is
  what makes them write-once.
\<close>

section \<open>Instants as text\<close>

text \<open>
  \<open>t.UTC().Format(time.RFC3339)\<close>: the proleptic Gregorian date of the day, counted from
  1 March of year 0, and the time of day to the second.
\<close>

definition civil_of_days :: "int \<Rightarrow> int \<times> int \<times> int" where
  "civil_of_days days = (let z = days + 719468; era = z div 146097; doe = z mod 146097;
     yoe = (doe - doe div 1460 + doe div 36524 - doe div 146096) div 365;
     doy = doe - (365 * yoe + yoe div 4 - yoe div 100);
     mp = (5 * doy + 2) div 153; d = doy - (153 * mp + 2) div 5 + 1;
     m = (if mp < 10 then mp + 3 else mp - 9)
     in (yoe + era * 400 + (if m \<le> 2 then 1 else 0), m, d))"

definition pad_int :: "nat \<Rightarrow> int \<Rightarrow> string" where
  "pad_int n v = (let s = Itoa (nat \<bar>v\<bar>) in
     (if v < 0 then ''-'' else []) @ replicate (n - length s) (CHR ''0'') @ s)"

definition format_RFC3339 :: "instant \<Rightarrow> string" where
  "format_RFC3339 t = (let secs = t div Second; (y, m, d) = civil_of_days (secs div 86400); s = secs mod 86400 in
     pad_int 4 y @ ''-'' @ pad_int 2 m @ ''-'' @ pad_int 2 d @ ''T'' @ pad_int 2 (s div 3600) @ '':'' @
     pad_int 2 (s div 60 mod 60) @ '':'' @ pad_int 2 (s mod 60) @ ''Z'')"

lemma format_RFC3339_sample:
  "format_RFC3339 0 = ''1970-01-01T00:00:00Z''"
  "format_RFC3339 (1709210096 * Second) = ''2024-02-29T12:34:56Z''"
  by code_simp+

section \<open>Operations\<close>

definition KeyInstanceID :: string where "KeyInstanceID = ''instance_id''"
definition KeyInitialisedAt :: string where "KeyInitialisedAt = ''initialised_at''"
definition KeyBootstrapClaimedAt :: string where "KeyBootstrapClaimedAt = ''bootstrap_claimed_at''"

definition ErrMetadataNotFound :: error where "ErrMetadataNotFound = ErrNew ''metadata key not found''"

definition GetMetadata :: "string \<Rightarrow> (db, string) comp" where
  "GetMetadata key = bindM (mapErr (wrap (''reading metadata key '' @ key))
       (queryM (\<lambda>d. find (\<lambda>r. m_key r = key) (server_metadata d))))
     (\<lambda>row. case row of None \<Rightarrow> failM (wrap key ErrMetadataNotFound) | Some r \<Rightarrow> returnM (m_value r))"

text \<open>The two forms of \<open>ON CONFLICT (key)\<close>.\<close>

definition upsert_metadata :: "string \<Rightarrow> string \<Rightarrow> instant \<Rightarrow> db \<Rightarrow> sql_code + nat \<times> db" where
  "upsert_metadata key value now d = (if key \<in> m_key ` set (server_metadata d)
     then Inr (1, d\<lparr>server_metadata := map (\<lambda>r. if m_key r = key then r\<lparr>m_value := value, m_updated_at := now\<rparr> else r) (server_metadata d)\<rparr>)
     else Inr (1, d\<lparr>server_metadata := server_metadata d @
       [\<lparr>m_key = key, m_value = value, m_created_at = now, m_updated_at = now\<rparr>]\<rparr>))"

definition insert_metadata_once :: "string \<Rightarrow> string \<Rightarrow> instant \<Rightarrow> db \<Rightarrow> sql_code + nat \<times> db" where
  "insert_metadata_once key value now d = (if key \<in> m_key ` set (server_metadata d) then Inr (0, d)
     else Inr (1, d\<lparr>server_metadata := server_metadata d @
       [\<lparr>m_key = key, m_value = value, m_created_at = now, m_updated_at = now\<rparr>]\<rparr>))"

definition SetMetadata :: "string \<Rightarrow> string \<Rightarrow> instant \<Rightarrow> (db, unit) comp" where
  "SetMetadata key value now = bindM (mapErr (wrap (''writing metadata key '' @ key)) (execM (upsert_metadata key value now)))
     (\<lambda>_. returnM ())"

definition instance_tx :: "string \<Rightarrow> instant \<Rightarrow> (db, unit) comp" where
  "instance_tx candidate now = bindM (execM (insert_metadata_once KeyInstanceID candidate now)) (\<lambda>_.
     bindM (execM (insert_metadata_once KeyInitialisedAt (format_RFC3339 now) now)) (\<lambda>_. returnM ()))"

definition InstanceID :: "instant \<Rightarrow> (db, string) comp" where
  "InstanceID now = bindM (tryM (GetMetadata KeyInstanceID)) (\<lambda>first.
     case first of
       Inr ident \<Rightarrow> returnM ident
     | Inl err \<Rightarrow> if \<not> errors_Is err ErrMetadataNotFound then failM err
         else bindM (NewID ''net'') (\<lambda>candidate.
           bindM (mapErr (wrap ''initialising the instance identity'') (InTx (instance_tx candidate now))) (\<lambda>_.
           mapErr (wrap ''initialising the instance identity'') (GetMetadata KeyInstanceID))))"

definition ClaimBootstrap :: "instant \<Rightarrow> (db, bool) comp" where
  "ClaimBootstrap now = bindM (mapErr (wrap ''claiming the installation'')
       (execM (insert_metadata_once KeyBootstrapClaimedAt (format_RFC3339 now) now))) (\<lambda>result.
     bindM (mapErr (wrap ''claiming the installation'') (rowsAffected result)) (\<lambda>affected.
     returnM (affected = 1)))"

definition BootstrapClaimed :: "(db, bool) comp" where
  "BootstrapClaimed = bindM (tryM (GetMetadata KeyBootstrapClaimedAt)) (\<lambda>res.
     case res of Inr _ \<Rightarrow> returnM True
     | Inl err \<Rightarrow> if errors_Is err ErrMetadataNotFound then returnM False else failM err)"

section \<open>Metadata as a map\<close>

text \<open>The abstract content of the table: one value per key.\<close>

definition metadata :: "db \<Rightarrow> string \<Rightarrow> string option" where
  "metadata d key = map_option m_value (find (\<lambda>r. m_key r = key) (server_metadata d))"

definition claimed :: "db \<Rightarrow> bool" where
  "claimed d \<longleftrightarrow> metadata d KeyBootstrapClaimedAt \<noteq> None"

lemma find_None_image: "find (\<lambda>r. f r = k) xs = None \<longleftrightarrow> k \<notin> f ` set xs"
  by (auto simp: find_None_iff)

lemma metadata_None: "metadata d key = None \<longleftrightarrow> key \<notin> m_key ` set (server_metadata d)"
  by (simp add: metadata_def find_None_image)

lemma find_append: "find P (xs @ ys) = (case find P xs of None \<Rightarrow> find P ys | Some x \<Rightarrow> Some x)"
  by (induction xs) auto

lemma GetMetadata_frame: "GetMetadata key w = (r, w') \<Longrightarrow> w_db w' = w_db w"
  by (auto simp: GetMetadata_def bindM_def mapErr_def returnM_def failM_def split: prod.splits res.splits option.splits
      dest!: queryM_frame)

lemma keeps_GetMetadata [pres_intros]: "keeps I (GetMetadata key)"
  by (rule keeps_frame) (auto dest: GetMetadata_frame)

lemma GetMetadata_Ret: "GetMetadata key w = (Ret v, w') \<Longrightarrow> metadata (w_db w) key = Some v"
  by (auto simp: GetMetadata_def bindM_Ret metadata_def case_option_Ret dest!: queryM_Ret)

lemma calm_GetMetadata:
  "w_faults w = [] \<Longrightarrow> GetMetadata key w = (case metadata (w_db w) key of
     None \<Rightarrow> (Err (wrap key ErrMetadataNotFound), w) | Some v \<Rightarrow> (Ret v, w))"
  by (simp add: GetMetadata_def bindM_def mapErr_def calm_queryM returnM_def failM_def metadata_def split: option.splits)

lemma metadata_append:
  "metadata (d\<lparr>server_metadata := server_metadata d @ [r]\<rparr>) k =
     (case metadata d k of None \<Rightarrow> if m_key r = k then Some (m_value r) else None | Some v \<Rightarrow> Some v)"
  by (simp add: metadata_def find_append split: option.splits)

lemma insert_metadata_once_eff:
  assumes "insert_metadata_once key value now d = Inr (n, e)"
  shows "metadata e = (if metadata d key = None then (metadata d)(key := Some value) else metadata d) \<and>
     (n = 1 \<longleftrightarrow> metadata d key = None) \<and> n \<le> 1 \<and> e = d\<lparr>server_metadata := server_metadata e\<rparr>"
proof (cases "metadata d key = None")
  case True
  then have "e = d\<lparr>server_metadata := server_metadata d @ [\<lparr>m_key = key, m_value = value, m_created_at = now, m_updated_at = now\<rparr>]\<rparr>" "n = 1"
    using assms by (simp_all add: insert_metadata_once_def metadata_None)
  with True show ?thesis by (simp add: metadata_append fun_eq_iff split: option.splits)
qed (use assms in \<open>simp add: insert_metadata_once_def metadata_None\<close>)

lemma insert_metadata_once_total: "\<exists>n e. insert_metadata_once key value now d = Inr (n, e)"
  by (simp add: insert_metadata_once_def)

lemma frame_metadata:
  "users_schema (d\<lparr>server_metadata := t\<rparr>) = users_schema d" "sessions_schema (d\<lparr>server_metadata := t\<rparr>) = sessions_schema d"
  "keys_schema (d\<lparr>server_metadata := t\<rparr>) = keys_schema d" "devices_schema (d\<lparr>server_metadata := t\<rparr>) = devices_schema d"
  "tokens_schema (d\<lparr>server_metadata := t\<rparr>) = tokens_schema d" "allocations_schema (d\<lparr>server_metadata := t\<rparr>) = allocations_schema d"
  "alloc_ok (d\<lparr>server_metadata := t\<rparr>) = alloc_ok d" "keys_ok (d\<lparr>server_metadata := t\<rparr>) = keys_ok d"
  "held_by (d\<lparr>server_metadata := t\<rparr>) = held_by d" "uses_ok (d\<lparr>server_metadata := t\<rparr>) = uses_ok d"
  by (simp_all add: table_schemas alloc_ok_def keys_ok_def held_by_def uses_ok_def fun_eq_iff)

lemma consistent_metadata:
  "consistent d \<Longrightarrow> metadata_schema (d\<lparr>server_metadata := t\<rparr>) \<Longrightarrow> consistent (d\<lparr>server_metadata := t\<rparr>)"
  by (simp add: consistent_def schema_ok_def frame_metadata devices_ok_def)

lemma insert_metadata_once_consistent:
  assumes "consistent d" "insert_metadata_once key value now d = Inr (n, e)" shows "consistent e"
  using assms consistent_metadata [OF assms(1)]
  by (auto simp: insert_metadata_once_def metadata_schema_def consistent_def schema_ok_def split: if_splits)

lemma keeps_InstanceID: "keeps consistent (InstanceID now)"
  unfolding InstanceID_def instance_tx_def
  by (intro pres_intros keeps_execM keeps_commits) (auto elim: insert_metadata_once_consistent)

lemma keeps_ClaimBootstrap [pres_intros]: "keeps consistent (ClaimBootstrap now)"
  unfolding ClaimBootstrap_def by (intro pres_intros keeps_execM) (auto elim: insert_metadata_once_consistent)

lemma ClaimBootstrap_Ret:
  assumes "ClaimBootstrap now w = (Ret b, w')"
  shows "(b \<longleftrightarrow> \<not> claimed (w_db w)) \<and> claimed (w_db w') \<and> w_db w' = (w_db w)\<lparr>server_metadata := server_metadata (w_db w')\<rparr>"
proof -
  obtain n w1 m where e: "execM (insert_metadata_once KeyBootstrapClaimedAt (format_RFC3339 now) now) w = (Ret n, w1)"
    and r: "rowsAffected n w1 = (Ret m, w')" and b: "b = (m = 1)"
    using assms by (auto simp: ClaimBootstrap_def bindM_Ret)
  have eff: "insert_metadata_once KeyBootstrapClaimedAt (format_RFC3339 now) now (w_db w) = Inr (n, w_db w')"
    using execM_Ret [OF e] rowsAffected_frame [OF r] by simp
  show ?thesis using insert_metadata_once_eff [OF eff] rowsAffected_Ret [OF r] b by (auto simp: claimed_def)
qed

text \<open>A write-once key keeps its value under every operation of this file but \<open>SetMetadata\<close>.\<close>

lemma keeps_once:
  "keeps (\<lambda>d. metadata d k = Some v) (execM (insert_metadata_once key value now))"
  by (rule keeps_execM) (auto dest!: insert_metadata_once_eff)

lemma keeps_instance_tx: "keeps (\<lambda>d. metadata d k = Some v) (instance_tx candidate now)"
  unfolding instance_tx_def by (intro pres_intros keeps_once)

lemma keeps_InstanceID_value: "keeps (\<lambda>d. metadata d k = Some v) (InstanceID now)"
  unfolding InstanceID_def by (intro pres_intros keeps_commits keeps_instance_tx)

lemma InstanceID_Ret:
  assumes "InstanceID now w = (Ret ident, w')"
  shows "metadata (w_db w') KeyInstanceID = Some ident"
proof -
  obtain first w1 where g: "tryM (GetMetadata KeyInstanceID) w = (Ret first, w1)"
    and rest: "(case first of Inr ident \<Rightarrow> returnM ident
     | Inl err \<Rightarrow> if \<not> errors_Is err ErrMetadataNotFound then failM err
         else bindM (NewID ''net'') (\<lambda>candidate.
           bindM (mapErr (wrap ''initialising the instance identity'') (InTx (instance_tx candidate now))) (\<lambda>_.
           mapErr (wrap ''initialising the instance identity'') (GetMetadata KeyInstanceID)))) w1 = (Ret ident, w')"
    using assms by (auto simp: InstanceID_def bindM_Ret)
  show ?thesis
  proof (cases first)
    case (Inr v)
    then have "GetMetadata KeyInstanceID w = (Ret v, w1)" "v = ident" "w' = w1" using g rest by (auto simp: tryM_Ret)
    then show ?thesis using GetMetadata_Ret GetMetadata_frame by metis
  next
    case (Inl err)
    then obtain w2 where "GetMetadata KeyInstanceID w2 = (Ret ident, w')" using rest by (auto simp: bindM_Ret split: if_splits)
    then show ?thesis using GetMetadata_Ret GetMetadata_frame by metis
  qed
qed

lemma calm_InstanceID:
  assumes "w_faults w = []" "IDEntropyBytes \<le> length (w_entropy w)"
  shows "\<exists>ident w'. InstanceID now w = (Ret ident, w') \<and> w_faults w' = []"
proof (cases "metadata (w_db w) KeyInstanceID")
  case (Some v)
  then show ?thesis using assms(1) by (simp add: InstanceID_def bindM_def tryM_def calm_GetMetadata returnM_def)
next
  case None
  obtain c w1 where n: "NewID ''net'' w = (Ret c, w1)" "w_faults w1 = []" "w_db w1 = w_db w"
    using assms NewID_Ret [of "''net''" w] NewID_frame [of "''net''" w] by auto
  obtain k d1 where i1: "insert_metadata_once KeyInstanceID c now (w_db w1) = Inr (k, d1)"
    using insert_metadata_once_total by blast
  obtain j d2 where i2: "insert_metadata_once KeyInitialisedAt (format_RFC3339 now) now d1 = Inr (j, d2)"
    using insert_metadata_once_total by blast
  have "instance_tx c now w1 = (Ret (), w1\<lparr>w_db := d2\<rparr>)"
    using n(2) i1 i2 by (simp add: instance_tx_def bindM_def calm_execM returnM_def)
  then have tx: "InTx (instance_tx c now) w1 = (Ret (), w1\<lparr>w_db := d2\<rparr>)" using n(2) by (intro calm_InTx) simp_all
  have "metadata d2 KeyInstanceID = Some c"
    using insert_metadata_once_eff [OF i1] insert_metadata_once_eff [OF i2] None n(3) by (auto simp: KeyInstanceID_def KeyInitialisedAt_def)
  then show ?thesis using assms(1) None n tx
    by (simp add: InstanceID_def bindM_def tryM_def mapErr_def calm_GetMetadata)
qed

end
