(* ===== verification/Migrations.thy ===== *)
theory Migrations
  imports Metadata
begin

text \<open>
  Schema migrations (\<open>internal/storage/migrate.go\<close>): loading the embedded scripts, the ledger of
  what was applied, its verification and the loop that applies the rest. The scripts themselves are
  SQL; what running one does to the database is the parameter \<open>exec_sql\<close>, and the embedded files
  are the parameter \<open>fs\<close>, a directory listing per path in the order of file names.
\<close>

section \<open>Loading\<close>

text \<open>\<open>strconv.Atoi\<close>: an optional sign and decimal digits, whose value fits an \<open>int\<close>.\<close>

definition Atoi :: "string \<Rightarrow> int option" where
  "Atoi s = (let neg = (case s of c # _ \<Rightarrow> c = CHR ''-'' | [] \<Rightarrow> False);
     ds = (case s of c # t \<Rightarrow> if c = CHR ''-'' \<or> c = CHR ''+'' then t else s | [] \<Rightarrow> []) in
     if ds = [] \<or> (\<exists>c \<in> set ds. dec_digit c = None) then None
     else let n = int (horner 10 (digit_values dec_digit ds)); v = (if neg then - n else n) in
       if int64_range v then Some v else None)"

definition HasSuffix :: "string \<Rightarrow> string \<Rightarrow> bool" where
  "HasSuffix s suf \<longleftrightarrow> length suf \<le> length s \<and> drop (length s - length suf) s = suf"

definition TrimSuffix :: "string \<Rightarrow> string \<Rightarrow> string" where
  "TrimSuffix s suf = (if HasSuffix s suf then take (length s - length suf) s else s)"

record Migration =
  mg_Version :: int
  mg_Name :: string
  mg_SQL :: string
  mg_Checksum :: string

definition Filename :: "Migration \<Rightarrow> string" where
  "Filename m = pad_int 4 (mg_Version m) @ ''_'' @ mg_Name m @ ''.sql''"

definition parseMigrationName :: "string \<Rightarrow> error + int \<times> string" where
  "parseMigrationName filename = (let base = TrimSuffix filename ''.sql''; (prefix, name, ok) = Cut base (CHR ''_'') in
     if \<not> ok \<or> name = [] then Inl (ErrNew (''storage: migration '' @ filename @ '' is misnamed (expected NNNN_description.sql)''))
     else case Atoi prefix of
       None \<Rightarrow> Inl (ErrNew (''storage: migration '' @ filename @ '' has no positive numeric version prefix''))
     | Some version \<Rightarrow> if version \<le> 0
         then Inl (ErrNew (''storage: migration '' @ filename @ '' has no positive numeric version prefix''))
         else Inr (version, name))"

text \<open>An entry of an embedded directory; a file whose body is \<open>None\<close> cannot be read.\<close>

record fs_entry =
  fe_Name :: string
  fe_IsDir :: bool
  fe_Body :: "string option"

type_synonym embed_FS = "string \<Rightarrow> fs_entry list option"

fun load_loop :: "fs_entry list \<Rightarrow> (int \<Rightarrow> string option) \<Rightarrow> Migration list \<Rightarrow> error + Migration list" where
  "load_loop [] seen out = Inr out"
| "load_loop (entry # rest) seen out =
     (if fe_IsDir entry \<or> \<not> HasSuffix (fe_Name entry) ''.sql'' then load_loop rest seen out
      else case parseMigrationName (fe_Name entry) of
        Inl e \<Rightarrow> Inl e
      | Inr (version, name) \<Rightarrow> (case seen version of
          Some previous \<Rightarrow> Inl (ErrNew (''storage: migrations '' @ previous @ '' and '' @ fe_Name entry @ '' share version '' @ Itoa (nat version)))
        | None \<Rightarrow> (case fe_Body entry of
            None \<Rightarrow> Inl (wrap (''storage: reading migration '' @ fe_Name entry) (ErrNew ''file unreadable''))
          | Some body \<Rightarrow> if TrimSpace body = [] then Inl (ErrNew (''storage: migration '' @ fe_Name entry @ '' is empty''))
              else load_loop rest (seen(version \<mapsto> fe_Name entry)) (out @ [\<lparr>mg_Version = version, mg_Name = name, mg_SQL = body,
                mg_Checksum = hex_EncodeToString (Sum256 (bytes_of_string body))\<rparr>]))))"

text \<open>
  \<open>LoadMigrations\<close>. The order \<open>a.Version - b.Version\<close> is the order of the versions: they are positive,
  so the difference does not leave the range of \<open>int\<close>.
\<close>

definition LoadMigrations :: "embed_FS \<Rightarrow> Driver \<Rightarrow> error + Migration list" where
  "LoadMigrations fs driver = (case fs (''migrations/'' @ driver) of
     None \<Rightarrow> Inl (wrap (''storage: no embedded migrations for driver '' @ driver) (ErrNew ''file does not exist''))
   | Some entries \<Rightarrow> (case load_loop entries Map.empty [] of
       Inl e \<Rightarrow> Inl e
     | Inr out \<Rightarrow> Inr (sort_key mg_Version out)))"

section \<open>The ledger\<close>

definition ErrChecksumMismatch :: error where
  "ErrChecksumMismatch = ErrNew ''an already-applied migration has been modified''"

definition ErrDatabaseAhead :: error where
  "ErrDatabaseAhead = ErrNew ''the database schema is newer than this build understands''"

record AppliedMigration =
  ap_Version :: int
  ap_Name :: string
  ap_Checksum :: string
  ap_AppliedAt :: instant

definition scanApplied :: "ledger_row \<Rightarrow> AppliedMigration" where
  "scanApplied r = \<lparr>ap_Version = l_version r, ap_Name = l_name r, ap_Checksum = l_checksum r, ap_AppliedAt = l_applied_at r\<rparr>"

text \<open>\<open>CREATE TABLE IF NOT EXISTS schema_migrations\<close>.\<close>

definition create_ledger :: "db \<Rightarrow> sql_code + nat \<times> db" where
  "create_ledger d = Inr (0, case schema_migrations d of None \<Rightarrow> d\<lparr>schema_migrations := Some []\<rparr> | Some _ \<Rightarrow> d)"

definition ensureLedger :: "(db, unit) comp" where
  "ensureLedger = bindM (mapErr (wrap ''creating the schema_migrations table'') (execM create_ledger)) (\<lambda>_. returnM ())"

text \<open>A query of a table that does not exist fails.\<close>

definition AppliedMigrations :: "(db, AppliedMigration list) comp" where
  "AppliedMigrations = bindM (mapErr (wrap ''reading the migration ledger'') (queryM schema_migrations)) (\<lambda>rows. case rows of
     None \<Rightarrow> failM (wrap ''reading the migration ledger'' (ErrSQL DriverFailure))
   | Some rs \<Rightarrow> returnM (map scanApplied (sort_key l_version rs)))"

definition short :: "string \<Rightarrow> string" where
  "short checksum = (if length checksum \<le> 12 then checksum else take 12 checksum)"

definition byVersion :: "Migration list \<Rightarrow> int \<Rightarrow> Migration option" where
  "byVersion available = foldl (\<lambda>f m. f(mg_Version m \<mapsto> m)) Map.empty available"

fun verifyLedger :: "Migration list \<Rightarrow> AppliedMigration list \<Rightarrow> error option" where
  "verifyLedger available [] = None"
| "verifyLedger available (a # rest) = (case byVersion available (ap_Version a) of
     None \<Rightarrow> Some (wrap (''migration '' @ pad_int 0 (ap_Version a) @ '' ('' @ ap_Name a @ '') was applied on '' @ format_RFC3339 (ap_AppliedAt a) @
       '' but is not present in this build'') ErrDatabaseAhead)
   | Some m \<Rightarrow> if mg_Checksum m \<noteq> ap_Checksum a
       then Some (wrap (''migration '' @ Filename m @ '' no longer matches the version applied on '' @ format_RFC3339 (ap_AppliedAt a) @
         '' (recorded '' @ short (ap_Checksum a) @ '', found '' @ short (mg_Checksum m) @ '')'') ErrChecksumMismatch)
       else verifyLedger available rest)"

section \<open>Applying\<close>

text \<open>The ledger's primary key is its version.\<close>

definition insert_ledger :: "ledger_row \<Rightarrow> db \<Rightarrow> sql_code + nat \<times> db" where
  "insert_ledger row d = (case schema_migrations d of
     None \<Rightarrow> Inl DriverFailure
   | Some rs \<Rightarrow> if l_version row \<in> l_version ` set rs then Inl UniqueViolation
       else Inr (1, d\<lparr>schema_migrations := Some (rs @ [row])\<rparr>))"

type_synonym sql_engine = "string \<Rightarrow> db \<Rightarrow> sql_code + nat \<times> db"

definition applyOne :: "sql_engine \<Rightarrow> Migration \<Rightarrow> instant \<Rightarrow> (db, unit) comp" where
  "applyOne exec_sql m now = InTx (bindM (execM (exec_sql (mg_SQL m))) (\<lambda>_.
     bindM (execM (insert_ledger \<lparr>l_version = mg_Version m, l_name = mg_Name m, l_checksum = mg_Checksum m, l_applied_at = now\<rparr>)) (\<lambda>_.
     returnM ())))"

text \<open>
  The loop returns how many migrations it applied and the error that stopped it. The set is the
  versions the ledger had when it was read.
\<close>

fun migrate_loop :: "sql_engine \<Rightarrow> (int \<Rightarrow> instant) \<Rightarrow> int set \<Rightarrow> Migration list \<Rightarrow> nat \<Rightarrow> (db, nat \<times> error option) comp" where
  "migrate_loop exec_sql clk appliedVersions [] count = returnM (count, None)"
| "migrate_loop exec_sql clk appliedVersions (m # rest) count =
     (if mg_Version m \<in> appliedVersions then migrate_loop exec_sql clk appliedVersions rest count
      else bindM (tryM (applyOne exec_sql m (clk (mg_Version m)))) (\<lambda>r. case r of
        Inl err \<Rightarrow> returnM (count, Some (wrap (''applying migration '' @ Filename m) err))
      | Inr _ \<Rightarrow> migrate_loop exec_sql clk appliedVersions rest (Suc count)))"

definition Migrate :: "sql_engine \<Rightarrow> embed_FS \<Rightarrow> Driver \<Rightarrow> (int \<Rightarrow> instant) \<Rightarrow> (db, nat \<times> error option) comp" where
  "Migrate exec_sql fs driver clk = (case LoadMigrations fs driver of
     Inl err \<Rightarrow> returnM (0, Some err)
   | Inr available \<Rightarrow> bindM (tryM ensureLedger) (\<lambda>r. case r of
       Inl err \<Rightarrow> returnM (0, Some err)
     | Inr _ \<Rightarrow> bindM (tryM AppliedMigrations) (\<lambda>r. case r of
         Inl err \<Rightarrow> returnM (0, Some err)
       | Inr applied \<Rightarrow> (case verifyLedger available applied of
           Some err \<Rightarrow> returnM (0, Some err)
         | None \<Rightarrow> migrate_loop exec_sql clk (ap_Version ` set applied) available 0))))"

definition SchemaVersion :: "(db, int) comp" where
  "SchemaVersion = bindM AppliedMigrations (\<lambda>applied. returnM (foldl (\<lambda>version a. max version (ap_Version a)) 0 applied))"

section \<open>Placeholders\<close>

text \<open>\<open>DB.Rebind\<close>: numbered placeholders for PostgreSQL.\<close>

fun rebind_loop :: "string \<Rightarrow> nat \<Rightarrow> string" where
  "rebind_loop [] n = []"
| "rebind_loop (c # cs) n = (if c \<noteq> CHR ''?'' then c # rebind_loop cs n
     else CHR ''$'' # Itoa (Suc n) @ rebind_loop cs (Suc n))"

definition Rebind :: "Driver \<Rightarrow> string \<Rightarrow> string" where
  "Rebind driver query = (if driver \<noteq> DriverPostgres then query else rebind_loop query 0)"

section \<open>What is loaded\<close>

definition usable_entry :: "fs_entry \<Rightarrow> bool" where
  "usable_entry e \<longleftrightarrow> \<not> fe_IsDir e \<and> HasSuffix (fe_Name e) ''.sql''"

definition loaded_from :: "fs_entry \<Rightarrow> Migration \<Rightarrow> bool" where
  "loaded_from e m \<longleftrightarrow> usable_entry e \<and> parseMigrationName (fe_Name e) = Inr (mg_Version m, mg_Name m) \<and>
     fe_Body e = Some (mg_SQL m) \<and> TrimSpace (mg_SQL m) \<noteq> [] \<and>
     mg_Checksum m = hex_EncodeToString (Sum256 (bytes_of_string (mg_SQL m)))"

lemma load_loop_Inr:
  assumes "load_loop entries seen out = Inr ms" "distinct (map mg_Version out)" "dom seen = mg_Version ` set out"
  shows "\<exists>new. ms = out @ new \<and> distinct (map mg_Version ms) \<and> list_all2 loaded_from (filter usable_entry entries) new"
  using assms
proof (induction entries arbitrary: seen out)
  case (Cons entry rest)
  show ?case
  proof (cases "usable_entry entry")
    case False
    then show ?thesis using Cons by (auto simp: usable_entry_def)
  next
    case True
    then obtain version name body where p: "parseMigrationName (fe_Name entry) = Inr (version, name)" "seen version = None"
      "fe_Body entry = Some body" "TrimSpace body \<noteq> []"
      using Cons.prems(1) by (auto simp: usable_entry_def split: sum.splits option.splits if_splits prod.splits)
    define m where "m = \<lparr>mg_Version = version, mg_Name = name, mg_SQL = body,
      mg_Checksum = hex_EncodeToString (Sum256 (bytes_of_string body))\<rparr>"
    have "load_loop rest (seen(version \<mapsto> fe_Name entry)) (out @ [m]) = Inr ms"
      using Cons.prems(1) True p by (simp add: usable_entry_def m_def)
    moreover have "version \<notin> mg_Version ` set out" using p(2) Cons.prems(3) by (metis domIff)
    then have "distinct (map mg_Version (out @ [m]))" using Cons.prems(2) by (simp add: m_def)
    moreover have "dom (seen(version \<mapsto> fe_Name entry)) = mg_Version ` set (out @ [m])"
      using Cons.prems(3) by (simp add: m_def del: fun_upd_apply)
    ultimately have "\<exists>new. ms = (out @ [m]) @ new \<and> distinct (map mg_Version ms) \<and> list_all2 loaded_from (filter usable_entry rest) new"
      by (rule Cons.IH)
    then obtain new where new: "ms = out @ (m # new)" "distinct (map mg_Version ms)" "list_all2 loaded_from (filter usable_entry rest) new" by auto
    moreover have "loaded_from entry m" using True p by (simp add: loaded_from_def m_def)
    ultimately show ?thesis using True by auto
  qed
qed simp

lemma parseMigrationName_pos: "parseMigrationName f = Inr (v, n) \<Longrightarrow> 0 < v \<and> n \<noteq> [] \<and> int64_range v"
  by (auto simp: parseMigrationName_def Atoi_def Let_def split: prod.splits if_splits option.splits)

lemma LoadMigrations_Inr:
  assumes "LoadMigrations fs driver = Inr ms"
  shows "\<exists>entries. fs (''migrations/'' @ driver) = Some entries \<and> sorted_wrt (<) (map mg_Version ms) \<and>
    (\<forall>m \<in> set ms. \<exists>e \<in> set entries. loaded_from e m) \<and>
    (\<forall>e \<in> set entries. usable_entry e \<longrightarrow> (\<exists>m \<in> set ms. loaded_from e m))"
proof -
  obtain entries out where load: "fs (''migrations/'' @ driver) = Some entries" "load_loop entries Map.empty [] = Inr out"
    "ms = sort_key mg_Version out"
    using assms by (auto simp: LoadMigrations_def split: option.splits sum.splits)
  obtain new where new: "out = new" "distinct (map mg_Version out)" "list_all2 loaded_from (filter usable_entry entries) new"
    using load_loop_Inr [OF load(2)] by auto
  have "distinct (map mg_Version ms)" using new(2) by (simp add: load(3) distinct_map)
  then have "sorted_wrt (<) (map mg_Version ms)" using load(3) by (simp add: strict_sorted_iff)
  moreover have "\<exists>e \<in> set entries. loaded_from e m" if "m \<in> set ms" for m
  proof -
    have "m \<in> set new" using that new(1) load(3) by simp
    then obtain i where "i < length (filter usable_entry entries)" "loaded_from (filter usable_entry entries ! i) m"
      using new(3) unfolding list_all2_conv_all_nth in_set_conv_nth by auto
    then show ?thesis using nth_mem [of i "filter usable_entry entries"] by auto
  qed
  moreover have "\<exists>m \<in> set ms. loaded_from e m" if "e \<in> set entries" "usable_entry e" for e
  proof -
    have "e \<in> set (filter usable_entry entries)" using that by simp
    then obtain i where "i < length new" "loaded_from e (new ! i)"
      using new(3) unfolding list_all2_conv_all_nth in_set_conv_nth by auto
    then show ?thesis using new(1) load(3) nth_mem [of i new] by auto
  qed
  ultimately show ?thesis using load(1) by blast
qed

section \<open>What the ledger records\<close>

lemma byVersion_acc: "foldl (\<lambda>f m. f(mg_Version m \<mapsto> m)) g ms v =
    (case find (\<lambda>m. mg_Version m = v) (rev ms) of Some m \<Rightarrow> Some m | None \<Rightarrow> g v)"
proof (induction ms arbitrary: g rule: rev_induct)
  case (snoc m ms)
  then show ?case by simp
qed simp

lemma byVersion_iff:
  assumes "distinct (map mg_Version ms)"
  shows "byVersion ms v = Some m \<longleftrightarrow> m \<in> set ms \<and> mg_Version m = v"
proof
  assume "byVersion ms v = Some m"
  then show "m \<in> set ms \<and> mg_Version m = v"
    by (auto simp: byVersion_def byVersion_acc split: option.splits dest!: find_SomeD)
next
  assume m: "m \<in> set ms \<and> mg_Version m = v"
  have "distinct (map mg_Version (rev ms))" using assms by (metis distinct_rev rev_map)
  then show "byVersion ms v = Some m"
    using m find_unique [of mg_Version "rev ms" m] by (simp add: byVersion_def byVersion_acc)
qed

definition recorded :: "Migration list \<Rightarrow> AppliedMigration \<Rightarrow> bool" where
  "recorded ms a \<longleftrightarrow> (\<exists>m \<in> set ms. mg_Version m = ap_Version a \<and> mg_Checksum m = ap_Checksum a)"

lemma verifyLedger_None:
  assumes "distinct (map mg_Version ms)"
  shows "verifyLedger ms as = None \<longleftrightarrow> (\<forall>a \<in> set as. recorded ms a)"
proof (induction as)
  case (Cons a as)
  show ?case
  proof (cases "byVersion ms (ap_Version a)")
    case None
    then have "\<not> recorded ms a" using byVersion_iff [OF assms] unfolding recorded_def by (metis option.distinct(1))
    with None show ?thesis by simp
  next
    case (Some m)
    then have m: "m \<in> set ms" "mg_Version m = ap_Version a" using byVersion_iff [OF assms] by auto
    then have "recorded ms a \<longleftrightarrow> mg_Checksum m = ap_Checksum a"
      using Some byVersion_iff [OF assms] unfolding recorded_def by (metis option.inject)
    with Some Cons show ?thesis by auto
  qed
qed simp

lemma verifyLedger_Some: "verifyLedger ms as = Some e \<Longrightarrow> errors_Is e ErrDatabaseAhead \<or> errors_Is e ErrChecksumMismatch"
  by (induction as) (auto split: option.splits if_splits)

lemma AppliedMigrations_Ret:
  "AppliedMigrations w = (Ret as, w') \<longleftrightarrow> (\<exists>rs. schema_migrations (w_db w) = Some rs \<and>
     as = map scanApplied (sort_key l_version rs) \<and> queryM schema_migrations w = (Ret (Some rs), w'))"
proof
  assume run: "AppliedMigrations w = (Ret as, w')"
  then obtain x where q: "queryM schema_migrations w = (Ret x, w')"
    and rest: "x \<noteq> None" "as = map scanApplied (sort_key l_version (the x))"
    by (auto simp: AppliedMigrations_def bindM_Ret split: option.splits)
  then show "\<exists>rs. schema_migrations (w_db w) = Some rs \<and> as = map scanApplied (sort_key l_version rs) \<and>
      queryM schema_migrations w = (Ret (Some rs), w')" using queryM_Ret [OF q] by auto
qed (auto simp: AppliedMigrations_def bindM_def mapErr_def returnM_def)

lemma AppliedMigrations_frame: "AppliedMigrations w = (r, w') \<Longrightarrow> w_db w' = w_db w"
  by (auto simp: AppliedMigrations_def bindM_def mapErr_def failM_def returnM_def
      split: prod.splits res.splits option.splits dest: queryM_frame)

text \<open>\<open>SchemaVersion\<close> is the greatest recorded version, and zero on an empty ledger.\<close>

lemma foldl_max_Max: "foldl (\<lambda>v a. max v (f a)) z xs = Max (insert z (f ` set xs))" for z :: int
proof (induction xs arbitrary: z)
  case (Cons x xs)
  have "insert (max z (f x)) (f ` set xs) \<noteq> {}" "finite (f ` set xs)" by auto
  then show ?case using Cons by (simp add: Max_insert2 insert_commute max.assoc) (cases "f ` set xs = {}", simp_all add: Max_insert max.assoc)
qed simp

lemma SchemaVersion_Ret:
  "SchemaVersion w = (Ret v, w') \<Longrightarrow> \<exists>rs. schema_migrations (w_db w) = Some rs \<and> v = Max (insert 0 (l_version ` set rs))"
  by (auto simp: SchemaVersion_def bindM_Ret AppliedMigrations_Ret foldl_max_Max image_image scanApplied_def)

section \<open>The schema as a replay of a prefix\<close>

text \<open>
  The specification of migrating: the tables are what running the scripts of a prefix of the
  available migrations gives, and the ledger names exactly that prefix. A script reads and writes
  only the tables of the application, never the ledger (\<open>leaves_ledger\<close>).
\<close>

definition leaves_ledger :: "sql_engine \<Rightarrow> Migration \<Rightarrow> bool" where
  "leaves_ledger exec_sql m \<longleftrightarrow> (\<forall>d l. exec_sql (mg_SQL m) (d\<lparr>schema_migrations := l\<rparr>) =
     (case exec_sql (mg_SQL m) d of Inl c \<Rightarrow> Inl c | Inr (n, e) \<Rightarrow> Inr (n, e\<lparr>schema_migrations := l\<rparr>)))"

fun replay :: "sql_engine \<Rightarrow> Migration list \<Rightarrow> db \<Rightarrow> db option" where
  "replay exec_sql [] d = Some d"
| "replay exec_sql (m # ms) d = (case exec_sql (mg_SQL m) d of Inl _ \<Rightarrow> None | Inr (_, e) \<Rightarrow> replay exec_sql ms e)"

definition ledger_rows :: "db \<Rightarrow> ledger_row list" where
  "ledger_rows d = (case schema_migrations d of None \<Rightarrow> [] | Some rs \<Rightarrow> rs)"

definition entry_of :: "Migration \<Rightarrow> int \<times> string \<times> string" where
  "entry_of m = (mg_Version m, mg_Name m, mg_Checksum m)"

definition migrated :: "sql_engine \<Rightarrow> db \<Rightarrow> Migration list \<Rightarrow> db \<Rightarrow> bool" where
  "migrated exec_sql base pre d \<longleftrightarrow>
     map (\<lambda>r. (l_version r, l_name r, l_checksum r)) (ledger_rows d) = map entry_of pre \<and>
     replay exec_sql pre (base\<lparr>schema_migrations := None\<rparr>) = Some (d\<lparr>schema_migrations := None\<rparr>)"

lemma replay_snoc: "replay exec_sql (ms @ [m]) d = (case replay exec_sql ms d of None \<Rightarrow> None
    | Some e \<Rightarrow> (case exec_sql (mg_SQL m) e of Inl _ \<Rightarrow> None | Inr (_, f) \<Rightarrow> Some f))"
  by (induction ms arbitrary: d) (auto split: sum.splits)

lemma replay_append: "replay exec_sql (ms @ ns) d = (case replay exec_sql ms d of None \<Rightarrow> None | Some e \<Rightarrow> replay exec_sql ns e)"
  by (induction ms arbitrary: d) (auto split: sum.splits)

lemma leaves_ledgerD:
  assumes "leaves_ledger exec_sql m" "exec_sql (mg_SQL m) d = Inr (n, e)"
  shows "schema_migrations e = schema_migrations d"
    "exec_sql (mg_SQL m) (d\<lparr>schema_migrations := l\<rparr>) = Inr (n, e\<lparr>schema_migrations := l\<rparr>)"
proof -
  have all: "exec_sql (mg_SQL m) (d\<lparr>schema_migrations := l\<rparr>) = Inr (n, e\<lparr>schema_migrations := l\<rparr>)" for l
    using assms by (auto simp: leaves_ledger_def)
  then show "exec_sql (mg_SQL m) (d\<lparr>schema_migrations := l\<rparr>) = Inr (n, e\<lparr>schema_migrations := l\<rparr>)" .
  have "e = e\<lparr>schema_migrations := schema_migrations d\<rparr>" using all [of "schema_migrations d"] assms(2) by simp
  then show "schema_migrations e = schema_migrations d" by (metis db.select_convs(8) db.surjective db.update_convs(8))
qed

text \<open>One migration either moves the schema on by one script and its record, or changes nothing.\<close>

lemma applyOne_no_Panic: "applyOne exec_sql m now w \<noteq> (Panic p, w')"
  by (auto simp: applyOne_def InTx_def bindM_def mapErr_def returnM_def execM_no_Panic driver_call_def
      split: prod.splits res.splits list.splits if_splits)

lemma applyOne_Ret:
  assumes "applyOne exec_sql m now w = (Ret u, w')" "leaves_ledger exec_sql m"
  shows "\<exists>n e rs. exec_sql (mg_SQL m) (w_db w) = Inr (n, e) \<and> schema_migrations (w_db w) = Some rs \<and>
    mg_Version m \<notin> l_version ` set rs \<and>
    w_db w' = e\<lparr>schema_migrations := Some (rs @ [\<lparr>l_version = mg_Version m, l_name = mg_Name m, l_checksum = mg_Checksum m, l_applied_at = now\<rparr>])\<rparr>"
proof -
  obtain w1 w2 w3 n k where tx: "w_db w1 = w_db w" "w_db w' = w_db w3"
    "execM (exec_sql (mg_SQL m)) w1 = (Ret n, w2)"
    "execM (insert_ledger \<lparr>l_version = mg_Version m, l_name = mg_Name m, l_checksum = mg_Checksum m, l_applied_at = now\<rparr>) w2 = (Ret k, w3)"
    using InTx_Ret [OF assms(1) [unfolded applyOne_def]] by (auto simp: bindM_Ret)
  have "exec_sql (mg_SQL m) (w_db w) = Inr (n, w_db w2)" using execM_Ret [OF tx(3)] tx(1) by simp
  moreover have "schema_migrations (w_db w2) = schema_migrations (w_db w)" using leaves_ledgerD(1) [OF assms(2) calculation] .
  ultimately show ?thesis
    using execM_Ret [OF tx(4)] tx(2) by (auto simp: insert_ledger_def split: option.splits if_splits)
qed

lemma applyOne_Err: "applyOne exec_sql m now w = (Err e, w') \<Longrightarrow> w_db w' = w_db w"
  unfolding applyOne_def by (erule InTx_abort) simp

lemma migrated_applyOne:
  assumes "migrated exec_sql base pre (w_db w)" "leaves_ledger exec_sql m" "applyOne exec_sql m now w = (Ret u, w')"
  shows "migrated exec_sql base (pre @ [m]) (w_db w') \<and> (\<exists>r. ledger_rows (w_db w') = ledger_rows (w_db w) @ [r])"
proof -
  obtain n e rs where a: "exec_sql (mg_SQL m) (w_db w) = Inr (n, e)" "schema_migrations (w_db w) = Some rs"
    "w_db w' = e\<lparr>schema_migrations := Some (rs @ [\<lparr>l_version = mg_Version m, l_name = mg_Name m, l_checksum = mg_Checksum m, l_applied_at = now\<rparr>])\<rparr>"
    using applyOne_Ret [OF assms(3,2)] by blast
  have "exec_sql (mg_SQL m) ((w_db w)\<lparr>schema_migrations := None\<rparr>) = Inr (n, e\<lparr>schema_migrations := None\<rparr>)"
    by (rule leaves_ledgerD(2) [OF assms(2) a(1)])
  then show ?thesis using assms(1) a by (simp add: migrated_def ledger_rows_def replay_snoc entry_of_def)
qed

text \<open>The loop from a prefix that is pre, whatever fails on the way.\<close>

lemma migrate_loop_skip:
  "\<forall>m \<in> set xs. mg_Version m \<in> V \<Longrightarrow> migrate_loop exec_sql clk V (xs @ ys) c = migrate_loop exec_sql clk V ys c"
  by (induction xs) auto

lemma migrate_loop_refines:
  assumes "migrated exec_sql base pre (w_db w)" "\<forall>m \<in> set todo. leaves_ledger exec_sql m \<and> mg_Version m \<notin> V"
    "migrate_loop exec_sql clk V todo c w = (r, w')"
  shows "\<exists>n err rs. r = Ret (c + n, err) \<and> n \<le> length todo \<and> migrated exec_sql base (pre @ take n todo) (w_db w') \<and>
    ledger_rows (w_db w') = ledger_rows (w_db w) @ rs \<and> (err = None \<longleftrightarrow> n = length todo)"
  using assms
proof (induction todo arbitrary: pre c w)
  case (Cons m todo)
  obtain x v where one: "applyOne exec_sql m (clk (mg_Version m)) w = (x, v)" by fastforce
  consider (ok) u where "x = Ret u" | (err) e where "x = Err e"
    using one applyOne_no_Panic by (cases x) auto
  then show ?case
  proof cases
    case ok
    note step = migrated_applyOne [OF Cons.prems(1) _ one [unfolded ok]]
    have "migrate_loop exec_sql clk V todo (Suc c) v = (r, w')"
      using Cons.prems one ok by (simp add: bindM_def tryM_def)
    then obtain n err rs where ih: "r = Ret (Suc c + n, err)" "n \<le> length todo" "migrated exec_sql base ((pre @ [m]) @ take n todo) (w_db w')"
      "ledger_rows (w_db w') = ledger_rows (w_db v) @ rs" "err = None \<longleftrightarrow> n = length todo"
      using Cons.IH [of "pre @ [m]" v "Suc c"] step Cons.prems(2) by auto
    then show ?thesis using step Cons.prems(2) by (intro exI [of _ "Suc n"] exI [of _ err]) auto
  next
    case err
    have "r = Ret (c, Some (wrap (''applying migration '' @ Filename m) e)) \<and> w' = v"
      using Cons.prems one err by (simp add: bindM_def tryM_def returnM_def)
    moreover have "w_db v = w_db w" using applyOne_Err [OF one [unfolded err]] .
    ultimately show ?thesis using Cons.prems(1) by (intro exI [of _ 0]) auto
  qed
qed (simp add: returnM_def)

lemma ensureLedger_frame:
  assumes "ensureLedger w = (r, w')"
  shows "(\<forall>p. r \<noteq> Panic p) \<and> ledger_rows (w_db w') = ledger_rows (w_db w) \<and>
    (w_db w')\<lparr>schema_migrations := None\<rparr> = (w_db w)\<lparr>schema_migrations := None\<rparr> \<and>
    (schema_migrations (w_db w) \<noteq> None \<longrightarrow> w_db w' = w_db w) \<and> (\<forall>u. r = Ret u \<longrightarrow> schema_migrations (w_db w') \<noteq> None)"
  using assms
  by (auto simp: ensureLedger_def execM_def create_ledger_def bindM_def mapErr_def returnM_def driver_call_def ledger_rows_def
      split: list.splits if_splits option.splits)

lemma AppliedMigrations_no_Panic: "AppliedMigrations w \<noteq> (Panic p, w')"
  by (auto simp: AppliedMigrations_def queryM_def bindM_def mapErr_def returnM_def failM_def driver_call_def
      split: list.splits if_splits option.splits)

text \<open>How far \<open>Migrate\<close> gets before its loop.\<close>

lemma Migrate_prologue:
  assumes "LoadMigrations fs driver = Inr ms" "Migrate exec_sql fs driver clk w = (r, w')"
  obtains (refused) err where "r = Ret (0, Some err)" "ledger_rows (w_db w') = ledger_rows (w_db w)"
      "(w_db w')\<lparr>schema_migrations := None\<rparr> = (w_db w)\<lparr>schema_migrations := None\<rparr>"
      "schema_migrations (w_db w) \<noteq> None \<longrightarrow> w_db w' = w_db w"
    | (loop) v where "ledger_rows (w_db v) = ledger_rows (w_db w)"
      "(w_db v)\<lparr>schema_migrations := None\<rparr> = (w_db w)\<lparr>schema_migrations := None\<rparr>"
      "\<forall>x \<in> set (ledger_rows (w_db w)). recorded ms (scanApplied x)" "schema_migrations (w_db v) \<noteq> None"
      "schema_migrations (w_db w) \<noteq> None \<longrightarrow> w_db v = w_db w"
      "migrate_loop exec_sql clk (l_version ` set (ledger_rows (w_db w))) ms 0 v = (r, w')"
proof -
  have dist: "distinct (map mg_Version ms)"
    using LoadMigrations_Inr [OF assms(1)] by (auto simp: strict_sorted_iff)
  obtain x w1 where e: "ensureLedger w = (x, w1)" by fastforce
  note e_fr = ensureLedger_frame [OF e]
  show thesis
  proof (cases x)
    case (Ret u)
    obtain y w2 where q: "AppliedMigrations w1 = (y, w2)" by fastforce
    have w2: "w_db w2 = w_db w1" using AppliedMigrations_frame [OF q] .
    show thesis
    proof (cases y)
      case (Ret as)
      obtain rs where rs: "schema_migrations (w_db w1) = Some rs" "as = map scanApplied (sort_key l_version rs)"
        using q Ret by (auto simp: AppliedMigrations_Ret)
      then have rows: "ledger_rows (w_db w) = rs" using e_fr by (auto simp: ledger_rows_def split: option.splits)
      show thesis
      proof (cases "verifyLedger ms as")
        case None
        then have "\<forall>x \<in> set rs. recorded ms (scanApplied x)" using verifyLedger_None [OF dist] rs(2) by simp
        moreover have "migrate_loop exec_sql clk (l_version ` set rs) ms 0 w2 = (r, w')"
          using assms None e q \<open>x = Ret u\<close> \<open>y = Ret as\<close> rs(2)
          by (simp add: Migrate_def bindM_def tryM_def image_image scanApplied_def)
        ultimately show thesis using loop [of w2] rows w2 rs e_fr by simp
      next
        case (Some err)
        then show thesis using refused [of err] assms e q \<open>x = Ret u\<close> \<open>y = Ret as\<close> e_fr w2
          by (simp add: Migrate_def bindM_def tryM_def returnM_def)
      qed
    next
      case (Err err)
      then show thesis using refused [of err] assms e q \<open>x = Ret u\<close> e_fr w2
        by (simp add: Migrate_def bindM_def tryM_def returnM_def)
    next
      case (Panic p)
      then show thesis using AppliedMigrations_no_Panic q by blast
    qed
  next
    case (Err err)
    then show thesis using refused [of err] assms e e_fr by (simp add: Migrate_def bindM_def tryM_def returnM_def)
  next
    case (Panic p)
    then show thesis using e_fr by simp
  qed
qed

lemma migrated_ledger:
  assumes "migrated exec_sql base pre d"
  shows "l_version ` set (ledger_rows d) = mg_Version ` set pre"
    "\<forall>x \<in> set (ledger_rows d). recorded (pre @ todo) (scanApplied x)"
proof -
  have eq: "map (\<lambda>r. (l_version r, l_name r, l_checksum r)) (ledger_rows d) = map entry_of pre" using assms by (simp add: migrated_def)
  have "map l_version (ledger_rows d) = map fst (map (\<lambda>r. (l_version r, l_name r, l_checksum r)) (ledger_rows d))" by simp
  also have "\<dots> = map mg_Version pre" unfolding eq by (simp add: entry_of_def)
  finally show "l_version ` set (ledger_rows d) = mg_Version ` set pre" by (metis list.set_map)
  show "\<forall>x \<in> set (ledger_rows d). recorded (pre @ todo) (scanApplied x)"
  proof
    fix x assume "x \<in> set (ledger_rows d)"
    then have "(l_version x, l_name x, l_checksum x) \<in> set (map entry_of pre)" unfolding eq [symmetric] by auto
    then show "recorded (pre @ todo) (scanApplied x)" by (auto simp: recorded_def scanApplied_def entry_of_def)
  qed
qed

lemma migrated_cong:
  "migrated exec_sql base pre d \<Longrightarrow> ledger_rows e = ledger_rows d \<Longrightarrow>
   e\<lparr>schema_migrations := None\<rparr> = d\<lparr>schema_migrations := None\<rparr> \<Longrightarrow> migrated exec_sql base pre e"
  by (simp add: migrated_def)

lemma Migrate_refines:
  assumes load: "LoadMigrations fs driver = Inr (pre @ todo)" and scripts: "\<forall>m \<in> set todo. leaves_ledger exec_sql m"
    and start: "migrated exec_sql base pre (w_db w)" and run: "Migrate exec_sql fs driver clk w = (r, w')"
  shows "\<exists>n err rs. r = Ret (n, err) \<and> n \<le> length todo \<and> migrated exec_sql base (pre @ take n todo) (w_db w') \<and>
    ledger_rows (w_db w') = ledger_rows (w_db w) @ rs \<and> (err = None \<longrightarrow> n = length todo)"
  using load run
proof (cases rule: Migrate_prologue)
  case (refused err)
  then show ?thesis using migrated_cong [OF start] by (intro exI [of _ 0]) simp
next
  case (loop v)
  have "distinct (map mg_Version (pre @ todo))" using LoadMigrations_Inr [OF load] by (auto simp: strict_sorted_iff)
  then have fresh: "\<forall>m \<in> set todo. leaves_ledger exec_sql m \<and> mg_Version m \<notin> mg_Version ` set pre" using scripts by auto
  have "migrate_loop exec_sql clk (mg_Version ` set pre) todo 0 v = (r, w')"
    using loop(6) migrated_ledger(1) [OF start] by (simp add: migrate_loop_skip)
  then show ?thesis
    using migrate_loop_refines [OF migrated_cong [OF start loop(1,2)] fresh] loop(1) by fastforce
qed

text \<open>A calm run with scripts that succeed goes all the way.\<close>

lemma calm_applyOne:
  assumes "w_faults w = []" "exec_sql (mg_SQL m) (w_db w) = Inr (n, e)" "leaves_ledger exec_sql m"
    "schema_migrations (w_db w) = Some rs" "mg_Version m \<notin> l_version ` set rs"
  shows "\<exists>w'. applyOne exec_sql m now w = (Ret (), w') \<and> w_faults w' = []"
  using assms leaves_ledgerD(1) [OF assms(3,2)]
  by (simp add: applyOne_def InTx_def bindM_def mapErr_def calm_driver_call calm_execM returnM_def insert_ledger_def)

lemma calm_migrate_loop:
  assumes "w_faults w = []" "migrated exec_sql base pre (w_db w)" "schema_migrations (w_db w) \<noteq> None"
    "\<forall>m \<in> set todo. leaves_ledger exec_sql m \<and> mg_Version m \<notin> V" "distinct (map mg_Version (pre @ todo))"
    "replay exec_sql (pre @ todo) (base\<lparr>schema_migrations := None\<rparr>) \<noteq> None"
  shows "\<exists>w'. migrate_loop exec_sql clk V todo c w = (Ret (c + length todo, None), w')"
  using assms
proof (induction todo arbitrary: pre c w)
  case (Cons m todo)
  obtain rs where rs: "schema_migrations (w_db w) = Some rs" using Cons.prems(3) by blast
  have "l_version ` set rs = mg_Version ` set pre"
    using migrated_ledger(1) [OF Cons.prems(2)] rs by (simp add: ledger_rows_def)
  then have new: "mg_Version m \<notin> l_version ` set rs" using Cons.prems(5) by auto
  obtain n e where e: "exec_sql (mg_SQL m) ((w_db w)\<lparr>schema_migrations := None\<rparr>) = Inr (n, e)"
    using Cons.prems(2,6) by (auto simp: migrated_def replay_append split: sum.splits)
  have l: "leaves_ledger exec_sql m" using Cons.prems(4) by simp
  have "(w_db w)\<lparr>schema_migrations := None, schema_migrations := schema_migrations (w_db w)\<rparr> = w_db w" by simp
  then have "exec_sql (mg_SQL m) (w_db w) = Inr (n, e\<lparr>schema_migrations := schema_migrations (w_db w)\<rparr>)"
    using leaves_ledgerD(2) [OF l e, of "schema_migrations (w_db w)"] by simp
  then obtain v where v: "applyOne exec_sql m (clk (mg_Version m)) w = (Ret (), v)" "w_faults v = []"
    using calm_applyOne [OF Cons.prems(1) _ l rs new] by blast
  have "\<exists>w'. migrate_loop exec_sql clk V todo (Suc c) v = (Ret (Suc c + length todo, None), w')"
  proof (rule Cons.IH [of v "pre @ [m]" "Suc c"])
    show "migrated exec_sql base (pre @ [m]) (w_db v)" using migrated_applyOne [OF Cons.prems(2) l v(1)] by simp
    show "schema_migrations (w_db v) \<noteq> None" using applyOne_Ret [OF v(1) l] by auto
  qed (use v Cons.prems in auto)
  then show ?case using v Cons.prems(4) by (simp add: bindM_def tryM_def)
qed (simp add: returnM_def)

lemma Migrate_completes:
  assumes load: "LoadMigrations fs driver = Inr (pre @ todo)" and scripts: "\<forall>m \<in> set todo. leaves_ledger exec_sql m"
    and start: "migrated exec_sql base pre (w_db w)" and calm: "w_faults w = []"
    and runs: "replay exec_sql (pre @ todo) (base\<lparr>schema_migrations := None\<rparr>) \<noteq> None"
  shows "\<exists>w'. Migrate exec_sql fs driver clk w = (Ret (length todo, None), w')"
proof -
  have dist: "distinct (map mg_Version (pre @ todo))" using LoadMigrations_Inr [OF load] by (auto simp: strict_sorted_iff)
  then have fresh: "\<forall>m \<in> set todo. leaves_ledger exec_sql m \<and> mg_Version m \<notin> mg_Version ` set pre" using scripts by auto
  obtain v where v: "ensureLedger w = (Ret (), v)" "w_faults v = []"
    using calm by (simp add: ensureLedger_def calm_execM create_ledger_def bindM_def mapErr_def returnM_def)
  note fr = ensureLedger_frame [OF v(1)]
  then have "schema_migrations (w_db v) = Some (ledger_rows (w_db w))" by (auto simp: ledger_rows_def split: option.splits)
  then have applied: "AppliedMigrations v = (Ret (map scanApplied (sort_key l_version (ledger_rows (w_db w)))), v)"
    using v(2) by (simp add: AppliedMigrations_Ret calm_queryM)
  have "verifyLedger (pre @ todo) (map scanApplied (sort_key l_version (ledger_rows (w_db w)))) = None"
    using verifyLedger_None [OF dist] migrated_ledger(2) [OF start] by simp
  moreover have "ap_Version ` scanApplied ` set (ledger_rows (w_db w)) = mg_Version ` set pre"
    using migrated_ledger(1) [OF start] by (simp add: image_image scanApplied_def)
  ultimately have "Migrate exec_sql fs driver clk w = migrate_loop exec_sql clk (mg_Version ` set pre) todo 0 v"
    using v applied load by (simp add: Migrate_def bindM_def tryM_def migrate_loop_skip)
  then show ?thesis
    using calm_migrate_loop [OF v(2) migrated_cong [OF start] _ fresh dist runs, of clk 0] fr by auto
qed


text \<open>Once the schema is complete, nothing is left to do.\<close>

lemma Migrate_idle:
  assumes load: "LoadMigrations fs driver = Inr ms" and start: "migrated exec_sql base ms (w_db w)"
    and ledger: "schema_migrations (w_db w) \<noteq> None" and run: "Migrate exec_sql fs driver clk w = (r, w')"
  shows "w_db w' = w_db w"
  using load run
proof (cases rule: Migrate_prologue)
  case (loop v)
  then show ?thesis
    using migrate_loop_skip [of ms "mg_Version ` set ms" exec_sql clk "[]" 0] migrated_ledger(1) [OF start] ledger
    by (auto simp: returnM_def)
qed (use ledger in auto)

lemma migrate_loop_ledger:
  assumes "schema_migrations (w_db w) \<noteq> None" "\<forall>m \<in> set todo. leaves_ledger exec_sql m" "migrate_loop exec_sql clk V todo c w = (r, w')"
  shows "schema_migrations (w_db w') \<noteq> None"
  using assms
proof (induction todo arbitrary: c w)
  case (Cons m todo)
  obtain x v where one: "applyOne exec_sql m (clk (mg_Version m)) w = (x, v)" by fastforce
  then have "schema_migrations (w_db v) \<noteq> None"
    using applyOne_Ret [of exec_sql m "clk (mg_Version m)" w _ v] applyOne_Err [of exec_sql m "clk (mg_Version m)" w _ v]
      applyOne_no_Panic [of exec_sql m "clk (mg_Version m)" w _ v] Cons.prems(1,2) by (cases x) auto
  then show ?case
    using Cons one by (auto simp: bindM_def tryM_def returnM_def split: if_splits res.splits)
qed (simp add: returnM_def)

lemma Migrate_ledger:
  assumes "LoadMigrations fs driver = Inr ms" "\<forall>m \<in> set ms. leaves_ledger exec_sql m"
    "Migrate exec_sql fs driver clk w = (Ret (n, None), w')"
  shows "schema_migrations (w_db w') \<noteq> None"
  using assms(1,3)
proof (cases rule: Migrate_prologue)
  case (loop v)
  show ?thesis by (rule migrate_loop_ledger [OF loop(4) assms(2) loop(6)])
qed simp

end
