(* ===== verification/Users.thy ===== *)
theory Users
  imports Passwords Migrations
begin

text \<open>
  Accounts of package \<open>auth\<close> (\<open>internal/auth/user.go\<close>). \<open>net/mail.ParseAddress\<close>, of which the
  code uses the \<open>Address\<close> of the result, the Unicode lower-case table and \<open>argon2.IDKey\<close> are
  fields of the store.
\<close>

section \<open>Accounts\<close>

definition IDPrefix :: string where "IDPrefix = ''usr''"

type_synonym Role = string
type_synonym Provider = string

definition RoleAdmin :: Role where "RoleAdmin = ''admin''"
definition RoleMember :: Role where "RoleMember = ''member''"
definition UserProviderLocal :: Provider where "UserProviderLocal = ''local''"
definition UserProviderOIDC :: Provider where "UserProviderOIDC = ''oidc''"

definition Role_Valid :: "Role \<Rightarrow> bool" where "Role_Valid r \<longleftrightarrow> r = RoleAdmin \<or> r = RoleMember"
definition Provider_Valid :: "Provider \<Rightarrow> bool" where
  "Provider_Valid p \<longleftrightarrow> p = UserProviderLocal \<or> p = UserProviderOIDC"

definition ErrUserNotFound :: error where "ErrUserNotFound = ErrNew ''no such user''"
definition ErrEmailTaken :: error where "ErrEmailTaken = ErrNew ''that email address is already registered''"
definition ErrInvalidEmail :: error where "ErrInvalidEmail = ErrNew ''that is not a valid email address''"
definition ErrNoPassword :: error where "ErrNoPassword = ErrNew ''the account has no local password''"

lemmas user_errors = ErrUserNotFound_def ErrEmailTaken_def ErrInvalidEmail_def ErrNoPassword_def

record User =
  us_ID :: string
  us_Email :: string
  us_EmailNorm :: string
  us_DisplayName :: string
  us_Role :: Role
  us_Provider :: Provider
  us_CreatedAt :: instant
  us_UpdatedAt :: instant
  us_LastLoginAt :: "instant option"
  us_passwordHash :: string

definition User_String :: "User \<Rightarrow> string" where
  "User_String u = ''User{ID:'' @ us_ID u @ '' Email:'' @ us_EmailNorm u @ '' Role:'' @ us_Role u @
     '' Provider:'' @ us_Provider u @ ''}''"

definition User_GoString :: "User \<Rightarrow> string" where
  "User_GoString u = User_String u"

text \<open>Neither rendering depends on the password hash.\<close>

lemma User_String_hides_hash: "User_String (u\<lparr>us_passwordHash := h\<rparr>) = User_String u" "User_GoString (u\<lparr>us_passwordHash := h\<rparr>) = User_GoString u"
  by (simp_all add: User_String_def User_GoString_def)

definition IsAdmin :: "User \<Rightarrow> bool" where "IsAdmin u \<longleftrightarrow> us_Role u = RoleAdmin"
definition HasPassword :: "User \<Rightarrow> bool" where "HasPassword u \<longleftrightarrow> us_passwordHash u \<noteq> []"

definition User_VerifyPassword :: "idkey \<Rightarrow> User \<Rightarrow> string \<Rightarrow> error + bool \<times> bool" where
  "User_VerifyPassword idkey u password = (if \<not> HasPassword u then Inl ErrNoPassword
     else VerifyPassword idkey password (us_passwordHash u))"

record NewUser =
  nu_Email :: string
  nu_Password :: string
  nu_DisplayName :: string
  nu_Role :: Role

record StoreOptions =
  sop_Params :: Params
  sop_MinPasswordLength :: int

record UserStore =
  ust_params :: Params
  ust_minPasswordLength :: int
  ust_lower :: "nat \<Rightarrow> nat"
  ust_ParseAddress :: "string \<Rightarrow> string option"
  ust_IDKey :: idkey

definition NewUserStore :: "(nat \<Rightarrow> nat) \<Rightarrow> (string \<Rightarrow> string option) \<Rightarrow> idkey \<Rightarrow> StoreOptions \<Rightarrow> UserStore" where
  "NewUserStore lc parse idkey opts = \<lparr>
     ust_params = (if sop_Params opts = zero_params then DefaultParams else sop_Params opts),
     ust_minPasswordLength = (if sop_MinPasswordLength opts < MinPasswordLength then MinPasswordLength else sop_MinPasswordLength opts),
     ust_lower = lc, ust_ParseAddress = parse, ust_IDKey = idkey\<rparr>"

section \<open>Addresses\<close>

definition NormalizeEmail :: "UserStore \<Rightarrow> string \<Rightarrow> string" where
  "NormalizeEmail s email = ToLower (ust_lower s) (TrimSpace email)"

definition ValidateEmail :: "UserStore \<Rightarrow> string \<Rightarrow> error + string" where
  "ValidateEmail s email = (let trimmed = TrimSpace email in
     if trimmed = [] then Inl (wrap ''it is empty'' ErrInvalidEmail)
     else if length trimmed > 320 then Inl (wrap ''it is too long'' ErrInvalidEmail)
     else case ust_ParseAddress s trimmed of
       None \<Rightarrow> Inl (wrap trimmed ErrInvalidEmail)
     | Some address \<Rightarrow> if address \<noteq> trimmed
         then Inl (wrap ''give the address on its own, without a name'' ErrInvalidEmail)
         else Inr (NormalizeEmail s address))"

section \<open>Operations\<close>

definition insert_user :: "user_row \<Rightarrow> db \<Rightarrow> sql_code + nat \<times> db" where
  "insert_user r d = (if u_id r \<in> u_id ` set (users d) \<or> u_email_norm r \<in> u_email_norm ` set (users d)
     then Inl UniqueViolation else Inr (1, d\<lparr>users := users d @ [r]\<rparr>))"

definition update_users :: "(user_row \<Rightarrow> bool) \<Rightarrow> (user_row \<Rightarrow> user_row) \<Rightarrow> db \<Rightarrow> sql_code + nat \<times> db" where
  "update_users P f d = (let (n, t) = update_where P f (users d) in Inr (n, d\<lparr>users := t\<rparr>))"

definition scanUser :: "user_row \<Rightarrow> User" where
  "scanUser r = \<lparr>us_ID = u_id r, us_Email = u_email r, us_EmailNorm = u_email_norm r, us_DisplayName = u_display_name r,
     us_Role = u_role r, us_Provider = u_provider r, us_CreatedAt = u_created_at r, us_UpdatedAt = u_updated_at r,
     us_LastLoginAt = u_last_login_at r, us_passwordHash = (case u_password_hash r of None \<Rightarrow> [] | Some h \<Rightarrow> h)\<rparr>"

definition user_row_of :: "User \<Rightarrow> user_row" where
  "user_row_of u = \<lparr>u_id = us_ID u, u_email = us_Email u, u_email_norm = us_EmailNorm u, u_display_name = us_DisplayName u,
     u_password_hash = Some (us_passwordHash u), u_role = us_Role u, u_provider = us_Provider u,
     u_created_at = us_CreatedAt u, u_updated_at = us_UpdatedAt u, u_last_login_at = None\<rparr>"

definition user_Create :: "UserStore \<Rightarrow> NewUser \<Rightarrow> instant \<Rightarrow> (db, User) comp" where
  "user_Create s inp now = (case ValidateEmail s (nu_Email inp) of
     Inl e \<Rightarrow> failM e
   | Inr normalized \<Rightarrow> (case CheckPasswordLength (nu_Password inp) (ust_minPasswordLength s) of
       Some e \<Rightarrow> failM e
     | None \<Rightarrow> let role = (if nu_Role inp = [] then RoleMember else nu_Role inp) in
         if \<not> Role_Valid role then failM (ErrNew (''auth: '' @ role @ '' is not a valid role''))
         else bindM (HashPassword (ust_IDKey s) (nu_Password inp) (ust_params s)) (\<lambda>hash.
           bindM (NewID IDPrefix) (\<lambda>ident.
           let user = \<lparr>us_ID = ident, us_Email = TrimSpace (nu_Email inp), us_EmailNorm = normalized,
             us_DisplayName = TrimSpace (nu_DisplayName inp), us_Role = role, us_Provider = UserProviderLocal,
             us_CreatedAt = now, us_UpdatedAt = now, us_LastLoginAt = None, us_passwordHash = hash\<rparr> in
           bindM (mapErr (\<lambda>e. if IsUniqueViolation e then wrap normalized ErrEmailTaken else wrap ''creating the user'' e)
             (execM (insert_user (user_row_of user)))) (\<lambda>_. returnM user)))))"

definition oneUser :: "(user_row \<Rightarrow> bool) \<Rightarrow> (db, User) comp" where
  "oneUser P = bindM (mapErr (wrap ''reading the user'') (queryM (\<lambda>d. find P (users d))))
     (\<lambda>row. case row of None \<Rightarrow> failM ErrUserNotFound | Some r \<Rightarrow> returnM (scanUser r))"

definition ByEmail :: "UserStore \<Rightarrow> string \<Rightarrow> (db, User) comp" where
  "ByEmail s email = oneUser (\<lambda>r. u_email_norm r = NormalizeEmail s email)"

definition user_ByID :: "string \<Rightarrow> (db, User) comp" where
  "user_ByID ident = oneUser (\<lambda>r. u_id r = ident)"

definition user_Count :: "(db, nat) comp" where
  "user_Count = mapErr (wrap ''counting users'') (queryM (\<lambda>d. length (users d)))"

definition setPasswordHash :: "string \<Rightarrow> string \<Rightarrow> instant \<Rightarrow> (db, unit) comp" where
  "setPasswordHash ident hash now = bindM (mapErr (wrap ''updating the password'') (execM (update_users
       (\<lambda>r. u_id r = ident) (\<lambda>r. r\<lparr>u_password_hash := Some hash, u_updated_at := now\<rparr>)))) (\<lambda>result.
     bindM (mapErr (wrap ''updating the password'') (rowsAffected result)) (\<lambda>affected.
     if affected = 0 then failM (wrap ident ErrUserNotFound) else returnM ()))"

definition UpdatePassword :: "UserStore \<Rightarrow> string \<Rightarrow> string \<Rightarrow> instant \<Rightarrow> (db, unit) comp" where
  "UpdatePassword s ident password now = (case CheckPasswordLength password (ust_minPasswordLength s) of
     Some e \<Rightarrow> failM e
   | None \<Rightarrow> bindM (HashPassword (ust_IDKey s) password (ust_params s)) (\<lambda>hash. setPasswordHash ident hash now))"

definition RehashPassword :: "UserStore \<Rightarrow> string \<Rightarrow> string \<Rightarrow> instant \<Rightarrow> (db, unit) comp" where
  "RehashPassword s ident password now =
     bindM (HashPassword (ust_IDKey s) password (ust_params s)) (\<lambda>hash. setPasswordHash ident hash now)"

definition RecordLogin :: "string \<Rightarrow> instant \<Rightarrow> (db, unit) comp" where
  "RecordLogin ident now = bindM (mapErr (wrap ''recording the login'') (execM (update_users
       (\<lambda>r. u_id r = ident) (\<lambda>r. r\<lparr>u_last_login_at := Some now\<rparr>)))) (\<lambda>_. returnM ())"

section \<open>Every operation keeps the inventory consistent\<close>

lemma frame_users:
  "metadata_schema (d\<lparr>users := t\<rparr>) = metadata_schema d" "tokens_schema (d\<lparr>users := t\<rparr>) = tokens_schema d"
  "allocations_schema (d\<lparr>users := t\<rparr>) = allocations_schema d"
  "alloc_ok (d\<lparr>users := t\<rparr>) = alloc_ok d" "keys_ok (d\<lparr>users := t\<rparr>) = keys_ok d"
  "held_by (d\<lparr>users := t\<rparr>) = held_by d" "uses_ok (d\<lparr>users := t\<rparr>) = uses_ok d"
  by (simp_all add: table_schemas alloc_ok_def keys_ok_def held_by_def uses_ok_def fun_eq_iff)

lemma consistent_users:
  assumes "consistent d" "users_schema (d\<lparr>users := t\<rparr>)" "u_id ` set (users d) \<subseteq> u_id ` set t"
  shows "consistent (d\<lparr>users := t\<rparr>)"
proof -
  have "sessions_schema (d\<lparr>users := t\<rparr>)" "keys_schema (d\<lparr>users := t\<rparr>)" "devices_schema (d\<lparr>users := t\<rparr>)"
    using assms(1) order_trans [OF _ assms(3)]
    by (simp_all add: consistent_def schema_ok_def sessions_schema_def keys_schema_def devices_schema_def)
  then show ?thesis using assms(1,2) by (simp add: consistent_def schema_ok_def frame_users devices_ok_def)
qed

lemma consistent_usersD: "consistent d \<Longrightarrow> users_schema d"
  by (simp add: consistent_def schema_ok_def)

lemma insert_user_consistent:
  assumes "consistent d" "insert_user r d = Inr (n, e)" shows "consistent e"
proof -
  have e: "e = d\<lparr>users := users d @ [r]\<rparr>" using assms(2) by (auto simp: insert_user_def split: if_splits)
  have "users_schema (d\<lparr>users := users d @ [r]\<rparr>)"
    using assms(2) consistent_usersD [OF assms(1)] by (auto simp: insert_user_def users_schema_def split: if_splits)
  then show ?thesis unfolding e by (intro consistent_users [OF assms(1)]) auto
qed

lemma update_users_consistent:
  assumes "consistent d" "update_users P f d = Inr (n, e)"
    "\<And>r. u_id (f r) = u_id r" "\<And>r. u_email_norm (f r) = u_email_norm r"
  shows "consistent e"
proof -
  define t where "t = map (\<lambda>r. if P r then f r else r) (users d)"
  have cols: "map u_id t = map u_id (users d)" "map u_email_norm t = map u_email_norm (users d)"
    by (simp_all add: t_def assms(3,4))
  from cols(1) have ids: "u_id ` set t = u_id ` set (users d)" by (metis image_set)
  have "users_schema (d\<lparr>users := t\<rparr>)" using consistent_usersD [OF assms(1)] cols by (simp add: users_schema_def)
  moreover have "e = d\<lparr>users := t\<rparr>" using assms(2) by (simp add: update_users_def update_where_def t_def)
  ultimately show ?thesis using consistent_users [OF assms(1)] ids by simp
qed

lemma keeps_oneUser [pres_intros]: "keeps I (oneUser P)"
  unfolding oneUser_def by (intro pres_intros)

lemma keeps_user_Create [pres_intros]: "keeps consistent (user_Create s inp now)"
  unfolding user_Create_def Let_def by (intro pres_intros keeps_execM) (auto elim: insert_user_consistent)

lemma keeps_setPasswordHash [pres_intros]: "keeps consistent (setPasswordHash i h now)"
  unfolding setPasswordHash_def by (intro pres_intros keeps_execM) (auto elim: update_users_consistent)

lemma keeps_UpdatePassword: "keeps consistent (UpdatePassword s i p now)"
  unfolding UpdatePassword_def by (intro pres_intros)

lemma keeps_RehashPassword [pres_intros]: "keeps consistent (RehashPassword s i p now)"
  unfolding RehashPassword_def by (intro pres_intros)

lemma keeps_RecordLogin [pres_intros]: "keeps consistent (RecordLogin i now)"
  unfolding RecordLogin_def by (intro pres_intros keeps_execM) (auto elim: update_users_consistent)

section \<open>What a created account is\<close>

lemma oneUser_frame: "oneUser P w = (r, w') \<Longrightarrow> w_db w' = w_db w"
  by (auto simp: oneUser_def bindM_def mapErr_def returnM_def failM_def split: prod.splits res.splits option.splits
      dest!: queryM_frame)

lemma oneUser_Ret: "oneUser P w = (Ret u, w') \<Longrightarrow> \<exists>r \<in> set (users (w_db w)). P r \<and> u = scanUser r"
  by (auto simp: oneUser_def bindM_Ret case_option_Ret dest!: queryM_Ret dest: find_SomeD)

lemma calm_oneUser:
  "w_faults w = [] \<Longrightarrow> oneUser P w = (case find P (users (w_db w)) of
     None \<Rightarrow> (Err ErrUserNotFound, w) | Some r \<Rightarrow> (Ret (scanUser r), w))"
  by (simp add: oneUser_def bindM_def mapErr_def calm_queryM returnM_def failM_def split: option.splits)

lemma user_Create_Ret:
  assumes "user_Create s inp now w = (Ret u, w')"
  shows "w_db w' = (w_db w)\<lparr>users := users (w_db w) @ [user_row_of u]\<rparr> \<and>
    ValidateEmail s (nu_Email inp) = Inr (us_EmailNorm u) \<and>
    CheckPasswordLength (nu_Password inp) (ust_minPasswordLength s) = None \<and>
    us_EmailNorm u \<notin> u_email_norm ` set (users (w_db w)) \<and> us_ID u \<notin> u_id ` set (users (w_db w)) \<and>
    us_Role u = (if nu_Role inp = [] then RoleMember else nu_Role inp) \<and> Role_Valid (us_Role u) \<and> us_LastLoginAt u = None \<and>
    us_ID u \<noteq> [] \<and> (\<exists>w1. HashPassword (ust_IDKey s) (nu_Password inp) (ust_params s) w = (Ret (us_passwordHash u), w1))"
proof -
  obtain normalized where v: "ValidateEmail s (nu_Email inp) = Inr normalized"
    using assms by (auto simp: user_Create_def split: sum.splits)
  have c: "CheckPasswordLength (nu_Password inp) (ust_minPasswordLength s) = None"
    using assms v by (auto simp: user_Create_def split: option.splits)
  define role where "role = (if nu_Role inp = [] then RoleMember else nu_Role inp)"
  have rv: "Role_Valid role" using assms v c by (auto simp: user_Create_def Let_def role_def split: if_splits)
  obtain hash w1 i w2 n where h: "HashPassword (ust_IDKey s) (nu_Password inp) (ust_params s) w = (Ret hash, w1)"
    and i: "NewID IDPrefix w1 = (Ret i, w2)" and ex: "execM (insert_user (user_row_of u)) w2 = (Ret n, w')"
    and u: "us_ID u = i" "us_EmailNorm u = normalized" "us_Role u = role" "us_LastLoginAt u = None" "us_passwordHash u = hash"
    using assms v c rv unfolding user_Create_def role_def [symmetric] by (auto simp: bindM_Ret Let_def role_def [symmetric])
  have db: "w_db w2 = w_db w" using HashPassword_frame [OF h] NewID_frame [OF i] by simp
  have ins: "w_db w' = (w_db w)\<lparr>users := users (w_db w) @ [user_row_of u]\<rparr>"
    "u_id (user_row_of u) \<notin> u_id ` set (users (w_db w))" "u_email_norm (user_row_of u) \<notin> u_email_norm ` set (users (w_db w))"
    using execM_Ret [OF ex] db by (auto simp: insert_user_def split: if_splits)
  have "u_id (user_row_of u) = i" "u_email_norm (user_row_of u) = normalized" by (simp_all add: user_row_of_def u)
  then show ?thesis using ins v c rv h u NewID_nonempty [OF i] by (auto simp: role_def)
qed

lemma scan_user_row: "us_LastLoginAt u = None \<Longrightarrow> scanUser (user_row_of u) = u"
  by (simp add: scanUser_def user_row_of_def)

lemma ValidateEmail_Inr: "ValidateEmail s email = Inr n \<Longrightarrow> n = NormalizeEmail s (TrimSpace email)"
  by (auto simp: ValidateEmail_def Let_def split: if_splits option.splits)

lemma NormalizeEmail_Trim: "NormalizeEmail s (TrimSpace email) = NormalizeEmail s email"
  by (simp add: NormalizeEmail_def TrimSpace_idem)

end
