(* ===== verification/Shared_Clock.thy ===== *)
theory Shared_Clock
  imports Netip
begin

text \<open>
  The clock of package \<open>shared\<close> (\<open>packages/shared/clock.go\<close>) and what the program uses of package \<open>time\<close>
  to print a time. A time is an instant and the offset, in seconds, of the zone it is shown in. A clock is a
  function that may read the wall clock; what \<open>time.Now\<close> returns at that moment is its argument. Everywhere
  else in the library a time is its instant alone, since times are only compared, subtracted and stored.
\<close>

record time =
  tm_instant :: instant
  tm_zone :: int

definition time_UTC :: "time \<Rightarrow> time" where
  "time_UTC t = t\<lparr>tm_zone := 0\<rparr>"

datatype Clock = ClockFunc "time \<Rightarrow> time"

fun Now :: "Clock \<Rightarrow> time \<Rightarrow> time" where
  "Now (ClockFunc f) wall = f wall"

definition SystemClock :: Clock where
  "SystemClock = ClockFunc time_UTC"

definition FixedClock :: "time \<Rightarrow> Clock" where
  "FixedClock t = ClockFunc (\<lambda>_. t)"

text \<open>What two servers in different zones read at one instant is the same time, and it is that instant.\<close>

lemma SystemClock_instant [simp]: "tm_instant (Now SystemClock wall) = tm_instant wall"
  by (simp add: SystemClock_def time_UTC_def)

lemma SystemClock_comparable: "tm_instant a = tm_instant b \<Longrightarrow> Now SystemClock a = Now SystemClock b"
  by (simp add: SystemClock_def time_UTC_def)

lemma FixedClock_still [simp]: "Now (FixedClock t) wall = t"
  by (simp add: FixedClock_def)

section \<open>RFC 3339\<close>

text \<open>
  The civil date of a day, counted from the Unix epoch: in eras of 400 years that begin on the first of
  March, so that the leap day is the last of its year.
\<close>

definition civil_of_days :: "int \<Rightarrow> int \<times> int \<times> int" where
  "civil_of_days days = (let z = days + 719468; era = z div 146097; doe = z mod 146097;
     yoe = (doe - doe div 1460 + doe div 36524 - doe div 146096) div 365;
     doy = doe - (365 * yoe + yoe div 4 - yoe div 100);
     mp = (5 * doy + 2) div 153;
     month = (if mp < 10 then mp + 3 else mp - 9) in
     (yoe + era * 400 + (if month \<le> 2 then 1 else 0), month, doy - (153 * mp + 2) div 5 + 1))"

definition appendInt :: "nat \<Rightarrow> int \<Rightarrow> string" where
  "appendInt width x = (let digits = Itoa (nat \<bar>x\<bar>) in (if x < 0 then ''-'' else []) @ replicate (width - length digits) (CHR ''0'') @ digits)"

definition Format_RFC3339 :: "time \<Rightarrow> string" where
  "Format_RFC3339 t = (let secs = tm_instant t div 1000000000 + tm_zone t; sod = secs mod 86400;
     (year, month, day) = civil_of_days (secs div 86400); zone = \<bar>tm_zone t\<bar> div 60 in
     appendInt 4 year @ ''-'' @ appendInt 2 month @ ''-'' @ appendInt 2 day @ ''T'' @
     appendInt 2 (sod div 3600) @ '':'' @ appendInt 2 (sod div 60 mod 60) @ '':'' @ appendInt 2 (sod mod 60) @
     (if tm_zone t = 0 then ''Z''
      else (if tm_zone t \<le> - 60 then ''-'' else ''+'') @ appendInt 2 (zone div 60) @ '':'' @ appendInt 2 (zone mod 60)))"

text \<open>The date around the epoch, a leap year that ends a century and one that is not a leap year.\<close>

lemma civil_examples:
  "map civil_of_days [-1, 0, 10957, 11016, 11017, 47540, 47541] = [(1969, 12, 31), (1970, 1, 1), (2000, 1, 1), (2000, 2, 29), (2000, 3, 1), (2100, 2, 28), (2100, 3, 1)]"
  by code_simp

end
