(* ===== verification/Sessions.thy ===== *)
theory Sessions
  imports Devices Shared_Clock
begin

text \<open>
  Sessions of package \<open>auth\<close> (\<open>internal/auth/session.go\<close>): issuing, looking up with the two
  expiries, revoking one or all, and the CSRF token bound to the session. What every operation
  keeps of the inventory, and when a token is worth anything.
\<close>

section \<open>Sessions\<close>

definition SessionIDPrefix :: string where "SessionIDPrefix = ''ses''"
definition sessionTokenBytes :: nat where "sessionTokenBytes = 32"
definition csrfTokenBytes :: nat where "csrfTokenBytes = 32"
definition sessionTouchInterval :: duration where "sessionTouchInterval = Minute"
definition maxUserAgentLength :: nat where "maxUserAgentLength = 256"
definition DefaultSessionLifetime :: duration where "DefaultSessionLifetime = 30 * 24 * Hour"
definition DefaultSessionIdleTimeout :: duration where "DefaultSessionIdleTimeout = 7 * 24 * Hour"

definition ErrSessionNotFound :: error where "ErrSessionNotFound = ErrNew ''no such session''"
definition ErrSessionExpired :: error where "ErrSessionExpired = ErrNew ''the session has expired''"

record Session =
  ss_ID :: string
  ss_UserID :: string
  ss_CreatedAt :: instant
  ss_LastUsedAt :: instant
  ss_ExpiresAt :: instant
  ss_IP :: string
  ss_UserAgent :: string
  ss_csrfHash :: string

text \<open>
  What \<open>fmt\<close> prints of a session; the times of the server are in UTC. Whoever may read the log learns neither
  the CSRF hash nor where the session is used from.
\<close>

definition session_String :: "Session \<Rightarrow> string" where
  "session_String s = ''Session{ID:'' @ ss_ID s @ '' UserID:'' @ ss_UserID s @ '' ExpiresAt:'' @
     Format_RFC3339 \<lparr>tm_instant = ss_ExpiresAt s, tm_zone = 0\<rparr> @ ''}''"

definition session_GoString :: "Session \<Rightarrow> string" where
  "session_GoString s = session_String s"

lemma session_String_hides:
  "session_String (s\<lparr>ss_csrfHash := h, ss_IP := ip, ss_UserAgent := agent\<rparr>) = session_String s"
  "session_GoString (s\<lparr>ss_csrfHash := h, ss_IP := ip, ss_UserAgent := agent\<rparr>) = session_GoString s"
  by (simp_all add: session_String_def session_GoString_def)

text \<open>\<open>subtle.ConstantTimeCompare\<close> is 1 exactly when its arguments are equal.\<close>

definition VerifyCSRF :: "Session \<Rightarrow> string \<Rightarrow> bool" where
  "VerifyCSRF s token = (if token = [] \<or> ss_csrfHash s = [] then False else HashToken token = ss_csrfHash s)"

record Issued =
  is_Session :: Session
  is_Token :: string
  is_CSRFToken :: string

record Meta =
  mt_IP :: string
  mt_UserAgent :: string

record SessionOptions =
  so_Lifetime :: duration
  so_IdleTimeout :: duration

record SessionStore =
  sto_lifetime :: duration
  sto_idleTimeout :: duration

definition NewSessionStore :: "SessionOptions \<Rightarrow> SessionStore" where
  "NewSessionStore opts = \<lparr>
     sto_lifetime = (if so_Lifetime opts \<le> 0 then DefaultSessionLifetime else so_Lifetime opts),
     sto_idleTimeout = (if so_IdleTimeout opts < 0 then 0 else so_IdleTimeout opts)\<rparr>"

section \<open>Statements\<close>

definition insert_session :: "session_row \<Rightarrow> db \<Rightarrow> sql_code + nat \<times> db" where
  "insert_session r d =
     (if s_id r \<in> s_id ` set (sessions d) \<or> s_token_hash r \<in> s_token_hash ` set (sessions d) then Inl UniqueViolation
      else if s_user_id r \<notin> u_id ` set (users d) then Inl ForeignKeyViolation
      else Inr (1, d\<lparr>sessions := sessions d @ [r]\<rparr>))"

definition update_sessions :: "(session_row \<Rightarrow> bool) \<Rightarrow> (session_row \<Rightarrow> session_row) \<Rightarrow> db \<Rightarrow> sql_code + nat \<times> db" where
  "update_sessions P f d = (let (n, t) = update_where P f (sessions d) in Inr (n, d\<lparr>sessions := t\<rparr>))"

definition delete_sessions :: "(session_row \<Rightarrow> bool) \<Rightarrow> db \<Rightarrow> sql_code + nat \<times> db" where
  "delete_sessions P d = (let (n, t) = delete_where P (sessions d) in Inr (n, d\<lparr>sessions := t\<rparr>))"

definition scanSession :: "session_row \<Rightarrow> Session" where
  "scanSession r = \<lparr>ss_ID = s_id r, ss_UserID = s_user_id r, ss_CreatedAt = s_created_at r, ss_LastUsedAt = s_last_used_at r,
     ss_ExpiresAt = s_expires_at r, ss_IP = s_ip r, ss_UserAgent = s_user_agent r, ss_csrfHash = s_csrf_hash r\<rparr>"

section \<open>Operations\<close>

definition Issue :: "SessionStore \<Rightarrow> string \<Rightarrow> Meta \<Rightarrow> instant \<Rightarrow> (db, Issued) comp" where
  "Issue s userID meta now =
     (if userID = [] then failM (ErrNew ''auth: a user ID is required to issue a session'')
      else bindM (NewToken sessionTokenBytes) (\<lambda>token.
        bindM (NewToken csrfTokenBytes) (\<lambda>csrfToken.
        bindM (NewID SessionIDPrefix) (\<lambda>ident.
        let userAgent = take maxUserAgentLength (mt_UserAgent meta);
            session = \<lparr>ss_ID = ident, ss_UserID = userID, ss_CreatedAt = now, ss_LastUsedAt = now,
              ss_ExpiresAt = time_Add now (sto_lifetime s), ss_IP = mt_IP meta, ss_UserAgent = userAgent,
              ss_csrfHash = HashToken csrfToken\<rparr> in
        bindM (mapErr (wrap ''creating the session'') (execM (insert_session
            \<lparr>s_id = ss_ID session, s_token_hash = HashToken token, s_csrf_hash = ss_csrfHash session,
             s_user_id = ss_UserID session, s_created_at = ss_CreatedAt session, s_last_used_at = ss_LastUsedAt session,
             s_expires_at = ss_ExpiresAt session, s_ip = ss_IP session, s_user_agent = ss_UserAgent session\<rparr>))) (\<lambda>_.
        returnM \<lparr>is_Session = session, is_Token = token, is_CSRFToken = csrfToken\<rparr>)))))"

definition isExpired :: "SessionStore \<Rightarrow> Session \<Rightarrow> instant \<Rightarrow> bool" where
  "isExpired s session now = (if \<not> now < ss_ExpiresAt session then True
     else 0 < sto_idleTimeout s \<and> sto_idleTimeout s \<le> time_Sub now (ss_LastUsedAt session))"

definition deleteByID :: "string \<Rightarrow> (db, unit) comp" where
  "deleteByID ident = bindM (mapErr (wrap ''deleting the expired session'') (execM (delete_sessions (\<lambda>r. s_id r = ident))))
     (\<lambda>_. returnM ())"

definition Lookup :: "SessionStore \<Rightarrow> string \<Rightarrow> instant \<Rightarrow> (db, Session) comp" where
  "Lookup s token now = (if token = [] then failM ErrSessionNotFound
     else bindM (mapErr (wrap ''reading the session'')
         (queryM (\<lambda>d. find (\<lambda>r. s_token_hash r = HashToken token) (sessions d)))) (\<lambda>row.
       case row of None \<Rightarrow> failM ErrSessionNotFound
       | Some r \<Rightarrow> let session = scanSession r in
           if isExpired s session now then bindM (deleteByID (ss_ID session)) (\<lambda>_. failM ErrSessionExpired)
           else if sessionTouchInterval < time_Sub now (ss_LastUsedAt session) then
             bindM (mapErr (wrap ''refreshing the session'') (execM (update_sessions
               (\<lambda>r. s_id r = ss_ID session) (\<lambda>r. r\<lparr>s_last_used_at := now\<rparr>)))) (\<lambda>_.
             returnM (session\<lparr>ss_LastUsedAt := now\<rparr>))
           else returnM session))"

definition session_Revoke :: "string \<Rightarrow> (db, unit) comp" where
  "session_Revoke token = (if token = [] then returnM ()
     else bindM (mapErr (wrap ''revoking the session'') (execM (delete_sessions (\<lambda>r. s_token_hash r = HashToken token))))
       (\<lambda>_. returnM ()))"

definition RevokeAllForUser :: "string \<Rightarrow> (db, nat) comp" where
  "RevokeAllForUser userID =
     bindM (mapErr (wrap (''revoking the sessions of '' @ userID)) (execM (delete_sessions (\<lambda>r. s_user_id r = userID))))
     (\<lambda>result. mapErr (wrap (''revoking the sessions of '' @ userID)) (rowsAffected result))"

definition DeleteExpired :: "instant \<Rightarrow> (db, nat) comp" where
  "DeleteExpired now =
     bindM (mapErr (wrap ''deleting expired sessions'') (execM (delete_sessions (\<lambda>r. s_expires_at r \<le> now))))
     (\<lambda>result. mapErr (wrap ''deleting expired sessions'') (rowsAffected result))"

definition CountForUser :: "string \<Rightarrow> (db, nat) comp" where
  "CountForUser userID = mapErr (wrap ''counting sessions'')
     (queryM (\<lambda>d. length (filter (\<lambda>r. s_user_id r = userID) (sessions d))))"

section \<open>Every operation keeps the inventory consistent\<close>

lemma frame_sessions:
  "metadata_schema (d\<lparr>sessions := t\<rparr>) = metadata_schema d" "users_schema (d\<lparr>sessions := t\<rparr>) = users_schema d"
  "keys_schema (d\<lparr>sessions := t\<rparr>) = keys_schema d" "devices_schema (d\<lparr>sessions := t\<rparr>) = devices_schema d"
  "tokens_schema (d\<lparr>sessions := t\<rparr>) = tokens_schema d" "allocations_schema (d\<lparr>sessions := t\<rparr>) = allocations_schema d"
  "alloc_ok (d\<lparr>sessions := t\<rparr>) = alloc_ok d" "keys_ok (d\<lparr>sessions := t\<rparr>) = keys_ok d"
  "held_by (d\<lparr>sessions := t\<rparr>) = held_by d" "uses_ok (d\<lparr>sessions := t\<rparr>) = uses_ok d"
  by (simp_all add: table_schemas alloc_ok_def keys_ok_def held_by_def uses_ok_def fun_eq_iff)

lemma consistent_sessions:
  "consistent d \<Longrightarrow> sessions_schema (d\<lparr>sessions := t\<rparr>) \<Longrightarrow> consistent (d\<lparr>sessions := t\<rparr>)"
  by (simp add: consistent_def schema_ok_def frame_sessions devices_ok_def)

lemma consistent_sessionsD: "consistent d \<Longrightarrow> sessions_schema d"
  by (simp add: consistent_def schema_ok_def)

lemma insert_session_consistent:
  assumes "consistent d" "insert_session r d = Inr (n, e)" shows "consistent e"
proof -
  have "e = d\<lparr>sessions := sessions d @ [r]\<rparr>" "sessions_schema (d\<lparr>sessions := sessions d @ [r]\<rparr>)"
    using assms(2) consistent_sessionsD [OF assms(1)] by (auto simp: insert_session_def sessions_schema_def split: if_splits)
  then show ?thesis using consistent_sessions [OF assms(1)] by simp
qed

lemma delete_sessions_consistent:
  assumes "consistent d" "delete_sessions P d = Inr (n, e)" shows "consistent e"
proof -
  let ?t = "filter (\<lambda>r. \<not> P r) (sessions d)"
  have "sessions_schema (d\<lparr>sessions := ?t\<rparr>)"
    using consistent_sessionsD [OF assms(1)] by (auto simp: sessions_schema_def distinct_map_filterI)
  moreover have "e = d\<lparr>sessions := ?t\<rparr>" using assms(2) by (simp add: delete_sessions_def delete_where_def)
  ultimately show ?thesis using consistent_sessions [OF assms(1)] by simp
qed

lemma touch_sessions_consistent:
  assumes "consistent d" "update_sessions P (\<lambda>r. r\<lparr>s_last_used_at := now\<rparr>) d = Inr (n, e)"
  shows "consistent e"
proof -
  define t where "t = map (\<lambda>r. if P r then r\<lparr>s_last_used_at := now\<rparr> else r) (sessions d)"
  have cols: "map s_id t = map s_id (sessions d)" "map s_token_hash t = map s_token_hash (sessions d)"
    "map s_user_id t = map s_user_id (sessions d)"
    by (simp_all add: t_def)
  from cols(3) have "s_user_id ` set t = s_user_id ` set (sessions d)" by (metis image_set)
  with cols have "sessions_schema (d\<lparr>sessions := t\<rparr>)"
    using consistent_sessionsD [OF assms(1)] by (simp add: sessions_schema_def)
  moreover have "e = d\<lparr>sessions := t\<rparr>" using assms(2) by (simp add: update_sessions_def update_where_def t_def)
  ultimately show ?thesis using consistent_sessions [OF assms(1)] by simp
qed

lemma keeps_Issue: "keeps consistent (Issue s u m now)"
  unfolding Issue_def Let_def by (intro pres_intros keeps_execM) (auto elim: insert_session_consistent)

lemma keeps_deleteByID [pres_intros]: "keeps consistent (deleteByID i)"
  unfolding deleteByID_def by (intro pres_intros keeps_execM) (auto elim: delete_sessions_consistent)

lemma keeps_Lookup: "keeps consistent (Lookup s t now)"
  unfolding Lookup_def Let_def by (intro pres_intros keeps_execM) (auto elim: touch_sessions_consistent)

lemma keeps_session_Revoke: "keeps consistent (session_Revoke t)"
  unfolding session_Revoke_def by (intro pres_intros keeps_execM) (auto elim: delete_sessions_consistent)

lemma keeps_RevokeAllForUser: "keeps consistent (RevokeAllForUser u)"
  unfolding RevokeAllForUser_def by (intro pres_intros keeps_execM) (auto elim: delete_sessions_consistent)

lemma keeps_DeleteExpired: "keeps consistent (DeleteExpired now)"
  unfolding DeleteExpired_def by (intro pres_intros keeps_execM) (auto elim: delete_sessions_consistent)

section \<open>What a token is worth\<close>

text \<open>A token is live at an instant when a session with its hash has not expired either way.\<close>

definition live :: "SessionStore \<Rightarrow> db \<Rightarrow> string \<Rightarrow> instant \<Rightarrow> session_row \<Rightarrow> bool" where
  "live s d token now r \<longleftrightarrow> token \<noteq> [] \<and> r \<in> set (sessions d) \<and> s_token_hash r = HashToken token \<and>
     now < s_expires_at r \<and> (sto_idleTimeout s = 0 \<or> \<not> sto_idleTimeout s \<le> time_Sub now (s_last_used_at r))"

definition store_ok :: "SessionStore \<Rightarrow> bool" where
  "store_ok s \<longleftrightarrow> 0 < sto_lifetime s \<and> 0 \<le> sto_idleTimeout s"

lemma NewSessionStore_ok: "store_ok (NewSessionStore opts)"
  by (simp add: store_ok_def NewSessionStore_def DefaultSessionLifetime_def duration_defs)

lemma isExpired_live:
  "store_ok s \<Longrightarrow> token \<noteq> [] \<Longrightarrow> r \<in> set (sessions d) \<Longrightarrow> s_token_hash r = HashToken token \<Longrightarrow>
     isExpired s (scanSession r) now \<longleftrightarrow> \<not> live s d token now r"
  by (auto simp: isExpired_def live_def scanSession_def store_ok_def)

text \<open>A look-up that succeeds moves the idle window, once it is stale, and nothing else.\<close>

definition stale :: "instant \<Rightarrow> session_row \<Rightarrow> bool" where
  "stale now r \<longleftrightarrow> sessionTouchInterval < time_Sub now (s_last_used_at r)"

definition touched_db :: "session_row \<Rightarrow> instant \<Rightarrow> db \<Rightarrow> db" where
  "touched_db r now d = (if stale now r then
     d\<lparr>sessions := map (\<lambda>x. if s_id x = s_id r then x\<lparr>s_last_used_at := now\<rparr> else x) (sessions d)\<rparr> else d)"

definition seen_session :: "session_row \<Rightarrow> instant \<Rightarrow> Session" where
  "seen_session r now = (if stale now r then (scanSession r)\<lparr>ss_LastUsedAt := now\<rparr> else scanSession r)"

lemma Lookup_Ret:
  assumes "store_ok s" "Lookup s token now w = (Ret ses, w')"
  shows "\<exists>r. live s (w_db w) token now r \<and> ses = seen_session r now \<and> w_db w' = touched_db r now (w_db w)"
proof -
  have tk: "token \<noteq> []" using assms(2) by (auto simp: Lookup_def split: if_splits)
  obtain row w1 where q: "queryM (\<lambda>d. find (\<lambda>r. s_token_hash r = HashToken token) (sessions d)) w = (Ret row, w1)"
    and rest: "(case row of None \<Rightarrow> failM ErrSessionNotFound
       | Some r \<Rightarrow> let session = scanSession r in
           if isExpired s session now then bindM (deleteByID (ss_ID session)) (\<lambda>_. failM ErrSessionExpired)
           else if sessionTouchInterval < time_Sub now (ss_LastUsedAt session) then
             bindM (mapErr (wrap ''refreshing the session'') (execM (update_sessions
               (\<lambda>r. s_id r = ss_ID session) (\<lambda>r. r\<lparr>s_last_used_at := now\<rparr>)))) (\<lambda>_.
             returnM (session\<lparr>ss_LastUsedAt := now\<rparr>))
           else returnM session) w1 = (Ret ses, w')"
    using assms(2) tk unfolding Lookup_def by (auto simp: bindM_Ret)
  obtain r where r: "row = Some r" using rest by (cases row) auto
  have f: "r \<in> set (sessions (w_db w))" "s_token_hash r = HashToken token"
    using queryM_Ret [OF q] r by (auto dest!: find_SomeD [OF sym])
  have db: "w_db w1 = w_db w" using queryM_frame [OF q] by simp
  have ex: "\<not> isExpired s (scanSession r) now" using rest r by (auto simp: Let_def bindM_Ret split: if_splits)
  then have "live s (w_db w) token now r" using isExpired_live [OF assms(1) tk f] by simp
  moreover have "ses = seen_session r now \<and> w_db w' = touched_db r now (w_db w)"
    using rest r ex db
    by (auto simp: Let_def bindM_Ret seen_session_def touched_db_def stale_def scanSession_def update_sessions_def
        update_where_def split: if_splits dest!: execM_Ret)
  ultimately show ?thesis by blast
qed

lemma calm_Lookup:
  assumes "w_faults w = []" "schema_ok (w_db w)" "store_ok s" "live s (w_db w) token now r"
  shows "Lookup s token now w = (Ret (seen_session r now), w\<lparr>w_db := touched_db r now (w_db w)\<rparr>)"
proof -
  have f: "find (\<lambda>x. s_token_hash x = HashToken token) (sessions (w_db w)) = Some r"
    using assms(2,4) find_unique [of s_token_hash "sessions (w_db w)" r]
    by (simp add: live_def schema_ok_def sessions_schema_def)
  have ne: "\<not> isExpired s (scanSession r) now" "token \<noteq> []"
    using assms(3,4) isExpired_live [of s token r "w_db w" now] by (auto simp: live_def)
  show ?thesis using f ne assms(1)
    by (simp add: Lookup_def bindM_def mapErr_def calm_queryM calm_execM Let_def seen_session_def touched_db_def stale_def
        scanSession_def update_sessions_def update_where_def returnM_def)
qed

lemma Issue_Ret:
  assumes "Issue s u meta now w = (Ret iss, w')"
  shows "\<exists>row. w_db w' = (w_db w)\<lparr>sessions := sessions (w_db w) @ [row]\<rparr> \<and> scanSession row = is_Session iss \<and>
    s_token_hash row = HashToken (is_Token iss) \<and> s_csrf_hash row = HashToken (is_CSRFToken iss) \<and>
    s_token_hash row \<notin> s_token_hash ` set (sessions (w_db w)) \<and> s_user_id row = u \<and> u \<in> u_id ` set (users (w_db w)) \<and>
    s_last_used_at row = now \<and> s_expires_at row = now + sto_lifetime s \<and>
    length (is_Token iss) = 43 \<and> length (is_CSRFToken iss) = 43 \<and> length (ss_UserAgent (is_Session iss)) \<le> maxUserAgentLength"
proof -
  have u: "u \<noteq> []" using assms by (auto simp: Issue_def split: if_splits)
  define row where "row tok csrf i = \<lparr>s_id = i, s_token_hash = HashToken tok, s_csrf_hash = HashToken csrf,
    s_user_id = u, s_created_at = now, s_last_used_at = now, s_expires_at = time_Add now (sto_lifetime s),
    s_ip = mt_IP meta, s_user_agent = take maxUserAgentLength (mt_UserAgent meta)\<rparr>" for tok csrf i
  obtain tok w1 csrf w2 i w3 n where t: "NewToken sessionTokenBytes w = (Ret tok, w1)"
    and c: "NewToken csrfTokenBytes w1 = (Ret csrf, w2)" and i: "NewID SessionIDPrefix w2 = (Ret i, w3)"
    and ex: "execM (insert_session (row tok csrf i)) w3 = (Ret n, w')"
    and iss: "iss = \<lparr>is_Session = scanSession (row tok csrf i), is_Token = tok, is_CSRFToken = csrf\<rparr>"
    using assms u unfolding Issue_def by (auto simp: bindM_Ret Let_def row_def scanSession_def)
  have db: "w_db w3 = w_db w" using NewToken_frame [OF t] NewToken_frame [OF c] NewID_frame [OF i] by simp
  have len: "length tok = 43" "length csrf = 43"
    using length_NewToken [OF t] length_NewToken [OF c] by (simp_all add: sessionTokenBytes_def csrfTokenBytes_def)
  have ins: "w_db w' = (w_db w)\<lparr>sessions := sessions (w_db w) @ [row tok csrf i]\<rparr>"
    "HashToken tok \<notin> s_token_hash ` set (sessions (w_db w))" "u \<in> u_id ` set (users (w_db w))"
    using execM_Ret [OF ex] db by (auto simp: insert_session_def row_def split: if_splits)
  show ?thesis
    using ins len by (intro exI [of _ "row tok csrf i"]) (simp add: iss, simp add: row_def scanSession_def time_Add_def)
qed

section \<open>Ending sessions\<close>

lemma delete_sessions_Ret:
  "execM (delete_sessions P) w = (Ret n, w') \<Longrightarrow> w_db w' = (w_db w)\<lparr>sessions := filter (\<lambda>r. \<not> P r) (sessions (w_db w))\<rparr> \<and>
     n = length (filter P (sessions (w_db w)))"
  by (auto simp: delete_sessions_def delete_where_def dest!: execM_Ret)

lemma session_Revoke_Ret:
  "session_Revoke token w = (Ret u, w') \<Longrightarrow> \<not> live s (w_db w') token now r"
  by (auto simp: session_Revoke_def bindM_Ret live_def split: if_splits dest!: delete_sessions_Ret)

lemma RevokeAllForUser_Ret:
  assumes "RevokeAllForUser u w = (Ret n, w')"
  shows "w_db w' = (w_db w)\<lparr>sessions := filter (\<lambda>r. s_user_id r \<noteq> u) (sessions (w_db w))\<rparr> \<and>
     n = length (filter (\<lambda>r. s_user_id r = u) (sessions (w_db w)))"
proof -
  obtain m w1 where e: "execM (delete_sessions (\<lambda>r. s_user_id r = u)) w = (Ret m, w1)" and r: "rowsAffected m w1 = (Ret n, w')"
    using assms by (auto simp: RevokeAllForUser_def bindM_Ret)
  show ?thesis using delete_sessions_Ret [OF e] rowsAffected_Ret [OF r] rowsAffected_frame [OF r] by simp
qed

end
