(* ===== verification/Go_Float.thy ===== *)
theory Go_Float
  imports Headnet_Prelude "HOL-Library.Log_Nat" Complex_Main
begin

text \<open>
  Go's \<open>float64\<close>, as far as the limiter uses it: rational numbers, with every operation rounded
  to 53 significant bits, ties to even. Overflow, subnormals and the fusing of a product with
  a sum, which the language allows and amd64 does not do, are left out; the limiter's numbers
  stay far from the ends of the range.
\<close>

section \<open>Rounding\<close>

definition round_even :: "rat \<Rightarrow> int" where
  "round_even x = (let f = \<lfloor>x\<rfloor>; r = x - of_int f in
     if r < 1/2 then f else if r > 1/2 then f + 1 else if even f then f else f + 1)"

text \<open>The binary exponent of a positive rational, from the lengths of its terms.\<close>

definition binexp :: "rat \<Rightarrow> int" where
  "binexp x = (let (a, b) = quotient_of x; e = int (floorlog 2 (nat a)) - int (floorlog 2 (nat b)) in
     if 2 powi e \<le> x then e else e - 1)"

definition round64 :: "rat \<Rightarrow> rat" where
  "round64 x = (if x = 0 then 0 else let u = 2 powi (binexp \<bar>x\<bar> - 52) in
     sgn x * of_int (round_even (\<bar>x\<bar> / u)) * u)"

text \<open>\<open>time.Duration(f)\<close>: a conversion to an integer drops the fraction.\<close>

definition trunc_int :: "rat \<Rightarrow> int" where
  "trunc_int x = (if x < 0 then - \<lfloor>- x\<rfloor> else \<lfloor>x\<rfloor>)"

section \<open>What the limiter relies on\<close>

locale rounding =
  fixes rnd :: "rat \<Rightarrow> rat"
  assumes mono: "x \<le> y \<Longrightarrow> rnd x \<le> rnd y"
    and exact: "\<bar>n\<bar> \<le> 2 ^ 53 \<Longrightarrow> rnd (of_int n) = of_int n"
begin

lemma zero [simp]: "rnd 0 = 0"
  using exact [of 0] by simp

lemma nonneg: "0 \<le> x \<Longrightarrow> 0 \<le> rnd x"
  using mono [of 0 x] by simp

lemma below: "\<bar>n\<bar> \<le> 2 ^ 53 \<Longrightarrow> x \<le> of_int n \<Longrightarrow> rnd x \<le> of_int n"
  using mono [of x "of_int n"] exact [of n] by simp

lemma above: "\<bar>n\<bar> \<le> 2 ^ 53 \<Longrightarrow> of_int n \<le> x \<Longrightarrow> of_int n \<le> rnd x"
  using mono [of "of_int n" x] exact [of n] by simp

end

section \<open>Binary rounding to nearest\<close>

lemma round_even_mono: "x \<le> y \<Longrightarrow> round_even x \<le> round_even y"
proof -
  assume le: "x \<le> y"
  have fl: "\<lfloor>x\<rfloor> \<le> \<lfloor>y\<rfloor>" using le by (rule floor_mono)
  have up: "round_even z \<le> \<lfloor>z\<rfloor> + 1" "\<lfloor>z\<rfloor> \<le> round_even z" for z by (simp_all add: round_even_def Let_def)
  show ?thesis
  proof (cases "\<lfloor>x\<rfloor> = \<lfloor>y\<rfloor>")
    case True
    then show ?thesis using le by (simp add: round_even_def Let_def)
  next
    case False
    then have "\<lfloor>x\<rfloor> + 1 \<le> \<lfloor>y\<rfloor>" using fl by simp
    then show ?thesis using up(1) [of x] up(2) [of y] by linarith
  qed
qed

lemma round_even_int [simp]: "round_even (of_int n) = n"
  by (simp add: round_even_def Let_def)

lemma powi_split: "(2::rat) powi (m + n) = 2 powi m * 2 powi n"
  by (simp add: power_int_add)

lemma floorlog_powi:
  assumes "0 < a"
  shows "(2::rat) powi (int (floorlog 2 (nat a)) - 1) \<le> of_int a" "of_int a < (2::rat) powi (int (floorlog 2 (nat a)))"
proof -
  let ?l = "floorlog 2 (nat a)"
  have b: "2 ^ (?l - 1) \<le> nat a" "nat a < 2 ^ ?l" using floorlog_bounds [of "nat a" 2] assms by auto
  have l: "0 < ?l" using assms floorlog_eq_zero_iff [of 2 "nat a"] by auto
  have e: "int ?l - 1 = int (?l - 1)" using l by simp
  have "of_nat (2 ^ (?l - 1)) \<le> (of_nat (nat a) :: rat)" using b(1) by (simp only: of_nat_le_iff)
  then show "(2::rat) powi (int ?l - 1) \<le> of_int a" unfolding e power_int_of_nat using assms by simp
  have "of_nat (nat a) < (of_nat (2 ^ ?l) :: rat)" using b(2) by (simp only: of_nat_less_iff)
  then show "of_int a < (2::rat) powi (int ?l)" using assms by simp
qed

lemma binexp_bounds:
  assumes "0 < x"
  shows "2 powi (binexp x) \<le> x" "x < 2 powi (binexp x + 1)"
proof -
  obtain a b where q: "quotient_of x = (a, b)" by fastforce
  have b: "0 < b" using quotient_of_denom_pos [OF q] .
  have x: "x = of_int a / of_int b" using quotient_of_div [OF q] .
  have a: "0 < a" using assms b unfolding x by (simp add: zero_less_divide_iff)
  define la where "la = int (floorlog 2 (nat a))"
  define lb where "lb = int (floorlog 2 (nat b))"
  note ra = floorlog_powi [OF a, folded la_def] and rb = floorlog_powi [OF b, folded lb_def]
  have pb: "0 < (of_int b :: rat)" using b by simp
  have "x < 2 powi la / 2 powi (lb - 1)"
    unfolding x using ra(2) rb(1) by (intro frac_less) (use a in auto)
  also have "\<dots> = 2 powi (la - lb + 1)" by (simp add: power_int_diff power_int_add)
  finally have hi: "x < 2 powi (la - lb + 1)" .
  have "2 powi (la - lb - 1) = (2::rat) powi (la - 1) / 2 powi lb" by (simp add: power_int_diff)
  also have "\<dots> \<le> x" unfolding x using ra(1) rb(2) pb a by (intro frac_le) auto
  finally have lo: "2 powi (la - lb - 1) \<le> x" .
  have e: "binexp x = (if 2 powi (la - lb) \<le> x then la - lb else la - lb - 1)"
    by (simp add: binexp_def q la_def lb_def Let_def)
  show "2 powi (binexp x) \<le> x" using e lo by auto
  show "x < 2 powi (binexp x + 1)" using e hi by auto
qed

lemma binexp_mono: "0 < x \<Longrightarrow> x \<le> y \<Longrightarrow> binexp x \<le> binexp y"
proof (rule ccontr)
  assume x: "0 < x" "x \<le> y" and "\<not> binexp x \<le> binexp y"
  then have "binexp y + 1 \<le> binexp x" by simp
  then have "(2::rat) powi (binexp y + 1) \<le> 2 powi (binexp x)" by (simp add: power_int_increasing)
  with binexp_bounds [OF x(1)] binexp_bounds(2) [of y] x show False by linarith
qed

text \<open>A positive number rounds within its binade.\<close>

lemma round64_pos: "0 < x \<Longrightarrow> round64 x = of_int (round_even (x / 2 powi (binexp x - 52))) * 2 powi (binexp x - 52)"
  by (simp add: round64_def Let_def)

lemma round64_minus: "round64 (- x) = - round64 x"
  by (simp add: round64_def Let_def)

lemma round64_binade:
  assumes "0 < x"
  shows "2 powi (binexp x) \<le> round64 x" "round64 x \<le> 2 powi (binexp x + 1)"
proof -
  let ?u = "(2::rat) powi (binexp x - 52)"
  have u: "0 < ?u" by simp
  have lo: "2 powi (binexp x) = of_int (2 ^ 52) * ?u" by (simp add: power_int_diff)
  have hi: "2 powi (binexp x + 1) = of_int (2 ^ 53) * ?u" by (simp add: power_int_diff power_int_add)
  have "of_int (2 ^ 52) \<le> x / ?u" using binexp_bounds(1) [OF assms] u unfolding lo by (simp only: pos_le_divide_eq)
  then have "2 ^ 52 \<le> round_even (x / ?u)" using round_even_mono [of "of_int (2 ^ 52)"] by (metis round_even_int)
  then show "2 powi (binexp x) \<le> round64 x"
    unfolding lo round64_pos [OF assms] using u by (intro mult_right_mono) (simp_all only: of_int_le_iff less_imp_le)
  have "x / ?u \<le> of_int (2 ^ 53)" using binexp_bounds(2) [OF assms] u unfolding hi by (simp only: pos_divide_le_eq less_imp_le)
  then have "round_even (x / ?u) \<le> 2 ^ 53" using round_even_mono [of _ "of_int (2 ^ 53)"] by (metis round_even_int)
  then show "round64 x \<le> 2 powi (binexp x + 1)"
    unfolding hi round64_pos [OF assms] using u by (intro mult_right_mono) (simp_all only: of_int_le_iff less_imp_le)
qed

lemma round64_mono_pos:
  assumes "0 < x" "x \<le> y" shows "round64 x \<le> round64 y"
proof (cases "binexp x = binexp y")
  case True
  let ?u = "(2::rat) powi (binexp y - 52)"
  have "x / ?u \<le> y / ?u" using assms(2) by (intro divide_right_mono) simp_all
  then have "round_even (x / ?u) \<le> round_even (y / ?u)" by (rule round_even_mono)
  then show ?thesis using assms True by (simp add: round64_pos mult_right_mono)
next
  case False
  then have "binexp x + 1 \<le> binexp y" using binexp_mono [OF assms] by simp
  then have "(2::rat) powi (binexp x + 1) \<le> 2 powi (binexp y)" by (simp add: power_int_increasing)
  then show ?thesis using round64_binade [of x] round64_binade [of y] assms by linarith
qed

lemma round64_sign: "0 < x \<Longrightarrow> 0 < round64 x"
  using round64_binade(1) [of x] by (meson less_le_trans zero_less_power_int zero_less_numeral)

lemma round64_mono: "x \<le> y \<Longrightarrow> round64 x \<le> round64 y"
proof -
  assume le: "x \<le> y"
  consider "0 < x" | "y < 0" | "x \<le> 0" "0 \<le> y" by linarith
  then show ?thesis
  proof cases
    case 1
    then show ?thesis using round64_mono_pos le by blast
  next
    case 2
    then have "round64 (- y) \<le> round64 (- x)" using le by (intro round64_mono_pos) auto
    then show ?thesis by (simp add: round64_minus)
  next
    case 3
    have "round64 x \<le> 0"
      using 3(1) round64_sign [of "- x"] by (cases "x = 0") (auto simp: round64_minus, simp add: round64_def)
    moreover have "0 \<le> round64 y" using 3(2) round64_sign [of y] by (cases "y = 0") (auto simp: less_imp_le, simp add: round64_def)
    ultimately show ?thesis by simp
  qed
qed

lemma round64_nat:
  assumes "0 < n" "n \<le> 2 ^ 53" shows "round64 (of_int n) = of_int n"
proof -
  let ?e = "binexp (of_int n)"
  have p: "0 < (of_int n :: rat)" using assms by simp
  have "(2::rat) powi ?e \<le> of_int (2 ^ 53)" using binexp_bounds(1) [OF p] assms(2) by (meson of_int_le_iff order_trans)
  also have "\<dots> = 2 powi 53" by simp
  finally have le: "(2::rat) powi ?e \<le> 2 powi 53" .
  have e53: "?e \<le> 53"
  proof (rule ccontr)
    assume "\<not> ?e \<le> 53"
    then have "(2::rat) powi 53 < 2 powi ?e" by (intro power_int_strict_increasing) auto
    with le show False by simp
  qed
  have e0: "0 \<le> ?e"
  proof (rule ccontr)
    assume "\<not> 0 \<le> ?e"
    then have "(2::rat) powi (?e + 1) \<le> 2 powi 0" by (intro power_int_increasing) auto
    then show False using binexp_bounds(2) [OF p] assms(1) by simp
  qed
  show ?thesis
  proof (cases "?e \<le> 52")
    case True
    then have "(2::rat) powi (?e - 52) = inverse (2 powi (52 - ?e))" by (metis minus_diff_eq power_int_minus)
    also have "(2::rat) powi (52 - ?e) = of_int (2 ^ nat (52 - ?e))" using True by (simp add: power_int_def)
    finally have "(of_int n :: rat) / 2 powi (?e - 52) = of_int (n * 2 ^ nat (52 - ?e))" by (simp add: field_simps)
    then show ?thesis using p by (simp only: round64_pos round_even_int) (simp add: field_simps)
  next
    case False
    then have "?e = 53" using e53 by simp
    then have "of_int (2 ^ 53) \<le> (of_int n :: rat)" using binexp_bounds(1) [OF p] by simp
    then have n: "n = 2 ^ 53" using assms(2) by (simp only: of_int_le_iff)
    show ?thesis using p \<open>?e = 53\<close> unfolding n by (simp add: round64_pos round_even_def)
  qed
qed

text \<open>Scaling by a power of two commutes with rounding, so dyadic numbers are exact.\<close>

lemma binexp_unique:
  assumes "2 powi e \<le> x" "x < 2 powi (e + 1)" shows "binexp x = e"
proof -
  have x: "0 < x" using assms(1) by (meson less_le_trans zero_less_numeral zero_less_power_int)
  have "\<not> binexp x < e"
  proof
    assume "binexp x < e"
    then have "(2::rat) powi (binexp x + 1) \<le> 2 powi e" by (intro power_int_increasing) auto
    with binexp_bounds(2) [OF x] assms(1) show False by linarith
  qed
  moreover have "\<not> e < binexp x"
  proof
    assume "e < binexp x"
    then have "(2::rat) powi (e + 1) \<le> 2 powi binexp x" by (intro power_int_increasing) auto
    with binexp_bounds(1) [OF x] assms(2) show False by linarith
  qed
  ultimately show ?thesis by simp
qed

lemma round64_scale_pos:
  assumes "0 < x" shows "round64 (x * 2 powi k) = round64 x * 2 powi k"
proof -
  have "2 powi (binexp x + k) \<le> x * 2 powi k" using binexp_bounds(1) [OF assms] by (simp add: powi_split)
  moreover have "x * 2 powi k < 2 powi (binexp x + k + 1)"
    using binexp_bounds(2) [OF assms] by (simp add: powi_split mult.commute mult.left_commute)
  ultimately have e: "binexp (x * 2 powi k) = binexp x + k" by (intro binexp_unique)
  have u: "(2::rat) powi (binexp x + k - 52) = 2 powi (binexp x - 52) * 2 powi k"
    by (simp add: powi_split [symmetric] algebra_simps)
  show ?thesis using assms by (simp add: round64_pos e u)
qed

lemma round64_scale: "round64 (x * 2 powi k) = round64 x * 2 powi k"
proof -
  consider "0 < x" | "x = 0" | "0 < - x" by linarith
  then show ?thesis
    using round64_scale_pos [of x k] round64_scale_pos [of "- x" k]
    by cases (simp_all add: round64_minus, simp add: round64_def)
qed

interpretation float64: rounding round64
proof
  fix n :: int assume n: "\<bar>n\<bar> \<le> 2 ^ 53"
  consider "n = 0" | "0 < n" | "n < 0" by linarith
  then show "round64 (of_int n) = of_int n"
  proof cases
    case 3
    then show ?thesis using round64_nat [of "- n"] n by (simp add: round64_minus)
  qed (use n round64_nat [of n] in \<open>simp_all add: round64_def\<close>)
qed (rule round64_mono)

lemma round64_dyadic: "\<bar>n\<bar> \<le> 2 ^ 53 \<Longrightarrow> round64 (of_int n / 2 ^ k) = of_int n / 2 ^ k"
  using round64_scale [of "of_int n" "- int k"] float64.exact [of n] by (simp add: power_int_minus field_simps)

end
