(* ===== verification/Rate_Limit.thy ===== *)
theory Rate_Limit
  imports Go_Float "HOL-Library.AList" "HOL-Library.Signed_Division"
begin

text \<open>
  The token buckets of \<open>internal/httpapi/ratelimit.go\<close>. The map of buckets is an association
  list, the lock makes \<open>Allow\<close> one step, and the injected clock is its argument.
\<close>

section \<open>The limiter\<close>

record bucket =
  bk_tokens :: rat
  bk_lastSeen :: instant

record Limiter =
  lm_buckets :: "(string \<times> bucket) list"
  lm_ratePerSecond :: rat
  lm_burst :: rat
  lm_lastSweep :: instant
  lm_sweepEvery :: duration
  lm_idleTTL :: duration

definition defaultSweepEvery :: duration where "defaultSweepEvery = Minute"
definition defaultIdleTTL :: duration where "defaultIdleTTL = 10 * Minute"

definition float_of_int :: "int \<Rightarrow> rat" where "float_of_int n = round64 (of_int n)"

definition newLimiter :: "int \<Rightarrow> int \<Rightarrow> instant \<Rightarrow> Limiter" where
  "newLimiter requestsPerMinute burst now = \<lparr>lm_buckets = [],
     lm_ratePerSecond = round64 (float_of_int requestsPerMinute / 60), lm_burst = float_of_int burst,
     lm_lastSweep = now, lm_sweepEvery = defaultSweepEvery, lm_idleTTL = defaultIdleTTL\<rparr>"

text \<open>\<open>Duration.Seconds\<close>.\<close>

definition Seconds :: "duration \<Rightarrow> rat" where
  "Seconds d = (let sec = d sdiv Second; nsec = d smod Second in
     round64 (float_of_int sec + round64 (float_of_int nsec / 1000000000)))"

definition sweepLocked :: "Limiter \<Rightarrow> instant \<Rightarrow> Limiter" where
  "sweepLocked l now = (if time_Sub now (lm_lastSweep l) < lm_sweepEvery l then l
     else l\<lparr>lm_lastSweep := now,
       lm_buckets := filter (\<lambda>(key, b). \<not> time_Sub now (bk_lastSeen b) > lm_idleTTL l) (lm_buckets l)\<rparr>)"

text \<open>The refill of a bucket, and the decision taken on it.\<close>

definition refill :: "Limiter \<Rightarrow> instant \<Rightarrow> bucket \<Rightarrow> bucket" where
  "refill l now b = (let elapsed = Seconds (time_Sub now (bk_lastSeen b)) in
     \<lparr>bk_tokens = (if elapsed > 0 then min (lm_burst l) (round64 (bk_tokens b + round64 (elapsed * lm_ratePerSecond l)))
        else bk_tokens b), bk_lastSeen = now\<rparr>)"

definition Allow :: "Limiter option \<Rightarrow> string \<Rightarrow> instant \<Rightarrow> bool \<times> duration \<times> Limiter option" where
  "Allow limiter key now = (case limiter of
     None \<Rightarrow> (True, 0, None)
   | Some l0 \<Rightarrow> if lm_ratePerSecond l0 \<le> 0 \<or> lm_burst l0 \<le> 0 then (True, 0, Some l0)
     else let l = sweepLocked l0 now in
       (case map_of (lm_buckets l) key of
         None \<Rightarrow> (True, 0, Some (l\<lparr>lm_buckets := AList.update key
           \<lparr>bk_tokens = round64 (lm_burst l - 1), bk_lastSeen = now\<rparr> (lm_buckets l)\<rparr>))
       | Some b0 \<Rightarrow> let b = refill l now b0 in
           if bk_tokens b < 1 then
             let deficit = round64 (1 - bk_tokens b);
                 wait = trunc_int (round64 (round64 (deficit / lm_ratePerSecond l) * float_of_int Second)) in
             (False, max wait Second, Some (l\<lparr>lm_buckets := AList.update key b (lm_buckets l)\<rparr>))
           else (True, 0, Some (l\<lparr>lm_buckets := AList.update key
             (b\<lparr>bk_tokens := round64 (bk_tokens b - 1)\<rparr>) (lm_buckets l)\<rparr>))))"

definition Size :: "Limiter \<Rightarrow> nat" where
  "Size l = length (lm_buckets l)"

definition NewLimiter :: "int \<Rightarrow> int \<Rightarrow> instant \<Rightarrow> Limiter" where
  "NewLimiter requestsPerMinute burst now = newLimiter requestsPerMinute burst now"

section \<open>What every limiter keeps\<close>

text \<open>The bucket size is a whole number, and no bucket holds less than nothing or more than that.\<close>

definition limiter_ok :: "Limiter \<Rightarrow> bool" where
  "limiter_ok l \<longleftrightarrow> (\<exists>n. lm_burst l = of_int n \<and> 1 \<le> n \<and> n \<le> 2 ^ 53) \<and> 0 < lm_ratePerSecond l \<and>
     (\<forall>b \<in> snd ` set (lm_buckets l). 0 \<le> bk_tokens b \<and> bk_tokens b \<le> lm_burst l) \<and> distinct (map fst (lm_buckets l))"

lemma newLimiter_ok:
  assumes "1 \<le> rpm" "rpm \<le> 2 ^ 53" "1 \<le> burst" "burst \<le> 2 ^ 53"
  shows "limiter_ok (newLimiter rpm burst now)"
  using assms round64_sign [of "of_int rpm / 60"] float64.exact [of rpm] float64.exact [of burst]
  by (auto simp: limiter_ok_def newLimiter_def float_of_int_def)

lemma sweepLocked_sel [simp]:
  "lm_burst (sweepLocked l now) = lm_burst l" "lm_ratePerSecond (sweepLocked l now) = lm_ratePerSecond l"
  "lm_idleTTL (sweepLocked l now) = lm_idleTTL l" "lm_sweepEvery (sweepLocked l now) = lm_sweepEvery l"
  by (simp_all add: sweepLocked_def)

lemma set_sweepLocked: "set (lm_buckets (sweepLocked l now)) \<subseteq> set (lm_buckets l)"
  by (auto simp: sweepLocked_def)

lemma sweepLocked_ok: "limiter_ok l \<Longrightarrow> limiter_ok (sweepLocked l now)"
  using set_sweepLocked [of l now]
  by (auto simp: limiter_ok_def image_def) (auto simp: sweepLocked_def distinct_map_filterI)

lemma set_update_alist: "set (AList.update k v al) \<subseteq> insert (k, v) (set al)"
  by (induction al) auto

lemma update_bucket_ok:
  assumes "limiter_ok l" "0 \<le> bk_tokens b" "bk_tokens b \<le> lm_burst l"
  shows "limiter_ok (l\<lparr>lm_buckets := AList.update key b (lm_buckets l)\<rparr>)"
  using assms set_update_alist [of key b "lm_buckets l"] distinct_update [of "lm_buckets l" key b]
  by (force simp: limiter_ok_def)

lemma refill_bounds:
  assumes "limiter_ok l" "0 \<le> bk_tokens b" "bk_tokens b \<le> lm_burst l"
  shows "0 \<le> bk_tokens (refill l now b)" "bk_tokens (refill l now b) \<le> lm_burst l"
proof -
  have "0 \<le> round64 (bk_tokens b + round64 (e * lm_ratePerSecond l))" if "0 < e" for e
    using assms that by (intro float64.nonneg add_nonneg_nonneg) (auto simp: limiter_ok_def)
  then show "0 \<le> bk_tokens (refill l now b)" "bk_tokens (refill l now b) \<le> lm_burst l"
    using assms by (auto simp: refill_def Let_def limiter_ok_def min_def)
qed

lemma spend_bounds:
  assumes "limiter_ok l" "1 \<le> t" "t \<le> lm_burst l"
  shows "0 \<le> round64 (t - 1)" "round64 (t - 1) \<le> lm_burst l"
proof -
  obtain n where n: "lm_burst l = of_int n" "1 \<le> n" "n \<le> 2 ^ 53" using assms(1) by (auto simp: limiter_ok_def)
  show "0 \<le> round64 (t - 1)" using assms(2) by (intro float64.nonneg) simp
  show "round64 (t - 1) \<le> lm_burst l" using n assms(3) float64.below [of n "t - 1"] by simp
qed

lemma bucket_in: "map_of al k = Some b \<Longrightarrow> b \<in> snd ` set al"
  by (force dest: map_of_SomeD)

lemma Allow_ok:
  assumes "limiter_ok l" "Allow (Some l) key now = (a, r, Some l')"
  shows "limiter_ok l' \<and> lm_burst l' = lm_burst l \<and> lm_ratePerSecond l' = lm_ratePerSecond l"
proof -
  let ?l = "sweepLocked l now"
  have ok: "limiter_ok ?l" using assms(1) by (rule sweepLocked_ok)
  have pos: "\<not> (lm_ratePerSecond l \<le> 0 \<or> lm_burst l \<le> 0)" using assms(1) by (auto simp: limiter_ok_def)
  have one: "1 \<le> lm_burst l" using assms(1) by (auto simp: limiter_ok_def)
  show ?thesis
  proof (cases "map_of (lm_buckets ?l) key")
    case None
    then show ?thesis using assms(2) pos spend_bounds [OF ok _ order_refl] update_bucket_ok [OF ok] one
      by (auto simp: Allow_def Let_def)
  next
    case (Some b)
    then have b: "0 \<le> bk_tokens b" "bk_tokens b \<le> lm_burst ?l" using ok bucket_in [of "lm_buckets ?l"] by (auto simp: limiter_ok_def)
    note rb = refill_bounds [OF ok b, of now]
    show ?thesis
    proof (cases "bk_tokens (refill ?l now b) < 1")
      case True
      then show ?thesis using assms(2) pos Some rb update_bucket_ok [OF ok] by (auto simp: Allow_def Let_def)
    next
      case False
      then show ?thesis using assms(2) pos Some rb update_bucket_ok [OF ok] spend_bounds [OF ok _ rb(2)]
        by (auto simp: Allow_def Let_def)
    qed
  qed
qed

lemma Allow_total: "\<exists>a r l'. Allow (Some l) key t = (a, r, Some l')"
  by (auto simp: Allow_def Let_def split: option.splits)

section \<open>A burst at one instant\<close>

text \<open>The decisions of a sequence of requests from one client at the given instants.\<close>

fun allow_run :: "Limiter option \<Rightarrow> string \<Rightarrow> instant list \<Rightarrow> bool list" where
  "allow_run l key [] = []"
| "allow_run l key (t # ts) = (let (a, _, l') = Allow l key t in a # allow_run l' key ts)"

lemma Seconds_0 [simp]: "Seconds 0 = 0"
  by (simp add: Seconds_def float_of_int_def)

lemma time_Sub_same [simp]: "time_Sub t t = 0"
  by (simp add: time_Sub_def)

lemma refill_same: "bk_lastSeen b = t \<Longrightarrow> refill l t b = b"
  by (simp add: refill_def)

lemma map_of_filter_keep:
  "distinct (map fst al) \<Longrightarrow> map_of al k = Some v \<Longrightarrow> P (k, v) \<Longrightarrow> map_of (filter P al) k = Some v"
  by (induction al) (auto simp: image_iff split: if_splits)

lemma swept_keeps_fresh:
  assumes "limiter_ok l" "map_of (lm_buckets l) key = Some b" "bk_lastSeen b = t" "0 \<le> lm_idleTTL l"
  shows "map_of (lm_buckets (sweepLocked l t)) key = Some b"
  using assms by (auto simp: sweepLocked_def limiter_ok_def intro!: map_of_filter_keep)

lemma burst_bound_held:
  assumes "limiter_ok l" "map_of (lm_buckets l) key = Some b" "bk_lastSeen b = t" "0 \<le> lm_idleTTL l"
    "bk_tokens b \<le> of_nat m" "m \<le> 2 ^ 53"
  shows "length (filter (\<lambda>a. a) (allow_run (Some l) key (replicate n t))) \<le> m"
  using assms
proof (induction n arbitrary: l b m)
  case (Suc n)
  let ?l = "sweepLocked l t"
  have pos: "\<not> (lm_ratePerSecond l \<le> 0 \<or> lm_burst l \<le> 0)" using Suc.prems(1) by (auto simp: limiter_ok_def)
  have held: "map_of (lm_buckets ?l) key = Some b" using swept_keeps_fresh Suc.prems by blast
  have rf: "refill ?l t b = b" using refill_same Suc.prems(3) by blast
  obtain a r l' where run: "Allow (Some l) key t = (a, r, Some l')" using Allow_total by blast
  have ok: "limiter_ok l'" using Allow_ok [OF Suc.prems(1) run] by blast
  show ?case
  proof (cases "bk_tokens b < 1")
    case True
    then have l': "l' = ?l\<lparr>lm_buckets := AList.update key b (lm_buckets ?l)\<rparr>" "\<not> a"
      using run pos held rf by (auto simp: Allow_def Let_def)
    then have "map_of (lm_buckets l') key = Some b" "lm_idleTTL l' = lm_idleTTL l" by (simp_all add: update_conv)
    then have "length (filter (\<lambda>a. a) (allow_run (Some l') key (replicate n t))) \<le> m"
      using Suc.IH [OF ok _ Suc.prems(3)] Suc.prems by simp
    then show ?thesis using run l'(2) by simp
  next
    case False
    let ?b = "b\<lparr>bk_tokens := round64 (bk_tokens b - 1)\<rparr>"
    have l': "l' = ?l\<lparr>lm_buckets := AList.update key ?b (lm_buckets ?l)\<rparr>" "a"
      using run pos held rf False by (auto simp: Allow_def Let_def)
    have m: "0 < m" using False Suc.prems(5) by (cases m) auto
    have "bk_tokens b - 1 \<le> of_int (int (m - 1))" using Suc.prems(5) m by (simp add: of_nat_diff)
    then have "bk_tokens ?b \<le> of_nat (m - 1)" using float64.below [of "int (m - 1)"] Suc.prems(6) by simp
    then have "length (filter (\<lambda>a. a) (allow_run (Some l') key (replicate n t))) \<le> m - 1"
      using Suc.IH [OF ok, of ?b "m - 1"] Suc.prems l'(1) by (simp add: update_conv)
    then show ?thesis using run l'(2) m by simp
  qed
qed simp

lemma burst_bound:
  assumes ok: "limiter_ok l" and ttl: "0 \<le> lm_idleTTL l" and burst: "lm_burst l = of_nat m" "m \<le> 2 ^ 53"
  shows "length (filter (\<lambda>a. a) (allow_run (Some l) key (replicate n t))) \<le> m"
proof (cases n)
  case (Suc k)
  let ?l = "sweepLocked l t"
  have pos: "\<not> (lm_ratePerSecond l \<le> 0 \<or> lm_burst l \<le> 0)" and m: "0 < m" using ok burst by (auto simp: limiter_ok_def)
  obtain a r l' where run: "Allow (Some l) key t = (a, r, Some l')" using Allow_total by blast
  have ok': "limiter_ok l'" using Allow_ok [OF ok run] by blast
  define spent where "spent = (if a then m - 1 else m)"
  have "\<exists>b. map_of (lm_buckets l') key = Some b \<and> bk_lastSeen b = t \<and> bk_tokens b \<le> of_nat spent \<and> lm_idleTTL l' = lm_idleTTL l"
  proof (cases "map_of (lm_buckets ?l) key")
    case None
    then show ?thesis using run pos burst m float64.exact [of "int (m - 1)"]
      by (auto simp: Allow_def Let_def spent_def update_conv of_nat_diff)
  next
    case (Some b0)
    let ?b = "refill ?l t b0"
    have okl: "limiter_ok ?l" using ok by (rule sweepLocked_ok)
    have "0 \<le> bk_tokens b0" "bk_tokens b0 \<le> lm_burst ?l"
      using okl bucket_in [OF Some] by (auto simp: limiter_ok_def)
    then have le: "bk_tokens ?b \<le> of_nat m" using refill_bounds(2) [OF okl] burst(1) by simp
    have "round64 (bk_tokens ?b - 1) \<le> of_nat (m - 1)"
      using le m burst(2) float64.below [of "int (m - 1)" "bk_tokens ?b - 1"] by (simp add: of_nat_diff)
    moreover have "bk_lastSeen ?b = t" by (simp add: refill_def Let_def)
    ultimately show ?thesis using run pos Some le by (auto simp: Allow_def Let_def spent_def update_conv split: if_splits)
  qed
  then obtain b where b: "map_of (lm_buckets l') key = Some b" "bk_lastSeen b = t" "bk_tokens b \<le> of_nat spent"
    "lm_idleTTL l' = lm_idleTTL l" by blast
  have "spent \<le> 2 ^ 53" using burst(2) by (auto simp: spent_def)
  then have "length (filter (\<lambda>a. a) (allow_run (Some l') key (replicate k t))) \<le> spent"
    using burst_bound_held [OF ok' b(1,2) _ b(3)] ttl b(4) by simp
  then show ?thesis using run Suc m by (auto simp: spent_def)
qed simp

section \<open>Sweeping\<close>

text \<open>
  A bucket idle past the limit has refilled completely when ten minutes are enough to fill one,
  and forgetting it then changes no decision.
\<close>

lemma Seconds_ge:
  assumes "of_int k * Second \<le> d" "0 \<le> k" "d < 2 ^ 63"
  shows "of_int k \<le> Seconds d"
proof -
  have d: "0 \<le> d" using assms(1,2) by (simp add: Second_def)
  have sd: "d sdiv Second = d div Second" "d smod Second = d mod Second"
    using d by (cases "d = 0"; simp add: signed_divide_int_def signed_modulo_int_def Second_def minus_div_mult_eq_mod)+
  have k: "k \<le> d div Second" using assms(1) by (simp add: Second_def)
  have small: "d div Second \<le> 2 ^ 53" using assms(3) by (simp add: Second_def)
  have "0 \<le> round64 (float_of_int (d mod Second) / 1000000000)"
    using float64.exact [of "d mod Second"] by (intro float64.nonneg) (simp add: float_of_int_def Second_def float64.nonneg)
  moreover have "float_of_int (d div Second) = of_int (d div Second)"
    using small d float64.exact [of "d div Second"] by (simp add: float_of_int_def Second_def)
  ultimately have "of_int k \<le> float_of_int (d div Second) + round64 (float_of_int (d mod Second) / 1000000000)"
    using k by simp
  then show ?thesis using float64.above [of k] small k assms(2) by (simp add: Seconds_def sd Let_def)
qed

lemma refill_full:
  assumes "limiter_ok l" "lm_burst l \<le> 600 * lm_ratePerSecond l" "0 \<le> bk_tokens b"
    "10 * Minute < time_Sub now (bk_lastSeen b)"
  shows "bk_tokens (refill l now b) = lm_burst l"
proof -
  let ?e = "Seconds (time_Sub now (bk_lastSeen b))"
  obtain n where n: "lm_burst l = of_int n" "1 \<le> n" "n \<le> 2 ^ 53" using assms(1) by (auto simp: limiter_ok_def)
  have e: "600 \<le> ?e"
    using Seconds_ge [of 600 "time_Sub now (bk_lastSeen b)"] assms(4) time_Sub_range [of now "bk_lastSeen b"]
    by (simp add: duration_defs int64_range_def)
  have "600 * lm_ratePerSecond l \<le> ?e * lm_ratePerSecond l" using e assms(1) by (intro mult_right_mono) (auto simp: limiter_ok_def)
  then have "of_int n \<le> ?e * lm_ratePerSecond l" using n(1) assms(2) by linarith
  then have "of_int n \<le> round64 (?e * lm_ratePerSecond l)" using n by (intro float64.above) simp_all
  then have "of_int n \<le> round64 (bk_tokens b + round64 (?e * lm_ratePerSecond l))"
    using n assms(3) float64.above [of n] by simp
  then show ?thesis using e n by (simp add: refill_def Let_def min_def)
qed

lemma sweep_invisible:
  assumes "limiter_ok l" "lm_burst l \<le> 600 * lm_ratePerSecond l" "map_of (lm_buckets l) key = Some b"
    "10 * Minute < time_Sub now (bk_lastSeen b)"
  shows "\<not> bk_tokens (refill l now b) < 1 \<and>
    (refill l now b)\<lparr>bk_tokens := round64 (bk_tokens (refill l now b) - 1)\<rparr> = \<lparr>bk_tokens = round64 (lm_burst l - 1), bk_lastSeen = now\<rparr>"
proof -
  have "0 \<le> bk_tokens b" using assms(1) bucket_in [OF assms(3)] by (auto simp: limiter_ok_def)
  then have "bk_tokens (refill l now b) = lm_burst l" using refill_full assms by blast
  moreover have "1 \<le> lm_burst l" using assms(1) by (auto simp: limiter_ok_def)
  moreover have "bk_lastSeen (refill l now b) = now" by (simp add: refill_def Let_def)
  ultimately show ?thesis by simp
qed

section \<open>What sweeping forgives\<close>

lemma allow_run_append:
  "\<exists>l'. allow_run l key (ss @ ts) = allow_run l key ss @ allow_run l' key ts"
  by (induction ss arbitrary: l) (auto simp: Let_def split: prod.splits)

lemma serve_held:
  assumes "limiter_ok l" "map_of (lm_buckets l) key = Some b" "bk_lastSeen b = t" "0 \<le> lm_idleTTL l"
    "bk_tokens b = of_nat m" "m \<le> 2 ^ 53"
  shows "\<exists>l' b'. allow_run (Some l) key (replicate m t @ ts) = replicate m True @ allow_run (Some l') key ts \<and>
    limiter_ok l' \<and> lm_burst l' = lm_burst l \<and> map_of (lm_buckets l') key = Some b' \<and> bk_lastSeen b' = t \<and>
    lm_idleTTL l' = lm_idleTTL l \<and> lm_sweepEvery l' = lm_sweepEvery l \<and> (lm_lastSweep l' = lm_lastSweep l \<or> lm_lastSweep l' = t)"
  using assms
proof (induction m arbitrary: l b)
  case (Suc m)
  let ?l = "sweepLocked l t" and ?b = "b\<lparr>bk_tokens := round64 (bk_tokens b - 1)\<rparr>"
  let ?l' = "?l\<lparr>lm_buckets := AList.update key ?b (lm_buckets ?l)\<rparr>"
  have pos: "\<not> (lm_ratePerSecond l \<le> 0 \<or> lm_burst l \<le> 0)" using Suc.prems(1) by (auto simp: limiter_ok_def)
  have held: "map_of (lm_buckets ?l) key = Some b" using swept_keeps_fresh Suc.prems by blast
  have run: "Allow (Some l) key t = (True, 0, Some ?l')"
    using pos held refill_same [OF Suc.prems(3)] Suc.prems(5) by (simp add: Allow_def Let_def)
  have tk: "bk_tokens ?b = of_nat m" using Suc.prems(5,6) float64.exact [of "int m"] by simp
  have ls: "lm_lastSweep ?l' = lm_lastSweep l \<or> lm_lastSweep ?l' = t" by (simp add: sweepLocked_def)
  have prem: "map_of (lm_buckets ?l') key = Some ?b" "bk_lastSeen ?b = t" "0 \<le> lm_idleTTL ?l'" "m \<le> 2 ^ 53"
    using Suc.prems by (simp_all add: update_conv)
  note ok = Allow_ok [OF Suc.prems(1) run, THEN conjunct1]
  from Suc.IH [OF ok prem(1-3) tk prem(4)] show ?case using run ls by auto
qed auto

lemma serve_new:
  assumes "limiter_ok l" "lm_burst l = of_nat (Suc m)" "Suc m \<le> 2 ^ 53" "0 \<le> lm_idleTTL l"
    "map_of (lm_buckets (sweepLocked l t)) key = None"
  shows "\<exists>l' b'. allow_run (Some l) key (replicate (Suc m) t @ ts) = replicate (Suc m) True @ allow_run (Some l') key ts \<and>
    limiter_ok l' \<and> lm_burst l' = lm_burst l \<and> map_of (lm_buckets l') key = Some b' \<and> bk_lastSeen b' = t \<and>
    lm_idleTTL l' = lm_idleTTL l \<and> lm_sweepEvery l' = lm_sweepEvery l \<and> (lm_lastSweep l' = lm_lastSweep l \<or> lm_lastSweep l' = t)"
proof -
  let ?l = "sweepLocked l t" and ?b = "\<lparr>bk_tokens = round64 (lm_burst l - 1), bk_lastSeen = t\<rparr>"
  let ?l' = "?l\<lparr>lm_buckets := AList.update key ?b (lm_buckets ?l)\<rparr>"
  have pos: "\<not> (lm_ratePerSecond l \<le> 0 \<or> lm_burst l \<le> 0)" using assms(1) by (auto simp: limiter_ok_def)
  have run: "Allow (Some l) key t = (True, 0, Some ?l')" using pos assms(5) by (simp add: Allow_def Let_def)
  have tk: "bk_tokens ?b = of_nat m" using assms(2,3) float64.exact [of "int m"] by simp
  have ls: "lm_lastSweep ?l' = lm_lastSweep l \<or> lm_lastSweep ?l' = t" by (simp add: sweepLocked_def)
  have prem: "map_of (lm_buckets ?l') key = Some ?b" "bk_lastSeen ?b = t" "0 \<le> lm_idleTTL ?l'" "m \<le> 2 ^ 53"
    using assms by (simp_all add: update_conv)
  obtain l' b' where r: "allow_run (Some ?l') key (replicate m t @ ts) = replicate m True @ allow_run (Some l') key ts"
    "limiter_ok l'" "lm_burst l' = lm_burst ?l'" "map_of (lm_buckets l') key = Some b'" "bk_lastSeen b' = t"
    "lm_idleTTL l' = lm_idleTTL ?l'" "lm_sweepEvery l' = lm_sweepEvery ?l'"
    "lm_lastSweep l' = lm_lastSweep ?l' \<or> lm_lastSweep l' = t"
    using serve_held [OF Allow_ok [OF assms(1) run, THEN conjunct1] prem(1-3) tk prem(4), of ts] by blast
  then show ?thesis using run ls by (intro exI [of _ l'] exI [of _ b']) auto
qed

lemma map_of_filter_drop:
  "distinct (map fst al) \<Longrightarrow> map_of al k = Some v \<Longrightarrow> \<not> P (k, v) \<Longrightarrow> map_of (filter P al) k = None"
  by (induction al) (auto simp: map_of_eq_None_iff image_iff split: if_splits)

lemma swept_idle:
  assumes "limiter_ok l" "map_of (lm_buckets l) key = Some b" "lm_idleTTL l < time_Sub now (bk_lastSeen b)"
    "lm_sweepEvery l \<le> time_Sub now (lm_lastSweep l)"
  shows "map_of (lm_buckets (sweepLocked l now)) key = None"
  using assms by (auto simp: sweepLocked_def limiter_ok_def intro!: map_of_filter_drop)

text \<open>
  Whatever the configured rate, a client that stays away for ten minutes and a nanosecond is
  served a whole second burst.
\<close>

lemma double_burst:
  assumes "1 \<le> rpm" "rpm \<le> 2 ^ 53" "Suc m \<le> 2 ^ 53" "10 * Minute < t" "t < 2 ^ 63"
  shows "allow_run (Some (newLimiter rpm (int (Suc m)) 0)) key (replicate (Suc m) 0 @ replicate (Suc m) t) =
    replicate (2 * Suc m) True"
proof -
  let ?l = "newLimiter rpm (int (Suc m)) 0"
  have ok: "limiter_ok ?l" using assms(1-3) by (intro newLimiter_ok) auto
  have burst: "lm_burst ?l = of_nat (Suc m)" using assms(3) float64.exact [of "int (Suc m)"]
    by (simp add: newLimiter_def float_of_int_def)
  have sel: "lm_idleTTL ?l = 10 * Minute" "lm_sweepEvery ?l = Minute" "lm_lastSweep ?l = 0"
    by (simp_all add: newLimiter_def defaultIdleTTL_def defaultSweepEvery_def)
  have ttl: "0 \<le> lm_idleTTL ?l" unfolding sel by (simp add: duration_defs)
  have none: "map_of (lm_buckets (sweepLocked ?l 0)) key = None" by (simp add: sweepLocked_def newLimiter_def)
  obtain l' b' where 1: "allow_run (Some ?l) key (replicate (Suc m) 0 @ replicate (Suc m) t) =
      replicate (Suc m) True @ allow_run (Some l') key (replicate (Suc m) t)"
    and l': "limiter_ok l'" "lm_burst l' = lm_burst ?l" "map_of (lm_buckets l') key = Some b'" "bk_lastSeen b' = 0"
      "lm_idleTTL l' = lm_idleTTL ?l" "lm_sweepEvery l' = lm_sweepEvery ?l" "lm_lastSweep l' = 0"
    using serve_new [OF ok burst assms(3) ttl none, of "replicate (Suc m) t"] sel(3) by auto
  have ts: "time_Sub t 0 = t" using assms(4,5) by (intro time_Sub_exact [of t 0, simplified]) (simp add: int64_range_def duration_defs)
  have "map_of (lm_buckets (sweepLocked l' t)) key = None"
    using l' sel assms(4) ts by (intro swept_idle) (auto simp: duration_defs)
  from serve_new [OF l'(1) _ assms(3) _ this, of "[]"] have "allow_run (Some l') key (replicate (Suc m) t) = replicate (Suc m) True"
    using l'(2,5) burst ttl by auto
  then show ?thesis using 1 by (simp only: mult_2 replicate_add)
qed

section \<open>The hint to retry\<close>

text \<open>The number of seconds the middleware puts into \<open>Retry-After\<close>.\<close>

definition retry_seconds :: "duration \<Rightarrow> int" where
  "retry_seconds retryAfter = trunc_int (Seconds retryAfter)"

lemma dyadic_examples:
  "round64 1 = 1" "round64 30 = 30" "round64 (1/2) = 1/2" "round64 (1/4) = 1/4" "round64 (3/4) = 3/4" "round64 (3/2) = 3/2"
  "round64 1000000000 = 1000000000" "round64 1500000000 = 1500000000" "round64 500000000 = 500000000"
  using float64.exact [of 1] float64.exact [of 30] float64.exact [of 1000000000] float64.exact [of 1500000000]
    float64.exact [of 500000000] round64_dyadic [of 1 1] round64_dyadic [of 1 2] round64_dyadic [of 3 2] round64_dyadic [of 3 1]
  by simp_all

lemma Seconds_dyadic: "Seconds 500000000 = 1/2" "Seconds 1000000000 = 1" "Seconds 1500000000 = 3/2"
  by (simp_all add: Seconds_def float_of_int_def Second_def signed_divide_int_def signed_modulo_int_def dyadic_examples)

text \<open>
  Thirty requests a minute and a bucket of one: a client refused at half a second is told to
  come back after one second, and is refused again.
\<close>

definition one_bucket :: "rat \<Rightarrow> instant \<Rightarrow> Limiter" where
  "one_bucket tokens seen = \<lparr>lm_buckets = [(''a'', \<lparr>bk_tokens = tokens, bk_lastSeen = seen\<rparr>)],
     lm_ratePerSecond = 1/2, lm_burst = 1, lm_lastSweep = 0, lm_sweepEvery = Minute, lm_idleTTL = 10 * Minute\<rparr>"

lemma newLimiter_30_1: "newLimiter 30 1 0 = \<lparr>lm_buckets = [], lm_ratePerSecond = 1/2, lm_burst = 1, lm_lastSweep = 0,
    lm_sweepEvery = Minute, lm_idleTTL = 10 * Minute\<rparr>"
  by (simp add: newLimiter_def float_of_int_def dyadic_examples defaultSweepEvery_def defaultIdleTTL_def)

lemma sweep_one_bucket: "0 \<le> t \<Longrightarrow> t < Minute \<Longrightarrow> sweepLocked (one_bucket tokens seen) t = one_bucket tokens seen"
  by (auto simp: sweepLocked_def one_bucket_def time_Sub_def duration_defs)

lemma refill_one_bucket:
  "refill (one_bucket 0 0) 500000000 \<lparr>bk_tokens = 0, bk_lastSeen = 0\<rparr> = \<lparr>bk_tokens = 1/4, bk_lastSeen = 500000000\<rparr>"
  "refill (one_bucket (1/4) 500000000) 1500000000 \<lparr>bk_tokens = 1/4, bk_lastSeen = 500000000\<rparr> = \<lparr>bk_tokens = 3/4, bk_lastSeen = 1500000000\<rparr>"
  by (simp_all add: refill_def one_bucket_def time_Sub_def Seconds_dyadic dyadic_examples Let_def)

lemma early_retry:
  "Allow (Some (newLimiter 30 1 0)) ''a'' 0 = (True, 0, Some (one_bucket 0 0))"
  "Allow (Some (one_bucket 0 0)) ''a'' 500000000 = (False, 1500000000, Some (one_bucket (1/4) 500000000))"
  "retry_seconds 1500000000 = 1"
  "Allow (Some (one_bucket (1/4) 500000000)) ''a'' 1500000000 = (False, Second, Some (one_bucket (3/4) 1500000000))"
proof -
  have b: "map_of (lm_buckets (one_bucket x s)) ''a'' = Some \<lparr>bk_tokens = x, bk_lastSeen = s\<rparr>"
    "lm_burst (one_bucket x s) = 1" "lm_ratePerSecond (one_bucket x s) = 1/2"
    "(one_bucket x s)\<lparr>lm_buckets := AList.update ''a'' \<lparr>bk_tokens = y, bk_lastSeen = t\<rparr> (lm_buckets (one_bucket x s))\<rparr> = one_bucket y t" for x s y t
    by (simp_all add: one_bucket_def)
  show "Allow (Some (newLimiter 30 1 0)) ''a'' 0 = (True, 0, Some (one_bucket 0 0))"
    by (simp add: newLimiter_30_1 Allow_def sweepLocked_def Let_def one_bucket_def time_Sub_def duration_defs)
  show "Allow (Some (one_bucket 0 0)) ''a'' 500000000 = (False, 1500000000, Some (one_bucket (1/4) 500000000))"
    by (simp add: b sweep_one_bucket Allow_def Let_def refill_one_bucket float_of_int_def dyadic_examples trunc_int_def duration_defs)
  show "retry_seconds 1500000000 = 1" by (simp add: retry_seconds_def trunc_int_def Seconds_dyadic floor_eq_iff)
  show "Allow (Some (one_bucket (1/4) 500000000)) ''a'' 1500000000 = (False, Second, Some (one_bucket (3/4) 1500000000))"
    by (simp add: b sweep_one_bucket Allow_def Let_def refill_one_bucket float_of_int_def dyadic_examples trunc_int_def duration_defs)
qed

end
