(* ===== verification/Api_Types.thy ===== *)
theory Api_Types
  imports Users Sessions Rate_Limit
begin

text \<open>
  The wire types of \<open>packages/api\<close>: error codes with their statuses, the error envelope, the
  bodies of requests and responses. JSON text is not modelled; a body is the value it encodes.
\<close>

section \<open>Errors\<close>

type_synonym ErrorCode = string

definition CodeBadRequest :: ErrorCode where "CodeBadRequest = ''bad_request''"
definition CodeUnauthorized :: ErrorCode where "CodeUnauthorized = ''unauthorized''"
definition CodeForbidden :: ErrorCode where "CodeForbidden = ''forbidden''"
definition CodeNotFound :: ErrorCode where "CodeNotFound = ''not_found''"
definition CodeConflict :: ErrorCode where "CodeConflict = ''conflict''"
definition CodePayloadTooLarge :: ErrorCode where "CodePayloadTooLarge = ''payload_too_large''"
definition CodeRateLimited :: ErrorCode where "CodeRateLimited = ''rate_limited''"
definition CodeUnsupportedProtocol :: ErrorCode where "CodeUnsupportedProtocol = ''unsupported_protocol_version''"
definition CodeNotImplemented :: ErrorCode where "CodeNotImplemented = ''not_implemented''"
definition CodeUnavailable :: ErrorCode where "CodeUnavailable = ''unavailable''"
definition CodeInternal :: ErrorCode where "CodeInternal = ''internal''"

lemmas code_defs = CodeBadRequest_def CodeUnauthorized_def CodeForbidden_def CodeNotFound_def CodeConflict_def
  CodePayloadTooLarge_def CodeRateLimited_def CodeUnsupportedProtocol_def CodeNotImplemented_def CodeUnavailable_def
  CodeInternal_def

definition HTTPStatus :: "ErrorCode \<Rightarrow> nat" where
  "HTTPStatus c = (
     if c = CodeBadRequest then 400
     else if c = CodeUnauthorized then 401
     else if c = CodeForbidden then 403
     else if c = CodeNotFound then 404
     else if c = CodeConflict then 409
     else if c = CodePayloadTooLarge then 413
     else if c = CodeRateLimited then 429
     else if c = CodeUnsupportedProtocol then 426
     else if c = CodeNotImplemented then 501
     else if c = CodeUnavailable then 503
     else if c = CodeInternal then 500
     else 500)"

definition Retryable :: "ErrorCode \<Rightarrow> bool" where
  "Retryable c \<longleftrightarrow> c = CodeRateLimited \<or> c = CodeUnavailable \<or> c = CodeInternal"

definition KnownErrorCodes :: "ErrorCode list" where
  "KnownErrorCodes = [CodeBadRequest, CodeUnauthorized, CodeForbidden, CodeNotFound, CodeConflict, CodePayloadTooLarge,
     CodeRateLimited, CodeUnsupportedProtocol, CodeNotImplemented, CodeUnavailable, CodeInternal]"

record api_Error =
  er_Code :: ErrorCode
  er_Message :: string
  er_Details :: "(string \<times> string) list"
  er_RequestID :: string

record ErrorResponse =
  rp_Error :: api_Error

definition NewErrorResponse :: "ErrorCode \<Rightarrow> string \<Rightarrow> ErrorResponse" where
  "NewErrorResponse code message = \<lparr>rp_Error = \<lparr>er_Code = code, er_Message = message, er_Details = [], er_RequestID = []\<rparr>\<rparr>"

definition WithDetail :: "string \<Rightarrow> string \<Rightarrow> ErrorResponse \<Rightarrow> ErrorResponse" where
  "WithDetail key value r = r\<lparr>rp_Error := (rp_Error r)\<lparr>er_Details := AList.update key value (er_Details (rp_Error r))\<rparr>\<rparr>"

definition WithRequestID :: "string \<Rightarrow> ErrorResponse \<Rightarrow> ErrorResponse" where
  "WithRequestID ident r = r\<lparr>rp_Error := (rp_Error r)\<lparr>er_RequestID := ident\<rparr>\<rparr>"

section \<open>Health and negotiation\<close>

type_synonym HealthStatus = string

definition StatusOK :: HealthStatus where "StatusOK = ''ok''"
definition StatusDegraded :: HealthStatus where "StatusDegraded = ''degraded''"
definition StatusDown :: HealthStatus where "StatusDown = ''down''"

definition health_rank :: "HealthStatus \<Rightarrow> nat" where
  "health_rank v = (if v = StatusOK then 0 else if v = StatusDegraded then 1 else if v = StatusDown then 2 else 3)"

definition Worse :: "HealthStatus \<Rightarrow> HealthStatus \<Rightarrow> HealthStatus" where
  "Worse s other = (if health_rank other > health_rank s then other else s)"

record Check =
  ck_Name :: string
  ck_Status :: HealthStatus
  ck_Detail :: string
  ck_DurationMS :: int

record HealthResponse =
  hr_Status :: HealthStatus
  hr_Version :: string
  hr_UptimeSeconds :: int
  hr_Checks :: "Check list"

record VersionResponse =
  vr_Version :: string
  vr_Commit :: string
  vr_BuildDate :: string
  vr_ProtocolVersion :: int
  vr_MinProtocolVersion :: int
  vr_Capabilities :: "string list"

record NegotiateRequest =
  nr_ProtocolVersion :: int
  nr_MinProtocolVersion :: int
  nr_Capabilities :: "string list"
  nr_ClientVersion :: string

record NegotiateResponse =
  np_ProtocolVersion :: int
  np_Capabilities :: "string list"
  np_ServerVersion :: string

section \<open>Accounts and sessions\<close>

record LoginRequest =
  lr_Email :: string
  lr_Password :: string

record BootstrapRequest =
  br_Email :: string
  br_Password :: string
  br_DisplayName :: string

record api_User =
  au_ID :: string
  au_Email :: string
  au_DisplayName :: string
  au_Role :: string
  au_Provider :: string
  au_CreatedAt :: instant
  au_LastLoginAt :: "instant option"

text \<open>The zero time of a response without a session is \<open>None\<close>.\<close>

record api_Session =
  as_User :: api_User
  as_CSRFToken :: string
  as_ExpiresAt :: "instant option"

record AuthStatus =
  ast_BootstrapRequired :: bool
  ast_Providers :: "string list"

section \<open>Devices and setup keys\<close>

record api_Device =
  ad_ID :: string
  ad_UserID :: string
  ad_Name :: string
  ad_PublicKey :: string
  ad_OS :: string
  ad_Hostname :: string
  ad_IPv4 :: string
  ad_IPv6 :: string
  ad_EnrolledWith :: string
  ad_CreatedAt :: instant
  ad_LastSeenAt :: "instant option"
  ad_RevokedAt :: "instant option"

record RegisterDeviceRequest =
  rd_Name :: string
  rd_PublicKey :: string
  rd_OS :: string
  rd_Hostname :: string

record EnrollDeviceRequest =
  ed_SetupKey :: string
  ed_Name :: string
  ed_PublicKey :: string
  ed_OS :: string
  ed_Hostname :: string

record EnrollDeviceResponse =
  ep_Device :: api_Device
  ep_DeviceToken :: string
  ep_InstanceID :: string

record DeviceDNSConfig =
  dns_Enabled :: bool
  dns_Servers :: "string list"

record NetworkPeer =
  pe_PublicKey :: string
  pe_Addresses :: "string list"

record DeviceNetworkConfig =
  nc_InstanceID :: string
  nc_DeviceID :: string
  nc_Addresses :: "string list"
  nc_DNS :: DeviceDNSConfig
  nc_Peers :: "NetworkPeer list"

record api_SetupKey =
  ak_ID :: string
  ak_DisplayHint :: string
  ak_Description :: string
  ak_Tags :: "string list"
  ak_CreatedBy :: string
  ak_CreatedAt :: instant
  ak_ExpiresAt :: "instant option"
  ak_MaxUses :: int
  ak_Uses :: int
  ak_RevokedAt :: "instant option"
  ak_Usable :: bool

record CreateSetupKeyRequest =
  cr_Description :: string
  cr_Tags :: "string list"
  cr_ExpiresInHours :: int
  cr_NeverExpires :: bool
  cr_MaxUses :: int

record CreateSetupKeyResponse =
  cp_Key :: api_SetupKey
  cp_SetupKey :: string

text \<open>Where a client puts the tokens.\<close>

definition CSRFHeader :: string where "CSRFHeader = ''X-CSRF-Token''"
definition SessionCookie :: string where "SessionCookie = ''headnet_session''"
definition CSRFCookie :: string where "CSRFCookie = ''headnet_csrf''"

section \<open>Bodies\<close>

datatype payload = NoBody | PError ErrorResponse | PHealth HealthResponse | PVersion VersionResponse
  | PNegotiate NegotiateResponse | PSession api_Session | PAuthStatus AuthStatus | PDevice api_Device
  | PDeviceList "api_Device list" | PEnroll EnrollDeviceResponse | PNetwork DeviceNetworkConfig
  | PSetupKey CreateSetupKeyResponse | PSetupKeyList "api_SetupKey list"

section \<open>The error contract\<close>

lemma known_statuses: "map HTTPStatus KnownErrorCodes = [400, 401, 403, 404, 409, 413, 429, 426, 501, 503, 500]"
  by (simp add: KnownErrorCodes_def HTTPStatus_def code_defs)

lemma HTTPStatus_error: "400 \<le> HTTPStatus c"
  by (simp add: HTTPStatus_def)

lemma HTTPStatus_inj: "inj_on HTTPStatus (set KnownErrorCodes)"
proof -
  have "distinct (map HTTPStatus KnownErrorCodes)" by (simp add: known_statuses)
  then show ?thesis by (simp add: distinct_map)
qed

text \<open>\<open>Worse\<close> is the maximum of the severities, so folding it keeps the worst.\<close>

lemma rank_Worse: "health_rank (Worse s t) = max (health_rank s) (health_rank t)"
  by (simp add: Worse_def)

lemma Worse_fold: "health_rank (foldl Worse s ts) = Max (insert (health_rank s) (health_rank ` set ts))"
proof (induction ts arbitrary: s)
  case (Cons t ts)
  show ?case unfolding foldl_Cons Cons.IH rank_Worse
    by (cases "ts = []") (simp_all add: max.commute max.left_commute Max_insert)
qed simp

end
