(* ===== verification/Protocol.thy ===== *)
theory Protocol
  imports Api_Types
begin

text \<open>
  Version and capability negotiation (\<open>packages/protocol/protocol.go\<close>). A capability set is a
  finite set of names.
\<close>

definition protocol_Version :: int where "protocol_Version = 1"
definition MinVersion :: int where "MinVersion = 1"

type_synonym Capability = string

definition CapabilityProtocolNegotiation :: Capability where
  "CapabilityProtocolNegotiation = ''protocol.negotiation''"

definition Supported :: "Capability list" where
  "Supported = [CapabilityProtocolNegotiation]"

definition NewSet :: "Capability list \<Rightarrow> Capability set" where
  "NewSet caps = set (filter (\<lambda>c. c \<noteq> []) caps)"

definition Has :: "Capability set \<Rightarrow> Capability \<Rightarrow> bool" where
  "Has s c \<longleftrightarrow> c \<in> s"

definition Sorted :: "Capability set \<Rightarrow> Capability list" where
  "Sorted s = sorted_list_of_set s"

definition Intersect :: "Capability set \<Rightarrow> Capability set \<Rightarrow> Capability set" where
  "Intersect s other = (let (small, large) = (if card other < card s then (other, s) else (s, other)) in
     Set.filter (Has large) small)"

record Range =
  rg_Version :: int
  rg_Min :: int

definition Local :: Range where
  "Local = \<lparr>rg_Version = protocol_Version, rg_Min = MinVersion\<rparr>"

definition Range_Valid :: "Range \<Rightarrow> bool" where
  "Range_Valid r \<longleftrightarrow> rg_Min r \<ge> 1 \<and> rg_Version r \<ge> rg_Min r"

datatype negotiate_error = InvalidLocal Range | InvalidPeer Range | IncompatibleError Range Range bool

definition range_text :: "Range \<Rightarrow> string" where
  "range_text r = Itoa_int (rg_Min r) @ ''..'' @ Itoa_int (rg_Version r)"

fun negotiate_Error :: "negotiate_error \<Rightarrow> string" where
  "negotiate_Error (InvalidLocal r) = ''invalid local protocol range '' @ range_text r"
| "negotiate_Error (InvalidPeer r) = ''invalid peer protocol range '' @ range_text r"
| "negotiate_Error (IncompatibleError l r remoteTooOld) =
     (let (side, action) = (if remoteTooOld then (''the peer is too old'', ''upgrade the peer'')
        else (''this build is too old'', ''upgrade this component'')) in
      ''incompatible protocol version: '' @ side @ '' (local supports '' @ range_text l @ '', peer supports '' @
      range_text r @ ''); '' @ action)"

definition Negotiate ::
  "Range \<Rightarrow> Range \<Rightarrow> Capability set \<Rightarrow> Capability set \<Rightarrow> negotiate_error + int \<times> Capability set" where
  "Negotiate loc remote localCaps remoteCaps = (
     if \<not> Range_Valid loc then Inl (InvalidLocal loc)
     else if \<not> Range_Valid remote then Inl (InvalidPeer remote)
     else let high = min (rg_Version loc) (rg_Version remote); low = max (rg_Min loc) (rg_Min remote) in
       if high < low then Inl (IncompatibleError loc remote (rg_Version remote < rg_Min loc))
       else Inr (high, Intersect localCaps remoteCaps))"

definition ParseCapabilities :: "(nat \<Rightarrow> nat) \<Rightarrow> string list \<Rightarrow> Capability set" where
  "ParseCapabilities lc values = set (filter (\<lambda>c. c \<noteq> []) (map (\<lambda>v. ToLower lc (TrimSpace v)) values))"

definition Strings :: "Capability set \<Rightarrow> string list" where
  "Strings s = Sorted s"

section \<open>What is agreed\<close>

lemma Intersect_eq: "Intersect s t = s \<inter> t"
  by (auto simp: Intersect_def Has_def Let_def)

definition speaks :: "Range \<Rightarrow> int \<Rightarrow> bool" where
  "speaks r v \<longleftrightarrow> rg_Min r \<le> v \<and> v \<le> rg_Version r"

lemma common_version:
  assumes "Range_Valid l" "Range_Valid r"
  shows "(\<exists>v. speaks l v \<and> speaks r v) \<longleftrightarrow> max (rg_Min l) (rg_Min r) \<le> min (rg_Version l) (rg_Version r)"
proof
  assume "max (rg_Min l) (rg_Min r) \<le> min (rg_Version l) (rg_Version r)"
  then show "\<exists>v. speaks l v \<and> speaks r v"
    by (intro exI [of _ "min (rg_Version l) (rg_Version r)"]) (auto simp: speaks_def)
qed (auto simp: speaks_def)

lemma Negotiate_Inr:
  "Negotiate l r lc rc = Inr (v, caps) \<longleftrightarrow> Range_Valid l \<and> Range_Valid r \<and> speaks l v \<and> speaks r v \<and>
     (\<forall>u. speaks l u \<and> speaks r u \<longrightarrow> u \<le> v) \<and> caps = lc \<inter> rc" (is "?L = ?R")
proof
  assume ?L
  then show ?R by (auto simp: Negotiate_def Let_def speaks_def Intersect_eq split: if_splits)
next
  assume r: ?R
  let ?h = "min (rg_Version l) (rg_Version r)"
  have le: "max (rg_Min l) (rg_Min r) \<le> ?h" using r common_version by blast
  then have "speaks l ?h \<and> speaks r ?h" by (auto simp: speaks_def)
  then have "?h \<le> v" using r by blast
  moreover have "v \<le> ?h" using r by (auto simp: speaks_def)
  ultimately show ?L using r le by (auto simp: Negotiate_def Let_def Intersect_eq)
qed

lemma Negotiate_Incompatible:
  "Negotiate l r lc rc = Inl (IncompatibleError l r old) \<Longrightarrow> \<not> (\<exists>v. speaks l v \<and> speaks r v) \<and>
     (if old then \<forall>v. speaks r v \<longrightarrow> (\<forall>u. speaks l u \<longrightarrow> v < u) else \<forall>v. speaks r v \<longrightarrow> (\<forall>u. speaks l u \<longrightarrow> u < v))"
  by (auto simp: Negotiate_def Let_def speaks_def Range_Valid_def split: if_splits)

lemma Negotiate_total:
  assumes "Range_Valid l" "Range_Valid r"
  shows "(\<exists>v caps. Negotiate l r lc rc = Inr (v, caps)) \<longleftrightarrow> (\<exists>v. speaks l v \<and> speaks r v)"
  unfolding common_version [OF assms] using assms by (auto simp: Negotiate_def Let_def)

lemma Strings_sorted: "finite s \<Longrightarrow> sorted (Strings s) \<and> distinct (Strings s) \<and> set (Strings s) = s"
  by (simp add: Strings_def Sorted_def)

end
