(* ===== verification/Build_Version.thy ===== *)
theory Build_Version
  imports Go_Effects
begin

text \<open>
  The identity of a build (\<open>internal/version/version.go\<close>): what the linker stamped, then what
  the toolchain recorded, then a fixed text. The stamped values, the toolchain's name and
  \<open>debug.ReadBuildInfo\<close> are arguments.
\<close>

record Info =
  in_Version :: string
  in_Commit :: string
  in_BuildDate :: string
  in_GoVersion :: string
  in_Platform :: string

definition DevVersion :: string where "DevVersion = ''0.0.0-dev''"

definition Info_String :: "Info \<Rightarrow> string" where
  "Info_String i = in_Version i @ '' (commit '' @ in_Commit i @ '', built '' @ in_BuildDate i @ '', '' @
     in_GoVersion i @ '' '' @ in_Platform i @ '')''"

text \<open>The fields of \<open>debug.BuildInfo\<close> the code reads.\<close>

record BuildInfo =
  bi_MainVersion :: string
  bi_Settings :: "(string \<times> string) list"

definition last_setting :: "string \<Rightarrow> (string \<times> string) list \<Rightarrow> string" where
  "last_setting key settings = foldl (\<lambda>acc (k, v). if k = key then v else acc) [] settings"

definition resolve :: "Info \<Rightarrow> BuildInfo option \<Rightarrow> Info" where
  "resolve stamped readBuildInfo = (
     let version1 = (case readBuildInfo of None \<Rightarrow> in_Version stamped
           | Some bi \<Rightarrow> if in_Version stamped = [] \<and> bi_MainVersion bi \<noteq> [] \<and> bi_MainVersion bi \<noteq> ''(devel)''
               then bi_MainVersion bi else in_Version stamped);
         settings = (case readBuildInfo of None \<Rightarrow> [] | Some bi \<Rightarrow> bi_Settings bi);
         vcsRevision = last_setting ''vcs.revision'' settings;
         vcsTime = last_setting ''vcs.time'' settings;
         vcsDirty = (last_setting ''vcs.modified'' settings = ''true'');
         commit1 = (if in_Commit stamped = [] then (if vcsRevision \<noteq> [] \<and> vcsDirty then vcsRevision @ ''-dirty'' else vcsRevision)
           else in_Commit stamped);
         date1 = (if in_BuildDate stamped = [] then vcsTime else in_BuildDate stamped) in
     stamped\<lparr>in_Version := (if version1 = [] then DevVersion else version1),
       in_Commit := (if commit1 = [] then ''unknown'' else commit1),
       in_BuildDate := (if date1 = [] then ''unknown'' else date1)\<rparr>)"

lemma resolve_complete: "in_Version (resolve i b) \<noteq> [] \<and> in_Commit (resolve i b) \<noteq> [] \<and> in_BuildDate (resolve i b) \<noteq> []"
  by (simp add: resolve_def Let_def DevVersion_def)

lemma resolve_stamped:
  "in_Version i \<noteq> [] \<Longrightarrow> in_Commit i \<noteq> [] \<Longrightarrow> in_BuildDate i \<noteq> [] \<Longrightarrow> resolve i b = i"
  by (cases b) (simp_all add: resolve_def Let_def)

text \<open>\<open>Get\<close>: \<open>once\<close> and \<open>cached\<close> together are the result of the first call, if there was one.\<close>

definition Get :: "Info \<Rightarrow> BuildInfo option \<Rightarrow> Info option \<Rightarrow> Info \<times> Info option" where
  "Get stamped readBuildInfo cached = (case cached of Some info \<Rightarrow> (info, Some info)
     | None \<Rightarrow> (let info = resolve stamped readBuildInfo in (info, Some info)))"

lemma Get_stable: "Get i b c = (info, c') \<Longrightarrow> Get i b' c' = (info, c')"
  by (auto simp: Get_def Let_def split: option.splits)

end
