(* ===== verification/Http_Layer.thy ===== *)
theory Http_Layer
  imports Protocol Build_Version
begin

text \<open>
  The HTTP building blocks of \<open>internal/httpapi\<close>: responses, strict decoding of bodies, and the
  middleware. A handler runs on the state of the process, the database and the limiters
  together with the headers and cookies already set on the response, and returns a status and a
  body. \<open>encoding/json\<close> appears as decoders from the text of a body; encoding a reply fails only for a time
  outside the years 0 to 9999, which no clock here shows, so the branches of \<open>WriteJSON\<close> and
  \<open>writeErrorResponse\<close> for that are left out. Logging is modelled apart (\<open>Request_Log\<close>). \<open>rq_now\<close> is what
  the server's clock says while a request is handled, \<open>rq_done\<close> what the wall clock says at its end. The path of a request is the list of its segments.
\<close>

section \<open>Requests and responses\<close>

record cookie =
  co_Name :: string
  co_Value :: string
  co_Path :: string
  co_HttpOnly :: bool
  co_Secure :: bool
  co_SameSite :: string
  co_MaxAge :: int

record request =
  rq_Method :: string
  rq_Path :: "string list"
  rq_PathID :: string
  rq_RemoteAddr :: string
  rq_Headers :: "(string \<times> string) list"
  rq_Cookies :: "(string \<times> string) list"
  rq_Body :: string
  rq_ContentLength :: int
  rq_TransferEncoding :: "string list"
  rq_now :: instant
  rq_done :: instant
  rq_bodyLimit :: "int option"
  rq_requestID :: string
  rq_session :: "Session option"
  rq_user :: "User option"

record state =
  sv_db :: db
  sv_limiter :: "Limiter option"
  sv_authLimiter :: "Limiter option"
  sv_headers :: "(string \<times> string) list"
  sv_cookies :: "cookie list"

type_synonym reply = "nat \<times> payload"
type_synonym handler = "request \<Rightarrow> (state, reply) comp"
type_synonym Middleware = "handler \<Rightarrow> handler"

text \<open>\<open>r.Header.Get\<close>, \<open>r.Header.Values\<close>, \<open>r.Cookie\<close> and \<open>r.UserAgent\<close>.\<close>

definition Header_Values :: "request \<Rightarrow> string \<Rightarrow> string list" where
  "Header_Values r name = map snd (filter (\<lambda>h. fst h = name) (rq_Headers r))"

definition Header_Get :: "request \<Rightarrow> string \<Rightarrow> string" where
  "Header_Get r name = (case Header_Values r name of [] \<Rightarrow> [] | v # _ \<Rightarrow> v)"

definition Cookie :: "request \<Rightarrow> string \<Rightarrow> string option" where
  "Cookie r name = map_of (rq_Cookies r) name"

definition setHeader :: "string \<Rightarrow> string \<Rightarrow> (state, unit) comp" where
  "setHeader name value w = (Ret (), w\<lparr>w_db := (w_db w)\<lparr>sv_headers := AList.update name value (sv_headers (w_db w))\<rparr>\<rparr>)"

definition SetCookie :: "cookie \<Rightarrow> (state, unit) comp" where
  "SetCookie c w = (Ret (), w\<lparr>w_db := (w_db w)\<lparr>sv_cookies := sv_cookies (w_db w) @ [c]\<rparr>\<rparr>)"

text \<open>An operation of a store, run by a handler.\<close>

definition db_world :: "state world \<Rightarrow> db world" where
  "db_world w = \<lparr>w_db = sv_db (w_db w), w_faults = w_faults w, w_entropy = w_entropy w\<rparr>"

definition with_db_world :: "state world \<Rightarrow> db world \<Rightarrow> state world" where
  "with_db_world w v = \<lparr>w_db = (w_db w)\<lparr>sv_db := w_db v\<rparr>, w_faults = w_faults v, w_entropy = w_entropy v\<rparr>"

definition on_db :: "(db, 'a) comp \<Rightarrow> (state, 'a) comp" where
  "on_db m w = (case m (db_world w) of (r, v) \<Rightarrow> (r, with_db_world w v))"

section \<open>Responses\<close>

definition contentJSON :: string where "contentJSON = ''application/json; charset=utf-8''"

definition WriteJSON :: "nat \<Rightarrow> payload \<Rightarrow> (state, reply) comp" where
  "WriteJSON status body = bindM (setHeader ''Content-Type'' contentJSON) (\<lambda>_. returnM (status, body))"

definition writeErrorResponse :: "request \<Rightarrow> ErrorResponse \<Rightarrow> (state, reply) comp" where
  "writeErrorResponse r resp0 = (let resp = WithRequestID (rq_requestID r) resp0 in
     bindM (setHeader ''Content-Type'' contentJSON) (\<lambda>_. returnM (HTTPStatus (er_Code (rp_Error resp)), PError resp)))"

definition WriteError :: "request \<Rightarrow> ErrorCode \<Rightarrow> string \<Rightarrow> (state, reply) comp" where
  "WriteError r code message = writeErrorResponse r (NewErrorResponse code message)"

definition WriteErrorDetail :: "request \<Rightarrow> ErrorCode \<Rightarrow> string \<Rightarrow> string \<Rightarrow> string \<Rightarrow> (state, reply) comp" where
  "WriteErrorDetail r code message key value = writeErrorResponse r (WithDetail key value (NewErrorResponse code message))"

definition WriteHeader :: "nat \<Rightarrow> (state, reply) comp" where
  "WriteHeader status = returnM (status, NoBody)"

definition NotImplemented :: "request \<Rightarrow> string \<Rightarrow> string \<Rightarrow> (state, reply) comp" where
  "NotImplemented r feature phase = writeErrorResponse r
     (WithDetail ''roadmap'' ''https://github.com/CauaMora1s/Headnet/blob/main/docs/ROADMAP.md''
     (WithDetail ''roadmap_phase'' phase (NewErrorResponse CodeNotImplemented (feature @ '' is not implemented yet''))))"

definition NotFoundHandler :: handler where
  "NotFoundHandler r = WriteError r CodeNotFound ''no such endpoint''"

definition MethodNotAllowed :: "request \<Rightarrow> string list \<Rightarrow> (state, reply) comp" where
  "MethodNotAllowed r allowed = bindM (setHeader ''Allow'' (join_comma allowed)) (\<lambda>_.
     WriteErrorDetail r CodeBadRequest ''method not allowed for this endpoint'' ''allowed'' (join_comma allowed))"

section \<open>Bodies\<close>

text \<open>
  What decoding a body comes to: a value and whether nothing follows it, or one of the failures
  the code tells apart.
\<close>

datatype 'a json_outcome = Decoded 'a bool | MaxBytesError int | UnexpectedEnd | InvalidJSON string

type_synonym 'a decoder = "int option \<Rightarrow> string \<Rightarrow> 'a json_outcome"

text \<open>\<open>strings.EqualFold\<close> against an ASCII text: two other runes fold to ASCII letters.\<close>

definition fold_rune :: "nat \<Rightarrow> nat" where
  "fold_rune r = (if 65 \<le> r \<and> r \<le> 90 then r + 32 else if r = 0x17F then 115 else if r = 0x212A then 107 else r)"

definition EqualFold :: "string \<Rightarrow> string \<Rightarrow> bool" where
  "EqualFold s t \<longleftrightarrow> map fold_rune (runes s) = map fold_rune (runes t)"

definition DecodeJSON :: "'a decoder \<Rightarrow> request \<Rightarrow> (state, reply) comp + 'a" where
  "DecodeJSON decode r = (
     let ct = Header_Get r ''Content-Type''; mediaType = TrimSpace (takeWhile (\<lambda>c. c \<noteq> CHR '';'') ct) in
     if ct \<noteq> [] \<and> \<not> EqualFold mediaType ''application/json''
     then Inl (WriteErrorDetail r CodeBadRequest ''request body must be JSON'' ''content_type'' mediaType)
     else case decode (rq_bodyLimit r) (rq_Body r) of
       MaxBytesError limit \<Rightarrow> Inl (WriteError r CodePayloadTooLarge (''request body must not exceed '' @ Itoa_int limit @ '' bytes''))
     | UnexpectedEnd \<Rightarrow> Inl (WriteError r CodeBadRequest ''request body must not be empty'')
     | InvalidJSON msg \<Rightarrow> Inl (WriteError r CodeBadRequest (''request body is not valid JSON: '' @ msg))
     | Decoded v alone \<Rightarrow> if \<not> alone
         then Inl (WriteError r CodeBadRequest ''request body must contain exactly one JSON object'')
         else Inr v)"

section \<open>Middleware\<close>

definition Chain :: "handler \<Rightarrow> Middleware list \<Rightarrow> handler" where
  "Chain h middlewares = foldr (\<lambda>m h. m h) middlewares h"

definition RequestIDHeader :: string where "RequestIDHeader = ''X-Request-Id''"

definition RequestID :: Middleware where
  "RequestID next r = bindM (NewID ''req'') (\<lambda>ident. bindM (setHeader RequestIDHeader ident) (\<lambda>_.
     next (r\<lparr>rq_requestID := ident\<rparr>)))"

definition ErrAbortHandler :: string where "ErrAbortHandler = ''net/http: abort Handler''"

definition Recoverer :: Middleware where
  "Recoverer next r w = (case next r w of
     (Panic p, w') \<Rightarrow> if p = ErrAbortHandler then (Panic p, w') else WriteError r CodeInternal ''internal error'' w'
   | other \<Rightarrow> other)"

definition log_level :: "nat \<Rightarrow> Level" where
  "log_level status = (if status \<ge> 500 then LevelError else if status \<ge> 400 then LevelWarn else LevelInfo)"

definition SecurityHeaders :: "bool \<Rightarrow> Middleware" where
  "SecurityHeaders hsts next r =
     bindM (setHeader ''X-Content-Type-Options'' ''nosniff'') (\<lambda>_.
     bindM (setHeader ''X-Frame-Options'' ''DENY'') (\<lambda>_.
     bindM (setHeader ''Referrer-Policy'' ''no-referrer'') (\<lambda>_.
     bindM (setHeader ''Content-Security-Policy''
       (''default-src '' @ [CHR 0x27] @ ''none'' @ [CHR 0x27] @ ''; frame-ancestors '' @ [CHR 0x27] @ ''none'' @ [CHR 0x27] @
        ''; base-uri '' @ [CHR 0x27] @ ''none'' @ [CHR 0x27])) (\<lambda>_.
     bindM (setHeader ''Cross-Origin-Opener-Policy'' ''same-origin'') (\<lambda>_.
     bindM (setHeader ''Cross-Origin-Resource-Policy'' ''same-origin'') (\<lambda>_.
     bindM (if hsts then setHeader ''Strict-Transport-Security'' ''max-age=31536000; includeSubDomains'' else returnM ()) (\<lambda>_.
     next r)))))))"

definition MaxBodyBytes :: "int \<Rightarrow> Middleware" where
  "MaxBodyBytes limit next r = next (r\<lparr>rq_bodyLimit := Some limit\<rparr>)"

definition ClientIP :: "request \<Rightarrow> string" where
  "ClientIP r = (case SplitHostPort (rq_RemoteAddr r) of None \<Rightarrow> rq_RemoteAddr r | Some (host, _) \<Rightarrow> host)"

text \<open>The limiter a middleware guards with is read from and written back to the state.\<close>

definition RateLimit :: "(state \<Rightarrow> Limiter option) \<Rightarrow> (Limiter option \<Rightarrow> state \<Rightarrow> state) \<Rightarrow> Middleware" where
  "RateLimit get put next r w = (case get (w_db w) of
     None \<Rightarrow> next r w
   | Some l \<Rightarrow> (case Allow (Some l) (ClientIP r) (rq_now r) of (allowed, retryAfter, l') \<Rightarrow>
       let w' = w\<lparr>w_db := put l' (w_db w)\<rparr>; seconds = Itoa_int (retry_seconds retryAfter) in
       if \<not> allowed then bindM (setHeader ''Retry-After'' seconds) (\<lambda>_.
         WriteErrorDetail r CodeRateLimited ''too many requests; slow down and try again shortly''
           ''retry_after_seconds'' seconds) w'
       else next r w'))"

section \<open>What the blocks keep\<close>

named_theorems db_intros

text \<open>\<open>db_keeps J m\<close>: whatever its outcome, \<open>m\<close> keeps the property \<open>J\<close> of the database.\<close>

definition db_keeps :: "(db \<Rightarrow> bool) \<Rightarrow> (state, 'a) comp \<Rightarrow> bool" where
  "db_keeps J m \<longleftrightarrow> keeps (\<lambda>s. J (sv_db s)) m"

lemma db_keepsD: "db_keeps J m \<Longrightarrow> m w = (r, w') \<Longrightarrow> J (sv_db (w_db w)) \<Longrightarrow> J (sv_db (w_db w'))"
  by (auto simp: db_keeps_def keeps_def)

lemma db_keeps_frame: "(\<And>w r w'. m w = (r, w') \<Longrightarrow> sv_db (w_db w') = sv_db (w_db w)) \<Longrightarrow> db_keeps J m"
  by (fastforce simp: db_keeps_def keeps_def)

lemma db_keeps_on_db [db_intros]: "keeps J m \<Longrightarrow> db_keeps J (on_db m)"
  by (fastforce simp: keeps_def db_keeps_def on_db_def db_world_def with_db_world_def split: prod.splits)

lemma db_keeps_blocks [db_intros]:
  "db_keeps J (returnM x)" "db_keeps J (failM e)" "db_keeps J (panicM s)"
  "db_keeps J (setHeader n v)" "db_keeps J (SetCookie c)" "db_keeps J (NewID p)"
  by (rule db_keeps_frame; auto simp: returnM_def failM_def panicM_def setHeader_def SetCookie_def dest: NewID_frame)+

lemma db_keeps_bindM [db_intros]: "db_keeps J m \<Longrightarrow> (\<And>a. db_keeps J (k a)) \<Longrightarrow> db_keeps J (bindM m k)"
  by (simp add: db_keeps_def keeps_bindM)

lemma db_keeps_tryM [db_intros]: "db_keeps J m \<Longrightarrow> db_keeps J (tryM m)"
  by (simp add: db_keeps_def keeps_tryM)

lemma db_keeps_if [db_intros]: "(b \<Longrightarrow> db_keeps J m) \<Longrightarrow> (\<not> b \<Longrightarrow> db_keeps J n) \<Longrightarrow> db_keeps J (if b then m else n)"
  by simp

lemma db_keeps_option [db_intros]:
  "db_keeps J m \<Longrightarrow> (\<And>x. db_keeps J (f x)) \<Longrightarrow> db_keeps J (case v of None \<Rightarrow> m | Some x \<Rightarrow> f x)"
  by (cases v) auto

lemma db_keeps_sum [db_intros]:
  "(\<And>x. db_keeps J (f x)) \<Longrightarrow> (\<And>x. db_keeps J (g x)) \<Longrightarrow> db_keeps J (case v of Inl x \<Rightarrow> f x | Inr x \<Rightarrow> g x)"
  by (cases v) auto

lemma db_keeps_prod [db_intros]: "(\<And>x y. db_keeps J (f x y)) \<Longrightarrow> db_keeps J (case p of (x, y) \<Rightarrow> f x y)"
  by (cases p) auto

lemma db_keeps_bool [db_intros]: "db_keeps J m \<Longrightarrow> db_keeps J n \<Longrightarrow> db_keeps J (case b of True \<Rightarrow> m | False \<Rightarrow> n)"
  by (cases b) auto

lemma db_keeps_Let [db_intros]: "db_keeps J (f v) \<Longrightarrow> db_keeps J (Let v f)"
  by simp

lemma db_keeps_writes [db_intros]:
  "db_keeps J (WriteJSON status body)" "db_keeps J (writeErrorResponse r resp)" "db_keeps J (WriteError r code msg)"
  "db_keeps J (WriteErrorDetail r code msg key val)" "db_keeps J (WriteHeader status)" "db_keeps J (NotImplemented r f p)"
  unfolding WriteJSON_def writeErrorResponse_def WriteError_def WriteErrorDetail_def WriteHeader_def NotImplemented_def
  by (intro db_intros)+

lemma db_keeps_DecodeJSON [db_intros]:
  assumes "\<And>v. db_keeps J (f v)"
  shows "db_keeps J (case DecodeJSON dec r of Inl resp \<Rightarrow> resp | Inr v \<Rightarrow> f v)"
proof (cases "DecodeJSON dec r")
  case (Inl resp)
  have "db_keeps J resp"
    using Inl by (auto simp: DecodeJSON_def Let_def split: if_splits json_outcome.splits intro: db_intros)
  with Inl show ?thesis by simp
qed (use assms in simp)

text \<open>A middleware keeps what the handler it wraps keeps.\<close>

lemma db_keeps_RequestID [db_intros]: "(\<And>r. db_keeps J (h r)) \<Longrightarrow> db_keeps J (RequestID h r)"
  unfolding RequestID_def by (intro db_intros)

lemma db_keeps_SecurityHeaders [db_intros]: "(\<And>r. db_keeps J (h r)) \<Longrightarrow> db_keeps J (SecurityHeaders b h r)"
  unfolding SecurityHeaders_def by (intro db_intros)

lemma db_keeps_MaxBodyBytes [db_intros]: "(\<And>r. db_keeps J (h r)) \<Longrightarrow> db_keeps J (MaxBodyBytes n h r)"
  unfolding MaxBodyBytes_def by simp

lemma db_keeps_Recoverer [db_intros]:
  assumes "\<And>r. db_keeps J (h r)" shows "db_keeps J (Recoverer h r)"
  unfolding db_keeps_def keeps_def
proof (intro allI impI)
  fix w res w' assume run: "Recoverer h r w = (res, w')" and j: "J (sv_db (w_db w))"
  obtain res1 w1 where h: "h r w = (res1, w1)" by fastforce
  have j1: "J (sv_db (w_db w1))" using db_keepsD [OF assms h j] .
  show "J (sv_db (w_db w'))"
  proof (cases res1)
    case (Panic p)
    then show ?thesis using run h j1 db_keepsD [OF db_keeps_writes(3)] by (auto simp: Recoverer_def split: if_splits)
  qed (use run h j1 in \<open>simp_all add: Recoverer_def\<close>)
qed

lemma db_keeps_RateLimit [db_intros]:
  assumes "\<And>r. db_keeps J (h r)" "\<And>l s. sv_db (put l s) = sv_db s"
  shows "db_keeps J (RateLimit get put h r)"
  unfolding db_keeps_def keeps_def
proof (intro allI impI)
  fix w res w' assume run: "RateLimit get put h r w = (res, w')" and j: "J (sv_db (w_db w))"
  have den: "db_keeps J (bindM (setHeader ''Retry-After'' x) (\<lambda>_. WriteErrorDetail r c m k v))" for x c m k v
    by (intro db_intros)
  show "J (sv_db (w_db w'))"
    using run j db_keepsD [OF assms(1)] db_keepsD [OF den] assms(2)
    by (fastforce simp: RateLimit_def Let_def split: option.splits prod.splits if_splits)
qed

section \<open>What a run of a block did\<close>

lemma on_db_Ret: "on_db m w = (Ret x, w') \<longleftrightarrow> (\<exists>v. m (db_world w) = (Ret x, v) \<and> w' = with_db_world w v)"
  by (auto simp: on_db_def split: prod.splits)

lemma on_db_res: "on_db m w = (r, w') \<Longrightarrow> \<exists>v. m (db_world w) = (r, v) \<and> w' = with_db_world w v"
  by (auto simp: on_db_def split: prod.splits)

lemma db_world_sel [simp]: "w_db (db_world w) = sv_db (w_db w)" "w_faults (db_world w) = w_faults w" "w_entropy (db_world w) = w_entropy w"
  by (simp_all add: db_world_def)

lemma with_db_world_sel [simp]: "w_db (with_db_world w v) = (w_db w)\<lparr>sv_db := w_db v\<rparr>" "w_faults (with_db_world w v) = w_faults v"
  "w_entropy (with_db_world w v) = w_entropy v" "db_world (with_db_world w v) = v"
  by (simp_all add: with_db_world_def db_world_def)

lemma setHeader_run [simp]: "setHeader n v w = (Ret (), w\<lparr>w_db := (w_db w)\<lparr>sv_headers := AList.update n v (sv_headers (w_db w))\<rparr>\<rparr>)"
  by (simp add: setHeader_def)

lemma SetCookie_run [simp]: "SetCookie c w = (Ret (), w\<lparr>w_db := (w_db w)\<lparr>sv_cookies := sv_cookies (w_db w) @ [c]\<rparr>\<rparr>)"
  by (simp add: SetCookie_def)

definition json_headers :: "state world \<Rightarrow> state world" where
  "json_headers w = w\<lparr>w_db := (w_db w)\<lparr>sv_headers := AList.update ''Content-Type'' contentJSON (sv_headers (w_db w))\<rparr>\<rparr>"

lemma WriteJSON_run [simp]: "WriteJSON status body w = (Ret (status, body), json_headers w)"
  by (simp add: WriteJSON_def bindM_def returnM_def json_headers_def)

lemma WriteError_run [simp]: "WriteError r code msg w =
    (Ret (HTTPStatus code, PError (WithRequestID (rq_requestID r) (NewErrorResponse code msg))), json_headers w)"
  by (simp add: WriteError_def writeErrorResponse_def bindM_def returnM_def json_headers_def Let_def WithRequestID_def NewErrorResponse_def)

lemma WriteErrorDetail_run [simp]: "WriteErrorDetail r code msg key val w =
    (Ret (HTTPStatus code, PError (WithRequestID (rq_requestID r) (WithDetail key val (NewErrorResponse code msg)))), json_headers w)"
  by (simp add: WriteErrorDetail_def writeErrorResponse_def bindM_def returnM_def json_headers_def Let_def WithRequestID_def
      NewErrorResponse_def WithDetail_def)

lemma json_headers_db [simp]: "sv_db (w_db (json_headers w)) = sv_db (w_db w)" "w_faults (json_headers w) = w_faults w"
  by (simp_all add: json_headers_def)

text \<open>An error reply is never taken for a success.\<close>

lemma error_status [simp]: "200 \<noteq> HTTPStatus c" "201 \<noteq> HTTPStatus c" "204 \<noteq> HTTPStatus c" "\<not> HTTPStatus c < 400"
  "HTTPStatus c \<noteq> 200" "HTTPStatus c \<noteq> 201" "HTTPStatus c \<noteq> 204"
  using HTTPStatus_error [of c] by auto

lemma DecodeJSON_Inl:
  "DecodeJSON dec r = Inl resp \<Longrightarrow> resp w = (Ret (status, body), w') \<Longrightarrow> 400 \<le> status \<and> sv_db (w_db w') = sv_db (w_db w)"
  by (auto simp: DecodeJSON_def Let_def HTTPStatus_error split: if_splits json_outcome.splits)

end
