(* ===== verification/Server_Auth.thy ===== *)
theory Server_Auth
  imports Http_Layer
begin

text \<open>
  The server of \<open>internal/server\<close>: its dependencies, how it is built, the guards of its routes
  (\<open>middleware.go\<close>, \<open>device_auth.go\<close>) and the handlers of accounts and sessions (\<open>auth.go\<close>).
\<close>

section \<open>The server\<close>

text \<open>The decoders stand for \<open>encoding/json\<close>, \<open>se_errorText\<close> for the text of an error, \<open>se_build\<close> for
  what \<open>version.Get\<close> returns, \<open>se_migrationsFS\<close> for the embedded scripts of \<open>storage.migrationsFS\<close>.\<close>

record json_codec =
  jc_bootstrap :: "BootstrapRequest decoder"
  jc_login :: "LoginRequest decoder"
  jc_register :: "RegisterDeviceRequest decoder"
  jc_enroll :: "EnrollDeviceRequest decoder"
  jc_createKey :: "CreateSetupKeyRequest decoder"
  jc_negotiate :: "NegotiateRequest decoder"

record Server =
  se_cfg :: Config
  se_instanceID :: string
  se_startedAt :: instant
  se_build :: Info
  se_users :: UserStore
  se_sessions :: SessionStore
  se_devices :: Store
  se_dummyHash :: string
  se_secureCookies :: bool
  se_json :: json_codec
  se_errorText :: "error \<Rightarrow> string"
  se_migrationsFS :: embed_FS

record libraries =
  lib_lower :: "nat \<Rightarrow> nat"
  lib_IntN :: "nat \<Rightarrow> nat"
  lib_ParseAddress :: "string \<Rightarrow> string option"
  lib_ParseURL :: "string \<Rightarrow> (string \<times> string) option"
  lib_IDKey :: idkey
  lib_json :: json_codec
  lib_errorText :: "error \<Rightarrow> string"
  lib_build :: Info
  lib_migrationsFS :: embed_FS

definition New :: "libraries \<Rightarrow> Config \<Rightarrow> string \<Rightarrow> instant \<Rightarrow> (db, Server) comp" where
  "New lib cfg instanceID now = (case Config_Validate (lib_lower lib) (lib_ParseURL lib) cfg of
     Some e \<Rightarrow> failM (wrap ''server'' e)
   | None \<Rightarrow>
       bindM (mapErr (wrap ''server: preparing the authentication timing defence'') (DummyHash (lib_IDKey lib))) (\<lambda>dummyHash.
       bindM (mapErr (wrap ''server'') (NewAllocator (cfg_Network cfg))) (\<lambda>allocator.
       returnM \<lparr>se_cfg = cfg, se_instanceID = instanceID, se_startedAt = now, se_build = lib_build lib,
         se_users = NewUserStore (lib_lower lib) (lib_ParseAddress lib) (lib_IDKey lib)
           \<lparr>sop_Params = zero_params, sop_MinPasswordLength = AuthConfig.MinPasswordLength (cfg_Auth cfg)\<rparr>,
         se_sessions = NewSessionStore \<lparr>so_Lifetime = SessionLifetime (cfg_Auth cfg), so_IdleTimeout = SessionIdleTimeout (cfg_Auth cfg)\<rparr>,
         se_devices = \<lparr>st_allocator = allocator, st_lower = lib_lower lib, st_IntN = lib_IntN lib\<rparr>,
         se_dummyHash = dummyHash,
         se_secureCookies = (case lib_ParseURL lib (BaseURL (cfg_Server cfg)) of None \<Rightarrow> False | Some (scheme, _) \<Rightarrow> scheme = ''https''),
         se_json = lib_json lib, se_errorText = lib_errorText lib,
         se_migrationsFS = lib_migrationsFS lib\<rparr>)))"

section \<open>Cookies\<close>

definition SessionCookieName :: string where "SessionCookieName = ''headnet_session''"
definition CSRFCookieName :: string where "CSRFCookieName = ''headnet_csrf''"
definition CSRFHeaderName :: string where "CSRFHeaderName = ''X-CSRF-Token''"

text \<open>The names the API documents to clients are the ones the server reads and sets.\<close>

lemma documented_names: "CSRFHeader = CSRFHeaderName" "SessionCookie = SessionCookieName" "CSRFCookie = CSRFCookieName"
  by (simp_all add: CSRFHeader_def SessionCookie_def CSRFCookie_def CSRFHeaderName_def SessionCookieName_def CSRFCookieName_def)

definition session_cookie :: "Server \<Rightarrow> string \<Rightarrow> string \<Rightarrow> int \<Rightarrow> cookie" where
  "session_cookie s name val maxAge = \<lparr>co_Name = name, co_Value = val, co_Path = ''/'', co_HttpOnly = (name = SessionCookieName),
     co_Secure = se_secureCookies s, co_SameSite = ''Lax'', co_MaxAge = maxAge\<rparr>"

text \<open>\<open>time.Until\<close> reads the wall clock when the cookies are set, after the instant the handler works with.\<close>

definition setSessionCookies :: "Server \<Rightarrow> Issued \<Rightarrow> instant \<Rightarrow> (state, unit) comp" where
  "setSessionCookies s issued wall = (let age = trunc_int (Seconds (time_Sub (ss_ExpiresAt (is_Session issued)) wall));
     maxAge = (if age < 0 then 0 else age) in
     bindM (SetCookie (session_cookie s SessionCookieName (is_Token issued) maxAge)) (\<lambda>_.
     SetCookie (session_cookie s CSRFCookieName (is_CSRFToken issued) maxAge)))"

definition clearSessionCookies :: "Server \<Rightarrow> (state, unit) comp" where
  "clearSessionCookies s = bindM (SetCookie (session_cookie s SessionCookieName [] (-1))) (\<lambda>_.
     SetCookie (session_cookie s CSRFCookieName [] (-1)))"

section \<open>Guards\<close>

definition UserFrom :: "request \<Rightarrow> User option" where "UserFrom r = rq_user r"
definition SessionFrom :: "request \<Rightarrow> Session option" where "SessionFrom r = rq_session r"

definition requireSession :: "Server \<Rightarrow> Middleware" where
  "requireSession s next r = (case Cookie r SessionCookieName of
     None \<Rightarrow> bindM (clearSessionCookies s) (\<lambda>_. WriteError r CodeUnauthorized ''you are not signed in'')
   | Some val \<Rightarrow> if val = [] then bindM (clearSessionCookies s) (\<lambda>_. WriteError r CodeUnauthorized ''you are not signed in'')
     else bindM (tryM (on_db (Lookup (se_sessions s) val (rq_now r)))) (\<lambda>found. case found of
       Inl err \<Rightarrow> if \<not> errors_Is err ErrSessionNotFound \<and> \<not> errors_Is err ErrSessionExpired
         then WriteError r CodeInternal ''internal error''
         else bindM (clearSessionCookies s) (\<lambda>_. WriteError r CodeUnauthorized ''your session has ended; sign in again'')
     | Inr session \<Rightarrow> bindM (tryM (on_db (user_ByID (ss_UserID session)))) (\<lambda>owner. case owner of
         Inl err \<Rightarrow> if errors_Is err ErrUserNotFound
           then bindM (clearSessionCookies s) (\<lambda>_. WriteError r CodeUnauthorized ''your session has ended; sign in again'')
           else WriteError r CodeInternal ''internal error''
       | Inr user \<Rightarrow> next (r\<lparr>rq_session := Some session, rq_user := Some user\<rparr>))))"

definition requireCSRF :: "Server \<Rightarrow> Middleware" where
  "requireCSRF s next r = (if rq_Method r \<in> {''GET'', ''HEAD'', ''OPTIONS''} then next r
     else case SessionFrom r of
       None \<Rightarrow> WriteError r CodeInternal ''internal error''
     | Some session \<Rightarrow> if \<not> VerifyCSRF session (Header_Get r CSRFHeaderName)
         then WriteErrorDetail r CodeForbidden ''this request is missing a valid CSRF token'' ''header'' CSRFHeaderName
         else next r)"

definition requireAdmin :: "Server \<Rightarrow> Middleware" where
  "requireAdmin s next r = (case UserFrom r of
     None \<Rightarrow> WriteError r CodeInternal ''internal error''
   | Some user \<Rightarrow> if \<not> IsAdmin user
       then WriteError r CodeForbidden ''this action requires an administrator account''
       else next r)"

definition authenticated :: "Server \<Rightarrow> handler \<Rightarrow> bool \<Rightarrow> handler" where
  "authenticated s h adminOnly = (let h = (if adminOnly then requireAdmin s h else h) in
     requireSession s (requireCSRF s h))"

definition rateLimitAuth :: "Server \<Rightarrow> Middleware" where
  "rateLimitAuth s = RateLimit sv_authLimiter (\<lambda>l st. st\<lparr>sv_authLimiter := l\<rparr>)"

definition bearerToken :: "request \<Rightarrow> string" where
  "bearerToken r = (case Header_Values r ''Authorization'' of
     [v] \<Rightarrow> (case Cut v (CHR '' '') of (scheme, token, ok) \<Rightarrow>
       if \<not> ok \<or> \<not> EqualFold scheme ''Bearer'' then [] else token)
   | _ \<Rightarrow> [])"

definition writeDeviceAuthError :: "request \<Rightarrow> error \<Rightarrow> (state, reply) comp" where
  "writeDeviceAuthError r err = (if errors_Is err ErrDeviceTokenInvalid
     then bindM (setHeader ''WWW-Authenticate'' (''Bearer realm='' @ [CHR 0x22] @ ''headnet-device'' @ [CHR 0x22])) (\<lambda>_.
       WriteError r CodeUnauthorized ''a valid device bearer token is required; enrol the device with a setup key'')
     else WriteError r CodeInternal ''internal error'')"

definition requireDevice :: "Server \<Rightarrow> (request \<Rightarrow> Device \<Rightarrow> (state, reply) comp) \<Rightarrow> handler" where
  "requireDevice s next r = bindM (setHeader ''Cache-Control'' ''no-store'') (\<lambda>_.
     bindM (tryM (on_db (Authenticate (bearerToken r)))) (\<lambda>res. case res of
       Inl err \<Rightarrow> writeDeviceAuthError r err
     | Inr device \<Rightarrow> next r device))"

section \<open>Accounts and sessions\<close>

definition userResponse :: "User \<Rightarrow> api_User" where
  "userResponse u = \<lparr>au_ID = us_ID u, au_Email = us_Email u, au_DisplayName = us_DisplayName u, au_Role = us_Role u,
     au_Provider = us_Provider u, au_CreatedAt = us_CreatedAt u, au_LastLoginAt = us_LastLoginAt u\<rparr>"

definition sessionResponse :: "User \<Rightarrow> string \<Rightarrow> instant option \<Rightarrow> api_Session" where
  "sessionResponse u csrfToken expiresAt = \<lparr>as_User = userResponse u, as_CSRFToken = csrfToken, as_ExpiresAt = expiresAt\<rparr>"

definition handleAuthStatus :: "Server \<Rightarrow> handler" where
  "handleAuthStatus s r = bindM (tryM (on_db user_Count)) (\<lambda>c. case c of
     Inl err \<Rightarrow> WriteError r CodeUnavailable ''the server is not able to answer right now''
   | Inr count \<Rightarrow> WriteJSON 200 (PAuthStatus \<lparr>ast_BootstrapRequired = (count = 0), ast_Providers = Providers (cfg_Auth (se_cfg s))\<rparr>))"

definition errAlreadyClaimed :: error where
  "errAlreadyClaimed = ErrNew ''the installation has already been claimed''"

definition bootstrap_tx :: "Server \<Rightarrow> BootstrapRequest \<Rightarrow> instant \<Rightarrow> (db, User) comp" where
  "bootstrap_tx s req now = bindM (ClaimBootstrap now) (\<lambda>claimed.
     if \<not> claimed then failM errAlreadyClaimed
     else user_Create (se_users s) \<lparr>nu_Email = br_Email req, nu_Password = br_Password req, nu_DisplayName = br_DisplayName req,
       nu_Role = RoleAdmin\<rparr> now)"

definition request_meta :: "request \<Rightarrow> Meta" where
  "request_meta r = \<lparr>mt_IP = ClientIP r, mt_UserAgent = Header_Get r ''User-Agent''\<rparr>"

definition handleBootstrap :: "Server \<Rightarrow> handler" where
  "handleBootstrap s r = (case DecodeJSON (jc_bootstrap (se_json s)) r of
     Inl resp \<Rightarrow> resp
   | Inr req \<Rightarrow> bindM (tryM (on_db (InTx (bootstrap_tx s req (rq_now r))))) (\<lambda>res. case res of
       Inl err \<Rightarrow> if errors_Is err errAlreadyClaimed
         then WriteError r CodeConflict ''this server already has an administrator; sign in instead''
         else if errors_Is err ErrInvalidEmail \<or> errors_Is err ErrPasswordTooShort \<or> errors_Is err ErrPasswordTooLong \<or>
           errors_Is err ErrEmailTaken
         then WriteError r CodeBadRequest (se_errorText s err)
         else WriteError r CodeInternal ''internal error''
     | Inr user \<Rightarrow> bindM (tryM (on_db (Issue (se_sessions s) (us_ID user) (request_meta r) (rq_now r)))) (\<lambda>iss. case iss of
         Inl err \<Rightarrow> WriteJSON 201 (PSession (sessionResponse user [] None))
       | Inr issued \<Rightarrow> bindM (setSessionCookies s issued (rq_done r)) (\<lambda>_.
           WriteJSON 201 (PSession (sessionResponse user (is_CSRFToken issued) (Some (ss_ExpiresAt (is_Session issued)))))))))"

definition invalidCredentials :: string where "invalidCredentials = ''the email address or password is incorrect''"

text \<open>The work done on the dummy hash has no effect but its cost.\<close>

definition verifyCredentials :: "Server \<Rightarrow> User option \<Rightarrow> string \<Rightarrow> bool \<times> bool" where
  "verifyCredentials s user password = (case user of
     None \<Rightarrow> (False, False)
   | Some u \<Rightarrow> if \<not> HasPassword u then (False, False)
     else (case User_VerifyPassword (ust_IDKey (se_users s)) u password of
       Inl err \<Rightarrow> (False, False)
     | Inr (matched, needsRehash) \<Rightarrow> (matched, needsRehash)))"

definition finish_login :: "Server \<Rightarrow> request \<Rightarrow> User \<Rightarrow> (state, reply) comp" where
  "finish_login s r user = bindM (tryM (on_db (Issue (se_sessions s) (us_ID user) (request_meta r) (rq_now r)))) (\<lambda>iss. case iss of
     Inl err \<Rightarrow> WriteError r CodeInternal ''internal error''
   | Inr issued \<Rightarrow> bindM (tryM (on_db (RecordLogin (us_ID user) (rq_now r)))) (\<lambda>_.
       bindM (setSessionCookies s issued (rq_done r)) (\<lambda>_.
       WriteJSON 200 (PSession (sessionResponse user (is_CSRFToken issued) (Some (ss_ExpiresAt (is_Session issued))))))))"

definition handleLogin :: "Server \<Rightarrow> handler" where
  "handleLogin s r = (case DecodeJSON (jc_login (se_json s)) r of
     Inl resp \<Rightarrow> resp
   | Inr req \<Rightarrow> bindM (tryM (on_db (ByEmail (se_users s) (lr_Email req)))) (\<lambda>found.
       let failed = (case found of Inl err \<Rightarrow> \<not> errors_Is err ErrUserNotFound | Inr _ \<Rightarrow> False);
           user = (case found of Inl _ \<Rightarrow> None | Inr u \<Rightarrow> Some u);
           (matched, needsRehash) = verifyCredentials s user (lr_Password req) in
       if failed then WriteError r CodeInternal ''internal error''
       else case (user, matched) of
         (Some u, True) \<Rightarrow> bindM (if needsRehash then tryM (on_db (RehashPassword (se_users s) (us_ID u) (lr_Password req) (rq_now r)))
             else returnM (Inr ())) (\<lambda>_. finish_login s r u)
       | _ \<Rightarrow> WriteError r CodeUnauthorized invalidCredentials))"

definition handleLogout :: "Server \<Rightarrow> handler" where
  "handleLogout s r = bindM (clearSessionCookies s) (\<lambda>_.
     case Cookie r SessionCookieName of
       None \<Rightarrow> WriteHeader 204
     | Some val \<Rightarrow> if val = [] then WriteHeader 204
       else bindM (tryM (on_db (session_Revoke val))) (\<lambda>res. case res of
         Inl err \<Rightarrow> WriteError r CodeInternal ''internal error''
       | Inr _ \<Rightarrow> WriteHeader 204))"

definition handleSession :: "Server \<Rightarrow> handler" where
  "handleSession s r = (case UserFrom r of
     None \<Rightarrow> WriteError r CodeUnauthorized ''you are not signed in''
   | Some user \<Rightarrow> WriteJSON 200 (PSession (sessionResponse user [] (map_option ss_ExpiresAt (SessionFrom r)))))"

section \<open>What the guards and handlers keep\<close>

lemma db_keeps_cookies [db_intros]: "db_keeps J (setSessionCookies s i now)" "db_keeps J (clearSessionCookies s)"
  unfolding setSessionCookies_def clearSessionCookies_def Let_def by (intro db_intros)+

lemma keeps_user_reads [pres_intros]: "keeps I (user_ByID i)" "keeps I (ByEmail s e)" "keeps I user_Count"
  unfolding user_ByID_def ByEmail_def user_Count_def by (intro pres_intros)+

lemma keeps_Authenticate [pres_intros]: "keeps I (Authenticate t)"
  unfolding Authenticate_def by (intro pres_intros)

lemmas keeps_consistent = keeps_Issue keeps_Lookup keeps_session_Revoke keeps_RevokeAllForUser keeps_DeleteExpired
  keeps_InstanceID keeps_ClaimBootstrap keeps_user_Create keeps_RehashPassword keeps_RecordLogin keeps_UpdatePassword
  keeps_user_reads keeps_Authenticate

lemma db_keeps_requireSession:
  "(\<And>t now. keeps J (Lookup (se_sessions s) t now)) \<Longrightarrow> (\<And>r. db_keeps J (h r)) \<Longrightarrow> db_keeps J (requireSession s h r)"
  unfolding requireSession_def by (intro db_intros keeps_user_reads)

lemma db_keeps_requireCSRF: "(\<And>r. db_keeps J (h r)) \<Longrightarrow> db_keeps J (requireCSRF s h r)"
  unfolding requireCSRF_def by (intro db_intros)

lemma db_keeps_requireAdmin: "(\<And>r. db_keeps J (h r)) \<Longrightarrow> db_keeps J (requireAdmin s h r)"
  unfolding requireAdmin_def by (intro db_intros)

lemma db_keeps_authenticated:
  assumes "\<And>t now. keeps J (Lookup (se_sessions s) t now)" "\<And>r. db_keeps J (h r)"
  shows "db_keeps J (authenticated s h adm r)"
  unfolding authenticated_def Let_def
  using assms by (intro db_keeps_requireSession db_keeps_requireCSRF) (simp_all add: db_keeps_requireAdmin)

lemma db_keeps_rateLimitAuth: "(\<And>r. db_keeps J (h r)) \<Longrightarrow> db_keeps J (rateLimitAuth s h r)"
  unfolding rateLimitAuth_def by (intro db_intros) simp_all

lemma db_keeps_requireDevice: "(\<And>r d. db_keeps J (h r d)) \<Longrightarrow> db_keeps J (requireDevice s h r)"
  unfolding requireDevice_def writeDeviceAuthError_def by (intro db_intros keeps_Authenticate)

lemma commits_bootstrap_tx: "commits consistent (bootstrap_tx s req now)"
  unfolding bootstrap_tx_def by (intro keeps_commits pres_intros)

lemma consistent_finish_login: "db_keeps consistent (finish_login s r u)"
  unfolding finish_login_def by (intro db_intros keeps_consistent)

lemma consistent_handlers:
  "db_keeps consistent (handleAuthStatus s r)" "db_keeps consistent (handleLogout s r)" "db_keeps consistent (handleSession s r)"
  unfolding handleAuthStatus_def handleLogout_def handleSession_def
  by (intro db_intros keeps_consistent)+

lemma consistent_handleBootstrap: "db_keeps consistent (handleBootstrap s r)"
  unfolding handleBootstrap_def
  by (rule db_keeps_DecodeJSON) (intro db_intros keeps_consistent keeps_InTx commits_bootstrap_tx)

lemma consistent_handleLogin: "db_keeps consistent (handleLogin s r)"
  unfolding handleLogin_def
  by (rule db_keeps_DecodeJSON) (intro db_intros keeps_consistent consistent_finish_login)

section \<open>A server built by New\<close>

lemma New_ok:
  assumes "New lib cfg i t w = (Ret s, w')"
  shows "allocator_ok (st_allocator (se_devices s))" "store_ok (se_sessions s)"
  using assms NewSessionStore_ok
  by (auto simp: New_def bindM_Ret NewAllocator_ok split: option.splits)

end
