(* ===== verification/Server_Routes.thy ===== *)
theory Server_Routes
  imports Server_Auth
begin

text \<open>
  The handlers of devices and setup keys (\<open>internal/server/devices.go\<close>, \<open>device_auth.go\<close>), of
  negotiation (\<open>routes.go\<close>), the route table, and the chain of middleware around it
  (\<open>server.go\<close>).
\<close>

section \<open>Devices\<close>

definition scopeFor :: "User \<Rightarrow> Scope" where
  "scopeFor user = ScopeFor (us_ID user) (IsAdmin user)"

definition addrString :: "addr \<Rightarrow> string" where
  "addrString a = (if \<not> IsValid a then [] else addr_String a)"

definition deviceResponse :: "Device \<Rightarrow> api_Device" where
  "deviceResponse d = \<lparr>ad_ID = dv_ID d, ad_UserID = dv_UserID d, ad_Name = dv_Name d, ad_PublicKey = dv_PublicKey d,
     ad_OS = dv_OS d, ad_Hostname = dv_Hostname d, ad_IPv4 = addrString (dv_IPv4 d), ad_IPv6 = addrString (dv_IPv6 d),
     ad_EnrolledWith = dv_EnrolledWith d, ad_CreatedAt = dv_CreatedAt d, ad_LastSeenAt = dv_LastSeenAt d,
     ad_RevokedAt = dv_RevokedAt d\<rparr>"

definition isSetupKeyRejection :: "error \<Rightarrow> bool" where
  "isSetupKeyRejection err \<longleftrightarrow> errors_Is err ErrKeyNotFound \<or> errors_Is err ErrKeyRevoked \<or>
     errors_Is err ErrKeyExpired \<or> errors_Is err ErrKeyExhausted"

definition writeDeviceError :: "Server \<Rightarrow> request \<Rightarrow> error \<Rightarrow> (state, reply) comp" where
  "writeDeviceError s r err = (
     if errors_Is err ErrDeviceNotFound then WriteError r CodeNotFound ''no such device''
     else if errors_Is err ErrPublicKeyTaken
       then WriteErrorDetail r CodeConflict ''that public key is already registered to a device'' ''field'' ''public_key''
     else if errors_Is err ErrInvalidPublicKey then WriteErrorDetail r CodeBadRequest (se_errorText s err) ''field'' ''public_key''
     else if errors_Is err ErrInvalidName then WriteErrorDetail r CodeBadRequest (se_errorText s err) ''field'' ''name''
     else if errors_Is err ErrDeviceRevoked then WriteError r CodeConflict ''that device has already been revoked''
     else if errors_Is err ErrPoolExhausted then WriteError r CodeUnavailable
       (''there are no addresses left in this network'' @ [CHR 0x27] @ ''s pool; an administrator must widen it'')
     else WriteError r CodeInternal ''internal error'')"

definition handleListDevices :: "Server \<Rightarrow> handler" where
  "handleListDevices s r = (case UserFrom r of
     None \<Rightarrow> WriteError r CodeUnauthorized ''you are not signed in''
   | Some user \<Rightarrow> bindM (tryM (on_db (List_devices (scopeFor user)))) (\<lambda>res. case res of
       Inl err \<Rightarrow> WriteError r CodeInternal ''internal error''
     | Inr devs \<Rightarrow> WriteJSON 200 (PDeviceList (map deviceResponse devs))))"

definition handleGetDevice :: "Server \<Rightarrow> handler" where
  "handleGetDevice s r = (case UserFrom r of
     None \<Rightarrow> WriteError r CodeUnauthorized ''you are not signed in''
   | Some user \<Rightarrow> bindM (tryM (on_db (ByID (rq_PathID r) (scopeFor user)))) (\<lambda>res. case res of
       Inl err \<Rightarrow> writeDeviceError s r err
     | Inr device \<Rightarrow> WriteJSON 200 (PDevice (deviceResponse device))))"

definition handleRegisterDevice :: "Server \<Rightarrow> handler" where
  "handleRegisterDevice s r = (case UserFrom r of
     None \<Rightarrow> WriteError r CodeUnauthorized ''you are not signed in''
   | Some user \<Rightarrow> (case DecodeJSON (jc_register (se_json s)) r of
       Inl resp \<Rightarrow> resp
     | Inr req \<Rightarrow> bindM (tryM (on_db (Register (se_devices s) (us_ID user)
           \<lparr>nd_Name = rd_Name req, nd_PublicKey = rd_PublicKey req, nd_OS = rd_OS req, nd_Hostname = rd_Hostname req\<rparr> (rq_now r))))
         (\<lambda>res. case res of
           Inl err \<Rightarrow> writeDeviceError s r err
         | Inr device \<Rightarrow> WriteJSON 201 (PDevice (deviceResponse device)))))"

definition handleEnrollDevice :: "Server \<Rightarrow> handler" where
  "handleEnrollDevice s r = (case DecodeJSON (jc_enroll (se_json s)) r of
     Inl resp \<Rightarrow> resp
   | Inr req \<Rightarrow> bindM (tryM (on_db (Enroll (se_devices s) (ed_SetupKey req)
         \<lparr>nd_Name = ed_Name req, nd_PublicKey = ed_PublicKey req, nd_OS = ed_OS req, nd_Hostname = ed_Hostname req\<rparr> (rq_now r))))
       (\<lambda>res. case res of
         Inl err \<Rightarrow> if isSetupKeyRejection err then WriteError r CodeUnauthorized ''that setup key is not valid''
           else writeDeviceError s r err
       | Inr (device, token) \<Rightarrow> bindM (setHeader ''Cache-Control'' ''no-store'') (\<lambda>_.
           WriteJSON 201 (PEnroll \<lparr>ep_Device = deviceResponse device, ep_DeviceToken = token, ep_InstanceID = se_instanceID s\<rparr>))))"

definition handleRevokeDevice :: "Server \<Rightarrow> handler" where
  "handleRevokeDevice s r = (case UserFrom r of
     None \<Rightarrow> WriteError r CodeUnauthorized ''you are not signed in''
   | Some user \<Rightarrow> bindM (tryM (on_db (Revoke (rq_PathID r) (scopeFor user) (rq_now r)))) (\<lambda>res. case res of
       Inl err \<Rightarrow> writeDeviceError s r err
     | Inr _ \<Rightarrow> WriteHeader 204))"

section \<open>Setup keys\<close>

definition setupKeyResponse :: "SetupKey \<Rightarrow> instant \<Rightarrow> api_SetupKey" where
  "setupKeyResponse k now = \<lparr>ak_ID = sk_ID k, ak_DisplayHint = sk_DisplayHint k, ak_Description = sk_Description k,
     ak_Tags = sk_Tags k, ak_CreatedBy = sk_CreatedBy k, ak_CreatedAt = sk_CreatedAt k, ak_ExpiresAt = sk_ExpiresAt k,
     ak_MaxUses = sk_MaxUses k, ak_Uses = sk_Uses k, ak_RevokedAt = sk_RevokedAt k, ak_Usable = (Redeemable k now = None)\<rparr>"

text \<open>\<open>time.Duration(hours) * time.Hour\<close> wraps like every product of 64-bit integers.\<close>

definition hours :: "int \<Rightarrow> duration" where
  "hours n = int64 (n * Hour)"

definition handleCreateSetupKey :: "Server \<Rightarrow> handler" where
  "handleCreateSetupKey s r = (case UserFrom r of
     None \<Rightarrow> WriteError r CodeUnauthorized ''you are not signed in''
   | Some user \<Rightarrow> (case DecodeJSON (jc_createKey (se_json s)) r of
       Inl resp \<Rightarrow> resp
     | Inr req \<Rightarrow>
         if cr_ExpiresInHours req < 0 then WriteErrorDetail r CodeBadRequest
           ''expires_in_hours must not be negative'' ''field'' ''expires_in_hours''
         else if cr_MaxUses req < 0 then WriteErrorDetail r CodeBadRequest ''max_uses must not be negative'' ''field'' ''max_uses''
         else bindM (tryM (on_db (CreateSetupKey (se_devices s) (us_ID user)
             \<lparr>nk_Description = cr_Description req, nk_Tags = cr_Tags req, nk_ExpiresIn = hours (cr_ExpiresInHours req),
              nk_NeverExpires = cr_NeverExpires req, nk_MaxUses = cr_MaxUses req\<rparr> (rq_now r)))) (\<lambda>res. case res of
           Inl err \<Rightarrow> WriteError r CodeInternal ''internal error''
         | Inr issued \<Rightarrow> WriteJSON 201 (PSetupKey \<lparr>cp_Key = setupKeyResponse (ik_Key issued) (rq_now r), cp_SetupKey = ik_Token issued\<rparr>))))"

definition handleListSetupKeys :: "Server \<Rightarrow> handler" where
  "handleListSetupKeys s r = bindM (tryM (on_db (ListSetupKeys (se_devices s)))) (\<lambda>res. case res of
     Inl err \<Rightarrow> WriteError r CodeInternal ''internal error''
   | Inr keys \<Rightarrow> WriteJSON 200 (PSetupKeyList (map (\<lambda>k. setupKeyResponse k (rq_now r)) keys)))"

definition handleRevokeSetupKey :: "Server \<Rightarrow> handler" where
  "handleRevokeSetupKey s r = bindM (tryM (on_db (RevokeSetupKey (se_devices s) (rq_PathID r) (rq_now r)))) (\<lambda>res. case res of
     Inl err \<Rightarrow> if errors_Is err ErrKeyNotFound then WriteError r CodeNotFound ''no such setup key''
       else WriteError r CodeInternal ''internal error''
   | Inr _ \<Rightarrow> WriteHeader 204)"

section \<open>The device's own endpoints\<close>

definition handleDeviceMe :: "Server \<Rightarrow> request \<Rightarrow> Device \<Rightarrow> (state, reply) comp" where
  "handleDeviceMe s r device = WriteJSON 200 (PDevice (deviceResponse device))"

definition handleDeviceHeartbeat :: "Server \<Rightarrow> request \<Rightarrow> Device \<Rightarrow> (state, reply) comp" where
  "handleDeviceHeartbeat s r device = (if rq_ContentLength r \<noteq> 0 \<or> rq_TransferEncoding r \<noteq> []
     then WriteError r CodeBadRequest ''heartbeat requests must have an empty body''
     else bindM (tryM (on_db (Heartbeat (bearerToken r) (rq_now r)))) (\<lambda>res. case res of
       Inl err \<Rightarrow> writeDeviceAuthError r err
     | Inr _ \<Rightarrow> WriteHeader 204))"

definition handleDeviceNetworkConfig :: "Server \<Rightarrow> request \<Rightarrow> Device \<Rightarrow> (state, reply) comp" where
  "handleDeviceNetworkConfig s r device = WriteJSON 200 (PNetwork \<lparr>nc_InstanceID = se_instanceID s, nc_DeviceID = dv_ID device,
     nc_Addresses = map addr_String (device_Addrs device), nc_DNS = \<lparr>dns_Enabled = False, dns_Servers = []\<rparr>, nc_Peers = []\<rparr>)"

section \<open>Operations and negotiation\<close>

definition uptimeSeconds :: "Server \<Rightarrow> instant \<Rightarrow> int" where
  "uptimeSeconds s now = trunc_int (Seconds (time_Sub now (se_startedAt s)))"

definition handleLive :: "Server \<Rightarrow> handler" where
  "handleLive s r = WriteJSON 200 (PHealth \<lparr>hr_Status = StatusOK, hr_Version = in_Version (se_build s),
     hr_UptimeSeconds = uptimeSeconds s (rq_now r), hr_Checks = []\<rparr>)"

text \<open>
  The probes. A ping is a call of the driver like any other; \<open>fin\<close> is the instant at which the
  check ends.
\<close>

definition Milliseconds :: "duration \<Rightarrow> int" where
  "Milliseconds d = d sdiv 1000000"

definition checkDatabase :: "Server \<Rightarrow> instant \<Rightarrow> instant \<Rightarrow> (db, Check) comp" where
  "checkDatabase s start fin = (
     let finish = (\<lambda>status detail. returnM \<lparr>ck_Name = ''database'', ck_Status = status, ck_Detail = detail,
       ck_DurationMS = Milliseconds (time_Sub fin start)\<rparr>) in
     bindM (tryM driver_call) (\<lambda>ping. case ping of
       Inl err \<Rightarrow> finish StatusDown ''the database is not reachable''
     | Inr _ \<Rightarrow> bindM (tryM SchemaVersion) (\<lambda>res. case res of
         Inl err \<Rightarrow> finish StatusDown ''the schema version could not be read''
       | Inr applied \<Rightarrow> (case LoadMigrations (se_migrationsFS s) (db_Driver (cfg_Database (se_cfg s))) of
           Inl err \<Rightarrow> finish StatusDown ''the embedded migrations could not be read''
         | Inr expected \<Rightarrow> if expected = [] then finish StatusDown ''the embedded migrations could not be read''
             else if applied \<noteq> mg_Version (last expected) then finish StatusDegraded
               ''the database schema is not at the version this build expects; run the server once to migrate''
             else finish StatusOK []))))"

definition probe :: "Server \<Rightarrow> instant \<Rightarrow> instant \<Rightarrow> (db, HealthResponse) comp" where
  "probe s start fin = bindM (checkDatabase s start fin) (\<lambda>check. let checks = [check] in
     returnM \<lparr>hr_Status = foldl (\<lambda>overall c. Worse overall (ck_Status c)) StatusOK checks, hr_Version = in_Version (se_build s),
       hr_UptimeSeconds = uptimeSeconds s fin, hr_Checks = checks\<rparr>)"

definition handleReady :: "Server \<Rightarrow> handler" where
  "handleReady s r = bindM (on_db (probe s (rq_now r) (rq_done r))) (\<lambda>resp.
     WriteJSON (if hr_Status resp = StatusDown then 503 else 200) (PHealth resp))"

definition handleHealth :: "Server \<Rightarrow> handler" where
  "handleHealth s r = bindM (on_db (probe s (rq_now r) (rq_done r))) (\<lambda>resp.
     WriteJSON (if hr_Status resp = StatusDown then 503 else 200) (PHealth resp))"

definition handleMetrics :: "Server \<Rightarrow> handler" where
  "handleMetrics s r = (if \<not> MetricsEnabled (cfg_Observability (se_cfg s))
     then WriteError r CodeNotFound ''the metrics endpoint is disabled''
     else NotImplemented r ''Prometheus metrics'' ''Phase 12'')"

definition handleVersion :: "Server \<Rightarrow> handler" where
  "handleVersion s r = WriteJSON 200 (PVersion \<lparr>vr_Version = in_Version (se_build s), vr_Commit = in_Commit (se_build s),
     vr_BuildDate = in_BuildDate (se_build s), vr_ProtocolVersion = protocol_Version, vr_MinProtocolVersion = MinVersion,
     vr_Capabilities = Strings (NewSet Supported)\<rparr>)"

definition handleNegotiate :: "Server \<Rightarrow> handler" where
  "handleNegotiate s r = (case DecodeJSON (jc_negotiate (se_json s)) r of
     Inl resp \<Rightarrow> resp
   | Inr req \<Rightarrow>
       if nr_ProtocolVersion req \<le> 0 then WriteErrorDetail r CodeBadRequest
         ''protocol_version must be a positive integer'' ''field'' ''protocol_version''
       else let minVersion = (if nr_MinProtocolVersion req \<le> 0 then nr_ProtocolVersion req else nr_MinProtocolVersion req) in
       if minVersion > nr_ProtocolVersion req then WriteErrorDetail r CodeBadRequest
         ''min_protocol_version must not exceed protocol_version'' ''field'' ''min_protocol_version''
       else case Negotiate Local \<lparr>rg_Version = nr_ProtocolVersion req, rg_Min = minVersion\<rparr> (NewSet Supported)
           (ParseCapabilities (st_lower (se_devices s)) (nr_Capabilities req)) of
         Inl err \<Rightarrow> WriteErrorDetail r CodeUnsupportedProtocol (negotiate_Error err)
           ''server_protocol_version'' (Itoa_int protocol_Version)
       | Inr (v, caps) \<Rightarrow> WriteJSON 200 (PNegotiate \<lparr>np_ProtocolVersion = v, np_Capabilities = Strings caps,
           np_ServerVersion = in_Version (se_build s)\<rparr>))"

section \<open>Routes\<close>

text \<open>
  The patterns of the route table: a literal segment, or the wildcard \<open>{id}\<close>. As in
  \<open>http.ServeMux\<close>, a pattern of literals wins over one with a wildcard, and a \<open>GET\<close> pattern
  serves \<open>HEAD\<close> too.
\<close>

datatype seg = Lit string | Wild

fun match_path :: "seg list \<Rightarrow> string list \<Rightarrow> string option" where
  "match_path [] [] = Some []"
| "match_path (Lit a # ps) (b # bs) = (if a = b then match_path ps bs else None)"
| "match_path (Wild # ps) (b # bs) = (if b = [] then None else map_option (\<lambda>_. b) (match_path ps bs))"
| "match_path _ _ = None"

definition match_method :: "string \<Rightarrow> string \<Rightarrow> bool" where
  "match_method m method \<longleftrightarrow> m = method \<or> (m = ''GET'' \<and> method = ''HEAD'')"

definition BasePath :: "seg list" where
  "BasePath = [Lit ''api'', Lit ''v1'']"

type_synonym route = "string \<times> seg list \<times> handler"

definition routes :: "Server \<Rightarrow> route list" where
  "routes s = [
     (''GET'', [Lit ''health''], handleHealth s),
     (''GET'', [Lit ''live''], handleLive s),
     (''GET'', [Lit ''ready''], handleReady s),
     (''GET'', [Lit ''metrics''], handleMetrics s),
     (''GET'', BasePath @ [Lit ''version''], handleVersion s),
     (''POST'', BasePath @ [Lit ''protocol'', Lit ''negotiate''], handleNegotiate s),
     (''GET'', BasePath @ [Lit ''auth'', Lit ''status''], rateLimitAuth s (handleAuthStatus s)),
     (''POST'', BasePath @ [Lit ''auth'', Lit ''login''], rateLimitAuth s (handleLogin s)),
     (''POST'', BasePath @ [Lit ''auth'', Lit ''bootstrap''], rateLimitAuth s (handleBootstrap s)),
     (''POST'', BasePath @ [Lit ''auth'', Lit ''logout''], authenticated s (handleLogout s) False),
     (''GET'', BasePath @ [Lit ''auth'', Lit ''session''], authenticated s (handleSession s) False),
     (''GET'', BasePath @ [Lit ''devices''], authenticated s (handleListDevices s) False),
     (''POST'', BasePath @ [Lit ''devices''], authenticated s (handleRegisterDevice s) False),
     (''POST'', BasePath @ [Lit ''devices'', Lit ''enroll''], rateLimitAuth s (handleEnrollDevice s)),
     (''GET'', BasePath @ [Lit ''devices'', Lit ''me''], requireDevice s (handleDeviceMe s)),
     (''POST'', BasePath @ [Lit ''devices'', Lit ''me'', Lit ''heartbeat''], requireDevice s (handleDeviceHeartbeat s)),
     (''GET'', BasePath @ [Lit ''network'', Lit ''config''], requireDevice s (handleDeviceNetworkConfig s)),
     (''POST'', BasePath @ [Lit ''setup-keys''], authenticated s (handleCreateSetupKey s) True),
     (''GET'', BasePath @ [Lit ''setup-keys''], authenticated s (handleListSetupKeys s) True),
     (''GET'', BasePath @ [Lit ''devices'', Wild], authenticated s (handleGetDevice s) False),
     (''DELETE'', BasePath @ [Lit ''devices'', Wild], authenticated s (handleRevokeDevice s) False),
     (''DELETE'', BasePath @ [Lit ''setup-keys'', Wild], authenticated s (handleRevokeSetupKey s) True)]"

definition matches :: "request \<Rightarrow> route \<Rightarrow> bool" where
  "matches r = (\<lambda>(m, pat, h). match_method m (rq_Method r) \<and> match_path pat (rq_Path r) \<noteq> None)"

definition ServeMux :: "Server \<Rightarrow> handler" where
  "ServeMux s r = (case find (matches r) (routes s) of
     None \<Rightarrow> NotFoundHandler r
   | Some (m, pat, h) \<Rightarrow> h (r\<lparr>rq_PathID := (case match_path pat (rq_Path r) of None \<Rightarrow> [] | Some i \<Rightarrow> i)\<rparr>))"

text \<open>
  The chain. \<open>WithLogger\<close> and \<open>RequestLogger\<close>, which stand between \<open>RequestID\<close> and
  \<open>SecurityHeaders\<close>, only log and are left out.
\<close>

definition buildHandler :: "Server \<Rightarrow> handler" where
  "buildHandler s = Chain (ServeMux s) [Recoverer, RequestID, SecurityHeaders (se_secureCookies s),
     RateLimit sv_limiter (\<lambda>l st. st\<lparr>sv_limiter := l\<rparr>), Http_Layer.MaxBodyBytes (ServerConfig.MaxBodyBytes (cfg_Server (se_cfg s)))]"

text \<open>A request arrives with nothing in its context and no header set on its response.\<close>

definition fresh_response :: "state \<Rightarrow> state" where
  "fresh_response st = st\<lparr>sv_headers := [], sv_cookies := []\<rparr>"

definition arriving :: "request \<Rightarrow> request" where
  "arriving r = r\<lparr>rq_PathID := [], rq_bodyLimit := None, rq_requestID := [], rq_session := None, rq_user := None\<rparr>"

definition serve :: "Server \<Rightarrow> handler" where
  "serve s r w = buildHandler s (arriving r) (w\<lparr>w_db := fresh_response (w_db w)\<rparr>)"

end
