(* ===== verification/Control_Plane.thy ===== *)
theory Control_Plane
  imports Server_Routes
begin

text \<open>
  The control plane as a transition system: its states are what the process and the database
  hold, its steps the starts of the process and the requests it serves, each with any driver
  faults and any random bytes. A property of the database that every statement keeps is an
  invariant of the system.
\<close>

section \<open>Transition systems\<close>

locale transition_system =
  fixes initial :: "'s \<Rightarrow> bool" and step :: "'s \<Rightarrow> 'e \<Rightarrow> 's \<Rightarrow> bool"
begin

inductive reaches :: "'s \<Rightarrow> 's \<Rightarrow> bool" where
  refl: "reaches st st"
| step: "reaches st st' \<Longrightarrow> step st' e st'' \<Longrightarrow> reaches st st''"

definition reachable :: "'s \<Rightarrow> bool" where
  "reachable st \<longleftrightarrow> (\<exists>st0. initial st0 \<and> reaches st0 st)"

lemma reaches_invariant:
  assumes "\<And>st e st'. I st \<Longrightarrow> step st e st' \<Longrightarrow> I st'" "reaches st st'" "I st"
  shows "I st'"
  using assms(2,3) by (induction rule: reaches.induct) (auto intro: assms(1))

lemma invariant:
  assumes "\<And>st. initial st \<Longrightarrow> I st" "\<And>st e st'. I st \<Longrightarrow> step st e st' \<Longrightarrow> I st'" "reachable st"
  shows "I st"
proof -
  obtain st0 where "initial st0" "reaches st0 st" using assms(3) by (auto simp: reachable_def)
  then show ?thesis using reaches_invariant [of I st0 st] assms(1,2) by blast
qed

lemma reaches_trans:
  assumes "reaches b c" "reaches a b"
  shows "reaches a c"
  using assms by (induction rule: reaches.induct) (auto intro: reaches.step)

lemma reachable_reaches: "reachable st \<Longrightarrow> reaches st st' \<Longrightarrow> reachable st'"
  unfolding reachable_def using reaches_trans by blast

end

section \<open>The steps of the server\<close>

datatype event = Boot | Handled request "reply res"

definition initial :: "state \<Rightarrow> bool" where
  "initial st \<longleftrightarrow> (\<exists>l. sv_db st = empty_db\<lparr>schema_migrations := l\<rparr>)"

inductive server_step :: "Server \<Rightarrow> state \<Rightarrow> event \<Rightarrow> state \<Rightarrow> bool" for s where
  boot: "InstanceID now \<lparr>w_db = sv_db st, w_faults = fs, w_entropy = es\<rparr> = (res, v) \<Longrightarrow>
     server_step s st Boot (st\<lparr>sv_db := w_db v, sv_limiter := l, sv_authLimiter := a\<rparr>)"
| handle: "serve s r \<lparr>w_db = st, w_faults = fs, w_entropy = es\<rparr> = (res, w) \<Longrightarrow>
     server_step s st (Handled r res) (w_db w)"

inductive_cases server_step_bootE: "server_step s st Boot st'"
inductive_cases server_step_handleE: "server_step s st (Handled r res) st'"

interpretation plane: transition_system initial "server_step s" for s .

section \<open>Invariants of the database\<close>

text \<open>
  A property of the database that survives every statement the stores execute survives every
  request and every start.
\<close>

locale database_invariant =
  fixes J :: "db \<Rightarrow> bool"
  assumes session_insert: "J d \<Longrightarrow> insert_session row d = Inr (n, e) \<Longrightarrow> J e"
    and session_delete: "J d \<Longrightarrow> delete_sessions P d = Inr (n, e) \<Longrightarrow> J e"
    and session_touch: "J d \<Longrightarrow> update_sessions P (\<lambda>r. r\<lparr>s_last_used_at := now\<rparr>) d = Inr (n, e) \<Longrightarrow> J e"
    and enrolled: "J d \<Longrightarrow> create_guards st dev h now d \<Longrightarrow> J (created_db dev h now d)"
    and revoked: "J d \<Longrightarrow> J (revoked_db i now d)"
    and seen: "J d \<Longrightarrow> update_devices Q (\<lambda>r. r\<lparr>d_last_seen_at := Some now\<rparr>) d = Inr (n, e) \<Longrightarrow> J e"
    and key_insert: "J d \<Longrightarrow> insert_setup_key k d = Inr (n, e) \<Longrightarrow> k_uses k = 0 \<Longrightarrow> 0 \<le> k_max_uses k \<Longrightarrow> J e"
    and key_revoke: "J d \<Longrightarrow> update_setup_keys (\<lambda>r. k_id r = i \<and> k_revoked_at r = None) (\<lambda>r. r\<lparr>k_revoked_at := Some now\<rparr>) d = Inr (n, e) \<Longrightarrow> J e"
    and bootstrap: "commits J (bootstrap_tx s req now)"
    and password: "J d \<Longrightarrow> update_users (\<lambda>r. u_id r = i) (\<lambda>r. r\<lparr>u_password_hash := Some hash, u_updated_at := now\<rparr>) d = Inr (n, e) \<Longrightarrow> J e"
    and login: "J d \<Longrightarrow> update_users (\<lambda>r. u_id r = i) (\<lambda>r. r\<lparr>u_last_login_at := Some now\<rparr>) d = Inr (n, e) \<Longrightarrow> J e"
    and instance_id: "J d \<Longrightarrow> key \<in> {KeyInstanceID, KeyInitialisedAt} \<Longrightarrow> insert_metadata_once key val now d = Inr (n, e) \<Longrightarrow> J e"
begin

lemma sessions_kept:
  "keeps J (Issue s u m now)" "keeps J (Lookup s t now)" "keeps J (session_Revoke t)"
  unfolding Issue_def Lookup_def session_Revoke_def deleteByID_def Let_def
  by (intro pres_intros keeps_execM; erule session_insert session_delete session_touch; assumption)+

lemma users_kept: "keeps J (RehashPassword us i p now)" "keeps J (RecordLogin i now)"
  unfolding RehashPassword_def setPasswordHash_def RecordLogin_def
  by (intro pres_intros keeps_execM; erule password login; assumption)+

lemma keys_kept: "keeps J (CreateSetupKey s u inp now)" "keeps J (RevokeSetupKey s i now)"
proof -
  show "keeps J (CreateSetupKey s u inp now)"
    unfolding CreateSetupKey_def Let_def by (intro pres_intros keeps_execM) (auto elim: key_insert)
  show "keeps J (RevokeSetupKey s i now)"
    unfolding RevokeSetupKey_def SetupKeyByID_def by (intro pres_intros keeps_execM) (erule key_revoke; assumption)
qed

lemma create_kept: "allocator_ok (st_allocator s) \<Longrightarrow> keeps J (create s u inp k h now)"
proof -
  assume ok: "allocator_ok (st_allocator s)"
  have "commits J (create_tx s dev h now)" for dev
    unfolding commits_def using create_tx_Ret [OF ok] enrolled by metis
  then show ?thesis unfolding create_def Let_def by (intro pres_intros)
qed

lemma devices_kept:
  assumes "allocator_ok (st_allocator s)"
  shows "keeps J (Register s u inp now)" "keeps J (Enroll s t inp now)"
  unfolding Register_def Enroll_def Let_def by (intro pres_intros create_kept assms)+

lemma revoke_kept: "keeps J (Revoke i sc now)"
proof -
  have "commits J (revoke_tx i now)" for i unfolding commits_def using revoke_tx_Ret revoked by metis
  then show ?thesis unfolding Revoke_def by (intro pres_intros)
qed

lemma heartbeat_kept: "keeps J (Heartbeat t now)"
  unfolding Heartbeat_def by (intro pres_intros keeps_execM) (erule seen; assumption)

lemma instance_kept: "keeps J (InstanceID now)"
  unfolding InstanceID_def instance_tx_def
  by (intro pres_intros keeps_execM keeps_commits) (erule instance_id; simp)+

lemma reads_kept: "keeps J (List_devices sc)" "keeps J (ByID i sc)" "keeps J (ListSetupKeys s)" "keeps J user_Count"
  "keeps J (user_ByID i)" "keeps J (ByEmail us em)" "keeps J (Authenticate t)"
  unfolding List_devices_def ListSetupKeys_def by (intro pres_intros)+

lemmas store_kept = sessions_kept users_kept keys_kept revoke_kept heartbeat_kept reads_kept

lemma account_handlers_kept:
  "db_keeps J (handleAuthStatus s r)" "db_keeps J (handleLogout s r)" "db_keeps J (handleSession s r)"
  "db_keeps J (finish_login s r u)"
  unfolding handleAuthStatus_def handleLogout_def handleSession_def finish_login_def
  by (intro db_intros store_kept)+

lemma entry_handlers_kept: "db_keeps J (handleBootstrap s r)" "db_keeps J (handleLogin s r)"
proof -
  show "db_keeps J (handleBootstrap s r)"
    unfolding handleBootstrap_def by (rule db_keeps_DecodeJSON) (intro db_intros store_kept keeps_InTx bootstrap)
  show "db_keeps J (handleLogin s r)"
    unfolding handleLogin_def by (rule db_keeps_DecodeJSON) (intro db_intros store_kept account_handlers_kept)
qed

lemma errors_kept: "db_keeps J (writeDeviceError s r e)" "db_keeps J (writeDeviceAuthError r e)"
  unfolding writeDeviceError_def writeDeviceAuthError_def by (intro db_intros)+

lemma device_handlers_kept:
  assumes "allocator_ok (st_allocator (se_devices s))"
  shows "db_keeps J (handleListDevices s r)" "db_keeps J (handleGetDevice s r)" "db_keeps J (handleRevokeDevice s r)"
    "db_keeps J (handleRegisterDevice s r)" "db_keeps J (handleEnrollDevice s r)"
proof -
  show "db_keeps J (handleListDevices s r)" "db_keeps J (handleGetDevice s r)" "db_keeps J (handleRevokeDevice s r)"
    unfolding handleListDevices_def handleGetDevice_def handleRevokeDevice_def
    by (intro db_intros store_kept errors_kept)+
  show "db_keeps J (handleRegisterDevice s r)"
    unfolding handleRegisterDevice_def
    by (intro db_keeps_option db_keeps_writes db_keeps_DecodeJSON) (intro db_intros devices_kept assms errors_kept)
  show "db_keeps J (handleEnrollDevice s r)"
    unfolding handleEnrollDevice_def by (rule db_keeps_DecodeJSON) (intro db_intros devices_kept assms errors_kept)
qed

lemma key_handlers_kept:
  "db_keeps J (handleCreateSetupKey s r)" "db_keeps J (handleListSetupKeys s r)" "db_keeps J (handleRevokeSetupKey s r)"
proof -
  show "db_keeps J (handleCreateSetupKey s r)"
    unfolding handleCreateSetupKey_def
    by (intro db_keeps_option db_keeps_writes db_keeps_DecodeJSON) (intro db_intros store_kept)
  show "db_keeps J (handleListSetupKeys s r)" "db_keeps J (handleRevokeSetupKey s r)"
    unfolding handleListSetupKeys_def handleRevokeSetupKey_def by (intro db_intros store_kept)+
qed

lemma probe_kept: "keeps J (probe s start fin)"
  unfolding probe_def checkDatabase_def SchemaVersion_def AppliedMigrations_def Let_def by (intro pres_intros keeps_driver_call)

lemma other_handlers_kept:
  "db_keeps J (handleDeviceMe s r d)" "db_keeps J (handleDeviceHeartbeat s r d)" "db_keeps J (handleDeviceNetworkConfig s r d)"
  "db_keeps J (handleLive s r)" "db_keeps J (handleReady s r)" "db_keeps J (handleHealth s r)" "db_keeps J (handleMetrics s r)" "db_keeps J (handleVersion s r)" "db_keeps J (handleNegotiate s r)"
proof -
  show "db_keeps J (handleNegotiate s r)"
    unfolding handleNegotiate_def by (rule db_keeps_DecodeJSON) (intro db_intros)
qed (unfold handleDeviceMe_def handleDeviceHeartbeat_def handleDeviceNetworkConfig_def handleLive_def handleReady_def handleHealth_def handleMetrics_def
    handleVersion_def,
     (intro db_intros store_kept errors_kept probe_kept)+)

lemma routes_kept:
  assumes "allocator_ok (st_allocator (se_devices s))" "(m, pat, h) \<in> set (routes s)"
  shows "db_keeps J (h r)"
  using assms(2) unfolding routes_def
  by (auto intro!: db_keeps_authenticated db_keeps_rateLimitAuth db_keeps_requireDevice sessions_kept account_handlers_kept
      entry_handlers_kept device_handlers_kept [OF assms(1)] key_handlers_kept other_handlers_kept)

lemma mux_kept:
  assumes "allocator_ok (st_allocator (se_devices s))"
  shows "db_keeps J (ServeMux s r)"
proof (cases "find (matches r) (routes s)")
  case None
  then show ?thesis by (simp add: ServeMux_def NotFoundHandler_def db_keeps_writes)
next
  case (Some x)
  obtain m pat h where x: "x = (m, pat, h)" by (cases x)
  then have "(m, pat, h) \<in> set (routes s)" using find_SomeD [OF Some] by simp
  then show ?thesis using Some x routes_kept [OF assms] by (simp add: ServeMux_def)
qed

lemma serve_kept:
  assumes "allocator_ok (st_allocator (se_devices s))"
  shows "db_keeps J (serve s r)"
proof -
  have "db_keeps J (buildHandler s r')" for r'
    unfolding buildHandler_def Chain_def using mux_kept [OF assms]
    by (auto intro!: db_keeps_Recoverer db_keeps_RequestID db_keeps_SecurityHeaders db_keeps_RateLimit db_keeps_MaxBodyBytes)
  then show ?thesis
    by (auto simp: db_keeps_def keeps_def serve_def fresh_response_def)
qed

lemma step_kept:
  assumes "allocator_ok (st_allocator (se_devices s))" "server_step s st ev st'" "J (sv_db st)"
  shows "J (sv_db st')"
  using assms(2)
proof cases
  case (boot now fs es res v l a)
  then show ?thesis using keepsD [OF instance_kept boot(3)] assms(3) by simp
next
  case (handle r fs es res w)
  then show ?thesis using db_keepsD [OF serve_kept [OF assms(1)] handle(3)] assms(3) by simp
qed

lemma reaches_kept:
  assumes "allocator_ok (st_allocator (se_devices s))" "plane.reaches s st st'" "J (sv_db st)"
  shows "J (sv_db st')"
  using plane.reaches_invariant [of "\<lambda>st. J (sv_db st)" s st st'] step_kept [OF assms(1)] assms(2,3) by blast

lemma reachable_kept:
  assumes "allocator_ok (st_allocator (se_devices s))" "plane.reachable s st" "\<And>l. J (empty_db\<lparr>schema_migrations := l\<rparr>)"
  shows "J (sv_db st)"
proof (rule plane.invariant [OF _ _ assms(2)])
  show "J (sv_db st0)" if "initial st0" for st0 using that assms(3) by (fastforce simp: initial_def)
qed (use step_kept [OF assms(1)] in blast)

end
end
