(* ===== verification/Inventory_History.thy ===== *)
theory Inventory_History
  imports Control_Plane
begin

text \<open>
  Three properties of the database that every statement keeps, as interpretations of
  \<open>database_invariant\<close>: the inventory is consistent, the installation has its one
  administrator exactly when it has been claimed, and history only moves forward.
\<close>

section \<open>Consistency\<close>

interpretation inventory: database_invariant consistent
proof unfold_locales
  show "commits consistent (bootstrap_tx s req now)" for s req now by (rule commits_bootstrap_tx)
next
  fix d n e P now assume "consistent d" "update_devices P (\<lambda>r. r\<lparr>d_last_seen_at := Some now\<rparr>) d = Inr (n, e)"
  then show "consistent e" by (auto simp: update_devices_def update_where_def intro: seen_consistent)
qed (auto elim: insert_session_consistent delete_sessions_consistent touch_sessions_consistent revoke_key_consistent
    insert_setup_key_consistent update_users_consistent insert_metadata_once_consistent intro: created_consistent revoked_consistent)

section \<open>The administrator\<close>

text \<open>
  Bootstrap is the only operation that creates an account, so there is at most one, it is an
  administrator, and it exists exactly when the installation has been claimed.
\<close>

definition bootstrap_ok :: "db \<Rightarrow> bool" where
  "bootstrap_ok d \<longleftrightarrow> (claimed d \<longleftrightarrow> users d \<noteq> []) \<and> length (users d) \<le> 1 \<and> (\<forall>u \<in> set (users d). u_role u = RoleAdmin)"

lemma claimed_metadata: "metadata e = metadata d \<Longrightarrow> claimed e = claimed d"
  by (simp add: claimed_def)

lemma bootstrap_ok_frame:
  "bootstrap_ok d \<Longrightarrow> server_metadata e = server_metadata d \<Longrightarrow> map u_role (users e) = map u_role (users d) \<Longrightarrow> bootstrap_ok e"
proof -
  assume a: "bootstrap_ok d" "server_metadata e = server_metadata d" and m: "map u_role (users e) = map u_role (users d)"
  from m have "length (users e) = length (users d)" "u_role ` set (users e) = u_role ` set (users d)"
    by (metis length_map, metis image_set)
  then show "bootstrap_ok e" using a by (auto simp: bootstrap_ok_def claimed_def metadata_def ball_simps(9) [symmetric] simp del: ball_simps)
qed

lemma commits_bootstrap: "commits bootstrap_ok (bootstrap_tx s req now)"
  unfolding commits_def
proof (intro allI impI)
  fix w x w' assume run: "bootstrap_tx s req now w = (Ret x, w')" and ok: "bootstrap_ok (w_db w)"
  obtain w1 where c: "ClaimBootstrap now w = (Ret True, w1)"
    and u: "user_Create (se_users s) \<lparr>nu_Email = br_Email req, nu_Password = br_Password req, nu_DisplayName = br_DisplayName req,
       nu_Role = RoleAdmin\<rparr> now w1 = (Ret x, w')"
    using run by (auto simp: bootstrap_tx_def bindM_Ret split: if_splits)
  note cl = ClaimBootstrap_Ret [OF c] and us = user_Create_Ret [OF u]
  have "users (w_db w1) = users (w_db w)" using cl by (metis db.select_convs(2) db.surjective db.update_convs(1))
  then have "users (w_db w1) = []" using cl ok by (simp add: bootstrap_ok_def)
  moreover have "claimed (w_db w')" using cl us by (simp add: claimed_def metadata_def)
  moreover have "u_role (user_row_of x) = RoleAdmin" using us by (simp add: user_row_of_def RoleAdmin_def)
  ultimately show "bootstrap_ok (w_db w')" using us by (simp add: bootstrap_ok_def)
qed

lemma bootstrap_ok_once:
  assumes "bootstrap_ok d" "key \<in> {KeyInstanceID, KeyInitialisedAt}" "insert_metadata_once key val now d = Inr (n, e)"
  shows "bootstrap_ok e"
proof -
  have "metadata e KeyBootstrapClaimedAt = metadata d KeyBootstrapClaimedAt" "users e = users d"
    using insert_metadata_once_eff [OF assms(3)] assms(2)
    by (auto simp: KeyInstanceID_def KeyInitialisedAt_def KeyBootstrapClaimedAt_def) (metis db.select_convs(2) db.surjective db.update_convs(1))+
  then show ?thesis using assms(1) by (simp add: bootstrap_ok_def claimed_def)
qed

interpretation administrator: database_invariant bootstrap_ok
proof unfold_locales
  show "commits bootstrap_ok (bootstrap_tx s req now)" for s req now by (rule commits_bootstrap)
next
  show "bootstrap_ok e" if "bootstrap_ok d" "key \<in> {KeyInstanceID, KeyInitialisedAt}" "insert_metadata_once key val now d = Inr (n, e)"
    for d e key val now n using that by (rule bootstrap_ok_once)
qed (auto elim!: bootstrap_ok_frame simp: insert_session_def delete_sessions_def update_sessions_def
    update_devices_def insert_setup_key_def update_setup_keys_def update_users_def update_where_def delete_where_def
    split: if_splits)

section \<open>History\<close>

text \<open>
  What later states keep of an earlier one: metadata written once, the identity of every device
  and that it was revoked, the terms of every setup key, its uses and that it was revoked, and
  every account.
\<close>

definition device_after :: "device_row \<Rightarrow> device_row \<Rightarrow> bool" where
  "device_after r r' \<longleftrightarrow> d_id r' = d_id r \<and> d_user_id r' = d_user_id r \<and> d_public_key r' = d_public_key r \<and>
     d_enrolled_with r' = d_enrolled_with r \<and> (d_revoked_at r \<noteq> None \<longrightarrow> d_revoked_at r' = d_revoked_at r)"

definition key_after :: "key_row \<Rightarrow> key_row \<Rightarrow> bool" where
  "key_after k k' \<longleftrightarrow> k_id k' = k_id k \<and> k_key_hash k' = k_key_hash k \<and> k_created_by k' = k_created_by k \<and>
     k_expires_at k' = k_expires_at k \<and> k_max_uses k' = k_max_uses k \<and> k_uses k \<le> k_uses k' \<and>
     (k_revoked_at k \<noteq> None \<longrightarrow> k_revoked_at k' = k_revoked_at k)"

definition later :: "db \<Rightarrow> db \<Rightarrow> bool" where
  "later d e \<longleftrightarrow> metadata d \<subseteq>\<^sub>m metadata e \<and> u_id ` set (users d) \<subseteq> u_id ` set (users e) \<and>
     (\<forall>r \<in> set (devices d). \<exists>r' \<in> set (devices e). device_after r r') \<and>
     (\<forall>k \<in> set (setup_keys d). \<exists>k' \<in> set (setup_keys e). key_after k k')"

lemma device_after_refl [simp]: "device_after r r" by (simp add: device_after_def)
lemma key_after_refl [simp]: "key_after k k" by (simp add: key_after_def)
lemma device_after_trans: "device_after a b \<Longrightarrow> device_after b c \<Longrightarrow> device_after a c" by (auto simp: device_after_def)
lemma key_after_trans: "key_after a b \<Longrightarrow> key_after b c \<Longrightarrow> key_after a c" by (auto simp: key_after_def)

lemma later_refl: "later d d"
  unfolding later_def using device_after_refl key_after_refl by (auto intro!: bexI)

lemma later_trans:
  assumes "later c d" "later d e" shows "later c e"
  using assms map_le_trans [of "metadata c" "metadata d" "metadata e"]
  unfolding later_def by (meson device_after_trans key_after_trans order_trans)

text \<open>A statement on one table, by what it does to each row.\<close>

lemma later_rows:
  assumes "\<And>r. device_after r (f r)" "\<And>k. key_after k (g k)" "metadata d \<subseteq>\<^sub>m metadata e"
    "u_id ` set (users d) \<subseteq> u_id ` set (users e)"
    "f ` set (devices d) \<subseteq> set (devices e)" "g ` set (setup_keys d) \<subseteq> set (setup_keys e)"
  shows "later d e"
  using assms unfolding later_def by (meson image_subset_iff)

lemma later_same: "server_metadata e = server_metadata d \<Longrightarrow> u_id ` set (users d) \<subseteq> u_id ` set (users e) \<Longrightarrow> devices e = devices d \<Longrightarrow>
    set (setup_keys d) \<subseteq> set (setup_keys e) \<Longrightarrow> later d e"
  by (rule later_rows [of "\<lambda>r. r" "\<lambda>k. k"]) (auto simp: metadata_def map_le_def dom_def)

lemma later_sessions:
  "insert_session row d = Inr (n, e) \<Longrightarrow> later d e" "delete_sessions P d = Inr (n, e) \<Longrightarrow> later d e"
  "update_sessions P f d = Inr (n, e) \<Longrightarrow> later d e"
  by (rule later_same; auto simp: insert_session_def delete_sessions_def update_sessions_def update_where_def delete_where_def split: if_splits)+

lemma later_users: "update_users P f d = Inr (n, e) \<Longrightarrow> (\<And>r. u_id (f r) = u_id r) \<Longrightarrow> later d e"
proof (rule later_same)
  assume u: "update_users P f d = Inr (n, e)" and f: "\<And>r. u_id (f r) = u_id r"
  have "users e = map (\<lambda>r. if P r then f r else r) (users d)" using u by (auto simp: update_users_def update_where_def)
  then show "u_id ` set (users d) \<subseteq> u_id ` set (users e)" using set_update_unchanged [of u_id f P "users d"] f by simp
qed (auto simp: update_users_def update_where_def)

lemma later_key_insert: "insert_setup_key k d = Inr (n, e) \<Longrightarrow> later d e"
  by (rule later_same) (auto simp: insert_setup_key_def split: if_splits)

lemma later_key_revoke:
  "update_setup_keys (\<lambda>r. k_id r = i \<and> k_revoked_at r = None) (\<lambda>r. r\<lparr>k_revoked_at := Some now\<rparr>) d = Inr (n, e) \<Longrightarrow> later d e"
  by (rule later_rows [of "\<lambda>r. r" "\<lambda>r. if k_id r = i \<and> k_revoked_at r = None then r\<lparr>k_revoked_at := Some now\<rparr> else r"])
     (auto simp: update_setup_keys_def update_where_def key_after_def metadata_def map_le_def)

lemma later_seen: "update_devices P (\<lambda>r. r\<lparr>d_last_seen_at := Some now\<rparr>) d = Inr (n, e) \<Longrightarrow> later d e"
  by (rule later_rows [of "\<lambda>r. if P d r then r\<lparr>d_last_seen_at := Some now\<rparr> else r" "\<lambda>k. k"])
     (auto simp: update_devices_def update_where_def device_after_def metadata_def map_le_def)

lemma later_created: "later d (created_db dev h now d)"
  by (rule later_rows [of "\<lambda>r. r" "\<lambda>r. if dv_EnrolledWith dev \<noteq> [] \<and> redeemable_row (dv_EnrolledWith dev) now r then r\<lparr>k_uses := k_uses r + 1\<rparr> else r"])
     (auto simp: key_after_def metadata_def map_le_def redeemed_keys_def)

lemma later_revoked: "later d (revoked_db i now d)"
  by (rule later_rows [of "\<lambda>r. if d_id r = i \<and> d_revoked_at r = None then r\<lparr>d_revoked_at := Some now, d_ipv4 := None, d_ipv6 := None\<rparr> else r" "\<lambda>k. k"])
     (auto simp: device_after_def metadata_def map_le_def revoked_db_def)

lemma later_once: "insert_metadata_once key val now d = Inr (n, e) \<Longrightarrow> later d e"
proof -
  assume i: "insert_metadata_once key val now d = Inr (n, e)"
  then have "users e = users d" "devices e = devices d" "setup_keys e = setup_keys d"
    by (auto simp: insert_metadata_once_def split: if_splits)
  with insert_metadata_once_eff [OF i] show ?thesis
    by (intro later_rows [of "\<lambda>r. r" "\<lambda>k. k"]) (auto simp: map_le_def)
qed

lemma later_bootstrap: "commits (later d) (bootstrap_tx s req now)"
  unfolding commits_def
proof (intro allI impI)
  fix w x w' assume run: "bootstrap_tx s req now w = (Ret x, w')" and l: "later d (w_db w)"
  obtain w1 n where "insert_metadata_once KeyBootstrapClaimedAt (format_RFC3339 now) now (w_db w) = Inr (n, w_db w1)"
    and u: "user_Create (se_users s) \<lparr>nu_Email = br_Email req, nu_Password = br_Password req, nu_DisplayName = br_DisplayName req,
       nu_Role = RoleAdmin\<rparr> now w1 = (Ret x, w')"
    using run by (auto simp: bootstrap_tx_def ClaimBootstrap_def bindM_Ret split: if_splits dest!: execM_Ret rowsAffected_frame)
       (metis (no_types, lifting))
  then have "later (w_db w) (w_db w1)" "later (w_db w1) (w_db w')"
    using user_Create_Ret [OF u] by (auto intro: later_once later_same)
  then show "later d (w_db w')" using l later_trans by blast
qed

interpretation history: database_invariant "later d0" for d0
  by unfold_locales
    (auto elim!: later_trans simp: later_bootstrap
       intro: later_sessions later_created later_revoked later_seen later_key_insert later_key_revoke later_users later_once)

end
