(* ===== verification/Device_Lifecycle.thy ===== *)
theory Device_Lifecycle
  imports Devices
begin

text \<open>
  The life of a device over the store: enrolment and registration either write everything or
  nothing, they succeed whenever nothing stands in their way, and the credential enrolment
  returns authenticates the device until it is revoked and never afterwards.
\<close>

section \<open>All or nothing\<close>

lemma create_abort:
  "create s u inp k h now w = (r, w') \<Longrightarrow> \<forall>x. r \<noteq> Ret x \<Longrightarrow> w_db w' = w_db w"
proof -
  assume run: "create s u inp k h now w = (r, w')" and no: "\<forall>x. r \<noteq> Ret x"
  show "w_db w' = w_db w"
  proof (cases "truncate_str (TrimSpace (nd_Name inp)) maxNameLength = [] \<or> ValidatePublicKey (TrimSpace (nd_PublicKey inp)) \<noteq> None")
    case True
    with run show ?thesis by (auto simp: create_def Let_def failM_def split: if_splits option.splits)
  next
    case False
    then obtain m where m: "create s u inp k h now w = bindM (NewID DeviceIDPrefix) (\<lambda>i. InTx (m i)) w"
      by (auto simp: create_def Let_def)
    obtain q w1 where n: "NewID DeviceIDPrefix w = (q, w1)" by fastforce
    have w1: "w_db w1 = w_db w" using NewID_frame [OF n] by simp
    show ?thesis
    proof (cases q)
      case (Ret i)
      then have "InTx (m i) w1 = (r, w')" using run m n by (simp add: bindM_def)
      from InTx_abort [OF this no] w1 show ?thesis by simp
    qed (use run m n w1 in \<open>simp_all add: bindM_def\<close>)
  qed
qed

lemma SetupKeyByToken_frame: "SetupKeyByToken s t w = (r, w') \<Longrightarrow> w_db w' = w_db w \<and> w_entropy w' = w_entropy w"
  by (auto simp: SetupKeyByToken_def failM_def split: if_splits dest: oneSetupKey_frame)

lemma Enroll_abort:
  assumes run: "Enroll s token inp now w = (r, w')" and no: "\<forall>x. r \<noteq> Ret x"
  shows "w_db w' = w_db w"
proof -
  obtain q w1 where k: "SetupKeyByToken s token w = (q, w1)" by fastforce
  have w1: "w_db w1 = w_db w" using SetupKeyByToken_frame [OF k] by simp
  show ?thesis
  proof (cases q)
    case (Ret key)
    show ?thesis
    proof (cases "Redeemable key now")
      case (Some e)
      with run k Ret w1 show ?thesis by (simp add: Enroll_def bindM_def failM_def)
    next
      case None
      obtain q2 w2 where t: "NewToken 32 w1 = (q2, w2)" by fastforce
      have w2: "w_db w2 = w_db w" using NewToken_frame [OF t] w1 by simp
      show ?thesis
      proof (cases q2)
        case ret: (Ret raw)
        let ?c = "create s (sk_CreatedBy key) inp (sk_ID key) (HashToken (deviceTokenPrefix @ raw)) now"
        obtain q3 w3 where c: "?c w2 = (q3, w3)" by fastforce
        have e: "Enroll s token inp now w = (case q3 of Ret d \<Rightarrow> (Ret (d, deviceTokenPrefix @ raw), w3)
            | Err e \<Rightarrow> (Err e, w3) | Panic p \<Rightarrow> (Panic p, w3))"
          using k Ret None t ret c by (cases q3) (simp_all add: Enroll_def bindM_def returnM_def Let_def)
        with run no have "\<forall>x. q3 \<noteq> Ret x" "w' = w3" by (cases q3; auto)+
        with create_abort [OF c] w2 show ?thesis by simp
      qed (use run k Ret None t w2 in \<open>simp_all add: Enroll_def bindM_def\<close>)
    qed
  qed (use run k w1 in \<open>simp_all add: Enroll_def bindM_def\<close>)
qed

lemma ByID_frame: "ByID i sc w = (r, w') \<Longrightarrow> w_db w' = w_db w \<and> w_entropy w' = w_entropy w"
  unfolding ByID_def
  by (auto simp: bindM_def mapErr_def returnM_def failM_def split: prod.splits res.splits option.splits dest: queryM_frame)

lemma ByID_Ret: "ByID i sc w = (Ret dev, w') \<Longrightarrow>
    \<exists>r \<in> set (devices (w_db w)). d_id r = i \<and> in_scope sc r \<and> dev = scanDevice r"
  unfolding ByID_def by (auto simp: bindM_Ret case_option_Ret dest!: queryM_Ret find_SomeD)

lemma Revoke_Ret:
  assumes "Revoke i sc now w = (Ret u, w')"
  shows "w_db w' = revoked_db i now (w_db w) \<and>
    (\<exists>r \<in> set (devices (w_db w)). d_id r = i \<and> in_scope sc r \<and> d_revoked_at r = None)"
proof -
  obtain dev w1 where b: "ByID i sc w = (Ret dev, w1)" and r: "\<not> Revoked dev"
    and t: "InTx (revoke_tx (dv_ID dev) now) w1 = (Ret u, w')"
    using assms unfolding Revoke_def by (auto simp: bindM_Ret split: if_splits)
  obtain q where q: "q \<in> set (devices (w_db w))" "d_id q = i" "in_scope sc q" "dev = scanDevice q"
    using ByID_Ret [OF b] by blast
  have "dv_ID dev = i" "d_revoked_at q = None" using q r by (simp_all add: scanDevice_def Revoked_def)
  moreover obtain w2 w3 where "revoke_tx (dv_ID dev) now w2 = (Ret u, w3)" "w_db w2 = w_db w1" "w_db w' = w_db w3"
    using InTx_Ret [OF t] by blast
  ultimately show ?thesis using revoke_tx_Ret [of "dv_ID dev" now w2 u w3] ByID_frame [OF b] q by auto
qed

lemma Revoke_abort:
  assumes run: "Revoke i sc now w = (r, w')" and no: "\<forall>x. r \<noteq> Ret x"
  shows "w_db w' = w_db w"
proof -
  obtain q w1 where b: "ByID i sc w = (q, w1)" by fastforce
  have w1: "w_db w1 = w_db w" using ByID_frame [OF b] by simp
  show ?thesis
  proof (cases q)
    case (Ret dev)
    with run b w1 no show ?thesis
      using InTx_abort [of "revoke_tx (dv_ID dev) now" w1 r w']
      by (auto simp: Revoke_def bindM_def failM_def split: if_splits)
  qed (use run b w1 in \<open>simp_all add: Revoke_def bindM_def\<close>)
qed

section \<open>A creation that must succeed\<close>

definition new_id :: "byte list \<Rightarrow> string" where
  "new_id bs = DeviceIDPrefix @ ''_'' @ base32_Encode (take IDEntropyBytes bs)"

lemma NewID_device: "IDEntropyBytes \<le> length (w_entropy w) \<Longrightarrow>
    NewID DeviceIDPrefix w = (Ret (new_id (w_entropy w)), w\<lparr>w_entropy := drop IDEntropyBytes (w_entropy w)\<rparr>)"
  by (simp add: NewID_Ret new_id_def DeviceIDPrefix_def)

lemma calm_oneSetupKey:
  "w_faults w = [] \<Longrightarrow> oneSetupKey s P w = (case find P (setup_keys (w_db w)) of
     None \<Rightarrow> (Err ErrKeyNotFound, w) | Some r \<Rightarrow> (Ret (scanSetupKey s r), w))"
  by (simp add: oneSetupKey_def bindM_def mapErr_def calm_queryM returnM_def failM_def split: option.splits)

lemma find_Some: "x \<in> set xs \<Longrightarrow> P x \<Longrightarrow> \<exists>y. find P xs = Some y \<and> P y"
  by (induction xs) auto

lemma calm_redeem:
  assumes "w_faults w = []" "ident \<noteq> [] \<longrightarrow> (\<exists>r \<in> set (setup_keys (w_db w)). redeemable_row ident now r)"
  shows "redeem s ident now w = (Ret (), w\<lparr>w_db := (w_db w)\<lparr>setup_keys := redeemed_keys ident now (setup_keys (w_db w))\<rparr>\<rparr>)"
proof (cases "ident = []")
  case False
  then obtain r where r: "r \<in> set (setup_keys (w_db w))" "redeemable_row ident now r" using assms(2) by blast
  then have "k_id r = ident" by (simp add: redeemable_row_def)
  then obtain q where q: "find (\<lambda>r. k_id r = ident) (setup_keys (w_db w)) = Some q" "k_id q = ident"
    using find_Some [OF r(1), of "\<lambda>r. k_id r = ident"] by blast
  have "filter (redeemable_row ident now) (setup_keys (w_db w)) \<noteq> []" using r by (auto simp: filter_empty_conv)
  with False q show ?thesis
    by (simp add: redeem_def setupKeyByIDTx_def bindM_def calm_oneSetupKey [OF assms(1)] consumeSetupKey_def mapErr_def
        calm_execM [OF assms(1)] update_setup_keys_def update_where_def calm_rowsAffected assms(1) returnM_def
        scanSetupKey_def redeemed_keys_def)
qed (simp add: redeem_def returnM_def redeemed_keys_def)

text \<open>The device \<open>create\<close> builds before it has addresses.\<close>

definition draft_device :: "string \<Rightarrow> NewDevice \<Rightarrow> string \<Rightarrow> instant \<Rightarrow> string \<Rightarrow> Device" where
  "draft_device u inp k now ident = \<lparr>dv_ID = ident, dv_UserID = u,
     dv_Name = truncate_str (TrimSpace (nd_Name inp)) maxNameLength, dv_PublicKey = TrimSpace (nd_PublicKey inp),
     dv_OS = truncate_str (TrimSpace (nd_OS inp)) maxMetadataLength,
     dv_Hostname = truncate_str (TrimSpace (nd_Hostname inp)) maxMetadataLength,
     dv_IPv4 = AddrInvalid, dv_IPv6 = AddrInvalid, dv_EnrolledWith = k, dv_CreatedAt = now,
     dv_LastSeenAt = None, dv_RevokedAt = None\<rparr>"

lemma create_run:
  "create s u inp k h now = (if truncate_str (TrimSpace (nd_Name inp)) maxNameLength = [] then failM ErrInvalidName
     else case ValidatePublicKey (TrimSpace (nd_PublicKey inp)) of Some e \<Rightarrow> failM e
     | None \<Rightarrow> bindM (NewID DeviceIDPrefix) (\<lambda>ident. InTx (create_tx s (draft_device u inp k now ident) h now)))"
  unfolding create_def Let_def draft_device_def ..

lemma create_Ret:
  assumes "allocator_ok (st_allocator s)" "create s u inp k h now w = (Ret dev, w')"
  shows "ValidatePublicKey (TrimSpace (nd_PublicKey inp)) = None \<and> dv_Name dev \<noteq> [] \<and>
    IDEntropyBytes \<le> length (w_entropy w) \<and>
    (\<exists>as :: Assignment. dev = (draft_device u inp k now (new_id (w_entropy w)))\<lparr>dv_IPv4 := as_IPv4 as, dv_IPv6 := as_IPv6 as\<rparr>) \<and>
    create_guards s dev h now (w_db w) \<and> w_db w' = created_db dev h now (w_db w)"
proof -
  have v: "ValidatePublicKey (TrimSpace (nd_PublicKey inp)) = None"
    "truncate_str (TrimSpace (nd_Name inp)) maxNameLength \<noteq> []"
    using assms(2) by (auto simp: create_run split: if_splits option.splits)
  then obtain ident w1 where n: "NewID DeviceIDPrefix w = (Ret ident, w1)"
    and tx: "InTx (create_tx s (draft_device u inp k now ident) h now) w1 = (Ret dev, w')"
    using assms(2) by (auto simp: create_run bindM_Ret)
  obtain w2 w3 where c: "create_tx s (draft_device u inp k now ident) h now w2 = (Ret dev, w3)"
    "w_db w2 = w_db w1" "w_db w' = w_db w3"
    using InTx_Ret [OF tx] by blast
  obtain as :: Assignment where
    dev: "dev = (draft_device u inp k now ident)\<lparr>dv_IPv4 := as_IPv4 as, dv_IPv6 := as_IPv6 as\<rparr>"
    and g: "create_guards s dev h now (w_db w2)" "w_db w3 = created_db dev h now (w_db w2)"
    using create_tx_Ret [OF assms(1) c(1)] by blast
  have ident: "ident = new_id (w_entropy w)" "IDEntropyBytes \<le> length (w_entropy w)"
    using n by (simp_all add: NewID_Ret new_id_def DeviceIDPrefix_def)
  have db: "w_db w1 = w_db w" using NewID_frame [OF n] by simp
  have "dv_Name dev \<noteq> []" using v(2) by (simp add: dev draft_device_def)
  with v ident dev g c db show ?thesis by auto
qed

lemma create_total:
  assumes calm: "w_faults w = []" "IDEntropyBytes \<le> length (w_entropy w)"
    and ok: "consistent (w_db w)" "allocator_ok (st_allocator s)"
    and inp: "truncate_str (TrimSpace (nd_Name inp)) maxNameLength \<noteq> []"
      "ValidatePublicKey (TrimSpace (nd_PublicKey inp)) = None"
      "TrimSpace (nd_PublicKey inp) \<notin> d_public_key ` set (devices (w_db w))"
    and new: "new_id (w_entropy w) \<notin> d_id ` set (devices (w_db w))" "u \<in> u_id ` set (users (w_db w))"
      "h \<noteq> [] \<longrightarrow> h \<notin> t_token_hash ` set (device_tokens (w_db w))"
    and key: "k \<noteq> [] \<longrightarrow> (\<exists>r \<in> set (setup_keys (w_db w)). redeemable_row k now r)"
    and free: "free_in (st_allocator s) (al_v4 (st_allocator s)) (w_db w) \<noteq> []"
      "IPv6Enabled (st_allocator s) \<longrightarrow> free_in (st_allocator s) (al_v6 (st_allocator s)) (w_db w) \<noteq> []"
  shows "\<exists>dev w'. create s u inp k h now w = (Ret dev, w')"
proof -
  let ?a = "st_allocator s"
  define ident where "ident = new_id (w_entropy w)"
  define w1 where "w1 = w\<lparr>w_entropy := drop IDEntropyBytes (w_entropy w)\<rparr>"
  define w2 where "w2 = w1\<lparr>w_db := (w_db w)\<lparr>setup_keys := redeemed_keys k now (setup_keys (w_db w))\<rparr>\<rparr>"
  let ?dev = "draft_device u inp k now ident"
  have red: "redeem s k now w1 = (Ret (), w2)"
    using calm_redeem [of w1 k now s] calm key by (simp add: w1_def w2_def)
  have fr: "free_in ?a p (w_db w2) = free_in ?a p (w_db w)" for p by (simp add: w2_def free_in_def in_use_def)
  have owners: "\<forall>r \<in> set (ip_allocations (w_db w2)). a_owner_id r \<noteq> ident"
  proof
    fix r assume "r \<in> set (ip_allocations (w_db w2))"
    then have "a_owner_id r \<in> d_id ` set (devices (w_db w))"
      using ok(1) by (simp add: w2_def consistent_def devices_ok_def)
    with new(1) show "a_owner_id r \<noteq> ident" by (auto simp: ident_def)
  qed
  have "alloc_ok (w_db w2)" using ok(1) by (simp add: w2_def consistent_def alloc_ok_def)
  moreover have "ident \<noteq> []" by (simp add: ident_def new_id_def DeviceIDPrefix_def)
  ultimately obtain as where al: "Allocate ?a (quiet (st_IntN s)) ident now w2 =
      (Ret as, w2\<lparr>w_db := add_allocations (map (\<lambda>c. new_allocation c ident now) (Addrs as)) (w_db w2)\<rparr>)"
    using calm_Allocate [of w2 ?a ident "st_IntN s" now] calm ok(2) owners free fr by (auto simp: w2_def w1_def)
  define w3 where "w3 = w2\<lparr>w_db := add_allocations (map (\<lambda>c. new_allocation c ident now) (Addrs as)) (w_db w2)\<rparr>"
  define dev where "dev = ?dev\<lparr>dv_IPv4 := as_IPv4 as, dv_IPv6 := as_IPv6 as\<rparr>"
  have sel: "dv_ID dev = ident" "dv_EnrolledWith dev = k" "dv_UserID dev = u" "dv_PublicKey dev = TrimSpace (nd_PublicKey inp)"
    by (simp_all add: dev_def draft_device_def)
  have keyex: "k \<noteq> [] \<Longrightarrow> k \<in> k_id ` set (setup_keys (w_db w))" using key by (auto simp: redeemable_row_def)
  have ins: "insert_device (device_row_of dev) (w_db w3) = Inr (1, (w_db w3)\<lparr>devices := devices (w_db w3) @ [device_row_of dev]\<rparr>)"
    using inp(3) new(1,2) keyex
    by (auto simp: insert_device_def sel w3_def w2_def add_allocations_def image_redeemed_keys ident_def nullableID_def)
  define w4 where "w4 = w3\<lparr>w_db := (w_db w3)\<lparr>devices := devices (w_db w3) @ [device_row_of dev]\<rparr>\<rparr>"
  have tok: "h \<noteq> [] \<Longrightarrow> insert_device_token \<lparr>t_device_id = ident, t_token_hash = h, t_created_at = now\<rparr> (w_db w4) =
      Inr (1, (w_db w4)\<lparr>device_tokens := device_tokens (w_db w4) @ token_rows ident h now\<rparr>)"
  proof -
    assume h: "h \<noteq> []"
    have "ident \<notin> t_device_id ` set (device_tokens (w_db w))"
      using ok(1) new(1) by (auto simp: ident_def consistent_def schema_ok_def tokens_schema_def)
    with h new(3) show ?thesis
      by (simp add: insert_device_token_def w4_def w3_def w2_def add_allocations_def sel token_rows_def)
  qed
  have nf: "w_faults w3 = []" "w_faults w4 = []" using calm by (simp_all add: w4_def w3_def w2_def w1_def)
  have "\<exists>w'. create_tx s ?dev h now w1 = (Ret dev, w') \<and> w_faults w' = []"
  proof -
    have did: "dv_ID ?dev = ident" by (simp add: draft_device_def)
    have al3: "Allocate ?a (quiet (st_IntN s)) (dv_ID ?dev) now w2 = (Ret as, w3)"
      using al did by (simp add: w3_def)
    have red2: "redeem s (dv_EnrolledWith ?dev) now w1 = (Ret (), w2)" using red by (simp add: draft_device_def)
    have ex: "execM (insert_device (device_row_of dev)) w3 = (Ret 1, w4)"
      by (simp add: calm_execM nf ins w4_def)
    show ?thesis using tok nf
      by (cases "h = []")
         (simp_all add: create_tx_def bindM_def mapErr_def red2 al3 [unfolded did] did Let_def dev_def [symmetric] ex returnM_def calm_execM sel)
  qed
  then obtain w' where tx: "create_tx s ?dev h now w1 = (Ret dev, w')" "w_faults w' = []" by blast
  have "InTx (create_tx s ?dev h now) w1 = (Ret dev, w')" by (rule calm_InTx) (use tx calm in \<open>simp_all add: w1_def\<close>)
  then show ?thesis using inp NewID_device [OF calm(2)]
    by (simp add: create_run bindM_def w1_def [symmetric] ident_def [symmetric])
qed

section \<open>Credentials of devices\<close>

text \<open>
  A device credential is accepted only in the one form \<open>Enroll\<close> writes it: the prefix and the
  base64url text of 32 bytes.
\<close>

lemma HasPrefix_iff: "HasPrefix s p \<longleftrightarrow> (\<exists>t. s = p @ t)"
proof
  assume "HasPrefix s p"
  then have "s = p @ drop (length p) s" by (metis HasPrefix_def append_take_drop_id)
  then show "\<exists>t. s = p @ t" ..
qed (auto simp: HasPrefix_def)

lemma TrimPrefix_append [simp]: "TrimPrefix (p @ t) p = t"
  by (simp add: TrimPrefix_def HasPrefix_def)

lemma DecodeString_Strict_Encode: "DecodeString (Strict RawURLEncoding) (EncodeToString RawURLEncoding raw) = Some raw"
proof -
  have "EncodeToString (Strict e) bs = EncodeToString e bs" for e bs
    by (induction e bs rule: EncodeToString.induct) (simp_all add: sextet_def padding_def Strict_def Let_def)
  then show ?thesis using DecodeString_EncodeToString [of "Strict RawURLEncoding" raw] by simp
qed

lemma strict_decode_length:
  assumes "DecodeString (Strict RawURLEncoding) t = Some raw" "length t = 43" "length raw = 32"
  shows "t = EncodeToString RawURLEncoding raw"
proof -
  let ?P = "\<lambda>c. of_char c \<noteq> (10::nat) \<and> of_char c \<noteq> (13::nat)"
  have wf: "wf_encoding (Strict RawURLEncoding)" by simp
  have st: "enc_strict (Strict RawURLEncoding)" "\<not> enc_padded (Strict RawURLEncoding)"
    by (simp_all add: Strict_def RawURLEncoding_def)
  have canon: "EncodeToString (Strict RawURLEncoding) raw = filter ?P t"
    using strict_canonical [OF wf st, of "filter ?P t" raw] assms(1) by (simp add: DecodeString_def)
  have "length (filter ?P t) = 43"
    unfolding canon [symmetric] length_EncodeToString_raw [OF st(2)] assms(3) by simp
  then have "filter ?P t = t" using assms(2) by (metis filter_True length_filter_less nat_neq_iff)
  then have "\<forall>c \<in> set t. ?P c" by (simp add: filter_id_conv)
  with DecodeString_strict_canonical [of RawURLEncoding t raw] assms(1) show ?thesis by simp
qed

lemma validDeviceToken_iff:
  "validDeviceToken token \<longleftrightarrow> (\<exists>raw. length raw = 32 \<and> token = deviceTokenPrefix @ EncodeToString RawURLEncoding raw)"
proof
  assume v: "validDeviceToken token"
  then obtain t where t: "token = deviceTokenPrefix @ t" "length t = 43"
    by (auto simp: validDeviceToken_def HasPrefix_iff split: if_splits)
  then obtain raw where "DecodeString (Strict RawURLEncoding) t = Some raw" "length raw = 32"
    using v by (auto simp: validDeviceToken_def split: if_splits option.splits)
  with strict_decode_length t show "\<exists>raw. length raw = 32 \<and> token = deviceTokenPrefix @ EncodeToString RawURLEncoding raw"
    by blast
next
  assume "\<exists>raw. length raw = 32 \<and> token = deviceTokenPrefix @ EncodeToString RawURLEncoding raw"
  then obtain raw where r: "length raw = 32" "token = deviceTokenPrefix @ EncodeToString RawURLEncoding raw" by blast
  have "length (EncodeToString RawURLEncoding raw) = 43" using r(1) by (simp add: length_EncodeToString_raw)
  then show "validDeviceToken token"
    using r by (simp add: validDeviceToken_def HasPrefix_def DecodeString_Strict_Encode)
qed

section \<open>Enrolment\<close>

lemma Enroll_Ret:
  assumes "allocator_ok (st_allocator s)" "Enroll s token inp now w = (Ret (dev, secret), w')"
  shows "\<exists>r raw. r \<in> set (setup_keys (w_db w)) \<and> k_key_hash r = HashToken token \<and>
    Redeemable (scanSetupKey s r) now = None \<and> token \<noteq> [] \<and> length raw = 32 \<and>
    secret = deviceTokenPrefix @ EncodeToString RawURLEncoding raw \<and>
    dv_EnrolledWith dev = k_id r \<and> dv_UserID dev = k_created_by r \<and>
    dv_RevokedAt dev = None \<and> dv_LastSeenAt dev = None \<and>
    create_guards s dev (HashToken secret) now (w_db w) \<and> w_db w' = created_db dev (HashToken secret) now (w_db w)"
proof -
  obtain key w1 raw w2 where k: "SetupKeyByToken s token w = (Ret key, w1)" and red: "Redeemable key now = None"
    and nt: "NewToken 32 w1 = (Ret raw, w2)" and sec: "secret = deviceTokenPrefix @ raw"
    and c: "create s (sk_CreatedBy key) inp (sk_ID key) (HashToken secret) now w2 = (Ret dev, w')"
  proof -
    obtain key w1 where k: "SetupKeyByToken s token w = (Ret key, w1)"
      and rest: "(case Redeemable key now of Some reason \<Rightarrow> failM reason
         | None \<Rightarrow> bindM (NewToken 32) (\<lambda>raw. let secret = deviceTokenPrefix @ raw in
             bindM (create s (sk_CreatedBy key) inp (sk_ID key) (HashToken secret) now) (\<lambda>device.
             returnM (device, secret)))) w1 = (Ret (dev, secret), w')"
      using assms(2) unfolding Enroll_def by (auto simp: bindM_Ret)
    moreover from rest have "Redeemable key now = None" by (auto split: option.splits)
    ultimately show thesis using that by (auto simp: bindM_Ret Let_def)
  qed
  obtain r where r: "find (\<lambda>r. k_key_hash r = HashToken token) (setup_keys (w_db w)) = Some r" "key = scanSetupKey s r"
    and tk: "token \<noteq> []"
    using k oneSetupKey_Ret by (fastforce simp: SetupKeyByToken_def split: if_splits)
  have raw: "raw = EncodeToString RawURLEncoding (take 32 (w_entropy w1))" "length (take 32 (w_entropy w1)) = 32"
    using nt by (auto simp: NewToken_Ret)
  have db: "w_db w2 = w_db w" using NewToken_frame [OF nt] SetupKeyByToken_frame [OF k] by simp
  note cr = create_Ret [OF assms(1) c]
  have "dv_EnrolledWith dev = k_id r" "dv_UserID dev = k_created_by r" "dv_RevokedAt dev = None" "dv_LastSeenAt dev = None"
    using cr by (auto simp: draft_device_def r(2) scanSetupKey_def)
  moreover have "r \<in> set (setup_keys (w_db w))" "k_key_hash r = HashToken token" using find_SomeD [OF r(1)] by auto
  moreover have "create_guards s dev (HashToken secret) now (w_db w)" "w_db w' = created_db dev (HashToken secret) now (w_db w)"
    using cr db by simp_all
  ultimately show ?thesis using r(2) red tk raw sec by blast
qed

lemma Enroll_total:
  assumes calm: "w_faults w = []" "48 \<le> length (w_entropy w)"
    and ok: "consistent (w_db w)" "allocator_ok (st_allocator s)"
    and key: "r \<in> set (setup_keys (w_db w))" "k_key_hash r = HashToken token" "token \<noteq> []"
      "Redeemable (scanSetupKey s r) now = None"
    and inp: "truncate_str (TrimSpace (nd_Name inp)) maxNameLength \<noteq> []"
      "ValidatePublicKey (TrimSpace (nd_PublicKey inp)) = None"
      "TrimSpace (nd_PublicKey inp) \<notin> d_public_key ` set (devices (w_db w))"
    and new: "new_id (drop 32 (w_entropy w)) \<notin> d_id ` set (devices (w_db w))"
      "HashToken (deviceTokenPrefix @ EncodeToString RawURLEncoding (take 32 (w_entropy w))) \<notin>
         t_token_hash ` set (device_tokens (w_db w))"
    and free: "free_in (st_allocator s) (al_v4 (st_allocator s)) (w_db w) \<noteq> []"
      "IPv6Enabled (st_allocator s) \<longrightarrow> free_in (st_allocator s) (al_v6 (st_allocator s)) (w_db w) \<noteq> []"
  shows "\<exists>dev secret w'. Enroll s token inp now w = (Ret (dev, secret), w')"
proof -
  let ?raw = "EncodeToString RawURLEncoding (take 32 (w_entropy w))"
  let ?w = "w\<lparr>w_entropy := drop 32 (w_entropy w)\<rparr>"
  have keys: "distinct (map k_key_hash (setup_keys (w_db w)))" using ok(1) by (simp add: consistent_def schema_ok_def keys_schema_def)
  have fnd: "find (\<lambda>x. k_key_hash x = HashToken token) (setup_keys (w_db w)) = Some r"
    using find_unique [OF keys key(1)] key(2) by simp
  have k: "SetupKeyByToken s token w = (Ret (scanSetupKey s r), w)"
    using key(3) fnd by (simp add: SetupKeyByToken_def calm_oneSetupKey [OF calm(1)])
  have nt: "NewToken 32 w = (Ret ?raw, ?w)" using calm(2) by (simp add: NewToken_Ret)
  have mx: "0 \<le> k_max_uses r" using ok(1) key(1) by (simp add: consistent_def keys_ok_def)
  have rr: "redeemable_row (k_id r) now r" using redeemable_row_iff [OF mx, of "k_id r" now s] key(4) by simp
  have usr: "k_created_by r \<in> u_id ` set (users (w_db w))"
    using ok(1) key(1) by (auto simp: consistent_def schema_ok_def keys_schema_def)
  have "\<exists>dev w'. create s (k_created_by r) inp (k_id r) (HashToken (deviceTokenPrefix @ ?raw)) now ?w = (Ret dev, w')"
    by (rule create_total) (use calm ok inp new usr rr key(1) free in \<open>auto simp: IDEntropyBytes_def\<close>)
  then obtain dev w' where "create s (k_created_by r) inp (k_id r) (HashToken (deviceTokenPrefix @ ?raw)) now ?w = (Ret dev, w')"
    by blast
  then have "Enroll s token inp now w = (Ret (dev, deviceTokenPrefix @ ?raw), w')"
    using k nt key(4) by (simp add: Enroll_def bindM_def Let_def returnM_def) (simp add: scanSetupKey_def)
  then show ?thesis by blast
qed

section \<open>Authentication\<close>

lemma calm_Authenticate:
  "w_faults w = [] \<Longrightarrow> Authenticate token w = (if \<not> validDeviceToken token then (Err ErrDeviceTokenInvalid, w)
     else case find (holds_token (HashToken token) (w_db w)) (devices (w_db w)) of
       None \<Rightarrow> (Err ErrDeviceTokenInvalid, w) | Some r \<Rightarrow> (Ret (scanDevice r), w))"
  by (simp add: Authenticate_def bindM_def mapErr_def calm_queryM returnM_def failM_def split: option.splits)

lemma Authenticate_Ret:
  "Authenticate token w = (Ret dev, w') \<Longrightarrow> \<exists>r \<in> set (devices (w_db w)). holds_token (HashToken token) (w_db w) r \<and> dev = scanDevice r"
  unfolding Authenticate_def by (auto simp: bindM_Ret case_option_Ret split: if_splits dest!: queryM_Ret find_SomeD)

lemma holds_token_unique:
  assumes "schema_ok d" "r \<in> set (devices d)" "q \<in> set (devices d)" "holds_token h d r" "holds_token h d q"
  shows "r = q"
proof -
  obtain t u where t: "t \<in> set (device_tokens d)" "t_token_hash t = h" "t_device_id t = d_id r"
    and u: "u \<in> set (device_tokens d)" "t_token_hash u = h" "t_device_id u = d_id q"
    using assms(4,5) by (auto simp: holds_token_def)
  then have "t = u" using assms(1) by (auto simp: schema_ok_def tokens_schema_def distinct_map inj_on_def)
  then show ?thesis using t u assms(1-3) by (auto simp: schema_ok_def devices_schema_def distinct_map inj_on_def)
qed

lemma find_holds_token:
  assumes "schema_ok d" "r \<in> set (devices d)" "holds_token h d r"
  shows "find (holds_token h d) (devices d) = Some r"
proof -
  obtain q where q: "find (holds_token h d) (devices d) = Some q" using find_Some [OF assms(2), of "holds_token h d"] assms(3) by blast
  with find_SomeD [OF q] holds_token_unique [OF assms(1,2) _ assms(3)] show ?thesis by blast
qed

text \<open>The secret of an enrolment authenticates the device it made.\<close>

lemma enrolled_holds_token:
  assumes "h \<noteq> []" shows "holds_token h (created_db dev h now d) (device_row_of dev)"
  using assms by (force simp: holds_token_def token_rows_def)

lemma scan_device_row:
  assumes "dv_LastSeenAt dev = None" "dv_RevokedAt dev = None"
  shows "scanDevice (device_row_of dev) = dev"
proof -
  have "parse_or_zero (addrOrNil a) = a" for a
    using ParseAddr_String [of a] by (cases "IsValid a") (cases a; simp add: addrOrNil_def parse_or_zero_def)+
  moreover have "(case nullableID k of None \<Rightarrow> [] | Some x \<Rightarrow> x) = k" for k by (simp add: nullableID_def)
  ultimately show ?thesis using assms by (simp add: scanDevice_def device_row_of_def)
qed

text \<open>After a revocation no credential of the device is left.\<close>

lemma revoked_no_token:
  "r \<in> set (devices (revoked_db i now d)) \<Longrightarrow> holds_token h (revoked_db i now d) r \<Longrightarrow> d_id r \<noteq> i"
  by (auto simp: holds_token_def)

section \<open>Scope\<close>

text \<open>What a caller reads depends only on the devices in its scope.\<close>

lemma find_filter: "find (\<lambda>r. P r \<and> Q r) xs = find P (filter Q xs)"
  by (induction xs) auto

lemma queryM_same: "f d = f e \<Longrightarrow> fst (queryM f (w\<lparr>w_db := d\<rparr>)) = fst (queryM f (w\<lparr>w_db := e\<rparr>))"
  by (auto simp: queryM_def bindM_def driver_call_def split: list.splits)

lemma read_same:
  assumes "f d = f e"
  shows "fst (bindM (mapErr g (queryM f)) (\<lambda>x w. (k x, w)) (w\<lparr>w_db := d\<rparr>)) =
    fst (bindM (mapErr g (queryM f)) (\<lambda>x w. (k x, w)) (w\<lparr>w_db := e\<rparr>))"
  using assms by (auto simp: queryM_def mapErr_def bindM_def driver_call_def split: list.splits)

lemma ByID_read: "ByID i sc = bindM (mapErr (wrap ''reading the device'')
       (queryM (\<lambda>d. find (\<lambda>r. d_id r = i) (filter (in_scope sc) (devices d)))))
     (\<lambda>row w. (case row of None \<Rightarrow> Err ErrDeviceNotFound | Some r \<Rightarrow> Ret (scanDevice r), w))"
  unfolding ByID_def find_filter
  by (intro ext arg_cong2 [where f = "\<lambda>m k. bindM m k w" for w] refl)
     (simp add: failM_def returnM_def split: option.splits)

lemma List_read: "List_devices sc = bindM (mapErr (wrap ''listing devices'')
       (queryM (\<lambda>d. newest_first d_created_at d_id (filter (in_scope sc) (devices d)))))
     (\<lambda>rows w. (Ret (map scanDevice rows), w))"
  unfolding List_devices_def returnM_def ..
end
