(* ===== verification/Sample_Network.thy ===== *)
theory Sample_Network
  imports Device_Lifecycle
begin

text \<open>
  One small deployment, on which the hypotheses of the general theorems are seen to hold: the
  pool 100.64.0.0/30, one administrator, one single-use setup key and one device to enrol.
\<close>

definition sample_network :: NetworkConfig where
  "sample_network = \<lparr>IPv4CIDR = ''100.64.0.0/30'', IPv6CIDR = []\<rparr>"

definition sample_pool :: prefix where
  "sample_pool = Prefix (V4 0x64400000) 30"

definition sample_store :: Store where
  "sample_store = \<lparr>st_allocator = \<lparr>al_v4 = sample_pool, al_v6 = NoPrefix, al_v4Broadcast = lastAddr sample_pool\<rparr>,
     st_lower = (\<lambda>r. r), st_IntN = (\<lambda>_. 0)\<rparr>"

definition sample_user :: user_row where
  "sample_user = \<lparr>u_id = ''usr_1'', u_email = ''ada@example.com'', u_email_norm = ''ada@example.com'',
     u_display_name = ''Ada'', u_password_hash = None, u_role = ''admin'', u_provider = ''local'',
     u_created_at = 0, u_updated_at = 0, u_last_login_at = None\<rparr>"

definition sample_setup_key :: key_row where
  "sample_setup_key = \<lparr>k_id = ''sk_1'', k_key_hash = HashToken ''secret'', k_display_hint = ''secret'',
     k_description = [], k_tags = [], k_created_by = ''usr_1'', k_created_at = 0, k_expires_at = Some 100,
     k_max_uses = 1, k_uses = 0, k_revoked_at = None\<rparr>"

definition sample_db :: db where
  "sample_db = empty_db\<lparr>users := [sample_user], setup_keys := [sample_setup_key]\<rparr>"

definition sample_world :: "db world" where
  "sample_world = \<lparr>w_db = sample_db, w_faults = [], w_entropy = replicate 64 7\<rparr>"

definition sample_public_key :: string where
  "sample_public_key = ''AAAAAAAAAAAAAAAAAAAAAAAAAAAAAAAAAAAAAAAAAAE=''"

definition sample_device :: NewDevice where
  "sample_device = \<lparr>nd_Name = ''laptop'', nd_PublicKey = sample_public_key, nd_OS = ''linux'', nd_Hostname = ''ada''\<rparr>"

text \<open>The same deployment after the device has enrolled.\<close>

definition sample_member :: Device where
  "sample_member = \<lparr>dv_ID = ''dev_1'', dv_UserID = ''usr_1'', dv_Name = ''laptop'', dv_PublicKey = sample_public_key,
     dv_OS = ''linux'', dv_Hostname = ''ada'', dv_IPv4 = V4 0x64400001, dv_IPv6 = AddrInvalid, dv_EnrolledWith = ''sk_1'',
     dv_CreatedAt = 5, dv_LastSeenAt = None, dv_RevokedAt = None\<rparr>"

definition member_world :: "db world" where
  "member_world = sample_world\<lparr>w_db := created_db sample_member (HashToken ''hnd_x'') 5 sample_db\<rparr>"

lemma sample_network_valid: "Network_Validate sample_network = None"
  by (simp add: sample_network_def Network_Validate_def parsePool_def reservedIPv4_eq str_simps
      Let_def prefix_bounds Overlaps_def problem_of_def prefix_of_def)

lemma sample_pools: "IPv4Pool sample_network = Some sample_pool" "IPv6Pool sample_network = Some (NoPrefix, False)"
  by (simp_all add: sample_network_def sample_pool_def IPv4Pool_def IPv6Pool_def str_simps Let_def)

lemma sample_allocator_ok: "allocator_ok (st_allocator sample_store)"
proof -
  have "NewAllocator sample_network w = (Ret (st_allocator sample_store), w)" for w
    by (simp add: NewAllocator_def sample_network_valid sample_pools returnM_def sample_store_def)
  then show ?thesis using NewAllocator_ok by blast
qed

lemma sample_consistent: "consistent sample_db"
  by (simp add: consistent_def schema_ok_def table_schemas alloc_ok_def keys_ok_def devices_ok_def uses_ok_def
      sample_db_def empty_db_def sample_user_def sample_setup_key_def)

lemma sample_last: "lastAddr sample_pool = V4 0x64400003"
proof (rule addr_eqI)
  have v: "prefix_IsValid sample_pool" by (simp add: sample_pool_def)
  have "prefix_base sample_pool = 0x64400000" by (simp add: sample_pool_def prefix_base_def unat_masked)
  then show "addr_nat (lastAddr sample_pool) = addr_nat (V4 0x64400003)"
    using lastAddr_highest [OF v] by (simp add: sample_pool_def)
  show "BitLen (lastAddr sample_pool) = BitLen (V4 0x64400003)" "Zone (lastAddr sample_pool) = Zone (V4 0x64400003)"
    using lastAddr_highest [OF v] by (simp_all add: sample_pool_def)
qed

lemma sample_hosts: "pool_hosts sample_pool = [V4 0x64400001, V4 0x64400002, V4 0x64400003]"
proof -
  have "prefix_base sample_pool = 0x64400000" by (simp add: sample_pool_def prefix_base_def unat_masked)
  then show ?thesis by (simp add: pool_hosts_def upt_conv_Cons) (simp add: sample_pool_def upt_conv_Cons)
qed

lemma sample_key_valid: "ValidatePublicKey sample_public_key = None" "TrimSpace sample_public_key = sample_public_key"
  by (simp_all add: ValidatePublicKey_def sample_public_key_def str_simps Let_def wireGuardKeyLength_def)

lemma sample_name: "truncate_str (TrimSpace (nd_Name sample_device)) maxNameLength = ''laptop''"
  by (simp add: sample_device_def truncate_str_def runes_def maxNameLength_def str_simps Let_def)

end
