(* ===== verification/Sample_Server.thy ===== *)
theory Sample_Server
  imports Control_Plane Sample_Network
begin

text \<open>
  The server of the sample deployment, as \<open>New\<close> builds it, with stand-ins for the libraries: a
  key derivation that pads the password, and decoders that accept one body.
\<close>

definition sample_config :: Config where
  "sample_config = Default\<lparr>cfg_Network := sample_network\<rparr>"

definition sample_idkey :: idkey where
  "sample_idkey pw salt t m l n = take (unat n) (pw @ replicate (unat n) 0)"

definition sample_json :: json_codec where
  "sample_json = \<lparr>
     jc_bootstrap = (\<lambda>_ _. Decoded \<lparr>br_Email = ''ada@example.com'', br_Password = ''correct horse'', br_DisplayName = ''Ada''\<rparr> True),
     jc_login = (\<lambda>_ _. Decoded \<lparr>lr_Email = ''ada@example.com'', lr_Password = ''correct horse''\<rparr> True),
     jc_register = (\<lambda>_ _. UnexpectedEnd), jc_enroll = (\<lambda>_ _. UnexpectedEnd), jc_createKey = (\<lambda>_ _. UnexpectedEnd),
     jc_negotiate = (\<lambda>_ _. UnexpectedEnd)\<rparr>"

text \<open>Two embedded scripts, and a file that is not one.\<close>

definition sample_fs :: embed_FS where
  "sample_fs dir = (if dir = ''migrations/sqlite'' then Some [
     \<lparr>fe_Name = ''0001_init.sql'', fe_IsDir = False, fe_Body = Some ''A''\<rparr>,
     \<lparr>fe_Name = ''0002_users.sql'', fe_IsDir = False, fe_Body = Some ''B''\<rparr>,
     \<lparr>fe_Name = ''README.md'', fe_IsDir = False, fe_Body = Some ''C''\<rparr>] else None)"

definition sample_lib :: libraries where
  "sample_lib = \<lparr>lib_lower = (\<lambda>r. r), lib_IntN = (\<lambda>_. 0), lib_ParseAddress = Some, lib_ParseURL = (\<lambda>_. Some (''http'', ''localhost:8080'')),
     lib_IDKey = sample_idkey, lib_json = sample_json, lib_errorText = (\<lambda>_. []),
     lib_build = \<lparr>in_Version = ''dev'', in_Commit = [], in_BuildDate = [], in_GoVersion = [], in_Platform = []\<rparr>,
     lib_migrationsFS = sample_fs\<rparr>"

lemma sample_idkey_ok: "idkey_ok sample_idkey"
  by (auto simp: idkey_ok_def sample_idkey_def)

lemma sample_config_valid: "Config_Validate (lib_lower sample_lib) (lib_ParseURL sample_lib) sample_config = None"
  unfolding Config_Validate_None
proof (intro conjI)
  show "validateEnvironment sample_config = None" by (simp add: sample_config_def Default_def validateEnvironment_def)
  show "Server_validate (lib_ParseURL sample_lib) (cfg_Server sample_config) (cfg_Environment sample_config) = None"
    by (simp add: sample_config_def Default_def Server_validate_def sample_lib_def SplitHostPort_def rindex_def
        name_defs duration_defs)
  show "Database_validate (cfg_Database sample_config) = None"
    by (simp add: sample_config_def Default_def Database_validate_def name_defs duration_defs str_simps)
  show "Network_Validate (cfg_Network sample_config) = None" by (simp add: sample_config_def sample_network_valid)
  show "Auth_validate (cfg_Auth sample_config) = None"
    by (simp add: sample_config_def Default_def Auth_validate_None name_defs duration_defs)
  show "Log_validate (lib_lower sample_lib) (cfg_Log sample_config) = None"
    by (simp add: sample_config_def Default_def Log_validate_def ParseLevel_def ParseFormat_def sample_lib_def str_simps Let_def
        ToLower_def lower_rune_def runes_def string_of_runes_def encode_rune_def valid_rune_def char_of_def bit_0)
  show "RateLimit_validate (cfg_RateLimit sample_config) = None"
    by (simp add: sample_config_def Default_def RateLimit_validate_None)
qed

text \<open>What \<open>New\<close> returns is built from a valid configuration.\<close>

definition sample_dummy :: string where
  "sample_dummy = (let p = DefaultParams; salt = replicate 16 7;
     filler = EncodeToString RawStdEncoding (replicate 32 7) in
     encode_hash p salt (sample_idkey (bytes_of_string filler) salt (pm_Iterations p) (pm_Memory p) (pm_Parallelism p) (pm_KeyLength p)))"

definition sample_server :: Server where
  "sample_server = \<lparr>se_cfg = sample_config, se_instanceID = ''net_1'', se_startedAt = 0, se_build = lib_build sample_lib,
     se_users = NewUserStore (lib_lower sample_lib) (lib_ParseAddress sample_lib) sample_idkey
       \<lparr>sop_Params = zero_params, sop_MinPasswordLength = 12\<rparr>,
     se_sessions = NewSessionStore \<lparr>so_Lifetime = 30 * 24 * Hour, so_IdleTimeout = 7 * 24 * Hour\<rparr>,
     se_devices = sample_store, se_dummyHash = sample_dummy, se_secureCookies = False, se_json = sample_json,
     se_errorText = (\<lambda>_. []), se_migrationsFS = sample_fs\<rparr>"

lemma sample_allocator: "NewAllocator sample_network w = (Ret (st_allocator sample_store), w)"
  by (simp add: NewAllocator_def sample_network_valid sample_pools returnM_def sample_store_def)

lemma sample_filler: "CheckPasswordLength (EncodeToString RawStdEncoding (replicate 32 7)) Passwords.MinPasswordLength = None"
  by (simp add: CheckPasswordLength_def Passwords.MinPasswordLength_def MaxPasswordLength_def str_simps runes_def)

lemma New_sample:
  "\<exists>w'. New sample_lib sample_config ''net_1'' 0 \<lparr>w_db = d, w_faults = [], w_entropy = replicate 48 7\<rparr> = (Ret sample_server, w')"
proof -
  have "DummyHash sample_idkey \<lparr>w_db = d, w_faults = [], w_entropy = replicate 48 7\<rparr> =
      (Ret sample_dummy, \<lparr>w_db = d, w_faults = [], w_entropy = []\<rparr>)"
    unfolding DummyHash_def bindM_def mapErr_def rand_Read_def
    using sample_filler HashPassword_Ret [of sample_idkey "EncodeToString RawStdEncoding (replicate 32 7)" DefaultParams
        "\<lparr>w_db = d, w_faults = [], w_entropy = replicate 16 7\<rparr>" sample_dummy "\<lparr>w_db = d, w_faults = [], w_entropy = []\<rparr>"]
    by (simp add: effective_def DefaultParams_def zero_params_def Params_valid_def sample_dummy_def Let_def)
  moreover have "NewAllocator (cfg_Network sample_config) v = (Ret (st_allocator sample_store), v)" for v :: "db world"
    using sample_allocator by (simp add: sample_config_def)
  moreover have "lib_IDKey sample_lib = sample_idkey" "lib_json sample_lib = sample_json" "lib_errorText sample_lib = (\<lambda>_. [])" "lib_migrationsFS sample_lib = sample_fs"
    "lib_ParseURL sample_lib x = Some (''http'', ''localhost:8080'')" "lib_lower sample_lib = (\<lambda>r. r)" "lib_IntN sample_lib = (\<lambda>_. 0)"
    "AuthConfig.MinPasswordLength (cfg_Auth sample_config) = 12" "SessionLifetime (cfg_Auth sample_config) = 30 * 24 * Hour"
    "SessionIdleTimeout (cfg_Auth sample_config) = 7 * 24 * Hour" for x
    by (simp_all add: sample_lib_def sample_config_def Default_def PasswordFloor_def)
  ultimately have "New sample_lib sample_config ''net_1'' 0 \<lparr>w_db = d, w_faults = [], w_entropy = replicate 48 7\<rparr> =
      (Ret sample_server, \<lparr>w_db = d, w_faults = [], w_entropy = []\<rparr>)"
    using sample_config_valid by (simp add: New_def bindM_def mapErr_def returnM_def sample_server_def sample_store_def)
  then show ?thesis ..
qed

end
