(* ===== verification/Device_Theorems.thy ===== *)
theory Device_Theorems
  imports Sample_Network
begin

text \<open>
  The properties of device enrolment, authentication and revocation: \<open>Enroll\<close>, \<open>Authenticate\<close>,
  \<open>Revoke\<close>, \<open>ByID\<close> and \<open>List\<close> over the whole database, for every pattern of driver faults and
  every stream of random bytes.
\<close>

section \<open>Enrolment\<close>

lemma enrol_sample:
  "\<exists>dev secret w'. Enroll sample_store ''secret'' sample_device 0 sample_world = (Ret (dev, secret), w')"
proof (rule Enroll_total [where r = sample_setup_key])
  show "Redeemable (scanSetupKey sample_store sample_setup_key) 0 = None"
    by (simp add: Redeemable_def key_Revoked_def key_Expired_def key_Exhausted_def scanSetupKey_def sample_setup_key_def)
  show "free_in (st_allocator sample_store) (al_v4 (st_allocator sample_store)) (w_db sample_world) \<noteq> []"
    by (simp add: free_in_def sample_store_def sample_hosts sample_last in_use_def sample_world_def sample_db_def empty_db_def)
  show "truncate_str (TrimSpace (nd_Name sample_device)) maxNameLength \<noteq> []" by (simp add: sample_name)
  show "ValidatePublicKey (TrimSpace (nd_PublicKey sample_device)) = None"
    by (simp add: sample_device_def sample_key_valid)
qed (simp_all add: sample_allocator_ok sample_consistent sample_world_def, simp_all add: sample_db_def empty_db_def
     sample_setup_key_def sample_store_def IPv6Enabled_def)

text \<open>
  C3: Enrolment is all or nothing, whatever driver calls fail. When \<open>Enroll\<close> returns a device,
  the setup key presented existed and was redeemable, and the database is the old one with
  exactly one use of the key, the device's address rows, the device and the hash of its
  credential added. When it returns an error or panics the database is what it was.
\<close>

theorem enrol_all_or_nothing:
  assumes "allocator_ok (st_allocator s)"
  shows "case Enroll s token inp now w of
    (Ret (dev, secret), w') \<Rightarrow>
       (\<exists>r \<in> set (setup_keys (w_db w)). k_key_hash r = HashToken token \<and> Redeemable (scanSetupKey s r) now = None \<and>
          dv_EnrolledWith dev = k_id r \<and> dv_UserID dev = k_created_by r) \<and>
       w_db w' = created_db dev (HashToken secret) now (w_db w)
  | (_, w') \<Rightarrow> w_db w' = w_db w"
proof -
  obtain res w' where run: "Enroll s token inp now w = (res, w')" by fastforce
  show ?thesis
  proof (cases res)
    case (Ret x)
    then obtain dev secret where "Enroll s token inp now w = (Ret (dev, secret), w')" using run by (cases x) auto
    then show ?thesis using Enroll_Ret [OF assms, of token inp now w dev secret w'] by auto
  qed (use run Enroll_abort [OF run] in simp_all)
qed

theorem enrol_all_or_nothing_witness:
  "\<exists>dev secret w'. Enroll sample_store ''secret'' sample_device 0 sample_world = (Ret (dev, secret), w') \<and>
     w_db w' = created_db dev (HashToken secret) 0 sample_db"
  using enrol_sample enrol_all_or_nothing [OF sample_allocator_ok, where token = "''secret''" and inp = sample_device and now = 0 and w = sample_world]
  by (auto simp: sample_world_def)

text \<open>
  C19: Enrolment goes through whenever nothing stands in its way: without driver faults, with
  enough random bytes, a redeemable key, a valid and unused public key, a fresh identifier and
  credential, and a free address in every enabled pool, \<open>Enroll\<close> returns a device and a
  secret, and the secret then authenticates that device.
\<close>

theorem enrol_succeeds:
  assumes calm: "w_faults w = []" "48 \<le> length (w_entropy w)"
    and ok: "consistent (w_db w)" "allocator_ok (st_allocator s)"
    and key: "r \<in> set (setup_keys (w_db w))" "k_key_hash r = HashToken token" "token \<noteq> []"
      "Redeemable (scanSetupKey s r) now = None"
    and inp: "truncate_str (TrimSpace (nd_Name inp)) maxNameLength \<noteq> []"
      "ValidatePublicKey (TrimSpace (nd_PublicKey inp)) = None"
      "TrimSpace (nd_PublicKey inp) \<notin> d_public_key ` set (devices (w_db w))"
    and new: "new_id (drop 32 (w_entropy w)) \<notin> d_id ` set (devices (w_db w))"
      "HashToken (deviceTokenPrefix @ EncodeToString RawURLEncoding (take 32 (w_entropy w))) \<notin>
         t_token_hash ` set (device_tokens (w_db w))"
    and free: "free_in (st_allocator s) (al_v4 (st_allocator s)) (w_db w) \<noteq> []"
      "IPv6Enabled (st_allocator s) \<longrightarrow> free_in (st_allocator s) (al_v6 (st_allocator s)) (w_db w) \<noteq> []"
  shows "\<exists>dev secret w'. Enroll s token inp now w = (Ret (dev, secret), w') \<and>
     (\<forall>v. w_faults v = [] \<and> w_db v = w_db w' \<longrightarrow> Authenticate secret v = (Ret dev, v))"
proof -
  obtain dev secret w' where run: "Enroll s token inp now w = (Ret (dev, secret), w')"
    using Enroll_total [OF assms] by blast
  obtain raw where e: "length raw = 32" "secret = deviceTokenPrefix @ EncodeToString RawURLEncoding raw"
    "dv_RevokedAt dev = None" "dv_LastSeenAt dev = None"
    "create_guards s dev (HashToken secret) now (w_db w)" "w_db w' = created_db dev (HashToken secret) now (w_db w)"
    using Enroll_Ret [OF ok(2) run] by blast
  have valid: "validDeviceToken secret" using e(1,2) validDeviceToken_iff by blast
  have sch: "schema_ok (w_db w')" using created_consistent [OF ok(1) e(5)] e(6) by (simp add: consistent_def)
  have "find (holds_token (HashToken secret) (w_db w')) (devices (w_db w')) = Some (device_row_of dev)"
    using find_holds_token [OF sch] enrolled_holds_token [of "HashToken secret" dev now "w_db w"] e(6) by simp
  then have "Authenticate secret v = (Ret dev, v)" if "w_faults v = []" "w_db v = w_db w'" for v
    using calm_Authenticate [OF that(1)] valid that(2) scan_device_row [OF e(4,3)] by simp
  with run show ?thesis by blast
qed

theorem enrol_succeeds_witness:
  "\<exists>dev secret w'. Enroll sample_store ''secret'' sample_device 0 sample_world = (Ret (dev, secret), w') \<and>
     (\<forall>v. w_faults v = [] \<and> w_db v = w_db w' \<longrightarrow> Authenticate secret v = (Ret dev, v))"
proof (rule enrol_succeeds [where r = sample_setup_key])
  show "Redeemable (scanSetupKey sample_store sample_setup_key) 0 = None"
    by (simp add: Redeemable_def key_Revoked_def key_Expired_def key_Exhausted_def scanSetupKey_def sample_setup_key_def)
  show "free_in (st_allocator sample_store) (al_v4 (st_allocator sample_store)) (w_db sample_world) \<noteq> []"
    by (simp add: free_in_def sample_store_def sample_hosts sample_last in_use_def sample_world_def sample_db_def empty_db_def)
  show "truncate_str (TrimSpace (nd_Name sample_device)) maxNameLength \<noteq> []" by (simp add: sample_name)
  show "ValidatePublicKey (TrimSpace (nd_PublicKey sample_device)) = None"
    by (simp add: sample_device_def sample_key_valid)
qed (simp_all add: sample_allocator_ok sample_consistent sample_world_def, simp_all add: sample_db_def empty_db_def
     sample_setup_key_def sample_store_def IPv6Enabled_def)

section \<open>Revocation\<close>

lemma revoke_sample: "\<exists>w'. Revoke ''dev_1'' (ScopeFor ''usr_1'' False) 9 member_world = (Ret (), w')"
proof -
  have nf: "w_faults member_world = []" by (simp add: member_world_def sample_world_def)
  have by_id: "ByID ''dev_1'' (ScopeFor ''usr_1'' False) member_world = (Ret (scanDevice (device_row_of sample_member)), member_world)"
    using nf by (simp add: ByID_def bindM_def mapErr_def calm_queryM returnM_def in_scope_def ScopeFor_def)
       (simp add: member_world_def sample_world_def sample_db_def empty_db_def sample_member_def device_row_of_def)
  have "\<exists>w'. revoke_tx ''dev_1'' 9 member_world = (Ret (), w') \<and> w_faults w' = []"
    using nf by (simp add: revoke_tx_def Release_def bindM_def mapErr_def tryM_def calm_execM calm_rowsAffected returnM_def
        delete_allocations_def update_devices_def delete_device_tokens_def update_where_def delete_where_def)
      (simp add: member_world_def sample_world_def sample_db_def empty_db_def sample_member_def)
  then obtain w' where "revoke_tx ''dev_1'' 9 member_world = (Ret (), w')" "w_faults w' = []" by blast
  then have "InTx (revoke_tx ''dev_1'' 9) member_world = (Ret (), w')" using nf by (intro calm_InTx)
  then have "Revoke ''dev_1'' (ScopeFor ''usr_1'' False) 9 member_world = (Ret (), w')"
    using by_id by (simp add: Revoke_def bindM_def Revoked_def scanDevice_def sample_member_def)
  then show ?thesis ..
qed

text \<open>
  C9: Revocation is all or nothing and final for the device's credentials. When \<open>Revoke\<close> returns,
  the device was active and in the caller's scope, it has no address any more, and no
  credential authenticates it; otherwise the database is what it was.
\<close>

theorem revoke_ends_access:
  "case Revoke i sc now w of
    (Ret _, w') \<Rightarrow> (\<exists>r \<in> set (devices (w_db w)). d_id r = i \<and> in_scope sc r \<and> d_revoked_at r = None) \<and>
       held_by (w_db w') i = {} \<and> (\<forall>r \<in> set (devices (w_db w')). d_id r = i \<longrightarrow> d_revoked_at r \<noteq> None) \<and>
       (\<forall>token v dev v'. w_db v = w_db w' \<longrightarrow> Authenticate token v = (Ret dev, v') \<longrightarrow> dv_ID dev \<noteq> i)
  | (_, w') \<Rightarrow> w_db w' = w_db w"
proof -
  obtain res w' where run: "Revoke i sc now w = (res, w')" by fastforce
  show ?thesis
  proof (cases res)
    case (Ret u)
    note r = Revoke_Ret [OF run [unfolded Ret]]
    have "dv_ID dev \<noteq> i" if "w_db v = w_db w'" "Authenticate token v = (Ret dev, v')" for token v dev v'
      using Authenticate_Ret [OF that(2)] revoked_no_token [of _ i now "w_db w" "HashToken token"] that(1) r
      by (auto simp: scanDevice_def)
    moreover have "held_by (w_db w') i = {}" using r by (auto simp: held_by_def)
    moreover have "\<forall>r \<in> set (devices (w_db w')). d_id r = i \<longrightarrow> d_revoked_at r \<noteq> None"
      using r by (auto simp: revoked_db_def)
    ultimately show ?thesis using run Ret r by auto
  qed (use run Revoke_abort [OF run] in simp_all)
qed

theorem revoke_ends_access_witness:
  "\<exists>w'. Revoke ''dev_1'' (ScopeFor ''usr_1'' False) 9 member_world = (Ret (), w') \<and> held_by (w_db w') ''dev_1'' = {}"
  using revoke_sample revoke_ends_access [where i = "''dev_1''" and sc = "ScopeFor ''usr_1'' False" and now = 9 and w = member_world] by auto

end
