(* ===== verification/Control_Theorems.thy ===== *)
theory Control_Theorems
  imports Inventory_History Sample_Server Device_Theorems
begin

text \<open>
  The properties of the control plane as a whole: what holds in every state a server built by
  \<open>New\<close> can reach, whatever requests it serves and whatever driver calls fail.
\<close>

section \<open>Sample states\<close>

definition sample_state :: state where
  "sample_state = \<lparr>sv_db = empty_db, sv_limiter = None, sv_authLimiter = None, sv_headers = [], sv_cookies = []\<rparr>"

definition rebooted :: "state \<Rightarrow> state" where
  "rebooted st = st\<lparr>sv_db := w_db (snd (InstanceID 0 \<lparr>w_db = sv_db st, w_faults = [], w_entropy = replicate 16 7\<rparr>)),
     sv_limiter := None, sv_authLimiter := None\<rparr>"

definition booted :: state where
  "booted = rebooted sample_state"

lemma reboot_step: "server_step s st Boot (rebooted st)"
proof -
  obtain res v where "InstanceID 0 \<lparr>w_db = sv_db st, w_faults = [], w_entropy = replicate 16 7\<rparr> = (res, v)" by fastforce
  then show ?thesis using server_step.boot [of 0 st "[]" "replicate 16 7" res v s None None] by (simp add: rebooted_def)
qed

lemma reboot_reaches: "plane.reaches s st (rebooted st)"
  using plane.reaches.step [OF plane.reaches.refl reboot_step] .

lemma booted_reachable: "plane.reachable s booted"
  unfolding plane.reachable_def booted_def
  using reboot_reaches [of s sample_state] by (force simp: initial_def sample_state_def empty_db_def)

lemma reboot_instance: "\<exists>ident w'. InstanceID 0 \<lparr>w_db = sv_db st, w_faults = [], w_entropy = replicate 16 7\<rparr> = (Ret ident, w') \<and>
    w_db w' = sv_db (rebooted st)"
  using calm_InstanceID [of "\<lparr>w_db = sv_db st, w_faults = [], w_entropy = replicate 16 7\<rparr>" 0]
  by (auto simp: IDEntropyBytes_def rebooted_def)

lemma booted_instance: "metadata (sv_db booted) KeyInstanceID \<noteq> None"
  using reboot_instance [of sample_state] InstanceID_Ret by (fastforce simp: booted_def)

text \<open>A state with one device, revoked.\<close>

definition retired_row :: device_row where
  "retired_row = (device_row_of sample_member)\<lparr>d_enrolled_with := None, d_ipv4 := None, d_revoked_at := Some 9\<rparr>"

definition retired :: state where
  "retired = sample_state\<lparr>sv_db := empty_db\<lparr>users := [sample_user], devices := [retired_row]\<rparr>\<rparr>"

lemma retired_consistent: "consistent (sv_db retired)"
  by (simp add: retired_def sample_state_def consistent_def schema_ok_def table_schemas alloc_ok_def keys_ok_def devices_ok_def
      uses_ok_def empty_db_def held_by_def row_addrs_def retired_row_def)
     (simp add: sample_user_def sample_member_def addrOrNil_def)

section \<open>Invariants\<close>

text \<open>
  C1: In every state a server can reach from an empty database, through any starts and requests
  and under any driver faults, the inventory is consistent: keys and foreign keys hold, no two
  allocation rows share an address, an active device holds the addresses in its row, a revoked
  one holds nothing and no credential, and a setup key has been used as often as devices say.
\<close>

theorem reachable_consistent:
  assumes "New lib cfg i t w = (Ret s, w')" "plane.reachable s st"
  shows "consistent (sv_db st)"
  using inventory.reachable_kept [OF New_ok(1) [OF assms(1)] assms(2) consistent_empty] .

theorem reachable_consistent_witness: "consistent (sv_db booted) \<and> metadata (sv_db booted) KeyInstanceID \<noteq> None"
  using New_sample [of empty_db] reachable_consistent [OF _ booted_reachable] booted_instance by blast

text \<open>
  C5: A server has at most one account, an administrator, and it has one exactly when the
  installation has been claimed: no interleaving of requests claims it twice or leaves it
  claimed without an administrator.
\<close>

theorem one_administrator:
  assumes "New lib cfg i t w = (Ret s, w')" "plane.reachable s st"
  shows "(claimed (sv_db st) \<longleftrightarrow> users (sv_db st) \<noteq> []) \<and> length (users (sv_db st)) \<le> 1 \<and>
    (\<forall>u \<in> set (users (sv_db st)). u_role u = RoleAdmin)"
proof -
  have "bootstrap_ok (empty_db\<lparr>schema_migrations := l\<rparr>)" for l
    by (simp add: bootstrap_ok_def claimed_def metadata_def empty_db_def)
  then show ?thesis using administrator.reachable_kept [OF New_ok(1) [OF assms(1)] assms(2)] by (simp add: bootstrap_ok_def)
qed

theorem one_administrator_witness: "(claimed (sv_db booted) \<longleftrightarrow> users (sv_db booted) \<noteq> []) \<and> length (users (sv_db booted)) \<le> 1"
  using New_sample [of empty_db] one_administrator [OF _ booted_reachable] by blast

section \<open>History\<close>

text \<open>The text the encoder gives to a key; the decoder accepts others for the same bytes.\<close>

definition canonical_key :: "string \<Rightarrow> bool" where
  "canonical_key k \<longleftrightarrow> (\<exists>raw. k = EncodeToString StdEncoding raw)"

text \<open>
  C4: Revocation is permanent. Once a device is revoked, no credential authenticates it in any state the
  server can go on to reach, and no device is registered with the text of its public key again. Of the
  key itself this holds where keys are spelled as the encoder spells them: a device with the same 32
  bytes gets in only if one of the two texts is another spelling of them, which the lenient decoder
  accepts (\<open>revoked_key_returns\<close> is such a run).
\<close>

theorem revocation_permanent:
  assumes "New lib cfg i t w = (Ret s, w')" "consistent (sv_db st)" "plane.reaches s st st'"
    "r \<in> set (devices (sv_db st))" "d_revoked_at r \<noteq> None"
  shows "(\<exists>r' \<in> set (devices (sv_db st')). device_after r r') \<and>
    (\<forall>token v dev v'. w_db v = sv_db st' \<longrightarrow> Authenticate token v = (Ret dev, v') \<longrightarrow> dv_ID dev \<noteq> d_id r) \<and>
    (\<forall>u inp k h now v dev v'. w_db v = sv_db st' \<longrightarrow> create (se_devices s) u inp k h now v = (Ret dev, v') \<longrightarrow>
       dv_PublicKey dev \<noteq> d_public_key r \<and>
       (canonical_key (dv_PublicKey dev) \<and> canonical_key (d_public_key r) \<longrightarrow>
         DecodeString StdEncoding (dv_PublicKey dev) \<noteq> DecodeString StdEncoding (d_public_key r)))"
proof -
  note ok = New_ok(1) [OF assms(1)]
  have c: "consistent (sv_db st')" using inventory.reaches_kept [OF ok assms(3,2)] .
  have "later (sv_db st) (sv_db st')" using history.reaches_kept [OF ok assms(3) later_refl] .
  then obtain r' where r': "r' \<in> set (devices (sv_db st'))" "device_after r r'" using assms(4) by (auto simp: later_def)
  have auth: "dv_ID dev \<noteq> d_id r" if "w_db v = sv_db st'" "Authenticate token v = (Ret dev, v')" for token v dev v'
  proof
    note v = that
    assume same: "dv_ID dev = d_id r"
    obtain q where q: "q \<in> set (devices (sv_db st'))" "holds_token (HashToken token) (sv_db st') q" "dev = scanDevice q"
      using Authenticate_Ret [OF v(2)] v(1) by auto
    then have "d_id q = d_id r'" using same r' by (simp add: scanDevice_def device_after_def)
    then have "q = r'" using c q(1) r'(1) by (auto simp: consistent_def schema_ok_def devices_schema_def distinct_map inj_on_def)
    then show False using q(2) r'(2) assms(5) by (simp add: holds_token_def device_after_def)
  qed
  have key: "dv_PublicKey dev \<noteq> d_public_key r" if "w_db v = sv_db st'" "create (se_devices s) u inp k h now v = (Ret dev, v')" for u inp k h now v dev v'
    using create_Ret [OF ok that(2)] that(1) r' by (auto simp: create_guards_def device_after_def image_iff)
  have "DecodeString StdEncoding x \<noteq> DecodeString StdEncoding y" if "canonical_key x" "canonical_key y" "x \<noteq> y" for x y
    using that DecodeString_EncodeToString by (auto simp: canonical_key_def)
  with auth key r' show ?thesis by blast
qed

theorem revocation_permanent_witness:
  "\<nexists>token v dev v'. w_db v = sv_db (rebooted retired) \<and> Authenticate token v = (Ret dev, v') \<and> dv_ID dev = ''dev_1''"
proof -
  obtain w' where new: "New sample_lib sample_config ''net_1'' 0 \<lparr>w_db = empty_db, w_faults = [], w_entropy = replicate 48 7\<rparr> = (Ret sample_server, w')"
    using New_sample by blast
  have "retired_row \<in> set (devices (sv_db retired))" "d_revoked_at retired_row \<noteq> None" "d_id retired_row = ''dev_1''"
    by (simp_all add: retired_def retired_row_def sample_member_def)
  then show ?thesis
    using revocation_permanent [OF new retired_consistent reboot_reaches, where r = retired_row] by auto
qed

text \<open>
  A revoked key comes back: the store of a device that was revoked accepts another one with the same 32
  bytes, spelled with other trailing bits, because it tells keys apart by their text.
\<close>

theorem revoked_key_returns:
  "\<exists>dev w'. create sample_store ''usr_1'' (sample_device\<lparr>nd_PublicKey := ''AAAAAAAAAAAAAAAAAAAAAAAAAAAAAAAAAAAAAAAAAAF=''\<rparr>) [] [] 10
       \<lparr>w_db = sv_db retired, w_faults = [], w_entropy = replicate 16 9\<rparr> = (Ret dev, w') \<and>
     DecodeString StdEncoding (dv_PublicKey dev) = DecodeString StdEncoding (d_public_key retired_row) \<and> d_revoked_at retired_row \<noteq> None"
proof -
  let ?k = "''AAAAAAAAAAAAAAAAAAAAAAAAAAAAAAAAAAAAAAAAAAF=''" and ?w = "\<lparr>w_db = sv_db retired, w_faults = [], w_entropy = replicate 16 9\<rparr>"
  let ?inp = "sample_device\<lparr>nd_PublicKey := ?k\<rparr>"
  have k: "TrimSpace ?k = ?k" "ValidatePublicKey ?k = None" "DecodeString StdEncoding ?k = DecodeString StdEncoding sample_public_key" "?k \<noteq> sample_public_key"
    by (simp_all add: ValidatePublicKey_def str_simps Let_def wireGuardKeyLength_def sample_public_key_def)
  have db: "devices (w_db ?w) = [retired_row]" "users (w_db ?w) = [sample_user]" "device_tokens (w_db ?w) = []" "ip_allocations (w_db ?w) = []"
    by (simp_all add: retired_def sample_state_def empty_db_def)
  have row: "d_public_key retired_row = sample_public_key" "d_id retired_row = ''dev_1''" "d_revoked_at retired_row \<noteq> None" "u_id sample_user = ''usr_1''"
    by (simp_all add: retired_row_def device_row_of_def sample_member_def sample_user_def)
  have name: "truncate_str (TrimSpace (nd_Name ?inp)) maxNameLength \<noteq> []"
    using sample_name by (simp add: sample_device_def)
  have fresh: "new_id (replicate 16 9) \<noteq> ''dev_1''"
    by (auto simp: new_id_def DeviceIDPrefix_def IDEntropyBytes_def dest!: arg_cong [where f = length] simp: length_base32_Encode)
  have free: "free_in (st_allocator sample_store) (al_v4 (st_allocator sample_store)) (w_db ?w) \<noteq> []" "\<not> IPv6Enabled (st_allocator sample_store)"
    using db(4) by (simp_all add: free_in_def sample_hosts sample_store_def sample_last in_use_def IPv6Enabled_def)
  obtain dev w' where run: "create sample_store ''usr_1'' ?inp [] [] 10 ?w = (Ret dev, w')"
    using create_total [of ?w sample_store ?inp "''usr_1''" "[]" "[]" 10] retired_consistent sample_allocator_ok k name fresh free db row
    by (auto simp: IDEntropyBytes_def)
  have "dv_PublicKey dev = ?k" using create_Ret [OF sample_allocator_ok run] k(1) by (auto simp: draft_device_def)
  then show ?thesis using run k(3) row by auto
qed

text \<open>
  The identity of the installation never changes: what \<open>InstanceID\<close> returned once it returns
  at every later start and after every request.
\<close>

theorem instance_identity_stable:
  assumes "New lib cfg i t w = (Ret s, w')" "plane.reaches s st st'"
    "InstanceID now1 v = (Ret ident, v')" "w_db v' = sv_db st"
    "InstanceID now2 u = (Ret ident2, u')" "w_db u = sv_db st'"
  shows "ident2 = ident"
proof -
  have "later (sv_db st) (sv_db st')" using history.reaches_kept [OF New_ok(1) [OF assms(1)] assms(2) later_refl] .
  moreover have "metadata (sv_db st) KeyInstanceID = Some ident" using InstanceID_Ret [OF assms(3)] assms(4) by simp
  ultimately have "metadata (sv_db st') KeyInstanceID = Some ident" by (auto simp: later_def map_le_def dom_def)
  then have "metadata (w_db u') KeyInstanceID = Some ident" using keepsD [OF keeps_InstanceID_value assms(5)] assms(6) by simp
  then show ?thesis using InstanceID_Ret [OF assms(5)] by simp
qed

theorem instance_identity_stable_witness:
  "\<exists>ident v' u'. InstanceID 0 \<lparr>w_db = empty_db, w_faults = [], w_entropy = replicate 16 7\<rparr> = (Ret ident, v') \<and>
     InstanceID 0 \<lparr>w_db = sv_db (rebooted booted), w_faults = [], w_entropy = replicate 16 9\<rparr> = (Ret ident, u')"
proof -
  obtain ident v' where v: "InstanceID 0 \<lparr>w_db = empty_db, w_faults = [], w_entropy = replicate 16 7\<rparr> = (Ret ident, v')"
    "w_db v' = sv_db booted"
    using reboot_instance [of sample_state] by (auto simp: booted_def sample_state_def)
  obtain ident2 u' where u: "InstanceID 0 \<lparr>w_db = sv_db (rebooted booted), w_faults = [], w_entropy = replicate 16 9\<rparr> = (Ret ident2, u')"
    using calm_InstanceID [of "\<lparr>w_db = sv_db (rebooted booted), w_faults = [], w_entropy = replicate 16 9\<rparr>" 0]
    by (auto simp: IDEntropyBytes_def)
  obtain w' where new: "New sample_lib sample_config ''net_1'' 0 \<lparr>w_db = empty_db, w_faults = [], w_entropy = replicate 48 7\<rparr> = (Ret sample_server, w')"
    using New_sample by blast
  have "ident2 = ident" using instance_identity_stable [OF new reboot_reaches v u] by simp
  with v u show ?thesis by blast
qed

end
