(* ===== verification/Access_Control.thy ===== *)
theory Access_Control
  imports Server_Routes Device_Lifecycle
begin

text \<open>
  Who may do what: a request that is answered with success on a guarded route was made with a
  live session, a valid CSRF token where it changes something, and an administrator's account
  where one is required; or, on the device routes, with the credential of an active device.
\<close>

section \<open>What a guard grants\<close>

definition admitted :: "Server \<Rightarrow> bool \<Rightarrow> request \<Rightarrow> db \<Rightarrow> bool" where
  "admitted s adminOnly r d \<longleftrightarrow> (\<exists>token row u. Cookie r SessionCookieName = Some token \<and>
     live (se_sessions s) d token (rq_now r) row \<and> u \<in> set (users d) \<and> u_id u = s_user_id row \<and>
     (rq_Method r \<in> {''GET'', ''HEAD'', ''OPTIONS''} \<or>
        (Header_Get r CSRFHeaderName \<noteq> [] \<and> HashToken (Header_Get r CSRFHeaderName) = s_csrf_hash row)) \<and>
     (adminOnly \<longrightarrow> u_role u = RoleAdmin))"

definition device_admitted :: "request \<Rightarrow> db \<Rightarrow> bool" where
  "device_admitted r d \<longleftrightarrow> validDeviceToken (bearerToken r) \<and> (\<exists>row \<in> set (devices d). holds_token (HashToken (bearerToken r)) d row)"

text \<open>\<open>demands P h\<close>: \<open>h\<close> only succeeds on requests and databases with property \<open>P\<close>.\<close>

definition demands :: "(request \<Rightarrow> db \<Rightarrow> bool) \<Rightarrow> handler \<Rightarrow> bool" where
  "demands P h \<longleftrightarrow> (\<forall>r w status body w'. h r w = (Ret (status, body), w') \<longrightarrow> status < 400 \<longrightarrow> P r (sv_db (w_db w)))"

lemma demandsD: "demands P h \<Longrightarrow> h r w = (Ret (status, body), w') \<Longrightarrow> status < 400 \<Longrightarrow> P r (sv_db (w_db w))"
  by (auto simp: demands_def)

lemma clearSessionCookies_run: "\<exists>w'. clearSessionCookies s w = (Ret (), w') \<and> sv_db (w_db w') = sv_db (w_db w)"
  by (simp add: clearSessionCookies_def bindM_def)

lemma refuse_clear: "bindM (clearSessionCookies s) (\<lambda>_. WriteError r c m) w = (Ret (status, body), w') \<Longrightarrow> \<not> status < 400"
  using clearSessionCookies_run [of s w] by (auto simp: bindM_def)

lemma with_db_world_twice [simp]: "with_db_world (with_db_world w v) v' = with_db_world w v'"
  by (simp add: with_db_world_def)

lemma requireSession_success:
  assumes "requireSession s h r w = (Ret (status, body), w')" "status < 400"
  shows "\<exists>token ses v1 user v2. Cookie r SessionCookieName = Some token \<and>
    Lookup (se_sessions s) token (rq_now r) (db_world w) = (Ret ses, v1) \<and> user_ByID (ss_UserID ses) v1 = (Ret user, v2) \<and>
    h (r\<lparr>rq_session := Some ses, rq_user := Some user\<rparr>) (with_db_world w v2) = (Ret (status, body), w')"
proof -
  obtain token where t: "Cookie r SessionCookieName = Some token" "token \<noteq> []"
    using assms refuse_clear [of s r] by (auto simp: requireSession_def split: option.splits if_splits)
  obtain found w1 where f: "tryM (on_db (Lookup (se_sessions s) token (rq_now r))) w = (Ret found, w1)"
    and rest: "(case found of
       Inl err \<Rightarrow> if \<not> errors_Is err ErrSessionNotFound \<and> \<not> errors_Is err ErrSessionExpired
         then WriteError r CodeInternal ''internal error''
         else bindM (clearSessionCookies s) (\<lambda>_. WriteError r CodeUnauthorized ''your session has ended; sign in again'')
     | Inr session \<Rightarrow> bindM (tryM (on_db (user_ByID (ss_UserID session)))) (\<lambda>owner. case owner of
         Inl err \<Rightarrow> if errors_Is err ErrUserNotFound
           then bindM (clearSessionCookies s) (\<lambda>_. WriteError r CodeUnauthorized ''your session has ended; sign in again'')
           else WriteError r CodeInternal ''internal error''
       | Inr user \<Rightarrow> h (r\<lparr>rq_session := Some session, rq_user := Some user\<rparr>))) w1 = (Ret (status, body), w')"
    using assms(1) t by (auto simp: requireSession_def bindM_Ret)
  obtain ses where ses: "found = Inr ses"
    using rest assms(2) refuse_clear [of s r] by (cases found) (auto split: if_splits)
  then obtain v1 where v1: "Lookup (se_sessions s) token (rq_now r) (db_world w) = (Ret ses, v1)" "w1 = with_db_world w v1"
    using f by (auto simp: tryM_Ret on_db_Ret)
  obtain owner w2 where o: "tryM (on_db (user_ByID (ss_UserID ses))) w1 = (Ret owner, w2)"
    and rest2: "(case owner of
         Inl err \<Rightarrow> if errors_Is err ErrUserNotFound
           then bindM (clearSessionCookies s) (\<lambda>_. WriteError r CodeUnauthorized ''your session has ended; sign in again'')
           else WriteError r CodeInternal ''internal error''
       | Inr user \<Rightarrow> h (r\<lparr>rq_session := Some ses, rq_user := Some user\<rparr>)) w2 = (Ret (status, body), w')"
    using rest ses by (auto simp: bindM_Ret)
  obtain user where "owner = Inr user"
    using rest2 assms(2) refuse_clear [of s r] by (cases owner) (auto split: if_splits)
  then have "\<exists>v2. user_ByID (ss_UserID ses) v1 = (Ret user, v2) \<and> w2 = with_db_world w v2" "h (r\<lparr>rq_session := Some ses, rq_user := Some user\<rparr>) w2 = (Ret (status, body), w')"
    using o v1 rest2 by (auto simp: tryM_Ret on_db_Ret)
  then show ?thesis using t v1 by blast
qed

lemma requireCSRF_success:
  "requireCSRF s h r w = (Ret (status, body), w') \<Longrightarrow> status < 400 \<Longrightarrow>
     (rq_Method r \<in> {''GET'', ''HEAD'', ''OPTIONS''} \<or> (\<exists>ses. rq_session r = Some ses \<and> VerifyCSRF ses (Header_Get r CSRFHeaderName))) \<and>
     h r w = (Ret (status, body), w')"
  by (auto simp: requireCSRF_def SessionFrom_def split: if_splits option.splits)

lemma requireAdmin_success:
  "requireAdmin s h r w = (Ret (status, body), w') \<Longrightarrow> status < 400 \<Longrightarrow>
     (\<exists>user. rq_user r = Some user \<and> IsAdmin user) \<and> h r w = (Ret (status, body), w')"
  by (auto simp: requireAdmin_def UserFrom_def split: if_splits option.splits)

lemma Header_Get_session [simp]: "Header_Get (r\<lparr>rq_session := a, rq_user := b\<rparr>) n = Header_Get r n"
  by (simp add: Header_Get_def Header_Values_def)

lemma demands_authenticated:
  assumes "store_ok (se_sessions s)" shows "demands (admitted s adm) (authenticated s h adm)"
  unfolding demands_def
proof (intro allI impI)
  fix r w status body w' assume run: "authenticated s h adm r w = (Ret (status, body), w')" and ok: "status < 400"
  let ?g = "if adm then requireAdmin s h else h"
  obtain token ses v1 user v2 where t: "Cookie r SessionCookieName = Some token"
    and l: "Lookup (se_sessions s) token (rq_now r) (db_world w) = (Ret ses, v1)"
    and u: "user_ByID (ss_UserID ses) v1 = (Ret user, v2)"
    and rest: "requireCSRF s ?g (r\<lparr>rq_session := Some ses, rq_user := Some user\<rparr>) (with_db_world w v2) = (Ret (status, body), w')"
    using requireSession_success [OF run [unfolded authenticated_def Let_def] ok] by blast
  obtain row where row: "live (se_sessions s) (sv_db (w_db w)) token (rq_now r) row" "ses = seen_session row (rq_now r)"
    "w_db v1 = touched_db row (rq_now r) (sv_db (w_db w))"
    using Lookup_Ret [OF assms l] by auto
  obtain ur where ur: "ur \<in> set (users (w_db v1))" "u_id ur = ss_UserID ses" "user = scanUser ur"
    using oneUser_Ret [OF u [unfolded user_ByID_def]] by auto
  have users: "users (w_db v1) = users (sv_db (w_db w))" by (simp add: row(3) touched_db_def)
  have ses: "ss_UserID ses = s_user_id row" "ss_csrfHash ses = s_csrf_hash row"
    by (simp_all add: row(2) seen_session_def scanSession_def)
  note c = requireCSRF_success [OF rest ok]
  have "u_role ur = RoleAdmin" if adm
  proof -
    have "requireAdmin s h (r\<lparr>rq_session := Some ses, rq_user := Some user\<rparr>) (with_db_world w v2) = (Ret (status, body), w')"
      using c that by simp
    from requireAdmin_success [OF this ok] show ?thesis using ur(3) by (simp add: IsAdmin_def scanUser_def)
  qed
  moreover have "rq_Method r \<in> {''GET'', ''HEAD'', ''OPTIONS''} \<or>
      (Header_Get r CSRFHeaderName \<noteq> [] \<and> HashToken (Header_Get r CSRFHeaderName) = s_csrf_hash row)"
    using c ses by (auto simp: VerifyCSRF_def split: if_splits)
  ultimately show "admitted s adm r (sv_db (w_db w))"
    unfolding admitted_def using t row(1) ur(1,2) users ses(1) by auto
qed

lemma demands_requireDevice: "demands device_admitted (requireDevice s h)"
  unfolding demands_def
proof (intro allI impI)
  fix r w status body w' assume run: "requireDevice s h r w = (Ret (status, body), w')" and ok: "status < 400"
  define w0 where "w0 = w\<lparr>w_db := (w_db w)\<lparr>sv_headers := AList.update ''Cache-Control'' ''no-store'' (sv_headers (w_db w))\<rparr>\<rparr>"
  obtain res w1 where a: "tryM (on_db (Authenticate (bearerToken r))) w0 = (Ret res, w1)"
    and rest: "(case res of Inl err \<Rightarrow> writeDeviceAuthError r err | Inr device \<Rightarrow> h r device) w1 = (Ret (status, body), w')"
    using run by (auto simp: requireDevice_def bindM_Ret w0_def)
  obtain dev where "res = Inr dev"
    using rest ok by (cases res) (auto simp: writeDeviceAuthError_def bindM_def split: if_splits)
  then obtain v where v: "Authenticate (bearerToken r) (db_world w0) = (Ret dev, v)"
    using a by (auto simp: tryM_Ret on_db_Ret)
  then show "device_admitted r (sv_db (w_db w))"
    using Authenticate_Ret [OF v] by (auto simp: device_admitted_def w0_def Authenticate_def split: if_splits)
qed

section \<open>Through the chain\<close>

text \<open>
  What a guard looks at: the method, the headers, the cookies and the instant of the request.
  The middleware in front of the routes changes none of it, nor the database.
\<close>

definition same_credentials :: "request \<Rightarrow> request \<Rightarrow> bool" where
  "same_credentials r q \<longleftrightarrow> rq_Method r = rq_Method q \<and> rq_Headers r = rq_Headers q \<and> rq_Cookies r = rq_Cookies q \<and>
     rq_now r = rq_now q \<and> rq_Path r = rq_Path q"

lemma same_credentials_upd [simp]:
  "same_credentials (r\<lparr>rq_PathID := i\<rparr>) r" "same_credentials (r\<lparr>rq_requestID := i\<rparr>) r" "same_credentials (r\<lparr>rq_bodyLimit := l\<rparr>) r"
  "same_credentials (arriving r) r"
  by (simp_all add: same_credentials_def arriving_def)

definition of_credentials :: "(request \<Rightarrow> db \<Rightarrow> bool) \<Rightarrow> bool" where
  "of_credentials P \<longleftrightarrow> (\<forall>r q d. same_credentials r q \<longrightarrow> P r d \<longrightarrow> P q d)"

lemma of_credentialsD: "of_credentials P \<Longrightarrow> P r d \<Longrightarrow> same_credentials r q \<Longrightarrow> P q d"
  by (auto simp: of_credentials_def)

lemma credentials_read: "same_credentials r q \<Longrightarrow> Header_Values r n = Header_Values q n" "same_credentials r q \<Longrightarrow> Cookie r n = Cookie q n"
  by (simp_all add: same_credentials_def Header_Values_def Cookie_def)

lemma of_credentials_admitted: "of_credentials (admitted s adm)" "of_credentials device_admitted"
  by (auto simp: of_credentials_def admitted_def device_admitted_def bearerToken_def Header_Get_def credentials_read)
     (auto simp: same_credentials_def)

lemma demands_Recoverer: "demands P h \<Longrightarrow> demands P (Recoverer h)"
  unfolding demands_def by (fastforce simp: Recoverer_def split: prod.splits res.splits if_splits)

lemma demands_RequestID:
  assumes "demands P h" "of_credentials P" shows "demands P (RequestID h)"
  unfolding demands_def
proof (intro allI impI)
  fix r w status body w' assume run: "RequestID h r w = (Ret (status, body), w')" and ok: "status < 400"
  obtain i w1 w2 where "NewID ''req'' w = (Ret i, w1)" "h (r\<lparr>rq_requestID := i\<rparr>) w2 = (Ret (status, body), w')" "sv_db (w_db w2) = sv_db (w_db w1)"
    using run by (auto simp: RequestID_def bindM_Ret)
  then show "P r (sv_db (w_db w))"
    using demandsD [OF assms(1) _ ok] of_credentialsD [OF assms(2)] NewID_frame [of "''req''" w] same_credentials_upd(2) by metis
qed

lemma demands_SecurityHeaders: "demands P h \<Longrightarrow> demands P (SecurityHeaders b h)"
  unfolding demands_def by (cases b) (fastforce simp: SecurityHeaders_def bindM_def returnM_def)+

lemma demands_MaxBodyBytes: "demands P h \<Longrightarrow> of_credentials P \<Longrightarrow> demands P (Http_Layer.MaxBodyBytes n h)"
  unfolding demands_def Http_Layer.MaxBodyBytes_def using of_credentialsD same_credentials_upd(3) by metis

lemma demands_RateLimit:
  assumes "demands P h" "\<And>l st. sv_db (put l st) = sv_db st" shows "demands P (RateLimit get put h)"
  unfolding demands_def
proof (intro allI impI)
  fix r w status body w' assume run: "RateLimit get put h r w = (Ret (status, body), w')" and ok: "status < 400"
  then obtain w1 where "h r w1 = (Ret (status, body), w')" "sv_db (w_db w1) = sv_db (w_db w)"
    using assms(2) by (auto simp: RateLimit_def Let_def bindM_def split: option.splits prod.splits if_splits)
  then show "P r (sv_db (w_db w))" using demandsD [OF assms(1) _ ok] by metis
qed

text \<open>What the routes demand of the requests with paths of their own, the whole server does.\<close>

lemma demands_serve:
  assumes "of_credentials P" "\<And>m pat h. demands (\<lambda>r d. find (matches r) (routes s) = Some (m, pat, h) \<longrightarrow> P r d) h"
  shows "demands P (serve s)"
proof -
  have mux: "demands P (ServeMux s)"
    unfolding demands_def
  proof (intro allI impI)
    fix r w status body w' assume run: "ServeMux s r w = (Ret (status, body), w')" and ok: "status < 400"
    then obtain m pat h where f: "find (matches r) (routes s) = Some (m, pat, h)"
      by (auto simp: ServeMux_def NotFoundHandler_def split: option.splits)
    define q where "q = r\<lparr>rq_PathID := (case match_path pat (rq_Path r) of None \<Rightarrow> [] | Some i \<Rightarrow> i)\<rparr>"
    have h: "h q w = (Ret (status, body), w')" using run f by (simp add: ServeMux_def q_def)
    have "matches q = matches r" by (simp add: q_def matches_def fun_eq_iff)
    then have "P q (sv_db (w_db w))" using demandsD [OF assms(2) [of m pat h] h ok] f by simp
    then show "P r (sv_db (w_db w))" using of_credentialsD [OF assms(1)] by (simp add: q_def)
  qed
  have chain: "demands P (buildHandler s)"
    unfolding buildHandler_def Chain_def
    using mux assms(1) by (simp add: demands_Recoverer demands_RequestID demands_SecurityHeaders demands_RateLimit demands_MaxBodyBytes)
  show ?thesis
    unfolding demands_def
  proof (intro allI impI)
    fix r w status body w' assume "serve s r w = (Ret (status, body), w')" "status < 400"
    then have "P (arriving r) (sv_db (w_db w))" using demandsD [OF chain] by (fastforce simp: serve_def fresh_response_def)
    then show "P r (sv_db (w_db w))" using of_credentialsD [OF assms(1)] by simp
  qed
qed

text \<open>The guard of each route, by method and path.\<close>

definition under :: "string list \<Rightarrow> request \<Rightarrow> bool" where
  "under p r \<longleftrightarrow> take (2 + length p) (rq_Path r) = [''api'', ''v1''] @ p"

definition at_path :: "string list \<Rightarrow> request \<Rightarrow> bool" where
  "at_path p r \<longleftrightarrow> rq_Path r = [''api'', ''v1''] @ p"

definition session_path :: "request \<Rightarrow> bool" where
  "session_path r \<longleftrightarrow> at_path [''auth'', ''logout''] r \<or> at_path [''auth'', ''session''] r \<or> at_path [''devices''] r \<or>
     (\<exists>i. at_path [''devices'', i] r \<and> \<not> (i = ''enroll'' \<and> rq_Method r = ''POST'') \<and> \<not> (i = ''me'' \<and> rq_Method r \<in> {''GET'', ''HEAD''}))"

definition device_path :: "request \<Rightarrow> bool" where
  "device_path r \<longleftrightarrow> at_path [''network'', ''config''] r \<or> at_path [''devices'', ''me'', ''heartbeat''] r \<or>
     (at_path [''devices'', ''me''] r \<and> rq_Method r \<in> {''GET'', ''HEAD''})"

lemma of_credentials_paths:
  assumes "of_credentials P"
  shows "of_credentials (\<lambda>r d. under p r \<longrightarrow> P r d)" "of_credentials (\<lambda>r d. session_path r \<longrightarrow> P r d)"
    "of_credentials (\<lambda>r d. device_path r \<longrightarrow> P r d)"
  using assms by (auto simp: of_credentials_def under_def session_path_def device_path_def at_path_def same_credentials_def)

lemma match_Lit: "match_path (Lit a # ps) p = Some y \<longleftrightarrow> (\<exists>q. p = a # q \<and> match_path ps q = Some y)"
  by (cases p) auto

lemma match_Wild: "match_path (Wild # ps) p = Some y \<longleftrightarrow> (\<exists>q z. p = y # q \<and> y \<noteq> [] \<and> match_path ps q = Some z)"
  by (cases p) auto

lemma match_Nil: "match_path [] p = Some y \<longleftrightarrow> p = [] \<and> y = []"
  by (cases p) auto

lemmas match_simps = match_Lit match_Wild match_Nil

lemma admin_guard:
  "find (matches r) (routes s) = Some (m, pat, h) \<Longrightarrow> under [''setup-keys''] r \<Longrightarrow> \<exists>g. h = authenticated s g True"
  by (drule find_SomeD) (auto simp: routes_def matches_def BasePath_def under_def match_simps)

lemma session_guard:
  "find (matches r) (routes s) = Some (m, pat, h) \<Longrightarrow> session_path r \<Longrightarrow> \<exists>g. h = authenticated s g False"
  by (drule find_SomeD) (auto simp: routes_def matches_def BasePath_def session_path_def at_path_def match_simps match_method_def split: if_splits)

lemma device_guard:
  assumes "find (matches r) (routes s) = Some (m, pat, h)" "device_path r" shows "\<exists>g. h = requireDevice s g"
proof (cases "at_path [''devices'', ''me''] r \<and> rq_Method r \<in> {''GET'', ''HEAD''}")
  case True
  then have "find (matches r) (routes s) = Some (''GET'', BasePath @ [Lit ''devices'', Lit ''me''], requireDevice s (handleDeviceMe s))"
    by (auto simp: routes_def matches_def BasePath_def at_path_def match_method_def)
  then show ?thesis using assms(1) by auto
next
  case False
  then show ?thesis using assms(2) find_SomeD [OF assms(1)]
    by (auto simp: routes_def matches_def BasePath_def device_path_def at_path_def match_simps match_method_def)
qed

lemma serve_demands:
  assumes "store_ok (se_sessions s)"
  shows "demands (\<lambda>r d. under [''setup-keys''] r \<longrightarrow> admitted s True r d) (serve s)"
    "demands (\<lambda>r d. session_path r \<longrightarrow> admitted s False r d) (serve s)"
    "demands (\<lambda>r d. device_path r \<longrightarrow> device_admitted r d) (serve s)"
proof -
  show "demands (\<lambda>r d. under [''setup-keys''] r \<longrightarrow> admitted s True r d) (serve s)"
  proof (intro demands_serve of_credentials_paths of_credentials_admitted)
    show "demands (\<lambda>r d. find (matches r) (routes s) = Some (m, pat, h) \<longrightarrow> under [''setup-keys''] r \<longrightarrow> admitted s True r d) h" for m pat h
      using demands_authenticated [OF assms, of True] admin_guard unfolding demands_def by metis
  qed
  show "demands (\<lambda>r d. session_path r \<longrightarrow> admitted s False r d) (serve s)"
  proof (intro demands_serve of_credentials_paths of_credentials_admitted)
    show "demands (\<lambda>r d. find (matches r) (routes s) = Some (m, pat, h) \<longrightarrow> session_path r \<longrightarrow> admitted s False r d) h" for m pat h
      using demands_authenticated [OF assms, of False] session_guard unfolding demands_def by metis
  qed
  show "demands (\<lambda>r d. device_path r \<longrightarrow> device_admitted r d) (serve s)"
  proof (intro demands_serve of_credentials_paths of_credentials_admitted)
    show "demands (\<lambda>r d. find (matches r) (routes s) = Some (m, pat, h) \<longrightarrow> device_path r \<longrightarrow> device_admitted r d) h" for m pat h
      using demands_requireDevice device_guard unfolding demands_def by metis
  qed
qed

section \<open>Letting the right requests through\<close>

lemma calm_authenticated:
  assumes "w_faults w = []" "schema_ok (sv_db (w_db w))" "store_ok (se_sessions s)"
    and t: "Cookie r SessionCookieName = Some token" "live (se_sessions s) (sv_db (w_db w)) token (rq_now r) row"
    and u: "u \<in> set (users (sv_db (w_db w)))" "u_id u = s_user_id row" "adm \<longrightarrow> u_role u = RoleAdmin"
    and c: "rq_Method r \<in> {''GET'', ''HEAD'', ''OPTIONS''} \<or>
        (Header_Get r CSRFHeaderName \<noteq> [] \<and> HashToken (Header_Get r CSRFHeaderName) = s_csrf_hash row)"
  shows "authenticated s h adm r w = h (r\<lparr>rq_session := Some (seen_session row (rq_now r)), rq_user := Some (scanUser u)\<rparr>)
     (with_db_world w (db_world w\<lparr>w_db := touched_db row (rq_now r) (sv_db (w_db w))\<rparr>))"
proof -
  define v where "v = db_world w\<lparr>w_db := touched_db row (rq_now r) (sv_db (w_db w))\<rparr>"
  have l: "Lookup (se_sessions s) token (rq_now r) (db_world w) = (Ret (seen_session row (rq_now r)), v)"
    using calm_Lookup [of "db_world w" "se_sessions s" token "rq_now r" row] assms(1-3) t by (simp add: v_def)
  have "find (\<lambda>r. u_id r = s_user_id row) (users (sv_db (w_db w))) = Some u"
    using find_unique [of u_id "users (sv_db (w_db w))" u] u assms(2) by (simp add: schema_ok_def users_schema_def)
  then have b: "user_ByID (ss_UserID (seen_session row (rq_now r))) v = (Ret (scanUser u), v)"
    using assms(1) by (simp add: user_ByID_def calm_oneUser v_def seen_session_def scanSession_def touched_db_def)
  have tk: "token \<noteq> []" using t(2) by (simp add: live_def)
  have csrf: "VerifyCSRF (seen_session row (rq_now r)) (Header_Get r CSRFHeaderName)"
    if "rq_Method r \<notin> {''GET'', ''HEAD'', ''OPTIONS''}"
    using c that HashToken_nonempty by (auto simp: VerifyCSRF_def seen_session_def scanSession_def)
  show ?thesis
    unfolding authenticated_def Let_def requireSession_def v_def [symmetric]
    using t(1) tk l b csrf u(3)
    by (auto simp: bindM_def tryM_def on_db_def requireCSRF_def requireAdmin_def SessionFrom_def UserFrom_def IsAdmin_def scanUser_def)
qed

lemma SecurityHeaders_run:
  "\<exists>w1. SecurityHeaders b h r w = h r w1 \<and> sv_db (w_db w1) = sv_db (w_db w) \<and> w_faults w1 = w_faults w \<and>
     w_entropy w1 = w_entropy w \<and> sv_limiter (w_db w1) = sv_limiter (w_db w)"
  by (cases b) (simp add: SecurityHeaders_def bindM_def returnM_def, rule exI, intro conjI, rule refl, simp_all)+

lemma serve_reaches:
  assumes "IDEntropyBytes \<le> length (w_entropy w)" "sv_limiter (w_db w) = None" "find (matches r) (routes s) = Some (m, pat, h)"
  shows "\<exists>r' w1. same_credentials r' r \<and> sv_db (w_db w1) = sv_db (w_db w) \<and> w_faults w1 = w_faults w \<and>
     (\<forall>x w'. h r' w1 = (Ret x, w') \<longrightarrow> serve s r w = (Ret x, w'))"
proof -
  define r0 where "r0 = arriving r"
  define w0 where "w0 = w\<lparr>w_db := fresh_response (w_db w)\<rparr>"
  obtain i w2 where i: "NewID ''req'' w0 = (Ret i, w2)" using assms(1) NewID_Ret [of "''req''" w0] by (auto simp: w0_def)
  define w3 where "w3 = w2\<lparr>w_db := (w_db w2)\<lparr>sv_headers := AList.update RequestIDHeader i (sv_headers (w_db w2))\<rparr>\<rparr>"
  define limit where "limit = ServerConfig.MaxBodyBytes (cfg_Server (se_cfg s))"
  define r1 where "r1 = r0\<lparr>rq_requestID := i, rq_bodyLimit := Some limit\<rparr>"
  define r' where "r' = r1\<lparr>rq_PathID := (case match_path pat (rq_Path r1) of None \<Rightarrow> [] | Some i \<Rightarrow> i)\<rparr>"
  obtain w1 where sec: "SecurityHeaders (se_secureCookies s) (RateLimit sv_limiter (\<lambda>l st. st\<lparr>sv_limiter := l\<rparr>)
        (Http_Layer.MaxBodyBytes limit (ServeMux s))) (r0\<lparr>rq_requestID := i\<rparr>) w3 =
      RateLimit sv_limiter (\<lambda>l st. st\<lparr>sv_limiter := l\<rparr>) (Http_Layer.MaxBodyBytes limit (ServeMux s)) (r0\<lparr>rq_requestID := i\<rparr>) w1"
    and w1: "sv_db (w_db w1) = sv_db (w_db w3)" "w_faults w1 = w_faults w3" "sv_limiter (w_db w1) = sv_limiter (w_db w3)"
    using SecurityHeaders_run by blast
  have fr: "w_db w2 = fresh_response (w_db w)" "w_faults w2 = w_faults w" using NewID_Ret [of "''req''" w0 i w2] i by (simp_all add: w0_def)
  have lim: "sv_limiter (w_db w1) = None" using w1 fr assms(2) by (simp add: w3_def fresh_response_def)
  have "matches r1 = matches r" by (simp add: r1_def r0_def arriving_def matches_def fun_eq_iff)
  then have mux: "ServeMux s r1 = h r'" using assms(3) by (simp add: ServeMux_def r'_def)
  have "serve s r w = Recoverer (RequestID (SecurityHeaders (se_secureCookies s) (RateLimit sv_limiter (\<lambda>l st. st\<lparr>sv_limiter := l\<rparr>)
        (Http_Layer.MaxBodyBytes limit (ServeMux s))))) r0 w0"
    by (simp add: serve_def buildHandler_def Chain_def r0_def w0_def limit_def)
  also have "\<dots> = Recoverer (\<lambda>_ _. h r' w1) r0 w0"
    using i sec lim mux by (simp add: Recoverer_def RequestID_def bindM_def w3_def [symmetric] RateLimit_def Http_Layer.MaxBodyBytes_def r1_def)
  finally have "\<forall>x w'. h r' w1 = (Ret x, w') \<longrightarrow> serve s r w = (Ret x, w')" by (simp add: Recoverer_def)
  moreover have "same_credentials r' r" by (simp add: same_credentials_def r'_def r1_def r0_def arriving_def)
  moreover have "sv_db (w_db w1) = sv_db (w_db w)" "w_faults w1 = w_faults w"
    using w1 fr by (simp_all add: w3_def fresh_response_def)
  ultimately show ?thesis by blast
qed

end
