(* ===== verification/Reply_Contract.thy ===== *)
theory Reply_Contract
  imports Server_Routes
begin

text \<open>
  What a client can rely on in a reply: an error body travels with the status of its code, and a
  status of success with anything but an error body, save that a probe which finds a dependency
  down answers 503 with its report.
\<close>

definition reply_ok :: "reply \<Rightarrow> bool" where
  "reply_ok x \<longleftrightarrow> (case snd x of PError resp \<Rightarrow> fst x = HTTPStatus (er_Code (rp_Error resp))
     | PHealth h \<Rightarrow> fst x = (if hr_Status h = StatusDown then 503 else 200) | _ \<Rightarrow> 200 \<le> fst x \<and> fst x < 300)"

definition replies :: "(state, reply) comp \<Rightarrow> bool" where
  "replies m \<longleftrightarrow> (\<forall>w x w'. m w = (Ret x, w') \<longrightarrow> reply_ok x)"

named_theorems reply_intros

lemma repliesD: "replies m \<Longrightarrow> m w = (Ret x, w') \<Longrightarrow> reply_ok x"
  unfolding replies_def by blast

lemma replies_bindM [reply_intros]: "(\<And>a. replies (k a)) \<Longrightarrow> replies (bindM m k)"
  by (fastforce simp: replies_def bindM_Ret)

lemma replies_if [reply_intros]: "(b \<Longrightarrow> replies m) \<Longrightarrow> (\<not> b \<Longrightarrow> replies n) \<Longrightarrow> replies (if b then m else n)"
  by simp

lemma replies_option [reply_intros]: "replies m \<Longrightarrow> (\<And>x. replies (f x)) \<Longrightarrow> replies (case v of None \<Rightarrow> m | Some x \<Rightarrow> f x)"
  by (cases v) auto

lemma replies_sum [reply_intros]: "(\<And>x. replies (f x)) \<Longrightarrow> (\<And>x. replies (g x)) \<Longrightarrow> replies (case v of Inl x \<Rightarrow> f x | Inr x \<Rightarrow> g x)"
  by (cases v) auto

lemma replies_prod [reply_intros]: "(\<And>x y. replies (f x y)) \<Longrightarrow> replies (case p of (x, y) \<Rightarrow> f x y)"
  by (cases p) auto

lemma replies_bool [reply_intros]: "replies m \<Longrightarrow> replies n \<Longrightarrow> replies (case b of True \<Rightarrow> m | False \<Rightarrow> n)"
  by (cases b) auto

lemma replies_Let [reply_intros]: "replies (f v) \<Longrightarrow> replies (Let v f)"
  by simp

lemma replies_error [reply_intros]: "replies (WriteError r c m)" "replies (WriteErrorDetail r c m k v)" "replies (NotImplemented r f p)"
  by (auto simp: replies_def reply_ok_def WithRequestID_def NewErrorResponse_def WithDetail_def NotImplemented_def
      writeErrorResponse_def Let_def bindM_Ret)

lemma replies_empty [reply_intros]: "replies (WriteHeader 204)"
  by (auto simp: replies_def reply_ok_def WriteHeader_def)

lemma replies_JSON: "200 \<le> status \<Longrightarrow> status < 300 \<Longrightarrow> (\<And>resp. body \<noteq> PError resp) \<Longrightarrow> (\<And>h. body \<noteq> PHealth h) \<Longrightarrow> replies (WriteJSON status body)"
  by (auto simp: replies_def reply_ok_def split: payload.splits)

lemma replies_health [reply_intros]:
  "replies (WriteJSON (if hr_Status h = StatusDown then 503 else 200) (PHealth h))"
  "replies (WriteJSON 200 (PHealth \<lparr>hr_Status = StatusOK, hr_Version = v, hr_UptimeSeconds = u, hr_Checks = c\<rparr>))"
  by (auto simp: replies_def reply_ok_def StatusOK_def StatusDown_def)

lemma replies_bodies [reply_intros]:
  "replies (WriteJSON 200 (PVersion b))" "replies (WriteJSON 200 (PNegotiate c))"
  "replies (WriteJSON 200 (PSession d))" "replies (WriteJSON 201 (PSession d))" "replies (WriteJSON 200 (PAuthStatus e))"
  "replies (WriteJSON 200 (PDevice f))" "replies (WriteJSON 201 (PDevice f))" "replies (WriteJSON 200 (PDeviceList g))"
  "replies (WriteJSON 201 (PEnroll h))" "replies (WriteJSON 200 (PNetwork i))" "replies (WriteJSON 201 (PSetupKey j))"
  "replies (WriteJSON 200 (PSetupKeyList k))"
  by (rule replies_JSON; simp)+

lemma replies_DecodeJSON: "(\<And>v. replies (f v)) \<Longrightarrow> replies (case DecodeJSON dec r of Inl resp \<Rightarrow> resp | Inr v \<Rightarrow> f v)"
proof (cases "DecodeJSON dec r")
  case (Inl resp)
  have "replies resp" using Inl by (auto simp: DecodeJSON_def Let_def split: if_splits json_outcome.splits intro: reply_intros)
  with Inl show ?thesis by simp
qed simp

section \<open>Handlers\<close>

lemma replies_errors [reply_intros]: "replies (writeDeviceError s r e)" "replies (writeDeviceAuthError r e)"
  unfolding writeDeviceError_def writeDeviceAuthError_def by (intro reply_intros)+

lemma replies_finish_login [reply_intros]: "replies (finish_login s r u)"
  unfolding finish_login_def by (intro reply_intros)

lemma replies_handlers:
  "replies (handleAuthStatus s r)" "replies (handleBootstrap s r)" "replies (handleLogin s r)" "replies (handleLogout s r)"
  "replies (handleSession s r)" "replies (handleListDevices s r)" "replies (handleGetDevice s r)" "replies (handleRegisterDevice s r)"
  "replies (handleEnrollDevice s r)" "replies (handleRevokeDevice s r)" "replies (handleCreateSetupKey s r)"
  "replies (handleListSetupKeys s r)" "replies (handleRevokeSetupKey s r)" "replies (handleDeviceMe s r d)"
  "replies (handleDeviceHeartbeat s r d)" "replies (handleDeviceNetworkConfig s r d)" "replies (handleLive s r)" "replies (handleReady s r)" "replies (handleHealth s r)"
  "replies (handleMetrics s r)" "replies (handleVersion s r)" "replies (handleNegotiate s r)"
proof -
  show "replies (handleBootstrap s r)" "replies (handleLogin s r)" "replies (handleEnrollDevice s r)" "replies (handleNegotiate s r)"
    unfolding handleBootstrap_def handleLogin_def handleEnrollDevice_def handleNegotiate_def
    by (rule replies_DecodeJSON, intro reply_intros)+
  show "replies (handleRegisterDevice s r)" "replies (handleCreateSetupKey s r)"
    unfolding handleRegisterDevice_def handleCreateSetupKey_def
    by (intro replies_option replies_error replies_DecodeJSON, intro reply_intros)+
qed (unfold handleAuthStatus_def handleLogout_def handleSession_def handleListDevices_def handleGetDevice_def handleRevokeDevice_def
    handleListSetupKeys_def handleRevokeSetupKey_def handleDeviceMe_def handleDeviceHeartbeat_def handleDeviceNetworkConfig_def
    handleLive_def handleReady_def handleHealth_def handleMetrics_def handleVersion_def, (intro reply_intros)+)

section \<open>Middleware\<close>

lemma replies_RateLimit: "(\<And>r. replies (h r)) \<Longrightarrow> replies (RateLimit get put h r)"
proof -
  assume h: "\<And>r. replies (h r)"
  have den: "replies (bindM (setHeader ''Retry-After'' x) (\<lambda>_. WriteErrorDetail r c m k v))" for x c m k v by (intro reply_intros)
  show "replies (RateLimit get put h r)"
    unfolding replies_def RateLimit_def
    using repliesD [OF h] repliesD [OF den] by (auto simp: Let_def split: option.splits prod.splits if_splits)
qed

lemma replies_guards:
  assumes "\<And>r. replies (h r)"
  shows "replies (requireSession s h r)" "replies (requireCSRF s h r)" "replies (requireAdmin s h r)" "replies (rateLimitAuth s h r)"
    "replies (RequestID h r)" "replies (SecurityHeaders b h r)" "replies (Http_Layer.MaxBodyBytes n h r)"
  unfolding requireSession_def requireCSRF_def requireAdmin_def rateLimitAuth_def RequestID_def SecurityHeaders_def Http_Layer.MaxBodyBytes_def
  by (intro reply_intros replies_RateLimit assms)+

lemma replies_authenticated: "(\<And>r. replies (h r)) \<Longrightarrow> replies (authenticated s h adm r)"
  unfolding authenticated_def Let_def by (intro replies_guards) (simp add: replies_guards)

lemma replies_requireDevice: "(\<And>r d. replies (h r d)) \<Longrightarrow> replies (requireDevice s h r)"
  unfolding requireDevice_def by (intro reply_intros)

lemma replies_Recoverer: "(\<And>r. replies (h r)) \<Longrightarrow> replies (Recoverer h r)"
  unfolding replies_def
  using repliesD [OF replies_error(1)] by (fastforce simp: Recoverer_def split: prod.splits res.splits if_splits)

lemma replies_route: "(m, pat, h) \<in> set (routes s) \<Longrightarrow> replies (h r)"
  unfolding routes_def by (auto intro!: replies_authenticated replies_guards replies_requireDevice replies_handlers)

lemma replies_ServeMux: "replies (ServeMux s r)"
proof (cases "find (matches r) (routes s)")
  case None
  then show ?thesis by (simp add: ServeMux_def NotFoundHandler_def replies_error)
next
  case (Some x)
  obtain m pat h where x: "x = (m, pat, h)" by (cases x)
  then have "(m, pat, h) \<in> set (routes s)" using find_SomeD [OF Some] by simp
  then show ?thesis using Some x replies_route by (simp add: ServeMux_def)
qed

lemma replies_serve: "replies (serve s r)"
proof -
  have "replies (buildHandler s q)" for q
    unfolding buildHandler_def Chain_def by (auto intro!: replies_Recoverer replies_guards replies_RateLimit replies_ServeMux)
  then show ?thesis unfolding replies_def serve_def by blast
qed

end
