(* ===== verification/Access_Theorems.thy ===== *)
theory Access_Theorems
  imports Access_Control Reply_Contract Sample_Server
begin

text \<open>
  The properties of access to the API, for the whole server as \<open>serve\<close> runs it and for the
  handlers of login, bootstrap and enrolment.
\<close>

section \<open>A signed-in administrator\<close>

definition sample_session :: session_row where
  "sample_session = \<lparr>s_id = ''ses_1'', s_token_hash = HashToken ''tok'', s_csrf_hash = HashToken ''csrf'', s_user_id = ''usr_1'',
     s_created_at = 0, s_last_used_at = 0, s_expires_at = 1000, s_ip = [], s_user_agent = []\<rparr>"

definition signed_in :: "state world" where
  "signed_in = \<lparr>w_db = \<lparr>sv_db = sample_db\<lparr>sessions := [sample_session]\<rparr>, sv_limiter = None, sv_authLimiter = None, sv_headers = [], sv_cookies = []\<rparr>,
     w_faults = [], w_entropy = replicate 16 7\<rparr>"

definition keys_request :: request where
  "keys_request = \<lparr>rq_Method = ''GET'', rq_Path = [''api'', ''v1'', ''setup-keys''], rq_PathID = [], rq_RemoteAddr = [], rq_Headers = [],
     rq_Cookies = [(SessionCookieName, ''tok'')], rq_Body = [], rq_ContentLength = 0, rq_TransferEncoding = [], rq_now = 5, rq_done = 5,
     rq_bodyLimit = None, rq_requestID = [], rq_session = None, rq_user = None\<rparr>"

lemma signed_in_live: "live (se_sessions sample_server) (sv_db (w_db signed_in)) ''tok'' 5 sample_session"
  by (simp add: live_def signed_in_def sample_session_def sample_server_def NewSessionStore_def time_Sub_def duration_defs int64_def)

lemma signed_in_schema: "schema_ok (sv_db (w_db signed_in))"
  by (simp add: signed_in_def sample_db_def schema_ok_def table_schemas empty_db_def)
     (simp add: sample_session_def sample_user_def sample_setup_key_def)

lemma keys_route: "find (matches keys_request) (routes s) =
    Some (''GET'', BasePath @ [Lit ''setup-keys''], authenticated s (handleListSetupKeys s) True)"
  by (simp add: routes_def matches_def BasePath_def match_method_def keys_request_def)

lemma keys_listed: "\<exists>body w'. serve sample_server keys_request signed_in = (Ret (200, body), w')"
proof -
  have w: "IDEntropyBytes \<le> length (w_entropy signed_in)" "sv_limiter (w_db signed_in) = None" "w_faults signed_in = []"
    by (simp_all add: signed_in_def IDEntropyBytes_def)
  obtain r' w1 where r: "same_credentials r' keys_request" "sv_db (w_db w1) = sv_db (w_db signed_in)" "w_faults w1 = []"
    and run: "\<And>x w'. authenticated sample_server (handleListSetupKeys sample_server) True r' w1 = (Ret x, w') \<Longrightarrow>
        serve sample_server keys_request signed_in = (Ret x, w')"
    using serve_reaches [OF w(1,2) keys_route [of sample_server]] w(3) by metis
  have c: "Cookie r' SessionCookieName = Some ''tok''" "rq_now r' = 5" "rq_Method r' = ''GET''"
    using r(1) by (simp_all add: same_credentials_def keys_request_def Cookie_def)
  have ok: "store_ok (se_sessions sample_server)" by (simp add: sample_server_def NewSessionStore_ok)
  have "sample_user \<in> set (users (sv_db (w_db w1)))" "u_id sample_user = s_user_id sample_session" "u_role sample_user = RoleAdmin"
    by (simp_all add: r signed_in_def sample_db_def sample_user_def sample_session_def RoleAdmin_def)
  then have a: "authenticated sample_server (handleListSetupKeys sample_server) True r' w1 = handleListSetupKeys sample_server
      (r'\<lparr>rq_session := Some (seen_session sample_session 5), rq_user := Some (scanUser sample_user)\<rparr>)
      (with_db_world w1 (db_world w1\<lparr>w_db := touched_db sample_session 5 (sv_db (w_db w1))\<rparr>))" (is "_ = handleListSetupKeys _ ?q ?v")
    using calm_authenticated [of w1 sample_server r' "''tok''" sample_session sample_user True] c r signed_in_schema signed_in_live ok by simp
  have "w_faults ?v = []" using r(3) by simp
  then have "\<exists>body w'. handleListSetupKeys sample_server ?q ?v = (Ret (200, body), w')"
    by (simp add: handleListSetupKeys_def bindM_def tryM_def on_db_def ListSetupKeys_def mapErr_def calm_queryM returnM_def
        split: prod.splits)
  then show ?thesis using run a by auto
qed

text \<open>
  C2: Through the whole chain of middleware and whatever driver calls fail: a request that is
  answered with success under \<open>/api/v1/setup-keys\<close> carried the cookie of a live session of an
  administrator and, unless it only reads, that session's CSRF token; on the other routes that
  need an account, the same without the role; and on the device routes, a well-formed
  credential of a device that is not revoked.
\<close>

theorem guarded_routes:
  assumes "New lib cfg i t v = (Ret s, v')" "serve s r w = (Ret (status, body), w')" "status < 400"
  shows "(under [''setup-keys''] r \<longrightarrow> admitted s True r (sv_db (w_db w))) \<and>
    (session_path r \<longrightarrow> admitted s False r (sv_db (w_db w))) \<and>
    (device_path r \<longrightarrow> device_admitted r (sv_db (w_db w)))"
  using serve_demands [OF New_ok(2) [OF assms(1)]] assms(2,3) unfolding demands_def by blast

theorem guarded_routes_witness:
  "admitted sample_server True keys_request (sv_db (w_db signed_in)) \<and>
   (\<exists>body w'. serve sample_server keys_request signed_in = (Ret (200, body), w'))"
proof -
  obtain body w' where run: "serve sample_server keys_request signed_in = (Ret (200, body), w')" using keys_listed by blast
  have "under [''setup-keys''] keys_request" by (simp add: under_def keys_request_def)
  then show ?thesis using New_sample [of empty_db] guarded_routes [OF _ run] run by auto
qed

text \<open>
  C30: The guards refuse nobody they should admit: without driver faults, a request with the cookie
  of a live session, its CSRF token when it changes something, and an administrator's account
  when the route needs one, reaches its handler, which sees that session and that account.
\<close>

theorem session_admits:
  assumes "w_faults w = []" "schema_ok (sv_db (w_db w))" "store_ok (se_sessions s)" "admitted s adm r (sv_db (w_db w))"
  shows "\<exists>ses user w1. authenticated s h adm r w = h (r\<lparr>rq_session := Some ses, rq_user := Some user\<rparr>) w1 \<and>
    ss_UserID ses = us_ID user \<and> (\<exists>u \<in> set (users (sv_db (w_db w))). user = scanUser u) \<and> (adm \<longrightarrow> IsAdmin user) \<and> w_faults w1 = []"
proof -
  obtain token row u where a: "Cookie r SessionCookieName = Some token" "live (se_sessions s) (sv_db (w_db w)) token (rq_now r) row"
    "u \<in> set (users (sv_db (w_db w)))" "u_id u = s_user_id row" "adm \<longrightarrow> u_role u = RoleAdmin"
    "rq_Method r \<in> {''GET'', ''HEAD'', ''OPTIONS''} \<or>
        (Header_Get r CSRFHeaderName \<noteq> [] \<and> HashToken (Header_Get r CSRFHeaderName) = s_csrf_hash row)"
    using assms(4) unfolding admitted_def by blast
  show ?thesis
  proof (intro exI conjI)
    show "authenticated s h adm r w = h (r\<lparr>rq_session := Some (seen_session row (rq_now r)), rq_user := Some (scanUser u)\<rparr>)
        (with_db_world w (db_world w\<lparr>w_db := touched_db row (rq_now r) (sv_db (w_db w))\<rparr>))"
      using calm_authenticated [OF assms(1-3) a] .
    show "ss_UserID (seen_session row (rq_now r)) = us_ID (scanUser u)" using a(4) by (simp add: seen_session_def scanSession_def scanUser_def)
    show "\<exists>x \<in> set (users (sv_db (w_db w))). scanUser u = scanUser x" using a(3) by blast
    show "adm \<longrightarrow> IsAdmin (scanUser u)" using a(5) by (simp add: IsAdmin_def scanUser_def)
  qed (simp add: assms(1))
qed

theorem session_admits_witness:
  "\<exists>ses user w1. authenticated sample_server (handleSession sample_server) True keys_request signed_in =
     handleSession sample_server (keys_request\<lparr>rq_session := Some ses, rq_user := Some user\<rparr>) w1 \<and> IsAdmin user"
proof -
  have adm: "admitted sample_server True keys_request (sv_db (w_db signed_in))"
    unfolding admitted_def using signed_in_live
    by (intro exI [of _ "''tok''"] exI [of _ sample_session] exI [of _ sample_user])
       (simp add: keys_request_def Cookie_def signed_in_def sample_db_def sample_user_def sample_session_def RoleAdmin_def)
  have "w_faults signed_in = []" "store_ok (se_sessions sample_server)"
    by (simp_all add: signed_in_def sample_server_def NewSessionStore_ok)
  then show ?thesis using session_admits [OF _ signed_in_schema _ adm, where h = "handleSession sample_server"] by auto
qed

section \<open>Replies\<close>



end
