(* ===== verification/Account_Theorems.thy ===== *)
theory Account_Theorems
  imports Sample_Server
begin

text \<open>
  The properties of accounts and sessions: passwords, login, bootstrap, and the life of a
  session from its issue to its end.
\<close>

section \<open>Runs of the store\<close>

lemma calm_NewToken: "n \<le> length (w_entropy w) \<Longrightarrow> NewToken n w =
    (Ret (EncodeToString RawURLEncoding (take n (w_entropy w))), w\<lparr>w_entropy := drop n (w_entropy w)\<rparr>)"
  by (simp add: NewToken_def bindM_def mapErr_def rand_Read_def returnM_def)

lemma calm_NewID: "IDEntropyBytes \<le> length (w_entropy w) \<Longrightarrow> \<exists>i. NewID p w = (Ret i, w\<lparr>w_entropy := drop IDEntropyBytes (w_entropy w)\<rparr>) \<and>
    i = (if p = [] then [] else p @ ''_'') @ base32_Encode (take IDEntropyBytes (w_entropy w))"
  using NewID_Ret [of p w] by blast

text \<open>The token and the identifier a session would get from a stream of random bytes.\<close>

definition next_token :: "byte list \<Rightarrow> string" where
  "next_token es = EncodeToString RawURLEncoding (take 32 es)"

definition next_session_id :: "byte list \<Rightarrow> string" where
  "next_session_id es = SessionIDPrefix @ ''_'' @ base32_Encode (take IDEntropyBytes (drop 64 es))"

definition can_issue :: "string \<Rightarrow> db world \<Rightarrow> bool" where
  "can_issue u w \<longleftrightarrow> w_faults w = [] \<and> 80 \<le> length (w_entropy w) \<and> u \<noteq> [] \<and> u \<in> u_id ` set (users (w_db w)) \<and>
     HashToken (next_token (w_entropy w)) \<notin> s_token_hash ` set (sessions (w_db w)) \<and>
     next_session_id (w_entropy w) \<notin> s_id ` set (sessions (w_db w))"

lemma calm_Issue:
  assumes "can_issue u w"
  shows "\<exists>iss w'. Issue s u meta now w = (Ret iss, w') \<and> w_faults w' = [] \<and> is_Token iss = next_token (w_entropy w)"
proof -
  have e: "w_faults w = []" "80 \<le> length (w_entropy w)" "u \<noteq> []" using assms by (simp_all add: can_issue_def)
  have n: "NewID SessionIDPrefix (w\<lparr>w_entropy := drop 64 (w_entropy w)\<rparr>) =
      (Ret (next_session_id (w_entropy w)), w\<lparr>w_entropy := drop (IDEntropyBytes + 64) (w_entropy w)\<rparr>)"
    using calm_NewID [of "w\<lparr>w_entropy := drop 64 (w_entropy w)\<rparr>" SessionIDPrefix] e(2)
    by (auto simp: next_session_id_def IDEntropyBytes_def SessionIDPrefix_def)
  show ?thesis using assms e n
    by (simp add: Issue_def bindM_def mapErr_def calm_NewToken sessionTokenBytes_def csrfTokenBytes_def Let_def calm_execM
        insert_session_def can_issue_def next_token_def [symmetric] returnM_def image_iff)
qed

section \<open>Sessions\<close>

text \<open>
  C25: A session token works from its issue until it expires or falls idle: \<open>Lookup\<close> then returns
  the session of the user it was issued to, and the CSRF token issued with it verifies.
\<close>

theorem session_round_trip:
  assumes "store_ok s" "consistent (w_db w)" "Issue s u meta now w = (Ret iss, w')" "w_faults v = []" "w_db v = w_db w'"
    "t < now + sto_lifetime s" "sto_idleTimeout s = 0 \<or> time_Sub t now < sto_idleTimeout s"
  shows "\<exists>ses v'. Lookup s (is_Token iss) t v = (Ret ses, v') \<and> ss_UserID ses = u \<and> VerifyCSRF ses (is_CSRFToken iss) \<and>
    ss_ExpiresAt ses = now + sto_lifetime s"
proof -
  obtain row where row: "w_db w' = (w_db w)\<lparr>sessions := sessions (w_db w) @ [row]\<rparr>" "s_token_hash row = HashToken (is_Token iss)"
    "s_csrf_hash row = HashToken (is_CSRFToken iss)" "s_user_id row = u" "s_last_used_at row = now"
    "s_expires_at row = now + sto_lifetime s" "length (is_Token iss) = 43" "length (is_CSRFToken iss) = 43"
    using Issue_Ret [OF assms(3)] by blast
  have "live s (w_db v) (is_Token iss) t row" using assms(5-7) row by (auto simp: live_def)
  moreover have "schema_ok (w_db v)" using keepsD [OF keeps_Issue assms(3,2)] assms(5) by (simp add: consistent_def)
  ultimately have "Lookup s (is_Token iss) t v = (Ret (seen_session row t), v\<lparr>w_db := touched_db row t (w_db v)\<rparr>)"
    using calm_Lookup [OF assms(4)] assms(1) by blast
  moreover have "is_CSRFToken iss \<noteq> []" using row(8) by auto
  ultimately show ?thesis using row by (auto simp: seen_session_def scanSession_def VerifyCSRF_def)
qed

definition issue_world :: "db world" where
  "issue_world = \<lparr>w_db = sample_db, w_faults = [], w_entropy = replicate 80 7\<rparr>"

lemma issue_sample: "can_issue ''usr_1'' issue_world"
  by (simp add: can_issue_def issue_world_def sample_db_def sample_user_def empty_db_def)

theorem session_round_trip_witness:
  "\<exists>iss w' ses v'. Issue (se_sessions sample_server) ''usr_1'' \<lparr>mt_IP = [], mt_UserAgent = []\<rparr> 10 issue_world = (Ret iss, w') \<and>
     Lookup (se_sessions sample_server) (is_Token iss) 20 w' = (Ret ses, v') \<and> ss_UserID ses = ''usr_1''"
proof -
  obtain iss w' where i: "Issue (se_sessions sample_server) ''usr_1'' \<lparr>mt_IP = [], mt_UserAgent = []\<rparr> 10 issue_world = (Ret iss, w')" "w_faults w' = []"
    using calm_Issue [OF issue_sample] by blast
  have "store_ok (se_sessions sample_server)" "(20 :: int) < 10 + sto_lifetime (se_sessions sample_server)"
    "time_Sub 20 10 < sto_idleTimeout (se_sessions sample_server)"
    by (simp_all add: sample_server_def NewSessionStore_ok) (simp_all add: NewSessionStore_def duration_defs time_Sub_def)
  then show ?thesis using session_round_trip [OF _ _ i(1) i(2) refl, where t = 20] sample_consistent i by (auto simp: issue_world_def)
qed

text \<open>
  C24: Without driver faults \<open>Lookup\<close> accepts a token exactly when a session with its hash is
  neither expired nor idle too long; every other token gets an error, and the row of an expired
  session is gone afterwards.
\<close>

theorem lookup_exact:
  assumes "store_ok s" "schema_ok (w_db w)" "w_faults w = []"
  shows "if \<exists>r. live s (w_db w) token now r then \<exists>ses w'. Lookup s token now w = (Ret ses, w')
    else \<exists>e w'. Lookup s token now w = (Err e, w') \<and> e \<in> {ErrSessionNotFound, ErrSessionExpired} \<and>
      (token \<noteq> [] \<longrightarrow> HashToken token \<notin> s_token_hash ` set (sessions (w_db w')))"
proof (cases "\<exists>r. live s (w_db w) token now r")
  case True
  then show ?thesis using calm_Lookup [OF assms(3,2,1)] by auto
next
  case False
  show ?thesis
  proof (cases "find (\<lambda>r. s_token_hash r = HashToken token) (sessions (w_db w))")
    case None
    moreover have "HashToken token \<notin> s_token_hash ` set (sessions (w_db w))" using None find_None_image by metis
    ultimately show ?thesis using False assms(3)
      by (simp add: Lookup_def bindM_def mapErr_def calm_queryM failM_def)
  next
    case (Some r)
    then have r: "r \<in> set (sessions (w_db w))" "s_token_hash r = HashToken token" using find_SomeD [OF Some] by auto
    have uniq: "s_id x = s_id r" if "x \<in> set (sessions (w_db w))" "s_token_hash x = HashToken token" for x
      using assms(2) that r by (auto simp: schema_ok_def sessions_schema_def distinct_map inj_on_def)
    have "token \<noteq> [] \<Longrightarrow> isExpired s (scanSession r) now" using isExpired_live [OF assms(1) _ r] False by auto
    then show ?thesis using Some False assms(3) uniq
      by (auto simp: Lookup_def bindM_def mapErr_def calm_queryM calm_execM failM_def returnM_def Let_def deleteByID_def
          delete_sessions_def delete_where_def scanSession_def image_iff)
  qed
qed

theorem lookup_exact_witness:
  "\<exists>e w'. Lookup (se_sessions sample_server) ''guess'' 5 issue_world = (Err e, w') \<and> e \<in> {ErrSessionNotFound, ErrSessionExpired}"
proof -
  have "store_ok (se_sessions sample_server)" "schema_ok (w_db issue_world)" "w_faults issue_world = []"
    "\<not> (\<exists>r. live (se_sessions sample_server) (w_db issue_world) ''guess'' 5 r)"
    using sample_consistent by (simp_all add: sample_server_def NewSessionStore_ok issue_world_def consistent_def live_def)
       (simp add: sample_db_def empty_db_def)
  then show ?thesis using lookup_exact [of "se_sessions sample_server" issue_world "''guess''" 5] by auto
qed

text \<open>
  Signing out ends the session: once \<open>Revoke\<close> has returned, under whatever faults come later,
  \<open>Lookup\<close> accepts the token at no instant; and \<open>RevokeAllForUser\<close> ends every session of the
  user and no other, and counts them.
\<close>

theorem revoked_sessions_end:
  assumes "store_ok s"
  shows "(\<forall>token w w' v now ses v'. session_Revoke token w = (Ret (), w') \<longrightarrow> w_db v = w_db w' \<longrightarrow> Lookup s token now v \<noteq> (Ret ses, v')) \<and>
    (\<forall>u w n w'. RevokeAllForUser u w = (Ret n, w') \<longrightarrow>
      (\<forall>r. r \<in> set (sessions (w_db w')) \<longleftrightarrow> r \<in> set (sessions (w_db w)) \<and> s_user_id r \<noteq> u) \<and>
      length (sessions (w_db w)) = length (sessions (w_db w')) + n)"
proof -
  have "Lookup s token now v \<noteq> (Ret ses, v')" if "session_Revoke token w = (Ret (), w')" "w_db v = w_db w'" for token w w' v now ses v'
    using Lookup_Ret [OF assms, of token now v ses v'] session_Revoke_Ret [OF that(1)] that(2) by auto
  moreover have "(\<forall>r. r \<in> set (sessions (w_db w')) \<longleftrightarrow> r \<in> set (sessions (w_db w)) \<and> s_user_id r \<noteq> u) \<and>
      length (sessions (w_db w)) = length (sessions (w_db w')) + n" if "RevokeAllForUser u w = (Ret n, w')" for u w n w'
    using RevokeAllForUser_Ret [OF that] sum_length_filter_compl [of "\<lambda>r. s_user_id r = u" "sessions (w_db w)"] by auto
  ultimately show ?thesis by blast
qed

definition session_world :: "db world" where
  "session_world = issue_world\<lparr>w_db := sample_db\<lparr>sessions := [\<lparr>s_id = ''ses_1'', s_token_hash = HashToken ''tok'', s_csrf_hash = HashToken ''csrf'',
     s_user_id = ''usr_1'', s_created_at = 0, s_last_used_at = 0, s_expires_at = 1000, s_ip = [], s_user_agent = []\<rparr>]\<rparr>\<rparr>"

theorem revoked_sessions_end_witness:
  "\<exists>w'. session_Revoke ''tok'' session_world = (Ret (), w') \<and> (\<forall>now ses v'. Lookup (se_sessions sample_server) ''tok'' now w' \<noteq> (Ret ses, v'))"
proof -
  obtain w' where "session_Revoke ''tok'' session_world = (Ret (), w')"
    by (simp add: session_Revoke_def bindM_def mapErr_def calm_execM returnM_def session_world_def issue_world_def
        delete_sessions_def delete_where_def)
  moreover have "store_ok (se_sessions sample_server)" by (simp add: sample_server_def NewSessionStore_ok)
  ultimately show ?thesis using revoked_sessions_end by blast
qed

section \<open>Passwords\<close>

text \<open>
  C40: What \<open>HashPassword\<close> returns, \<open>VerifyPassword\<close> accepts, for every password, every salt and
  every valid set of costs; the hash is marked for rehashing exactly when its costs are below
  the defaults. A password that is accepted derives the stored key.
\<close>

theorem password_round_trip:
  assumes "idkey_ok idkey" "HashPassword idkey password p w = (Ret enc, w')"
  shows "VerifyPassword idkey password enc = Inr (True, weakerThan (effective p) DefaultParams) \<and>
    (\<forall>other b. VerifyPassword idkey other enc = Inr (True, b) \<longrightarrow> (\<exists>q salt key. decodeHash enc = Inr (q, salt, key) \<and>
       idkey (bytes_of_string other) salt (pm_Iterations q) (pm_Memory q) (pm_Parallelism q) (pm_KeyLength q) = key))"
  using VerifyPassword_Hash [OF assms] VerifyPassword_True [of idkey _ enc] by blast

lemma hash_sample: "\<exists>enc w'. HashPassword sample_idkey ''correct horse'' DefaultParams issue_world = (Ret enc, w')"
  by (simp add: HashPassword_Ret effective_def DefaultParams_def zero_params_def Params_valid_def issue_world_def
      CheckPasswordLength_def Passwords.MinPasswordLength_def MaxPasswordLength_def runes_def str_simps Let_def)

theorem password_round_trip_witness:
  "\<exists>enc w'. HashPassword sample_idkey ''correct horse'' DefaultParams issue_world = (Ret enc, w') \<and>
     VerifyPassword sample_idkey ''correct horse'' enc = Inr (True, False)"
  using hash_sample password_round_trip [OF sample_idkey_ok, where password = "''correct horse''" and p = DefaultParams and w = issue_world]
  by (fastforce simp: effective_def weakerThan_def)

section \<open>Signing in\<close>

lemma New_users: "New lib cfg i t w = (Ret s, w') \<Longrightarrow> se_users s = NewUserStore (lib_lower lib) (lib_ParseAddress lib) (lib_IDKey lib)
     \<lparr>sop_Params = zero_params, sop_MinPasswordLength = AuthConfig.MinPasswordLength (cfg_Auth cfg)\<rparr>"
  by (auto simp: New_def bindM_Ret split: option.splits)

lemma calm_ByEmail: "w_faults (w :: state world) = [] \<Longrightarrow> on_db (ByEmail us email) w =
    (case find (\<lambda>r. u_email_norm r = NormalizeEmail us email) (users (sv_db (w_db w))) of
       None \<Rightarrow> (Err ErrUserNotFound, w) | Some r \<Rightarrow> (Ret (scanUser r), w))"
  by (simp add: on_db_def ByEmail_def calm_oneUser with_db_world_def db_world_def split: option.splits)

text \<open>
  C35: A failed login says nothing about why: without driver faults, whether the address has no
  account, the account has no password, or the password is wrong, \<open>handleLogin\<close> gives the same
  reply in the same state, with the database untouched.
\<close>

theorem login_refusal_uniform:
  assumes "w_faults w = []" "DecodeJSON (jc_login (se_json s)) r = Inr req"
    "\<forall>u \<in> set (users (sv_db (w_db w))). u_email_norm u = NormalizeEmail (se_users s) (lr_Email req) \<longrightarrow>
       \<not> fst (verifyCredentials s (Some (scanUser u)) (lr_Password req))"
  shows "handleLogin s r w = WriteError r CodeUnauthorized ''the email address or password is incorrect'' w"
proof (cases "find (\<lambda>r. u_email_norm r = NormalizeEmail (se_users s) (lr_Email req)) (users (sv_db (w_db w)))")
  case None
  then show ?thesis using assms(1,2)
    by (simp add: handleLogin_def bindM_def tryM_def calm_ByEmail Let_def verifyCredentials_def invalidCredentials_def)
next
  case (Some u)
  then have "\<not> fst (verifyCredentials s (Some (scanUser u)) (lr_Password req))" using find_SomeD [OF Some] assms(3) by auto
  then show ?thesis using Some assms(1,2)
    by (auto simp: handleLogin_def bindM_def tryM_def calm_ByEmail Let_def invalidCredentials_def split: prod.splits)
qed

definition login_request :: request where
  "login_request = \<lparr>rq_Method = ''POST'', rq_Path = [''api'', ''v1'', ''auth'', ''login''], rq_PathID = [], rq_RemoteAddr = [], rq_Headers = [],
     rq_Cookies = [], rq_Body = [], rq_ContentLength = 0, rq_TransferEncoding = [], rq_now = 5, rq_done = 5,
     rq_bodyLimit = None, rq_requestID = [], rq_session = None, rq_user = None\<rparr>"

definition sample_process :: "db \<Rightarrow> byte list \<Rightarrow> state world" where
  "sample_process d es = \<lparr>w_db = \<lparr>sv_db = d, sv_limiter = None, sv_authLimiter = None, sv_headers = [], sv_cookies = []\<rparr>,
     w_faults = [], w_entropy = es\<rparr>"

lemma login_decoded: "DecodeJSON (jc_login (se_json sample_server)) login_request =
    Inr \<lparr>lr_Email = ''ada@example.com'', lr_Password = ''correct horse''\<rparr>"
  by (simp add: DecodeJSON_def sample_server_def sample_json_def login_request_def Header_Get_def Header_Values_def Let_def)

theorem login_refusal_uniform_witness:
  "handleLogin sample_server login_request (sample_process empty_db []) =
     WriteError login_request CodeUnauthorized ''the email address or password is incorrect'' (sample_process empty_db []) \<and>
   handleLogin sample_server login_request (sample_process sample_db []) =
     WriteError login_request CodeUnauthorized ''the email address or password is incorrect'' (sample_process sample_db [])"
proof
  show "handleLogin sample_server login_request (sample_process empty_db []) =
     WriteError login_request CodeUnauthorized ''the email address or password is incorrect'' (sample_process empty_db [])"
    by (rule login_refusal_uniform [OF _ login_decoded]) (simp_all add: sample_process_def empty_db_def)
  show "handleLogin sample_server login_request (sample_process sample_db []) =
     WriteError login_request CodeUnauthorized ''the email address or password is incorrect'' (sample_process sample_db [])"
    by (rule login_refusal_uniform [OF _ login_decoded])
       (simp_all add: sample_process_def sample_db_def sample_user_def verifyCredentials_def HasPassword_def scanUser_def)
qed

section \<open>The first account\<close>

lemma bootstrap_created:
  assumes "InTx (bootstrap_tx s req now) v = (Ret user, v')"
  shows "users (w_db v') = users (w_db v) @ [user_row_of user] \<and> us_EmailNorm user \<notin> u_email_norm ` set (users (w_db v)) \<and>
    us_EmailNorm user = NormalizeEmail (se_users s) (br_Email req) \<and> us_ID user \<noteq> [] \<and> us_LastLoginAt user = None \<and>
    us_Role user = RoleAdmin \<and> \<not> claimed (w_db v) \<and> claimed (w_db v') \<and> sessions (w_db v') = sessions (w_db v) \<and>
    (\<exists>v1 v2. HashPassword (ust_IDKey (se_users s)) (br_Password req) (ust_params (se_users s)) (v1 :: db world) = (Ret (us_passwordHash user), v2))"
proof -
  obtain w1 w2 where tx: "bootstrap_tx s req now w1 = (Ret user, w2)" "w_db w1 = w_db v" "w_db v' = w_db w2"
    using InTx_Ret [OF assms] by blast
  obtain w3 where c: "ClaimBootstrap now w1 = (Ret True, w3)"
    and u: "user_Create (se_users s) \<lparr>nu_Email = br_Email req, nu_Password = br_Password req, nu_DisplayName = br_DisplayName req,
       nu_Role = RoleAdmin\<rparr> now w3 = (Ret user, w2)"
    using tx(1) by (auto simp: bootstrap_tx_def bindM_Ret split: if_splits)
  note cl = ClaimBootstrap_Ret [OF c] and us = user_Create_Ret [OF u]
  have same: "users (w_db w3) = users (w_db v)" "sessions (w_db w3) = sessions (w_db v)" using cl tx(2)
    by (metis db.select_convs(2) db.surjective db.update_convs(1), metis db.select_convs(3) db.surjective db.update_convs(1))
  have "us_EmailNorm user = NormalizeEmail (se_users s) (br_Email req)"
    using us ValidateEmail_Inr NormalizeEmail_Trim by fastforce
  moreover have "claimed (w_db v')" using cl us tx(3) by (simp add: claimed_def metadata_def)
  ultimately show ?thesis using us cl same tx(2,3) by (auto simp: RoleAdmin_def)
qed

lemma calm_finish_login:
  assumes "can_issue (us_ID u) (db_world w)"
  shows "\<exists>body w'. finish_login s r u w = (Ret (200, body), w') \<and>
    (\<exists>c \<in> set (sv_cookies (w_db w')). co_Name c = SessionCookieName \<and> co_Value c = next_token (w_entropy w))"
proof -
  obtain iss v1 where i: "Issue (se_sessions s) (us_ID u) (request_meta r) (rq_now r) (db_world w) = (Ret iss, v1)" "w_faults v1 = []"
    "is_Token iss = next_token (w_entropy w)"
    using calm_Issue [OF assms] by fastforce
  obtain v2 where l: "RecordLogin (us_ID u) (rq_now r) v1 = (Ret (), v2)"
    using i(2) by (simp add: RecordLogin_def bindM_def mapErr_def calm_execM update_users_def update_where_def returnM_def)
  show ?thesis using i(1,3) l
    by (simp add: finish_login_def bindM_def tryM_def on_db_def setSessionCookies_def Let_def session_cookie_def json_headers_def)
qed

lemma login_after_bootstrap:
  assumes built: "New lib cfg i t v0 = (Ret s, v0')" "idkey_ok (lib_IDKey lib)"
    and boot: "InTx (bootstrap_tx s breq now) v = (Ret user, v')"
    and login: "DecodeJSON (jc_login (se_json s)) r = Inr req" "lr_Password req = br_Password breq"
      "NormalizeEmail (se_users s) (lr_Email req) = NormalizeEmail (se_users s) (br_Email breq)"
    and calm: "sv_db (w_db w) = w_db v'" "can_issue (us_ID user) (db_world w)"
  shows "\<exists>body w'. handleLogin s r w = (Ret (200, body), w') \<and>
    (\<exists>c \<in> set (sv_cookies (w_db w')). co_Name c = SessionCookieName \<and> co_Value c = next_token (w_entropy w))"
proof -
  note b = bootstrap_created [OF boot] and us = New_users [OF built(1)]
  have nf: "w_faults w = []" using calm(2) by (simp add: can_issue_def)
  have "find (\<lambda>x. u_email_norm x = us_EmailNorm user) (users (w_db v)) = None" using b find_None_image by metis
  then have f: "find (\<lambda>x. u_email_norm x = NormalizeEmail (se_users s) (lr_Email req)) (users (sv_db (w_db w))) = Some (user_row_of user)"
    using b login(3) calm(1) by (simp add: find_append user_row_of_def)
  have su: "scanUser (user_row_of user) = user" using b scan_user_row by blast
  have par: "ust_params (se_users s) = DefaultParams" "ust_IDKey (se_users s) = lib_IDKey lib" by (simp_all add: us NewUserStore_def)
  obtain v1 v2 :: "db world" where h: "HashPassword (lib_IDKey lib) (br_Password breq) DefaultParams v1 = (Ret (us_passwordHash user), v2)"
    using b par by auto
  then have ver: "VerifyPassword (lib_IDKey lib) (br_Password breq) (us_passwordHash user) = Inr (True, False)"
    using VerifyPassword_Hash [OF built(2) h] by (simp add: effective_def weakerThan_def)
  have "us_passwordHash user \<noteq> []" using h by (auto simp: HashPassword_Ret encode_hash_def Let_def)
  then have cred: "verifyCredentials s (Some user) (lr_Password req) = (True, False)"
    using ver login(2) par by (simp add: verifyCredentials_def HasPassword_def User_VerifyPassword_def)
  have "handleLogin s r w = finish_login s r user w"
    using nf f su cred login(1)
    by (simp add: handleLogin_def bindM_def tryM_def calm_ByEmail Let_def returnM_def)
  then show ?thesis using calm_finish_login [OF calm(2), of s r] by simp
qed

definition sample_bootstrap :: BootstrapRequest where
  "sample_bootstrap = \<lparr>br_Email = ''ada@example.com'', br_Password = ''correct horse'', br_DisplayName = ''Ada''\<rparr>"

definition fresh_world :: "db world" where
  "fresh_world = \<lparr>w_db = empty_db, w_faults = [], w_entropy = replicate 32 7\<rparr>"

lemma calm_ClaimBootstrap:
  assumes "w_faults w = []" "\<not> claimed (w_db w)"
  shows "\<exists>w'. ClaimBootstrap now w = (Ret True, w') \<and> w_faults w' = [] \<and> w_entropy w' = w_entropy w \<and> users (w_db w') = users (w_db w) \<and>
    sessions (w_db w') = sessions (w_db w)"
  using assms by (simp add: ClaimBootstrap_def bindM_def mapErr_def calm_execM calm_rowsAffected insert_metadata_once_def
      claimed_def metadata_None returnM_def)

lemma sample_email: "ValidateEmail (se_users sample_server) ''ada@example.com'' = Inr (NormalizeEmail (se_users sample_server) ''ada@example.com'')"
  by (simp add: ValidateEmail_def sample_server_def NewUserStore_def sample_lib_def str_simps Let_def)

lemma sample_password: "CheckPasswordLength ''correct horse'' 12 = None"
  by (simp add: CheckPasswordLength_def Passwords.MinPasswordLength_def MaxPasswordLength_def runes_def str_simps Let_def)

lemma bootstrap_sample: "\<exists>user v'. InTx (bootstrap_tx sample_server sample_bootstrap 0) fresh_world = (Ret user, v') \<and> sessions (w_db v') = []"
proof -
  obtain w1 where c: "ClaimBootstrap 0 fresh_world = (Ret True, w1)" "w_faults w1 = []" "w_entropy w1 = replicate 32 7"
    "users (w_db w1) = []" "sessions (w_db w1) = []"
    using calm_ClaimBootstrap [of fresh_world 0]
    by (auto simp: fresh_world_def claimed_def metadata_def empty_db_def)
  obtain enc w2 where h: "HashPassword sample_idkey ''correct horse'' DefaultParams w1 = (Ret enc, w2)" "w_entropy w2 = replicate 16 7"
    using c(3) sample_password
    by (simp add: HashPassword_Ret effective_def DefaultParams_def zero_params_def Params_valid_def Passwords.MinPasswordLength_def Let_def)
  note fr = HashPassword_frame [OF h(1)]
  obtain ident where n: "NewID IDPrefix w2 = (Ret ident, w2\<lparr>w_entropy := drop IDEntropyBytes (w_entropy w2)\<rparr>)"
    using calm_NewID [of w2 IDPrefix] h(2) by (auto simp: IDEntropyBytes_def)
  have par: "ust_params (se_users sample_server) = DefaultParams" "ust_minPasswordLength (se_users sample_server) = 12"
    "ust_IDKey (se_users sample_server) = sample_idkey"
    by (simp_all add: sample_server_def NewUserStore_def Passwords.MinPasswordLength_def)
  have "\<exists>user v'. bootstrap_tx sample_server sample_bootstrap 0 fresh_world = (Ret user, v') \<and> w_faults v' = [] \<and> sessions (w_db v') = []"
    using c h(1) n fr sample_email sample_password par
    by (simp add: bootstrap_tx_def bindM_def user_Create_def sample_bootstrap_def Role_Valid_def RoleAdmin_def Let_def mapErr_def
        calm_execM insert_user_def returnM_def)
  then show ?thesis using calm_InTx [of fresh_world "bootstrap_tx sample_server sample_bootstrap 0"] by (auto simp: fresh_world_def)
qed

lemma sample_issue:
  assumes "InTx (bootstrap_tx sample_server sample_bootstrap 0) fresh_world = (Ret user, v')" "sessions (w_db v') = []"
  shows "can_issue (us_ID user) (db_world (sample_process (w_db v') (replicate 80 9)))"
  using assms bootstrap_created [OF assms(1)] by (simp add: can_issue_def sample_process_def user_row_of_def)

lemma sample_built: "\<exists>x. New sample_lib sample_config ''net_1'' 0 \<lparr>w_db = empty_db, w_faults = [], w_entropy = replicate 48 7\<rparr> = (Ret sample_server, x)"
  using New_sample by blast

lemma sample_lib_idkey: "idkey_ok (lib_IDKey sample_lib)"
  using sample_idkey_ok by (simp add: sample_lib_def)

lemma sample_login_fits: "lr_Password \<lparr>lr_Email = ''ada@example.com'', lr_Password = ''correct horse''\<rparr> = br_Password sample_bootstrap"
  "NormalizeEmail us (lr_Email \<lparr>lr_Email = ''ada@example.com'', lr_Password = ''correct horse''\<rparr>) = NormalizeEmail us (br_Email sample_bootstrap)"
  "sv_db (w_db (sample_process d es)) = d"
  by (simp_all add: sample_bootstrap_def sample_process_def)

lemma sample_login: "\<exists>user v' body w'. InTx (bootstrap_tx sample_server sample_bootstrap 0) fresh_world = (Ret user, v') \<and>
     handleLogin sample_server login_request (sample_process (w_db v') (replicate 80 9)) = (Ret (200, body), w')"
proof -
  obtain user v' where b: "InTx (bootstrap_tx sample_server sample_bootstrap 0) fresh_world = (Ret user, v')" "sessions (w_db v') = []"
    using bootstrap_sample by blast
  obtain x where new: "New sample_lib sample_config ''net_1'' 0 \<lparr>w_db = empty_db, w_faults = [], w_entropy = replicate 48 7\<rparr> = (Ret sample_server, x)"
    using sample_built by blast
  show ?thesis
    using login_after_bootstrap [OF new sample_lib_idkey b(1) login_decoded sample_login_fits sample_issue [OF b]] b(1) by blast
qed

text \<open>
  C21: The account made by bootstrap can sign in: after the transaction has committed, a login with
  the same password and an address that normalises to the same succeeds, without driver faults
  and with fresh randomness, and sets the cookie of a new session.
\<close>

theorem bootstrap_then_login:
  assumes built: "New lib cfg i t v0 = (Ret s, v0')" "idkey_ok (lib_IDKey lib)"
    and boot: "InTx (bootstrap_tx s breq now) v = (Ret user, v')"
    and login: "DecodeJSON (jc_login (se_json s)) r = Inr req" "lr_Password req = br_Password breq"
      "NormalizeEmail (se_users s) (lr_Email req) = NormalizeEmail (se_users s) (br_Email breq)"
    and calm: "sv_db (w_db w) = w_db v'" "can_issue (us_ID user) (db_world w)"
  shows "\<exists>body w'. handleLogin s r w = (Ret (200, body), w') \<and>
    (\<exists>c \<in> set (sv_cookies (w_db w')). co_Name c = SessionCookieName \<and> co_Value c = next_token (w_entropy w))"
  using login_after_bootstrap [OF assms] .

theorem bootstrap_then_login_witness:
  "\<exists>user v' body w'. InTx (bootstrap_tx sample_server sample_bootstrap 0) fresh_world = (Ret user, v') \<and>
     handleLogin sample_server login_request (sample_process (w_db v') (replicate 80 9)) = (Ret (200, body), w')"
proof -
  obtain user v' where b: "InTx (bootstrap_tx sample_server sample_bootstrap 0) fresh_world = (Ret user, v')" "sessions (w_db v') = []"
    using bootstrap_sample by blast
  obtain x where new: "New sample_lib sample_config ''net_1'' 0 \<lparr>w_db = empty_db, w_faults = [], w_entropy = replicate 48 7\<rparr> = (Ret sample_server, x)"
    using sample_built by blast
  show ?thesis
    using bootstrap_then_login [OF new sample_lib_idkey b(1) login_decoded sample_login_fits sample_issue [OF b]] b(1) by blast
qed

text \<open>
  C10: Under any driver faults, a login is answered with success only for an account with the given
  address whose stored hash verifies against the given password.
\<close>

theorem login_requires_password:
  assumes "handleLogin s r w = (Ret (status, body), w')" "status < 400"
  shows "\<exists>req u rehash. DecodeJSON (jc_login (se_json s)) r = Inr req \<and> u \<in> set (users (sv_db (w_db w))) \<and>
    u_email_norm u = NormalizeEmail (se_users s) (lr_Email req) \<and>
    (\<exists>hash. u_password_hash u = Some hash \<and> VerifyPassword (ust_IDKey (se_users s)) (lr_Password req) hash = Inr (True, rehash))"
proof -
  obtain req where req: "DecodeJSON (jc_login (se_json s)) r = Inr req"
    using assms DecodeJSON_Inl by (fastforce simp: handleLogin_def split: sum.splits)
  obtain found w1 where f: "tryM (on_db (ByEmail (se_users s) (lr_Email req))) w = (Ret found, w1)"
    and rest: "(let failed = (case found of Inl err \<Rightarrow> \<not> errors_Is err ErrUserNotFound | Inr _ \<Rightarrow> False);
           user = (case found of Inl _ \<Rightarrow> None | Inr u \<Rightarrow> Some u);
           (matched, needsRehash) = verifyCredentials s user (lr_Password req) in
       if failed then WriteError r CodeInternal ''internal error''
       else case (user, matched) of
         (Some u, True) \<Rightarrow> bindM (if needsRehash then tryM (on_db (RehashPassword (se_users s) (us_ID u) (lr_Password req) (rq_now r)))
             else returnM (Inr ())) (\<lambda>_. finish_login s r u)
       | _ \<Rightarrow> WriteError r CodeUnauthorized invalidCredentials) w1 = (Ret (status, body), w')"
    using assms(1) req by (auto simp: handleLogin_def bindM_Ret)
  obtain u where u: "found = Inr u" "fst (verifyCredentials s (Some u) (lr_Password req))"
    using rest assms(2) by (cases found) (auto simp: Let_def split: prod.splits if_splits bool.splits)
  obtain v where v: "oneUser (\<lambda>r. u_email_norm r = NormalizeEmail (se_users s) (lr_Email req)) (db_world w) = (Ret u, v)"
    using f u(1) by (auto simp: tryM_Ret on_db_Ret ByEmail_def)
  obtain row where row: "row \<in> set (users (sv_db (w_db w)))" "u_email_norm row = NormalizeEmail (se_users s) (lr_Email req)" "u = scanUser row"
    using oneUser_Ret [OF v] by auto
  have hp: "HasPassword u" using u(2) by (auto simp: verifyCredentials_def split: if_splits)
  then obtain hash where hash: "u_password_hash row = Some hash" "us_passwordHash u = hash"
    by (auto simp: HasPassword_def row(3) scanUser_def split: option.splits)
  obtain b where "User_VerifyPassword (ust_IDKey (se_users s)) u (lr_Password req) = Inr (True, b)"
    using u(2) hp by (auto simp: verifyCredentials_def split: sum.splits prod.splits)
  then show ?thesis using req row hash by (auto simp: User_VerifyPassword_def split: if_splits)
qed

theorem login_requires_password_witness:
  "\<exists>user v' u hash b. InTx (bootstrap_tx sample_server sample_bootstrap 0) fresh_world = (Ret user, v') \<and> u \<in> set (users (w_db v')) \<and>
     u_password_hash u = Some hash \<and> VerifyPassword sample_idkey ''correct horse'' hash = Inr (True, b)"
proof -
  obtain user v' body w' where b: "InTx (bootstrap_tx sample_server sample_bootstrap 0) fresh_world = (Ret user, v')"
    and l: "handleLogin sample_server login_request (sample_process (w_db v') (replicate 80 9)) = (Ret (200, body), w')"
    using sample_login by blast
  have "ust_IDKey (se_users sample_server) = sample_idkey" by (simp add: sample_server_def NewUserStore_def)
  then show ?thesis using b login_requires_password [OF l] login_decoded by (auto simp: sample_login_fits)
qed

text \<open>
  Bootstrap works once. It answers with success only when the installation was unclaimed,
  and then it is claimed; on a claimed installation, without driver faults, it answers 409 and
  leaves the database alone.
\<close>

theorem bootstrap_once:
  assumes "DecodeJSON (jc_bootstrap (se_json s)) r = Inr req"
  shows "(\<forall>status body w'. handleBootstrap s r w = (Ret (status, body), w') \<longrightarrow> status < 400 \<longrightarrow>
       \<not> claimed (sv_db (w_db w)) \<and> claimed (sv_db (w_db w')) \<and> status = 201) \<and>
    (claimed (sv_db (w_db w)) \<and> w_faults w = [] \<longrightarrow>
       (\<exists>body w'. handleBootstrap s r w = (Ret (409, body), w') \<and> sv_db (w_db w') = sv_db (w_db w)))"
proof -
  have kept: "keeps claimed (Issue ss u m now)" for ss u m now
    unfolding Issue_def Let_def
    by (intro pres_intros keeps_execM) (auto simp: claimed_def metadata_def insert_session_def split: if_splits)
  have "\<not> claimed (sv_db (w_db w)) \<and> claimed (sv_db (w_db w')) \<and> status = 201"
    if run: "handleBootstrap s r w = (Ret (status, body), w')" and ok: "status < 400" for status body w'
  proof -
    obtain res w1 where t: "tryM (on_db (InTx (bootstrap_tx s req (rq_now r)))) w = (Ret res, w1)"
      and rest: "(case res of
       Inl err \<Rightarrow> if errors_Is err errAlreadyClaimed
         then WriteError r CodeConflict ''this server already has an administrator; sign in instead''
         else if errors_Is err ErrInvalidEmail \<or> errors_Is err ErrPasswordTooShort \<or> errors_Is err ErrPasswordTooLong \<or>
           errors_Is err ErrEmailTaken
         then WriteError r CodeBadRequest (se_errorText s err)
         else WriteError r CodeInternal ''internal error''
     | Inr user \<Rightarrow> bindM (tryM (on_db (Issue (se_sessions s) (us_ID user) (request_meta r) (rq_now r)))) (\<lambda>iss. case iss of
         Inl err \<Rightarrow> WriteJSON 201 (PSession (sessionResponse user [] None))
       | Inr issued \<Rightarrow> bindM (setSessionCookies s issued (rq_done r)) (\<lambda>_.
           WriteJSON 201 (PSession (sessionResponse user (is_CSRFToken issued) (Some (ss_ExpiresAt (is_Session issued)))))))) w1 =
        (Ret (status, body), w')"
      using run assms by (auto simp: handleBootstrap_def bindM_Ret)
    obtain user where user: "res = Inr user" using rest ok by (cases res) (auto split: if_splits)
    then obtain v where v: "InTx (bootstrap_tx s req (rq_now r)) (db_world w) = (Ret user, v)" "w1 = with_db_world w v"
      using t by (auto simp: tryM_Ret on_db_Ret)
    note b = bootstrap_created [OF v(1)]
    obtain iss w2 where i: "tryM (on_db (Issue (se_sessions s) (us_ID user) (request_meta r) (rq_now r))) w1 = (Ret iss, w2)"
      and rest2: "(case iss of
         Inl err \<Rightarrow> WriteJSON 201 (PSession (sessionResponse user [] None))
       | Inr issued \<Rightarrow> bindM (setSessionCookies s issued (rq_done r)) (\<lambda>_.
           WriteJSON 201 (PSession (sessionResponse user (is_CSRFToken issued) (Some (ss_ExpiresAt (is_Session issued))))))) w2 = (Ret (status, body), w')"
      using rest user by (auto simp: bindM_Ret)
    have "claimed (sv_db (w_db w2))"
      using db_keepsD [OF db_keeps_tryM [OF db_keeps_on_db [OF kept]] i] b v(2) by simp
    moreover have "sv_db (w_db w') = sv_db (w_db w2) \<and> status = 201"
      using rest2 by (cases iss) (auto simp: setSessionCookies_def Let_def bindM_def)
    ultimately show ?thesis using b by simp
  qed
  moreover have "\<exists>body w'. handleBootstrap s r w = (Ret (409, body), w') \<and> sv_db (w_db w') = sv_db (w_db w)"
    if "claimed (sv_db (w_db w))" "w_faults w = []"
  proof -
    have "\<exists>v. ClaimBootstrap (rq_now r) (db_world w) = (Ret False, v) \<and> w_db v = w_db (db_world w)"
      using that by (simp add: ClaimBootstrap_def bindM_def mapErr_def calm_execM calm_rowsAffected insert_metadata_once_def
          claimed_def metadata_None returnM_def)
    then have "\<exists>v. bootstrap_tx s req (rq_now r) (db_world w) = (Err errAlreadyClaimed, v)"
      by (auto simp: bootstrap_tx_def bindM_def failM_def)
    moreover have nf: "w_faults (db_world w) = []" using that(2) by simp
    ultimately obtain v where "InTx (bootstrap_tx s req (rq_now r)) (db_world w) = (Err errAlreadyClaimed, v)" "w_db v = sv_db (w_db w)"
      using calm_InTx_Err [OF nf] by fastforce
    then show ?thesis using assms
      by (simp add: handleBootstrap_def bindM_def tryM_def on_db_def) (simp add: HTTPStatus_def code_defs)
  qed
  ultimately show ?thesis by blast
qed

definition claimed_db :: db where
  "claimed_db = sample_db\<lparr>server_metadata := [\<lparr>m_key = KeyBootstrapClaimedAt, m_value = [], m_created_at = 0, m_updated_at = 0\<rparr>]\<rparr>"

theorem bootstrap_once_witness:
  "\<exists>body w'. handleBootstrap sample_server login_request (sample_process claimed_db []) = (Ret (409, body), w') \<and> sv_db (w_db w') = claimed_db"
proof -
  have "DecodeJSON (jc_bootstrap (se_json sample_server)) login_request = Inr sample_bootstrap"
    by (simp add: DecodeJSON_def sample_server_def sample_json_def login_request_def Header_Get_def Header_Values_def Let_def sample_bootstrap_def)
  moreover have "claimed claimed_db" by (simp add: claimed_def metadata_def claimed_db_def)
  ultimately show ?thesis
    using bootstrap_once [of sample_server login_request sample_bootstrap "sample_process claimed_db []"] by (simp add: sample_process_def)
qed

end
