(* ===== verification/Inventory_Theorems.thy ===== *)
theory Inventory_Theorems
  imports Sample_Server
begin

text \<open>
  The properties of the device and setup-key endpoints: who sees which devices, what a refused
  enrolment discloses, how keys and tags are stored; and two places where the program does not do
  what it means to.
\<close>

section \<open>Refused enrolments\<close>

lemma with_db_world_same [simp]: "with_db_world w (db_world w) = w"
  by (simp add: with_db_world_def db_world_def)

text \<open>
  C36: A refused setup key says nothing about why: without driver faults, whether the key presented
  does not exist, was revoked, has expired or is used up, enrolment gives the same reply in the
  same state, with the database untouched.
\<close>

theorem enrol_refusal_uniform:
  assumes "w_faults w = []" "DecodeJSON (jc_enroll (se_json s)) r = Inr req"
    "\<not> (\<exists>k \<in> set (setup_keys (sv_db (w_db w))). k_key_hash k = HashToken (ed_SetupKey req) \<and>
        Redeemable (scanSetupKey (se_devices s) k) (rq_now r) = None)"
  shows "handleEnrollDevice s r w = WriteError r CodeUnauthorized ''that setup key is not valid'' w"
proof -
  have "\<exists>e. Enroll (se_devices s) (ed_SetupKey req) inp (rq_now r) (db_world w) = (Err e, db_world w) \<and> isSetupKeyRejection e" for inp
  proof (cases "ed_SetupKey req = []")
    case True
    then show ?thesis by (simp add: Enroll_def SetupKeyByToken_def bindM_def failM_def isSetupKeyRejection_def)
  next
    case False
    show ?thesis
    proof (cases "find (\<lambda>k. k_key_hash k = HashToken (ed_SetupKey req)) (setup_keys (sv_db (w_db w)))")
      case None
      then show ?thesis using False assms(1)
        by (simp add: Enroll_def SetupKeyByToken_def bindM_def calm_oneSetupKey failM_def isSetupKeyRejection_def)
    next
      case (Some k)
      then obtain e where e: "Redeemable (scanSetupKey (se_devices s) k) (rq_now r) = Some e"
        using assms(3) find_SomeD [OF Some] by fastforce
      then have "isSetupKeyRejection e" by (auto simp: Redeemable_def isSetupKeyRejection_def split: if_splits)
      then show ?thesis using Some e False assms(1)
        by (simp add: Enroll_def SetupKeyByToken_def bindM_def calm_oneSetupKey failM_def)
    qed
  qed
  then obtain e where "Enroll (se_devices s) (ed_SetupKey req) \<lparr>nd_Name = ed_Name req, nd_PublicKey = ed_PublicKey req, nd_OS = ed_OS req,
      nd_Hostname = ed_Hostname req\<rparr> (rq_now r) (db_world w) = (Err e, db_world w)" "isSetupKeyRejection e" by blast
  then show ?thesis using assms(2) by (simp add: handleEnrollDevice_def bindM_def tryM_def on_db_def)
qed

definition enrol_server :: "string \<Rightarrow> Server" where
  "enrol_server key = sample_server\<lparr>se_json := sample_json\<lparr>jc_enroll := (\<lambda>_ _. Decoded \<lparr>ed_SetupKey = key, ed_Name = ''laptop'',
     ed_PublicKey = sample_public_key, ed_OS = [], ed_Hostname = []\<rparr> True)\<rparr>\<rparr>"

definition enrol_request :: "instant \<Rightarrow> request" where
  "enrol_request now = \<lparr>rq_Method = ''POST'', rq_Path = [''api'', ''v1'', ''devices'', ''enroll''], rq_PathID = [], rq_RemoteAddr = [], rq_Headers = [],
     rq_Cookies = [], rq_Body = [], rq_ContentLength = 0, rq_TransferEncoding = [], rq_now = now, rq_done = now,
     rq_bodyLimit = None, rq_requestID = [], rq_session = None, rq_user = None\<rparr>"

definition enrol_state :: "db \<Rightarrow> state world" where
  "enrol_state d = \<lparr>w_db = \<lparr>sv_db = d, sv_limiter = None, sv_authLimiter = None, sv_headers = [], sv_cookies = []\<rparr>,
     w_faults = [], w_entropy = []\<rparr>"

theorem enrol_refusal_uniform_witness:
  "handleEnrollDevice (enrol_server ''secret'') (enrol_request 5) (enrol_state empty_db) =
     WriteError (enrol_request 5) CodeUnauthorized ''that setup key is not valid'' (enrol_state empty_db) \<and>
   handleEnrollDevice (enrol_server ''secret'') (enrol_request 200) (enrol_state sample_db) =
     WriteError (enrol_request 200) CodeUnauthorized ''that setup key is not valid'' (enrol_state sample_db)"
proof -
  have dec: "DecodeJSON (jc_enroll (se_json (enrol_server key))) (enrol_request now) = Inr \<lparr>ed_SetupKey = key, ed_Name = ''laptop'',
     ed_PublicKey = sample_public_key, ed_OS = [], ed_Hostname = []\<rparr>" for key now
    by (simp add: DecodeJSON_def enrol_server_def enrol_request_def Header_Get_def Header_Values_def Let_def)
  have k: "setup_keys (sv_db (w_db (enrol_state sample_db))) = [sample_setup_key]" "w_faults (enrol_state d) = []"
    "setup_keys (sv_db (w_db (enrol_state empty_db))) = []" for d
    by (simp_all add: enrol_state_def sample_db_def empty_db_def)
  have old: "Redeemable (scanSetupKey st sample_setup_key) 200 \<noteq> None" for st
    by (simp add: Redeemable_def key_Revoked_def key_Expired_def scanSetupKey_def sample_setup_key_def)
  have now: "rq_now (enrol_request t) = t" for t by (simp add: enrol_request_def)
  show ?thesis
    using enrol_refusal_uniform [OF k(2) dec, of empty_db "''secret''" 5] enrol_refusal_uniform [OF k(2) dec, of sample_db "''secret''" 200] k(1,3) old now
    by simp
qed

section \<open>Scope\<close>

text \<open>
  C29: A member is isolated from other members' devices: what \<open>List\<close>, \<open>ByID\<close> and \<open>Count\<close> return depends
  only on the devices in the caller's scope, under the same driver faults, and \<open>Revoke\<close> of a device
  outside it reports that there is no such device and changes nothing.
\<close>

theorem member_isolation:
  assumes "filter (in_scope sc) (devices d) = filter (in_scope sc) (devices e)"
  shows "fst (List_devices sc (w\<lparr>w_db := d\<rparr>)) = fst (List_devices sc (w\<lparr>w_db := e\<rparr>)) \<and>
    fst (ByID i sc (w\<lparr>w_db := d\<rparr>)) = fst (ByID i sc (w\<lparr>w_db := e\<rparr>)) \<and>
    fst (Count sc (w\<lparr>w_db := d\<rparr>)) = fst (Count sc (w\<lparr>w_db := e\<rparr>)) \<and>
    (w_faults w = [] \<and> (\<forall>r \<in> set (devices d). d_id r = i \<longrightarrow> \<not> in_scope sc r) \<longrightarrow>
       Revoke i sc now (w\<lparr>w_db := d\<rparr>) = (Err ErrDeviceNotFound, w\<lparr>w_db := d\<rparr>))"
proof -
  have "fst (Count sc (w\<lparr>w_db := d\<rparr>)) = fst (Count sc (w\<lparr>w_db := e\<rparr>))"
    using assms by (auto simp: Count_def queryM_def mapErr_def bindM_def driver_call_def split: list.splits)
  moreover have "Revoke i sc now (w\<lparr>w_db := d\<rparr>) = (Err ErrDeviceNotFound, w\<lparr>w_db := d\<rparr>)"
    if "w_faults w = []" "\<forall>r \<in> set (devices d). d_id r = i \<longrightarrow> \<not> in_scope sc r"
  proof -
    have "find (\<lambda>r. d_id r = i \<and> in_scope sc r) (devices d) = None" using that(2) by (auto simp: find_None_iff)
    then show ?thesis using that(1) by (simp add: Revoke_def ByID_def bindM_def mapErr_def calm_queryM failM_def)
  qed
  ultimately show ?thesis unfolding ByID_read List_read using assms by (auto intro!: read_same)
qed

definition other_device :: device_row where
  "other_device = (device_row_of sample_member)\<lparr>d_id := ''dev_2'', d_user_id := ''usr_2''\<rparr>"

theorem member_isolation_witness:
  "fst (List_devices (ScopeFor ''usr_1'' False) (sample_world\<lparr>w_db := sample_db\<lparr>devices := [other_device]\<rparr>\<rparr>)) =
     fst (List_devices (ScopeFor ''usr_1'' False) (sample_world\<lparr>w_db := sample_db\<rparr>)) \<and>
   Revoke ''dev_2'' (ScopeFor ''usr_1'' False) 0 (sample_world\<lparr>w_db := sample_db\<lparr>devices := [other_device]\<rparr>\<rparr>) =
     (Err ErrDeviceNotFound, sample_world\<lparr>w_db := sample_db\<lparr>devices := [other_device]\<rparr>\<rparr>)"
  using member_isolation [of "ScopeFor ''usr_1'' False" "sample_db\<lparr>devices := [other_device]\<rparr>" sample_db sample_world "''dev_2''" 0]
  by (simp add: in_scope_def ScopeFor_def other_device_def sample_db_def empty_db_def sample_world_def)

section \<open>Keys and tags\<close>

text \<open>
  The redeeming \<open>UPDATE\<close> and the check before it agree: a row is counted a use just when
  \<open>Redeemable\<close> has no objection to it, in every reachable table (where limits are not negative).
\<close>

theorem redeem_agrees_with_check:
  assumes "keys_ok d" "k \<in> set (setup_keys d)"
  shows "redeemable_row ident now k \<longleftrightarrow> k_id k = ident \<and> Redeemable (scanSetupKey s k) now = None"
  using assms redeemable_row_iff by (auto simp: keys_ok_def)

theorem redeem_agrees_with_check_witness:
  "redeemable_row ''sk_1'' 5 sample_setup_key \<and> Redeemable (scanSetupKey sample_store sample_setup_key) 5 = None"
proof -
  have "keys_ok sample_db" "sample_setup_key \<in> set (setup_keys sample_db)"
    using sample_consistent by (simp_all add: consistent_def sample_db_def)
  moreover have "redeemable_row ''sk_1'' 5 sample_setup_key" by (simp add: redeemable_row_def sample_setup_key_def)
  ultimately show ?thesis using redeem_agrees_with_check by blast
qed

text \<open>
  Tags survive being stored in one column: what \<open>normaliseTags\<close> made of them, joined with
  commas and split again, comes back, provided no tag contains a comma.
\<close>

theorem tags_round_trip:
  assumes "lower_table_ok lc" "\<forall>t \<in> set (normaliseTags lc tags). CHR '','' \<notin> set t"
  shows "splitTags lc (Join (CHR '','') (normaliseTags lc tags)) = normaliseTags lc tags \<and>
    distinct (normaliseTags lc tags) \<and> [] \<notin> set (normaliseTags lc tags)"
  using splitTags_Join [OF assms] normalise_from_facts [OF assms(1), of "{}" tags, folded normaliseTags_def]
  by (auto simp: normal_tag_def)

theorem tags_round_trip_witness:
  "splitTags (\<lambda>r. r) (Join (CHR '','') (normaliseTags (\<lambda>r. r) ['' Prod'', ''eu'', ''prod''])) = [''prod'', ''eu'']"
proof -
  have n: "normaliseTags (\<lambda>r. r) ['' Prod'', ''eu'', ''prod''] = [''prod'', ''eu'']"
    by (simp add: normaliseTags_def str_simps Let_def ToLower_def lower_rune_def runes_def string_of_runes_def encode_rune_def
        valid_rune_def char_of_def bit_0)
  have "lower_table_ok (\<lambda>r. r)" by (simp add: lower_table_ok_def lower_rune_def)
  then show ?thesis using tags_round_trip [of "\<lambda>r. r" "['' Prod'', ''eu'', ''prod'']"] unfolding n by simp
qed

text \<open>
  The device credential has one spelling: \<open>validDeviceToken\<close> accepts just the texts that are the
  prefix and the unpadded base64url encoding of 32 bytes, so no two accepted texts carry the same
  secret.
\<close>

theorem device_token_form:
  "validDeviceToken token \<longleftrightarrow> (\<exists>raw. length raw = 32 \<and> token = deviceTokenPrefix @ EncodeToString RawURLEncoding raw)"
  by (rule validDeviceToken_iff)

section \<open>Where the program falls short\<close>

text \<open>
  The text of a public key is not canonical: the lenient decoder accepts trailing bits, so two
  texts that decode to the same 32 bytes both pass \<open>ValidatePublicKey\<close>, while the inventory only
  tells keys apart by their text. A revoked key can be registered again under its other spelling.
\<close>

theorem public_key_has_two_spellings:
  "\<exists>k k'. k \<noteq> k' \<and> ValidatePublicKey k = None \<and> ValidatePublicKey k' = None \<and> TrimSpace k = k \<and> TrimSpace k' = k' \<and>
     DecodeString StdEncoding k = DecodeString StdEncoding k'"
proof -
  let ?k = "''AAAAAAAAAAAAAAAAAAAAAAAAAAAAAAAAAAAAAAAAAAE=''" and ?k' = "''AAAAAAAAAAAAAAAAAAAAAAAAAAAAAAAAAAAAAAAAAAF=''"
  have "ValidatePublicKey ?k = None" "TrimSpace ?k = ?k" using sample_key_valid by (simp_all add: sample_public_key_def)
  moreover have "ValidatePublicKey ?k' = None" "TrimSpace ?k' = ?k'"
    by (simp_all add: ValidatePublicKey_def str_simps Let_def wireGuardKeyLength_def)
  moreover have "DecodeString StdEncoding ?k = DecodeString StdEncoding ?k'" by (simp add: str_simps Let_def)
  ultimately show ?thesis by (intro exI [of _ ?k] exI [of _ ?k']) simp
qed

text \<open>
  The requested lifetime of a setup key wraps: hours are multiplied into a 64-bit count of
  nanoseconds, so 5124096 hours, some 584 years, come to less than 26 minutes, and 2562048 hours
  to a negative lifetime.
\<close>

theorem key_lifetime_wraps: "0 < hours 5124096 \<and> hours 5124096 < 26 * Minute \<and> hours 2562048 < 0"
  by (simp add: hours_def int64_def duration_defs)

end
