(* ===== verification/Network_Theorems.thy ===== *)
theory Network_Theorems
  imports Sample_Server
begin

text \<open>
  The properties of address pools and their configuration: which pools are accepted, which
  address an owner gets, that no two owners share one, and that the text of an address in the
  database reads back as the address.
\<close>

section \<open>Pools\<close>

text \<open>
  Validation of the network section is exact: it succeeds just when the IPv4 text parses to a
  canonical prefix of 8 to 30 bits none of whose addresses lies in a reserved range, and the
  IPv6 text is blank or parses to such a prefix of 16 to 120 bits.
\<close>

theorem pools_validated_exactly:
  "Network_Validate n = None \<longleftrightarrow>
     TrimSpace (IPv4CIDR n) \<noteq> [] \<and> (\<exists>v4. IPv4Pool n = Some v4 \<and> pool_ok 32 8 30 reservedIPv4 v4) \<and>
     (\<exists>v6 en. IPv6Pool n = Some (v6, en) \<and> (en \<longrightarrow> pool_ok 128 16 120 reservedIPv6 v6) \<and> (\<not> en \<longrightarrow> v6 = NoPrefix))"
  by (rule Network_Validate_iff)

theorem pools_validated_exactly_witness: "\<exists>v4. IPv4Pool sample_network = Some v4 \<and> pool_ok 32 8 30 reservedIPv4 v4"
  using pools_validated_exactly [of sample_network] sample_network_valid by simp

text \<open>
  A configuration that passes \<open>Validate\<close> serves production over HTTPS unless plain HTTP was
  allowed on purpose, keeps passwords at or above the floor, lets no session idle longer than it
  lives, and limits sign-in at most as loosely as the rest.
\<close>

theorem validated_config:
  assumes "Config_Validate lc parse_url c = None"
  shows "(IsProduction c \<longrightarrow> AllowInsecureHTTP (cfg_Server c) \<or> (\<exists>host. parse_url (BaseURL (cfg_Server c)) = Some (''https'', host) \<and> host \<noteq> [])) \<and>
    PasswordFloor \<le> AuthConfig.MinPasswordLength (cfg_Auth c) \<and> 0 < SessionLifetime (cfg_Auth c) \<and>
    SessionIdleTimeout (cfg_Auth c) \<le> SessionLifetime (cfg_Auth c) \<and>
    (rl_Enabled (cfg_RateLimit c) \<longrightarrow> 0 < AuthBurst (cfg_RateLimit c) \<and> AuthRequestsPerMinute (cfg_RateLimit c) \<le> RequestsPerMinute (cfg_RateLimit c))"
proof -
  note v = assms [unfolded Config_Validate_None Auth_validate_None RateLimit_validate_None]
  have "Server_validate parse_url (cfg_Server c) (cfg_Environment c) = None" using v by simp
  then have "IsProduction c \<longrightarrow> AllowInsecureHTTP (cfg_Server c) \<or> (\<exists>host. parse_url (BaseURL (cfg_Server c)) = Some (''https'', host) \<and> host \<noteq> [])"
    by (auto simp: Server_validate_def IsProduction_def split: if_splits option.splits)
  with v show ?thesis by auto
qed

theorem validated_config_witness: "PasswordFloor \<le> AuthConfig.MinPasswordLength (cfg_Auth sample_config) \<and>
    SessionIdleTimeout (cfg_Auth sample_config) \<le> SessionLifetime (cfg_Auth sample_config)"
  using validated_config [OF sample_config_valid] by simp

section \<open>Addresses\<close>

text \<open>The last address of a valid prefix, computed byte by byte, is its base plus its size less one.\<close>

theorem last_address:
  assumes "prefix_IsValid p"
  shows "BitLen (lastAddr p) = BitLen (Addr p) \<and> addr_nat (lastAddr p) = prefix_base p + prefix_size p - 1 \<and>
    Contains p (lastAddr p) \<and> (\<forall>a. Contains p a \<longrightarrow> addr_nat a \<le> addr_nat (lastAddr p))"
proof -
  have pos: "0 < prefix_size p" using assms by (cases p) auto
  note l = lastAddr_highest [OF assms]
  have "IsValid (lastAddr p)" using l prefix_valid_Addr [OF assms] by (simp add: IsValid_BitLen)
  then show ?thesis using l pos by (auto simp: Contains_iff [OF assms])
qed

theorem last_address_witness: "addr_nat (lastAddr sample_pool) = 0x64400003"
  using last_address [of sample_pool] by (simp add: sample_pool_def prefix_base_def unat_masked)

text \<open>
  C34: The scan for free addresses computes the reference list: the addresses of the pool above
  the network address in ascending order, without the broadcast address and those taken, cut to
  the limit. It ends for every pool, also one that reaches the end of the address space.
\<close>

theorem scan_equals_reference:
  assumes "prefix_IsValid p" "0 < limit"
  shows "freeAddresses a p taken limit = take limit (filter (usable (al_v4Broadcast a) taken) (pool_hosts p)) \<and>
    set (pool_hosts p) = {x. Contains p x \<and> x \<noteq> Addr (Masked p)} \<and> sorted_wrt (<) (pool_hosts p)"
  using freeAddresses_eq [OF assms] in_pool_hosts [OF assms(1)] sorted_pool_hosts [OF assms(1)] by auto

theorem scan_equals_reference_witness:
  "freeAddresses (st_allocator sample_store) sample_pool {V4 0x64400001} 5 = [V4 0x64400002]"
  using scan_equals_reference [of sample_pool 5 "st_allocator sample_store" "{V4 0x64400001}"]
  by (simp add: sample_hosts sample_store_def usable_def sample_last) (simp add: sample_pool_def)

text \<open>An address of the pool that nobody holds, and the lowest of them.\<close>

definition free_address :: "Allocator \<Rightarrow> prefix \<Rightarrow> db \<Rightarrow> addr \<Rightarrow> bool" where
  "free_address a pool d b \<longleftrightarrow> Contains pool b \<and> b \<noteq> Addr (Masked pool) \<and> \<not> (Is4 b \<and> b = al_v4Broadcast a) \<and> \<not> in_use d b"

definition lowest_free :: "Allocator \<Rightarrow> prefix \<Rightarrow> db \<Rightarrow> addr \<Rightarrow> bool" where
  "lowest_free a pool d c \<longleftrightarrow> free_address a pool d c \<and> (\<forall>b. free_address a pool d b \<longrightarrow> c \<le> b)"

lemma set_free_in: "prefix_IsValid pool \<Longrightarrow> set (free_in a pool d) = {b. free_address a pool d b}"
  by (auto simp: free_in_def free_address_def in_pool_hosts)

lemma sorted_free_in: "prefix_IsValid pool \<Longrightarrow> sorted_wrt (<) (free_in a pool d)"
  unfolding free_in_def by (intro sorted_wrt_filter sorted_pool_hosts)

lemma free_in_lowest: "prefix_IsValid pool \<Longrightarrow> free_in a pool d = c # cs \<Longrightarrow> lowest_free a pool d c"
proof -
  assume v: "prefix_IsValid pool" and c: "free_in a pool d = c # cs"
  have "free_address a pool d b \<longleftrightarrow> b = c \<or> b \<in> set cs" for b using set_free_in [OF v, of a d] c by auto
  then show ?thesis using sorted_free_in [OF v, of a d] c by (auto simp: lowest_free_def)
qed

lemma lowest_free_in: "prefix_IsValid pool \<Longrightarrow> lowest_free a pool d c \<Longrightarrow> \<exists>cs. free_in a pool d = c # cs"
proof -
  assume v: "prefix_IsValid pool" and c: "lowest_free a pool d c"
  then have "free_in a pool d \<noteq> []" using set_free_in [OF v, of a d] by (auto simp: lowest_free_def)
  then obtain x xs where x: "free_in a pool d = x # xs" by (cases "free_in a pool d") auto
  then have "x \<le> c" "c \<le> x" using free_in_lowest [OF v x] c by (auto simp: lowest_free_def)
  then show ?thesis using x by auto
qed

lemma below_in_window:
  assumes "prefix_IsValid pool" "c \<in> set (take n (free_in a pool d))"
  shows "free_address a pool d c \<and> card {b. free_address a pool d b \<and> b < c} < n"
proof -
  let ?xs = "free_in a pool d"
  obtain i where i: "i < n" "i < length ?xs" "c = ?xs ! i" using assms(2) by (auto simp: in_set_conv_nth)
  have "\<exists>j < i. b = ?xs ! j" if "free_address a pool d b" "b < c" for b
  proof -
    have "b \<in> set ?xs" using that(1) set_free_in [OF assms(1)] by simp
    then obtain j where j: "j < length ?xs" "b = ?xs ! j" by (auto simp: in_set_conv_nth)
    have "\<not> i \<le> j" using sorted_wrt_nth_less [OF sorted_free_in [OF assms(1)], of i j a d] j that(2) i by (cases "i = j") auto
    then show ?thesis using j(2) by (intro exI [of _ j]) simp
  qed
  then have "{b. free_address a pool d b \<and> b < c} \<subseteq> (!) ?xs ` {..<i}" by auto
  then have "card {b. free_address a pool d b \<and> b < c} \<le> i" using surj_card_le [of "{..<i}"] by simp
  moreover have "c \<in> set ?xs" using assms(2) by (rule in_set_takeD)
  ultimately show ?thesis using i(1) set_free_in [OF assms(1), of a d] by auto
qed

text \<open>What the table says of a pool whose rows are well-formed is what is in use.\<close>

lemma free_of_read:
  assumes "list_all alloc_row_ok (ip_allocations d)" "prefix_IsValid pool" "0 < n"
  shows "freeAddresses a pool (read_in pool (ip_allocations d)) n = take n (free_in a pool d)"
    "in_use d lost \<Longrightarrow> freeAddresses a pool (insert lost (read_in pool (ip_allocations d))) n = take n (free_in a pool d)"
proof -
  have r: "read_in pool (ip_allocations d) = {c. Contains pool c \<and> in_use d c}" using read_in_rows [OF assms(1,2)] by (simp add: in_use_def)
  then show "freeAddresses a pool (read_in pool (ip_allocations d)) n = take n (free_in a pool d)"
    by (simp add: freeAddresses_eq [OF assms(2,3)] filter_usable_taken [OF assms(2)])
  assume lost: "in_use d lost"
  have "filter (usable (al_v4Broadcast a) (insert lost {c. Contains pool c \<and> in_use d c})) (pool_hosts pool) = free_in a pool d"
    unfolding free_in_def by (rule filter_cong) (use lost in \<open>auto simp: usable_def in_pool_hosts [OF assms(2)]\<close>)
  then show "freeAddresses a pool (insert lost (read_in pool (ip_allocations d))) n = take n (free_in a pool d)"
    by (simp add: r freeAddresses_eq [OF assms(2,3)])
qed

text \<open>Rivals that write well-formed rows leave a well-formed table.\<close>

lemma rivalled_rows:
  assumes "list_all alloc_row_ok (ip_allocations d)"
    "\<forall>n t. list_all alloc_row_ok t \<longrightarrow> list_all alloc_row_ok (ev_rivals ev (familyOfPrefix pool) n t)"
  shows "list_all alloc_row_ok (ip_allocations (rivalled ev pool n d))"
  using assms by (induction n) (simp_all add: rivalled_def)

text \<open>The first attempt, when no driver call fails and no rival is quicker.\<close>

lemma first_attempt:
  assumes "w_faults w = []" "alloc_ok (w_db w)" "prefix_IsValid pool" "free_in a pool (w_db w) = c # cs" "\<not> in_use (rivalled ev pool 1 (w_db w)) c"
  shows "allocateFrom a ev pool owner now w = (Ret c, w\<lparr>w_db := add_allocations [new_allocation c owner now] (rivalled ev pool 1 (w_db w))\<rparr>)"
proof -
  have n: "maxAllocationAttempts = Suc 31" by (simp add: maxAllocationAttempts_def)
  let ?t = "{a. Contains pool a \<and> in_use (w_db w) a}" and ?d = "rivalled ev pool 1 (w_db w)"
  have pick: "pickCandidate a x pool ?t False = Inr c" for x
    by (rule pickCandidate_first [OF assms(3)]) (simp add: filter_usable_taken [OF assms(3)] assms(4))
  have d: "(w_db w)\<lparr>ip_allocations := ev_rivals ev (familyOfPrefix pool) 0 (ip_allocations (w_db w))\<rparr> = ?d" by (simp add: rivalled_def)
  have "execM (insert_allocation (new_allocation c owner now)) (w\<lparr>w_db := ?d\<rparr>) = (Ret 1, w\<lparr>w_db := add_allocations [new_allocation c owner now] ?d\<rparr>)"
    using assms(1,5) by (simp add: calm_execM insert_allocation_eq in_use_def)
  then show ?thesis
    using assms(1) pick unfolding allocateFrom_def bindM_def calm_takenIn [OF assms(1-3)] n allocate_loop.simps
    by (simp add: rivals_commit_def d bindM_def mapErr_def calm_rowsAffected returnM_def)
qed

text \<open>A rival takes the first address just before its row is written; the second attempt succeeds.\<close>

definition one_rival :: alloc_env where
  "one_rival = \<lparr>ev_rand = (\<lambda>_ _. 0), ev_rivals = (\<lambda>_ n t. if n = 0 then t @ [new_allocation (V4 0x64400001) ''dev_9'' 0] else t)\<rparr>"

definition rival_world :: "db world" where
  "rival_world = sample_world\<lparr>w_db := add_allocations [new_allocation (V4 0x64400001) ''dev_9'' 0] sample_db\<rparr>"

lemma race_lost_once:
  "\<exists>w'. allocateFrom (st_allocator sample_store) one_rival sample_pool ''dev_1'' 0 sample_world = (Ret (V4 0x64400002), w')"
proof -
  let ?a = "st_allocator sample_store" and ?t = "{a. Contains sample_pool a \<and> in_use (w_db sample_world) a}"
    and ?t' = "insert (V4 0x64400001) {a. Contains sample_pool a \<and> in_use (w_db rival_world) a}"
  have w: "w_faults sample_world = []" "alloc_ok (w_db sample_world)" "prefix_IsValid sample_pool"
    using sample_consistent by (simp_all add: sample_world_def consistent_def sample_pool_def)
  have v: "w_faults rival_world = []" "alloc_ok (w_db rival_world)"
    using w(1) alloc_ok_add [of sample_db "[V4 0x64400001]" "''dev_9''" 0] sample_consistent
    by (simp_all add: rival_world_def sample_world_def consistent_def in_use_def sample_db_def empty_db_def)
  have use: "in_use (w_db rival_world) c \<longleftrightarrow> addr_String c = addr_String (V4 0x64400001)" for c
    by (auto simp: rival_world_def in_use_add in_use_def sample_db_def empty_db_def)
  then have use2: "\<not> in_use (w_db rival_world) (V4 0x64400002)" using addr_String_inj [of "V4 0x64400002" "V4 0x64400001"] by simp
  have p1: "pickCandidate ?a 0 sample_pool ?t False = Inr (V4 0x64400001)"
    by (simp add: pickCandidate_def Let_def freeAddresses_eq [OF w(3)] sample_hosts sample_store_def usable_def sample_last
        in_use_def sample_world_def sample_db_def empty_db_def)
  have p2: "pickCandidate ?a 0 sample_pool ?t' True = Inr (V4 0x64400002)"
    using use2 by (simp add: pickCandidate_def Let_def freeAddresses_eq [OF w(3)] sample_hosts sample_store_def usable_def sample_last scatterWindow_def)
  have lost: "execM (insert_allocation (new_allocation (V4 0x64400001) ''dev_1'' 0)) rival_world = (Ret 0, rival_world)"
    using use [of "V4 0x64400001"] v(1) by (simp add: calm_execM insert_allocation_eq in_use_def)
  have won: "execM (insert_allocation (new_allocation (V4 0x64400002) ''dev_1'' 0)) rival_world =
      (Ret 1, rival_world\<lparr>w_db := add_allocations [new_allocation (V4 0x64400002) ''dev_1'' 0] (w_db rival_world)\<rparr>)"
    using use2 v(1) by (simp add: calm_execM insert_allocation_eq in_use_def)
  have n: "maxAllocationAttempts = Suc (Suc 30)" by (simp add: maxAllocationAttempts_def)
  have riv: "sample_world\<lparr>w_db := (w_db sample_world)\<lparr>ip_allocations := ip_allocations (w_db sample_world) @
      [new_allocation (V4 0x64400001) ''dev_9'' 0]\<rparr>\<rparr> = rival_world"
    by (simp add: rival_world_def sample_world_def add_allocations_def)
  show ?thesis
    unfolding allocateFrom_def bindM_def calm_takenIn [OF w] n allocate_loop.simps
    using p1 p2 lost won riv v
    by (simp add: one_rival_def rivals_commit_def bindM_def mapErr_def calm_rowsAffected calm_takenIn [OF v w(3)] returnM_def)
qed

text \<open>
  C27: Which address \<open>allocateFrom\<close> gives. Its first attempt is for the lowest free address of the pool:
  when no driver call fails, it gets that address unless a rival commits it first, and it reports an
  exhausted pool when no address was free. Whatever fails and whatever rivals commit, an address it
  returns is the lowest one free at the start, or a rival had taken that one in the meantime and it is
  among the 256 lowest that were free when the table was read again, from which the code picks at random.
\<close>

theorem lowest_free_address:
  assumes "alloc_ok (w_db w)" "prefix_IsValid pool"
    "\<forall>n t. list_all alloc_row_ok t \<longrightarrow> list_all alloc_row_ok (ev_rivals ev (familyOfPrefix pool) n t)"
  shows "(w_faults w = [] \<and> (\<nexists>b. free_address a pool (w_db w) b) \<longrightarrow>
      allocateFrom a ev pool owner now w = (Err (wrap (prefix_String pool) ErrPoolExhausted), w)) \<and>
    (\<forall>c. w_faults w = [] \<and> lowest_free a pool (w_db w) c \<and> \<not> in_use (rivalled ev pool 1 (w_db w)) c \<longrightarrow>
      allocateFrom a ev pool owner now w = (Ret c, w\<lparr>w_db := add_allocations [new_allocation c owner now] (rivalled ev pool 1 (w_db w))\<rparr>)) \<and>
    (\<forall>c w'. allocateFrom a ev pool owner now w = (Ret c, w') \<longrightarrow> lowest_free a pool (w_db w) c \<or>
      (\<exists>b. lowest_free a pool (w_db w) b \<and> in_use (rivalled ev pool 1 (w_db w)) b) \<and>
      (\<exists>k d. 0 < k \<and> d = rivalled ev pool k (w_db w) \<and> free_address a pool d c \<and> card {b. free_address a pool d b \<and> b < c} < 256))"
proof (intro conjI allI impI; (elim conjE)?)
  assume calm: "w_faults w = []" and none: "\<nexists>b. free_address a pool (w_db w) b"
  then have "free_in a pool (w_db w) = []" using set_free_in [OF assms(2), of a "w_db w"] by auto
  then have "freeAddresses a pool {c. Contains pool c \<and> in_use (w_db w) c} 1 = []"
    by (simp add: freeAddresses_eq [OF assms(2)] filter_usable_taken [OF assms(2)])
  then have pick: "pickCandidate a x pool {c. Contains pool c \<and> in_use (w_db w) c} False = Inl (wrap (prefix_String pool) ErrPoolExhausted)" for x
    by (simp add: pickCandidate_def Let_def)
  have n: "maxAllocationAttempts = Suc 31" by (simp add: maxAllocationAttempts_def)
  show "allocateFrom a ev pool owner now w = (Err (wrap (prefix_String pool) ErrPoolExhausted), w)"
    unfolding allocateFrom_def bindM_def calm_takenIn [OF calm assms(1,2)] n allocate_loop.simps by (simp add: pick failM_def)
next
  fix c assume "w_faults w = []" "lowest_free a pool (w_db w) c" "\<not> in_use (rivalled ev pool 1 (w_db w)) c"
  then show "allocateFrom a ev pool owner now w = (Ret c, w\<lparr>w_db := add_allocations [new_allocation c owner now] (rivalled ev pool 1 (w_db w))\<rparr>)"
    using lowest_free_in [OF assms(2)] first_attempt assms(1,2) by blast
next
  fix c w' assume run: "allocateFrom a ev pool owner now w = (Ret c, w')"
  have rows: "list_all alloc_row_ok (ip_allocations (w_db w))" using assms(1) by (simp add: alloc_ok_def list_all_iff)
  let ?d = "\<lambda>k. rivalled ev pool k (w_db w)" and ?read = "read_in pool (ip_allocations (w_db w))"
  obtain k used where k: "chosen_from a ev pool 0 ?read (ip_allocations (w_db w)) k used"
    "c \<in> set (freeAddresses a pool used (if 0 < k then scatterWindow else 1))" using allocateFrom_run [OF assms(2) run] by blast
  show "lowest_free a pool (w_db w) c \<or> (\<exists>b. lowest_free a pool (w_db w) b \<and> in_use (?d 1) b) \<and>
      (\<exists>k d. 0 < k \<and> d = ?d k \<and> free_address a pool d c \<and> card {b. free_address a pool d b \<and> b < c} < 256)"
  proof (cases "k = 0")
    case True
    then have "c \<in> set (take 1 (free_in a pool (w_db w)))" using k free_of_read(1) [OF rows assms(2), of 1] by (simp add: chosen_from_def)
    then show ?thesis using free_in_lowest [OF assms(2)] by (cases "free_in a pool (w_db w)") auto
  next
    case False
    obtain lost cand x where l: "used = insert lost (read_in pool (ip_allocations (?d k)))" "in_use (?d k) lost"
      and c: "pickCandidate a x pool ?read False = Inr cand" "in_use (?d 1) cand"
      using k(1) False by (auto simp: chosen_from_def Let_def rivalled_def in_use_def)
    have "cand \<in> set (take 1 (free_in a pool (w_db w)))" using pickCandidate_set [OF c(1)] free_of_read(1) [OF rows assms(2), of 1] by simp
    then have "lowest_free a pool (w_db w) cand" using free_in_lowest [OF assms(2)] by (cases "free_in a pool (w_db w)") auto
    moreover have "c \<in> set (take 256 (free_in a pool (?d k)))"
      using k(2) False l free_of_read(2) [OF rivalled_rows [OF rows assms(3)] assms(2), of 256] by (simp add: scatterWindow_def)
    ultimately show ?thesis using below_in_window [OF assms(2)] c(2) False by blast
  qed
qed

theorem lowest_free_address_witness:
  "(\<exists>w'. allocateFrom (st_allocator sample_store) (quiet (\<lambda>_. 0)) sample_pool ''dev_1'' 0 sample_world = (Ret (V4 0x64400001), w')) \<and>
   (\<exists>k d w'. allocateFrom (st_allocator sample_store) one_rival sample_pool ''dev_1'' 0 sample_world = (Ret (V4 0x64400002), w') \<and>
     0 < k \<and> d = rivalled one_rival sample_pool k sample_db \<and> free_address (st_allocator sample_store) sample_pool d (V4 0x64400002))"
proof -
  let ?a = "st_allocator sample_store"
  have w: "w_faults sample_world = []" "alloc_ok (w_db sample_world)" "prefix_IsValid sample_pool" "w_db sample_world = sample_db"
    using sample_consistent by (simp_all add: sample_world_def consistent_def sample_pool_def)
  have "free_in ?a sample_pool (w_db sample_world) = [V4 0x64400001, V4 0x64400002]"
    by (simp add: free_in_def sample_hosts sample_store_def sample_last in_use_def sample_world_def sample_db_def empty_db_def)
  note low = free_in_lowest [OF w(3) this]
  then have free: "free_address ?a sample_pool (w_db sample_world) (V4 0x64400001)" and least: "\<And>b. free_address ?a sample_pool (w_db sample_world) b \<Longrightarrow> V4 0x64400001 \<le> b"
    by (simp_all add: lowest_free_def)
  have "lowest_free ?a sample_pool (w_db sample_world) (V4 0x64400002) \<Longrightarrow> V4 0x64400002 = V4 0x64400001"
    unfolding lowest_free_def using free least by (intro antisym) blast+
  then have not: "\<not> lowest_free ?a sample_pool (w_db sample_world) (V4 0x64400002)" "\<not> in_use (w_db sample_world) (V4 0x64400001)"
    using free by (auto simp: free_address_def)
  have "list_all alloc_row_ok (ev_rivals one_rival f n t)" if "list_all alloc_row_ok t" for f n t
    using that by (auto simp: one_rival_def alloc_row_ok_def intro: exI [of _ "V4 0x64400001"])
  moreover obtain w' where "allocateFrom ?a one_rival sample_pool ''dev_1'' 0 sample_world = (Ret (V4 0x64400002), w')" using race_lost_once by blast
  ultimately have "\<exists>k d w'. allocateFrom ?a one_rival sample_pool ''dev_1'' 0 sample_world = (Ret (V4 0x64400002), w') \<and>
     0 < k \<and> d = rivalled one_rival sample_pool k sample_db \<and> free_address ?a sample_pool d (V4 0x64400002)"
    using lowest_free_address [OF w(2,3), of one_rival ?a "''dev_1''" 0] not(1) w(4) by auto
  moreover have q: "\<forall>n t. list_all alloc_row_ok t \<longrightarrow> list_all alloc_row_ok (ev_rivals (quiet (\<lambda>_. 0)) (familyOfPrefix sample_pool) n t)"
    by (simp add: quiet_def)
  have "\<exists>w'. allocateFrom ?a (quiet (\<lambda>_. 0)) sample_pool ''dev_1'' 0 sample_world = (Ret (V4 0x64400001), w')"
    using lowest_free_address [OF w(2,3) q, of ?a "''dev_1''" 0] low w(1) not(2) by (simp add: rivalled_quiet)
  ultimately show ?thesis by blast
qed

text \<open>
  C26: Whatever rivals commit between its reads and its writes, be it addresses taken or released, and
  whatever driver calls fail, an address \<open>allocateFrom\<close> returns lies in the pool, is neither the network
  nor the broadcast address, and was in nobody's use when its row was written; and it wrote that row only.
\<close>

theorem allocation_safe_under_races:
  assumes "prefix_IsValid pool" "allocateFrom a ev pool owner now w = (Ret c, w')"
  shows "\<exists>k d. k < maxAllocationAttempts \<and> d = rivalled ev pool (Suc k) (w_db w) \<and> w_db w' = add_allocations [new_allocation c owner now] d \<and>
    \<not> in_use d c \<and> Contains pool c \<and> c \<noteq> Addr (Masked pool) \<and> \<not> (Is4 c \<and> c = al_v4Broadcast a)"
  using allocateFrom_run [OF assms] by blast

theorem allocation_safe_under_races_witness:
  "\<exists>w' k. allocateFrom (st_allocator sample_store) one_rival sample_pool ''dev_1'' 0 sample_world = (Ret (V4 0x64400002), w') \<and>
     w_db w' = add_allocations [new_allocation (V4 0x64400002) ''dev_1'' 0] (rivalled one_rival sample_pool (Suc k) sample_db)"
proof -
  have "prefix_IsValid sample_pool" "w_db sample_world = sample_db" by (simp_all add: sample_pool_def sample_world_def)
  moreover obtain w' where "allocateFrom (st_allocator sample_store) one_rival sample_pool ''dev_1'' 0 sample_world = (Ret (V4 0x64400002), w')"
    using race_lost_once by blast
  ultimately show ?thesis using allocation_safe_under_races [where w = sample_world] by fastforce
qed

text \<open>
  C39: Allocation and release are inverse on who holds what, and neither touches another owner:
  from a state in which no two owners share an address, both lead to such a state.
\<close>

theorem allocation_exclusive:
  assumes "alloc_ok (w_db w)" "allocator_ok a" "Allocate a (quiet rnd) owner now w = (Ret as, w1)" "Release owner w1 = (Ret n, w2)"
    "\<forall>x y. x \<noteq> y \<longrightarrow> held_by (w_db w) x \<inter> held_by (w_db w) y = {}"
  shows "(\<forall>x y. x \<noteq> y \<longrightarrow> held_by (w_db w1) x \<inter> held_by (w_db w1) y = {}) \<and> held_by (w_db w1) owner = set (Addrs as) \<and>
    held_by (w_db w1) owner \<noteq> {} \<and> held_by (w_db w2) = held_by (w_db w)"
proof -
  have ok: "alloc_ok (w_db w) \<and> allocator_ok a" using assms(1,2) ..
  have "ipam.exclusive (w_db w)" using assms(5) by (simp add: ipam.exclusive_def)
  then have "ipam.exclusive (w_db w1)" using ipam.allocate_exclusive [OF ok _ assms(3)] by blast
  moreover have "held_by (w_db w1) owner = set (Addrs as)" using ipam.allocate_held [OF ok assms(3)] by simp
  ultimately show ?thesis
    using ipam.allocate_nonempty [OF ok assms(3)] ipam.allocate_then_release [OF ok assms(3,4)] by (simp add: ipam.exclusive_def)
qed

theorem allocation_exclusive_witness:
  "\<exists>as w1. Allocate (st_allocator sample_store) (quiet (\<lambda>_. 0)) ''dev_1'' 0 sample_world = (Ret as, w1) \<and>
     held_by (w_db w1) ''dev_1'' = set (Addrs as) \<and> held_by (w_db w1) ''dev_1'' \<noteq> {}"
proof -
  let ?a = "st_allocator sample_store"
  have w: "w_faults sample_world = []" "alloc_ok (w_db sample_world)"
    using sample_consistent by (simp_all add: sample_world_def consistent_def)
  have f: "free_in ?a (al_v4 ?a) (w_db sample_world) \<noteq> []" "\<not> IPv6Enabled ?a" "ip_allocations (w_db sample_world) = []"
    by (simp_all add: free_in_def sample_hosts sample_store_def sample_last in_use_def sample_world_def sample_db_def empty_db_def IPv6Enabled_def)
  then obtain as where al: "Allocate ?a (quiet (\<lambda>_. 0)) ''dev_1'' 0 sample_world =
      (Ret as, sample_world\<lparr>w_db := add_allocations (map (\<lambda>c. new_allocation c ''dev_1'' 0) (Addrs as)) (w_db sample_world)\<rparr>)"
    using calm_Allocate [OF w sample_allocator_ok, of "''dev_1''" "\<lambda>_. 0" 0] by auto
  let ?w1 = "sample_world\<lparr>w_db := add_allocations (map (\<lambda>c. new_allocation c ''dev_1'' 0) (Addrs as)) (w_db sample_world)\<rparr>"
  obtain n w2 where rel: "Release ''dev_1'' ?w1 = (Ret n, w2)"
    using w(1) by (simp add: Release_def bindM_def mapErr_def calm_execM calm_rowsAffected returnM_def delete_allocations_def delete_where_def)
  have "\<forall>x y. x \<noteq> y \<longrightarrow> held_by (w_db sample_world) x \<inter> held_by (w_db sample_world) y = {}" using f(3) by (simp add: held_by_def)
  then show ?thesis using allocation_exclusive [OF w(2) sample_allocator_ok al rel] al by blast
qed

section \<open>Text\<close>

text \<open>
  The text of a valid address, IPv4 or IPv6 with its compressed run of zeroes and its zone,
  parses back to the address; so two addresses have the same text only when they are equal.
\<close>

theorem address_text_round_trip:
  assumes "IsValid a"
  shows "ParseAddr (addr_String a) = Some a \<and> (\<forall>b. IsValid b \<and> addr_String b = addr_String a \<longrightarrow> b = a)"
  using ParseAddr_String [OF assms] addr_String_inj [OF _ assms] by auto

theorem address_text_round_trip_witness: "ParseAddr (addr_String (V6 0xFD7A115CA1E000000000000000000001 ''eth0'')) = Some (V6 0xFD7A115CA1E000000000000000000001 ''eth0'')"
  using address_text_round_trip [of "V6 0xFD7A115CA1E000000000000000000001 ''eth0''"] by simp

end
