(* ===== verification/Limit_Theorems.thy ===== *)
theory Limit_Theorems
  imports Server_Routes Sample_Network
begin

text \<open>
  The properties of the rate limiter, computed in the floating-point arithmetic of the program,
  and of version negotiation.
\<close>

section \<open>Rate limiting\<close>

text \<open>The limiter after a sequence of requests.\<close>

fun decide :: "Limiter \<Rightarrow> (string \<times> instant) list \<Rightarrow> Limiter" where
  "decide l [] = l"
| "decide l ((key, now) # rest) = (case Allow (Some l) key now of (a, r, Some l') \<Rightarrow> decide l' rest | _ \<Rightarrow> l)"

lemma decide_ok: "limiter_ok l \<Longrightarrow> limiter_ok (decide l requests) \<and> lm_burst (decide l requests) = lm_burst l"
proof (induction requests arbitrary: l)
  case (Cons x rest)
  obtain key now where x: "x = (key, now)" by fastforce
  obtain a r l' where run: "Allow (Some l) key now = (a, r, Some l')" using Allow_total by blast
  then show ?case using Cons Allow_ok [OF Cons.prems run] by (simp add: x)
qed simp

text \<open>
  A limiter with a positive configured rate and burst keeps its invariant through every
  decision, at whatever instants clients ask: each client has one bucket, and a bucket holds
  between zero tokens and the burst.
\<close>

theorem limiter_invariant:
  assumes "1 \<le> rpm" "rpm \<le> 2 ^ 53" "1 \<le> burst" "burst \<le> 2 ^ 53"
  shows "(\<forall>b \<in> snd ` set (lm_buckets (decide (newLimiter rpm burst now) requests)). 0 \<le> bk_tokens b \<and> bk_tokens b \<le> of_int burst) \<and>
    distinct (map fst (lm_buckets (decide (newLimiter rpm burst now) requests)))"
proof -
  have "lm_burst (newLimiter rpm burst now) = of_int burst"
    using assms float64.exact [of burst] by (simp add: newLimiter_def float_of_int_def)
  then show ?thesis using decide_ok [OF newLimiter_ok [OF assms], of now requests] by (auto simp: limiter_ok_def)
qed

theorem limiter_invariant_witness:
  "\<nexists>b. b \<in> snd ` set (lm_buckets (decide (newLimiter 120 30 0) [(''10.0.0.1'', 5), (''10.0.0.2'', 7), (''10.0.0.1'', 3)])) \<and> 30 < bk_tokens b"
  using limiter_invariant [of 120 30 0 "[(''10.0.0.1'', 5), (''10.0.0.2'', 7), (''10.0.0.1'', 3)]"] by force

text \<open>
  C28: However many requests a client makes at one instant, at most a burst of them is allowed,
  whatever tokens were left over and whatever was swept; and a new client gets its whole burst.
\<close>

theorem burst_is_the_limit:
  assumes "limiter_ok l" "0 \<le> lm_idleTTL l" "lm_burst l = of_nat (Suc m)" "Suc m \<le> 2 ^ 53"
  shows "length (filter (\<lambda>a. a) (allow_run (Some l) key (replicate n t))) \<le> Suc m \<and>
    (map_of (lm_buckets (sweepLocked l t)) key = None \<longrightarrow> allow_run (Some l) key (replicate (Suc m) t) = replicate (Suc m) True)"
proof -
  have "\<exists>l'. allow_run (Some l) key (replicate (Suc m) t @ []) = replicate (Suc m) True @ allow_run (Some l') key []"
    if "map_of (lm_buckets (sweepLocked l t)) key = None"
    using serve_new [OF assms(1,3,4,2) that, of "[]"] by blast
  then show ?thesis using burst_bound [OF assms(1,2,3,4)] by auto
qed

theorem burst_is_the_limit_witness:
  "length (filter (\<lambda>a. a) (allow_run (Some (newLimiter 120 30 0)) ''10.0.0.1'' (replicate 1000 5))) \<le> 30 \<and>
   allow_run (Some (newLimiter 120 30 0)) ''10.0.0.1'' (replicate 30 5) = replicate 30 True"
proof -
  have "lm_burst (newLimiter 120 30 0) = of_nat (Suc 29)" using float64.exact [of 30] by (simp add: newLimiter_def float_of_int_def)
  moreover have "limiter_ok (newLimiter 120 30 0)" by (rule newLimiter_ok) simp_all
  moreover have "0 \<le> lm_idleTTL (newLimiter 120 30 0)" by (simp add: newLimiter_def defaultIdleTTL_def duration_defs)
  moreover have "map_of (lm_buckets (sweepLocked (newLimiter 120 30 0) 5)) ''10.0.0.1'' = None"
    by (simp add: sweepLocked_def newLimiter_def)
  ultimately show ?thesis using burst_is_the_limit [of "newLimiter 120 30 0" 29 "''10.0.0.1''" 1000 5]
    burst_is_the_limit [of "newLimiter 120 30 0" 29 "''10.0.0.1''" 30 5] by simp
qed

text \<open>
  Forgetting idle clients cannot be observed when a bucket fills within ten minutes: a client
  whose bucket the sweep may drop is allowed, and left with the same tokens, as if the bucket had
  been kept.
\<close>

theorem sweep_unobservable:
  assumes "limiter_ok l" "lm_burst l \<le> 600 * lm_ratePerSecond l" "map_of (lm_buckets l) key = Some b"
    "10 * Minute < time_Sub now (bk_lastSeen b)" "map_of (lm_buckets (sweepLocked l now)) key = None"
  shows "fst (Allow (Some l) key now) \<and> bk_tokens (refill l now b) = lm_burst l \<and>
    (refill l now b)\<lparr>bk_tokens := round64 (bk_tokens (refill l now b) - 1)\<rparr> = \<lparr>bk_tokens = round64 (lm_burst l - 1), bk_lastSeen = now\<rparr>"
proof -
  have pos: "\<not> (lm_ratePerSecond l \<le> 0 \<or> lm_burst l \<le> 0)" using assms(1) by (auto simp: limiter_ok_def)
  have "0 \<le> bk_tokens b" using assms(1) bucket_in [OF assms(3)] by (auto simp: limiter_ok_def)
  then have "bk_tokens (refill l now b) = lm_burst l" using refill_full assms by blast
  moreover have "fst (Allow (Some l) key now)" using assms(5) pos by (auto simp: Allow_def Let_def split: option.splits)
  ultimately show ?thesis using sweep_invisible [OF assms(1-4)] by blast
qed

theorem sweep_unobservable_witness:
  "fst (Allow (Some (one_bucket 0 0)) ''a'' (10 * Minute + 1)) \<and> bk_tokens (refill (one_bucket 0 0) (10 * Minute + 1) \<lparr>bk_tokens = 0, bk_lastSeen = 0\<rparr>) = 1"
proof -
  have ok: "limiter_ok (one_bucket 0 0)" by (auto simp: limiter_ok_def one_bucket_def intro!: exI [of _ 1])
  have m: "map_of (lm_buckets (one_bucket 0 0)) ''a'' = Some \<lparr>bk_tokens = 0, bk_lastSeen = 0\<rparr>" by (simp add: one_bucket_def)
  have t: "10 * Minute < time_Sub (10 * Minute + 1) (bk_lastSeen \<lparr>bk_tokens = 0, bk_lastSeen = 0\<rparr>)" by (simp add: time_Sub_def duration_defs)
  have "map_of (lm_buckets (sweepLocked (one_bucket 0 0) (10 * Minute + 1))) ''a'' = None"
    by (rule swept_idle [OF ok m]) (simp_all add: one_bucket_def time_Sub_def duration_defs)
  then show ?thesis using sweep_unobservable [OF ok _ m t] by (simp add: one_bucket_def)
qed

text \<open>
  The sweep undercuts a slow limit: whatever the rate, a client that spends its burst and
  returns after ten minutes and a nanosecond is allowed a whole second burst.
\<close>

theorem double_burst_after_idle:
  assumes "1 \<le> rpm" "rpm \<le> 2 ^ 53" "Suc m \<le> 2 ^ 53" "10 * Minute < t" "t < 2 ^ 63"
  shows "allow_run (Some (newLimiter rpm (int (Suc m)) 0)) key (replicate (Suc m) 0 @ replicate (Suc m) t) = replicate (2 * Suc m) True"
  using double_burst [OF assms] .

theorem double_burst_after_idle_witness:
  "allow_run (Some (newLimiter 1 3 0)) ''10.0.0.1'' (replicate 3 0 @ replicate 3 600000000001) = replicate 6 True"
  using double_burst_after_idle [of 1 2 600000000001 "''10.0.0.1''"] by (simp add: duration_defs)

section \<open>Negotiation\<close>

text \<open>
  Two valid version ranges agree exactly when they share a version, and then on the highest
  they share and on the capabilities both have; when they do not, the error names the side that
  is too old.
\<close>

theorem negotiate_best:
  assumes "Range_Valid l" "Range_Valid r"
  shows "case Negotiate l r lc rc of
    Inr (v, caps) \<Rightarrow> speaks l v \<and> speaks r v \<and> (\<forall>u. speaks l u \<and> speaks r u \<longrightarrow> u \<le> v) \<and> caps = lc \<inter> rc
  | Inl e \<Rightarrow> (\<exists>old. e = IncompatibleError l r old \<and> \<not> (\<exists>v. speaks l v \<and> speaks r v) \<and>
      (old \<longleftrightarrow> (\<forall>v u. speaks r v \<and> speaks l u \<longrightarrow> v < u)))"
proof (cases "Negotiate l r lc rc")
  case (Inr x)
  then show ?thesis using Negotiate_Inr [of l r lc rc "fst x" "snd x"] by (cases x) auto
next
  case (Inl e)
  have s: "speaks l (rg_Min l)" "speaks r (rg_Min r)" using assms by (simp_all add: speaks_def Range_Valid_def)
  obtain old where old: "e = IncompatibleError l r old" using Inl assms by (auto simp: Negotiate_def Let_def split: if_splits)
  note n = Negotiate_Incompatible [OF Inl [unfolded old]]
  have "old \<longleftrightarrow> (\<forall>v u. speaks r v \<and> speaks l u \<longrightarrow> v < u)"
  proof (cases old)
    case False
    then have "rg_Min l < rg_Min r" using n s by auto
    then have "\<not> (\<forall>v u. speaks r v \<and> speaks l u \<longrightarrow> v < u)" using s by (meson less_asym)
    with False show ?thesis by simp
  qed (use n in auto)
  then have "\<exists>old. e = IncompatibleError l r old \<and> \<not> (\<exists>v. speaks l v \<and> speaks r v) \<and>
      (old \<longleftrightarrow> (\<forall>v u. speaks r v \<and> speaks l u \<longrightarrow> v < u))" using old n by blast
  then show ?thesis using Inl by simp
qed

theorem negotiate_best_witness:
  "Negotiate \<lparr>rg_Version = 5, rg_Min = 2\<rparr> \<lparr>rg_Version = 3, rg_Min = 1\<rparr> {''ipv6''} {''ipv6''} = Inr (3, {''ipv6''}) \<and>
   (\<nexists>u. speaks \<lparr>rg_Version = 5, rg_Min = 2\<rparr> u \<and> speaks \<lparr>rg_Version = 3, rg_Min = 1\<rparr> u \<and> 3 < u)"
proof -
  have "Negotiate \<lparr>rg_Version = 5, rg_Min = 2\<rparr> \<lparr>rg_Version = 3, rg_Min = 1\<rparr> {''ipv6''} {''ipv6''} = Inr (3, {''ipv6''})"
    by (simp add: Negotiate_def Range_Valid_def Let_def Intersect_eq)
  moreover have "Range_Valid \<lparr>rg_Version = 5, rg_Min = 2\<rparr>" "Range_Valid \<lparr>rg_Version = 3, rg_Min = 1\<rparr>" by (simp_all add: Range_Valid_def)
  ultimately show ?thesis
    using negotiate_best [of "\<lparr>rg_Version = 5, rg_Min = 2\<rparr>" "\<lparr>rg_Version = 3, rg_Min = 1\<rparr>" "{''ipv6''}" "{''ipv6''}"] by (simp add: not_less)
qed

end
