(* ===== verification/Migration_Theorems.thy ===== *)
theory Migration_Theorems
  imports Sample_Server
begin

text \<open>
  The properties of schema migrations and of the probes that report on them.
\<close>

text \<open>A second migrator that read the ledger before the first one wrote to it.\<close>

lemma applyOne_twice:
  assumes "schema_migrations (w_db w) = Some rs" "mg_Version m \<in> l_version ` set rs" "leaves_ledger exec_sql m"
  shows "\<exists>e w'. applyOne exec_sql m now w = (Err e, w') \<and> w_db w' = w_db w"
proof -
  obtain r w' where run: "applyOne exec_sql m now w = (r, w')" by fastforce
  show ?thesis
  proof (cases r)
    case (Ret u)
    then show ?thesis using applyOne_Ret [OF run [unfolded Ret] assms(3)] assms(1,2) by auto
  next
    case (Err e)
    then show ?thesis using applyOne_Err run by blast
  qed (use run applyOne_no_Panic in blast)
qed

theorem stale_migrator_stops:
  assumes "schema_migrations (w_db w) = Some rs" "mg_Version m \<in> l_version ` set rs" "mg_Version m \<notin> V" "leaves_ledger exec_sql m"
  shows "\<exists>err w'. migrate_loop exec_sql clk V (m # rest) c w = (Ret (c, Some err), w') \<and> w_db w' = w_db w"
  using applyOne_twice [OF assms(1,2,4), of "clk (mg_Version m)"] assms(3) by (auto simp: bindM_def tryM_def returnM_def)

section \<open>A small history\<close>

definition sample_exec :: sql_engine where
  "sample_exec sql d = (if sql = ''BAD'' then Inl DriverFailure
     else Inr (0, d\<lparr>server_metadata := server_metadata d @ [\<lparr>m_key = sql, m_value = [], m_created_at = 0, m_updated_at = 0\<rparr>]\<rparr>))"

definition sample_migration :: "int \<Rightarrow> string \<Rightarrow> string \<Rightarrow> Migration" where
  "sample_migration v n b = \<lparr>mg_Version = v, mg_Name = n, mg_SQL = b, mg_Checksum = hex_EncodeToString (Sum256 (bytes_of_string b))\<rparr>"

lemma sample_leaves: "leaves_ledger sample_exec m"
  by (auto simp: leaves_ledger_def sample_exec_def)

lemma sample_names:
  "parseMigrationName ''0001_init.sql'' = Inr (1, ''init'')" "parseMigrationName ''0002_users.sql'' = Inr (2, ''users'')"
  by code_simp+

lemma sample_loaded: "LoadMigrations sample_fs ''sqlite'' = Inr [sample_migration 1 ''init'' ''A'', sample_migration 2 ''users'' ''B'']"
  by (simp add: LoadMigrations_def sample_fs_def sample_names HasSuffix_def sample_migration_def str_simps)

text \<open>
  C11: Whatever driver calls fail, and so wherever a run of \<open>Migrate\<close> stops, the database is what
  running the scripts of a prefix of the available migrations gives and the ledger names exactly
  this prefix; the count returned is how far the run got, what was recorded before is kept, and
  no error means that every migration is applied.
\<close>

theorem migrate_crash_safe:
  assumes "LoadMigrations fs driver = Inr (pre @ todo)" "\<forall>m \<in> set todo. leaves_ledger exec_sql m"
    "migrated exec_sql base pre (w_db w)"
  shows "\<exists>n err w' rs. Migrate exec_sql fs driver clk w = (Ret (n, err), w') \<and> n \<le> length todo \<and>
    migrated exec_sql base (pre @ take n todo) (w_db w') \<and> ledger_rows (w_db w') = ledger_rows (w_db w) @ rs \<and>
    (err = None \<longrightarrow> n = length todo)"
proof -
  obtain r w' where run: "Migrate exec_sql fs driver clk w = (r, w')" by fastforce
  then show ?thesis using Migrate_refines [OF assms run] by blast
qed

theorem migrate_crash_safe_witness:
  "\<exists>n err w'. Migrate sample_exec sample_fs ''sqlite'' (\<lambda>_. 7) \<lparr>w_db = empty_db, w_faults = replicate 9 False @ [True], w_entropy = []\<rparr> = (Ret (n, err), w') \<and>
     migrated sample_exec empty_db (take n [sample_migration 1 ''init'' ''A'', sample_migration 2 ''users'' ''B'']) (w_db w')"
proof -
  have "migrated sample_exec empty_db [] empty_db" by (simp add: migrated_def ledger_rows_def empty_db_def)
  then show ?thesis
    using migrate_crash_safe [of sample_fs "''sqlite''" "[]" _ sample_exec empty_db
        "\<lparr>w_db = empty_db, w_faults = replicate 9 False @ [True], w_entropy = []\<rparr>" "\<lambda>_. 7"] sample_loaded sample_leaves by fastforce
qed

text \<open>
  C23: When no driver call fails and every script runs, \<open>Migrate\<close> applies every migration that is
  not applied and returns their number; running it again applies nothing and leaves the database
  as it is.
\<close>

theorem migrate_converges:
  assumes "LoadMigrations fs driver = Inr (pre @ todo)" "\<forall>m \<in> set (pre @ todo). leaves_ledger exec_sql m"
    "migrated exec_sql base pre (w_db w)" "w_faults w = []"
    "replay exec_sql (pre @ todo) (base\<lparr>schema_migrations := None\<rparr>) \<noteq> None"
  shows "\<exists>w'. Migrate exec_sql fs driver clk w = (Ret (length todo, None), w') \<and> migrated exec_sql base (pre @ todo) (w_db w') \<and>
    (\<forall>v. w_faults v = [] \<and> w_db v = w_db w' \<longrightarrow> (\<exists>v'. Migrate exec_sql fs driver clk' v = (Ret (0, None), v') \<and> w_db v' = w_db w'))"
proof -
  have scripts: "\<forall>m \<in> set todo. leaves_ledger exec_sql m" using assms(2) by simp
  obtain w' where run: "Migrate exec_sql fs driver clk w = (Ret (length todo, None), w')"
    using Migrate_completes [OF assms(1) scripts assms(3-5)] by blast
  have full: "migrated exec_sql base (pre @ todo) (w_db w')" using Migrate_refines [OF assms(1) scripts assms(3) run] by auto
  have "\<exists>v'. Migrate exec_sql fs driver clk' v = (Ret (0, None), v') \<and> w_db v' = w_db w'" if v: "w_faults v = []" "w_db v = w_db w'" for v
  proof -
    have "migrated exec_sql base (pre @ todo) (w_db v)" using full v(2) by simp
    then obtain v' where again: "Migrate exec_sql fs driver clk' v = (Ret (0, None), v')"
      using Migrate_completes [of fs driver "pre @ todo" "[]" exec_sql base v clk'] assms(1,5) v(1) by auto
    then have "w_db v' = w_db v"
      using Migrate_idle [OF assms(1) _ _ again] Migrate_ledger [OF assms(1,2) run] full v(2) by simp
    with again v(2) show ?thesis by auto
  qed
  with run full show ?thesis by blast
qed

theorem migrate_converges_witness:
  "\<exists>w'. Migrate sample_exec sample_fs ''sqlite'' (\<lambda>_. 7) \<lparr>w_db = empty_db, w_faults = [], w_entropy = []\<rparr> = (Ret (2, None), w') \<and>
     migrated sample_exec empty_db [sample_migration 1 ''init'' ''A'', sample_migration 2 ''users'' ''B''] (w_db w')"
proof -
  have "migrated sample_exec empty_db [] empty_db" by (simp add: migrated_def ledger_rows_def empty_db_def)
  then show ?thesis
    using migrate_converges [of sample_fs "''sqlite''" "[]" _ sample_exec empty_db
        "\<lparr>w_db = empty_db, w_faults = [], w_entropy = []\<rparr>" "\<lambda>_. 7"] sample_loaded sample_leaves
    by (fastforce simp: sample_exec_def sample_migration_def)
qed

text \<open>
  C31: A database whose ledger names a migration this build does not have, or one whose script has
  changed since, is refused: \<open>Migrate\<close> applies nothing and changes nothing, whatever else fails,
  and unless a driver call fails first the error is the one for a database ahead of the build or the
  one for a changed script.
\<close>

theorem migrate_refuses:
  assumes "LoadMigrations fs driver = Inr ms" "schema_migrations (w_db w) = Some rs"
    "x \<in> set rs" "\<not> (\<exists>m \<in> set ms. mg_Version m = l_version x \<and> mg_Checksum m = l_checksum x)"
  shows "\<exists>err w'. Migrate exec_sql fs driver clk w = (Ret (0, Some err), w') \<and> w_db w' = w_db w \<and>
    (w_faults w = [] \<longrightarrow> errors_Is err ErrDatabaseAhead \<or> errors_Is err ErrChecksumMismatch)"
proof -
  have rows: "ledger_rows (w_db w) = rs" using assms(2) by (simp add: ledger_rows_def)
  have bad: "\<not> recorded ms (scanApplied x)" using assms(4) by (simp add: recorded_def scanApplied_def)
  obtain r w' where run: "Migrate exec_sql fs driver clk w = (r, w')" by fastforce
  obtain err where err: "r = Ret (0, Some err)" "w_db w' = w_db w"
    using assms(1) run by (cases rule: Migrate_prologue) (use bad rows assms(2,3) in auto)
  have "errors_Is err ErrDatabaseAhead \<or> errors_Is err ErrChecksumMismatch" if calm: "w_faults w = []"
  proof -
    have "distinct (map mg_Version ms)" using LoadMigrations_Inr [OF assms(1)] by (auto simp: strict_sorted_iff)
    then obtain e where e: "verifyLedger ms (map scanApplied (sort_key l_version rs)) = Some e"
      using verifyLedger_None [of ms "map scanApplied (sort_key l_version rs)"] bad assms(3) by fastforce
    moreover have "ensureLedger w = (Ret (), w)" "AppliedMigrations w = (Ret (map scanApplied (sort_key l_version rs)), w)"
      using calm assms(2) by (simp_all add: ensureLedger_def calm_execM create_ledger_def bindM_def mapErr_def returnM_def
          AppliedMigrations_Ret calm_queryM)
    ultimately have "Migrate exec_sql fs driver clk w = (Ret (0, Some e), w)"
      using assms(1) by (simp add: Migrate_def bindM_def tryM_def returnM_def)
    then show ?thesis using verifyLedger_Some [OF e] run err by simp
  qed
  with run err show ?thesis by blast
qed

theorem migrate_refuses_witness:
  "\<exists>err w'. Migrate sample_exec sample_fs ''sqlite'' (\<lambda>_. 7)
     \<lparr>w_db = empty_db\<lparr>schema_migrations := Some [\<lparr>l_version = 9, l_name = ''later'', l_checksum = ''00'', l_applied_at = 1\<rparr>]\<rparr>, w_faults = [], w_entropy = []\<rparr> =
     (Ret (0, Some err), w') \<and> (errors_Is err ErrDatabaseAhead \<or> errors_Is err ErrChecksumMismatch)"
proof -
  let ?row = "\<lparr>l_version = 9, l_name = ''later'', l_checksum = ''00'', l_applied_at = 1\<rparr>"
  show ?thesis
    using migrate_refuses [OF sample_loaded, of "\<lparr>w_db = empty_db\<lparr>schema_migrations := Some [?row]\<rparr>, w_faults = [], w_entropy = []\<rparr>"
        "[?row]" ?row sample_exec "\<lambda>_. 7"] by (auto simp: sample_migration_def)
qed

section \<open>Readiness\<close>

lemma probe_status: "foldl (\<lambda>overall c. Worse overall (ck_Status c)) StatusOK [c] = (if health_rank (ck_Status c) = 0 then StatusOK else ck_Status c)"
  by (auto simp: Worse_def health_rank_def StatusOK_def)

lemma SchemaVersion_frame: "SchemaVersion w = (r, w') \<Longrightarrow> w_db w' = w_db w \<and> (\<forall>p. r \<noteq> Panic p)"
  by (auto simp: SchemaVersion_def bindM_def returnM_def AppliedMigrations_no_Panic split: prod.splits res.splits dest: AppliedMigrations_frame)

lemma checkDatabase_total:
  "\<exists>c w'. checkDatabase s start fin w = (Ret c, w') \<and> w_db w' = w_db w \<and>
    (ck_Status c, ck_Detail c) \<in> {(StatusOK, []), (StatusDown, ''the database is not reachable''),
      (StatusDown, ''the schema version could not be read''), (StatusDown, ''the embedded migrations could not be read''),
      (StatusDegraded, ''the database schema is not at the version this build expects; run the server once to migrate'')} \<and>
    (ck_Status c = StatusOK \<longrightarrow> (\<exists>ms rs. LoadMigrations (se_migrationsFS s) (db_Driver (cfg_Database (se_cfg s))) = Inr ms \<and> ms \<noteq> [] \<and>
       schema_migrations (w_db w) = Some rs \<and> Max (insert 0 (l_version ` set rs)) = mg_Version (last ms)))"
proof -
  have st: "StatusDown \<noteq> StatusOK" "StatusDegraded \<noteq> StatusOK" by (simp_all add: StatusOK_def StatusDown_def StatusDegraded_def)
  obtain p w1 where ping: "driver_call w = (p, w1)" by fastforce
  have p: "w_db w1 = w_db w" "\<And>x. p \<noteq> Panic x" using driver_call_frame [OF ping] ping
    by (auto simp: driver_call_def split: list.splits if_splits)
  obtain v w2 where ver: "SchemaVersion w1 = (v, w2)" by fastforce
  note v = SchemaVersion_frame [OF ver]
  show ?thesis
  proof (cases p)
    case (Ret u)
    show ?thesis
    proof (cases v)
      case (Ret applied)
      obtain rs where rs: "schema_migrations (w_db w) = Some rs" "applied = Max (insert 0 (l_version ` set rs))"
        using SchemaVersion_Ret [OF ver [unfolded Ret]] p by auto
      show ?thesis
        using ping ver \<open>p = Ret u\<close> \<open>v = Ret applied\<close> p v rs st
        by (cases "LoadMigrations (se_migrationsFS s) (db_Driver (cfg_Database (se_cfg s)))")
          (simp_all add: checkDatabase_def bindM_def tryM_def returnM_def Let_def)
    next
      case (Err e)
      then show ?thesis using ping ver \<open>p = Ret u\<close> p v st by (simp add: checkDatabase_def bindM_def tryM_def returnM_def Let_def)
    qed (use v in simp)
  next
    case (Err e)
    then show ?thesis using ping p st by (simp add: checkDatabase_def bindM_def tryM_def returnM_def Let_def)
  qed (use p in simp)
qed

lemma migrated_last:
  assumes "migrated exec_sql base ms d" "sorted_wrt (<) (map mg_Version ms)" "ms \<noteq> []" "0 < mg_Version (last ms)"
  shows "Max (insert 0 (l_version ` set (ledger_rows d))) = mg_Version (last ms)"
proof (rule Max_eqI)
  show "y \<le> mg_Version (last ms)" if "y \<in> insert 0 (l_version ` set (ledger_rows d))" for y
  proof -
    have "mg_Version m \<le> mg_Version (last ms)" if "m \<in> set ms" for m
      using assms(2,3) that by (cases ms rule: rev_cases) (auto simp: sorted_wrt_append)
    then show ?thesis using that assms(4) migrated_ledger(1) [OF assms(1)] by auto
  qed
  show "mg_Version (last ms) \<in> insert 0 (l_version ` set (ledger_rows d))" using migrated_ledger(1) [OF assms(1)] assms(3) by simp
qed simp

text \<open>On a database at the newest migration that answers, the check is healthy.\<close>

lemma checkDatabase_current:
  assumes "LoadMigrations (se_migrationsFS s) (db_Driver (cfg_Database (se_cfg s))) = Inr ms" "ms \<noteq> []"
    "migrated exec_sql base ms (w_db w)" "schema_migrations (w_db w) \<noteq> None" "w_faults w = []"
  shows "checkDatabase s start fin w = (Ret \<lparr>ck_Name = ''database'', ck_Status = StatusOK, ck_Detail = [],
      ck_DurationMS = Milliseconds (time_Sub fin start)\<rparr>, w)"
proof -
  obtain rs where rs: "schema_migrations (w_db w) = Some rs" using assms(4) by blast
  have sorted: "sorted_wrt (<) (map mg_Version ms)" "0 < mg_Version (last ms)"
    using LoadMigrations_Inr [OF assms(1)] assms(2) last_in_set [OF assms(2)] parseMigrationName_pos
    by (fastforce simp: loaded_from_def)+
  have "SchemaVersion w = (Ret (mg_Version (last ms)), w)"
    using migrated_last [OF assms(3) sorted(1) assms(2) sorted(2)] rs assms(5)
    by (simp add: SchemaVersion_def AppliedMigrations_def bindM_def mapErr_def returnM_def calm_queryM foldl_max_Max image_image
        scanApplied_def ledger_rows_def)
  then show ?thesis using assms by (simp add: checkDatabase_def bindM_def tryM_def returnM_def calm_driver_call)
qed

lemma probe_current:
  assumes "LoadMigrations (se_migrationsFS s) (db_Driver (cfg_Database (se_cfg s))) = Inr ms" "ms \<noteq> []"
    "map (\<lambda>r. (l_version r, l_name r, l_checksum r)) (ledger_rows (w_db w)) = map entry_of ms" "w_faults w = []"
  shows "\<exists>resp. probe s start fin w = (Ret resp, w) \<and> hr_Status resp = StatusOK"
proof -
  have "replay (\<lambda>_ d. Inr (0, d)) ns d = Some d" for ns d by (induction ns) simp_all
  then have "migrated (\<lambda>_ d. Inr (0, d)) (w_db w) ms (w_db w)" using assms(3) by (simp add: migrated_def)
  moreover have "schema_migrations (w_db w) \<noteq> None" using assms(2,3) by (auto simp: ledger_rows_def split: option.splits)
  ultimately show ?thesis
    using checkDatabase_current [OF assms(1,2) _ _ assms(4)] by (simp add: probe_def bindM_def returnM_def Worse_def health_rank_def)
qed

text \<open>
  The probes behind \<open>/ready\<close> and \<open>/health\<close> always answer, change nothing and say one of five
  fixed things, so no error of the driver is disclosed. They report the server as healthy only when
  the newest migration of this build is the newest one recorded, and they do so after a completed
  migration when the database answers.
\<close>

theorem probe_reports_schema:
  assumes "LoadMigrations (se_migrationsFS s) (db_Driver (cfg_Database (se_cfg s))) = Inr ms" "ms \<noteq> []"
  shows "\<exists>resp c w'. probe s start fin w = (Ret resp, w') \<and> w_db w' = w_db w \<and> hr_Checks resp = [c] \<and> hr_Status resp = ck_Status c \<and>
    ck_Detail c \<in> {[], ''the database is not reachable'', ''the schema version could not be read'', ''the embedded migrations could not be read'',
      ''the database schema is not at the version this build expects; run the server once to migrate''} \<and>
    (hr_Status resp = StatusOK \<longrightarrow> mg_Version (last ms) = Max (insert 0 (l_version ` set (ledger_rows (w_db w))))) \<and>
    (migrated exec_sql base ms (w_db w) \<and> schema_migrations (w_db w) \<noteq> None \<and> w_faults w = [] \<longrightarrow> hr_Status resp = StatusOK)"
proof -
  obtain c w' where c: "checkDatabase s start fin w = (Ret c, w')" "w_db w' = w_db w"
    "(ck_Status c, ck_Detail c) \<in> {(StatusOK, []), (StatusDown, ''the database is not reachable''),
      (StatusDown, ''the schema version could not be read''), (StatusDown, ''the embedded migrations could not be read''),
      (StatusDegraded, ''the database schema is not at the version this build expects; run the server once to migrate'')}"
    "ck_Status c = StatusOK \<Longrightarrow> mg_Version (last ms) = Max (insert 0 (l_version ` set (ledger_rows (w_db w))))"
    using checkDatabase_total [of s start fin w] assms by (fastforce simp: ledger_rows_def)
  have status: "foldl (\<lambda>overall c. Worse overall (ck_Status c)) StatusOK [c] = ck_Status c"
    using c(3) unfolding probe_status by (auto simp: health_rank_def StatusOK_def StatusDown_def StatusDegraded_def)
  have "ck_Status c = StatusOK" if ok: "migrated exec_sql base ms (w_db w)" "schema_migrations (w_db w) \<noteq> None" "w_faults w = []"
    using checkDatabase_current [OF assms ok] c(1) by auto
  with c status show ?thesis by (auto simp: probe_def bindM_def returnM_def)
qed

theorem probe_reports_schema_witness:
  "\<exists>resp w'. probe sample_server 0 5 \<lparr>w_db = empty_db, w_faults = [], w_entropy = []\<rparr> = (Ret resp, w') \<and> hr_Status resp \<noteq> StatusOK"
proof -
  have "db_Driver (cfg_Database (se_cfg sample_server)) = ''sqlite''" "se_migrationsFS sample_server = sample_fs"
    by (simp_all add: sample_server_def sample_config_def Default_def DriverSQLite_def)
  then have "LoadMigrations (se_migrationsFS sample_server) (db_Driver (cfg_Database (se_cfg sample_server))) =
      Inr [sample_migration 1 ''init'' ''A'', sample_migration 2 ''users'' ''B'']" using sample_loaded by simp
  from probe_reports_schema [OF this, of 0 5 "\<lparr>w_db = empty_db, w_faults = [], w_entropy = []\<rparr>" sample_exec empty_db]
  show ?thesis by (fastforce simp: ledger_rows_def empty_db_def sample_migration_def)
qed

end
