(* ===== verification/Wireguard_Keys.thy ===== *)
theory Wireguard_Keys
  imports Devices
begin

text \<open>
  WireGuard keys (\<open>internal/wireguard/key.go\<close>). A private key holds its scalar behind a closure; the
  zero value holds none. Deriving a public key is \<open>curve25519.ScalarBaseMult\<close>, the parameter \<open>base_mult\<close>.
\<close>

section \<open>Keys\<close>

definition KeyLength :: nat where "KeyLength = 32"

definition redactedPrivateKey :: string where "redactedPrivateKey = ''wireguard.PrivateKey(REDACTED)''"

definition ErrInvalidKey :: error where "ErrInvalidKey = ErrNew ''invalid WireGuard key''"
definition ErrKeyNotSerialisable :: error where "ErrKeyNotSerialisable = ErrNew ''a WireGuard private key cannot be serialised''"

type_synonym PublicKey = "byte list"

record PrivateKey =
  pr_scalar :: "byte list option"

definition newPrivateKey :: "byte list \<Rightarrow> PrivateKey" where
  "newPrivateKey scalar = \<lparr>pr_scalar = Some scalar\<rparr>"

definition zeroPrivateKey :: PrivateKey where
  "zeroPrivateKey = \<lparr>pr_scalar = None\<rparr>"

definition key_bytes :: "PrivateKey \<Rightarrow> byte list option" where
  "key_bytes k = (case pr_scalar k of None \<Rightarrow> None | Some scalar \<Rightarrow> Some scalar)"

definition clamp :: "byte list \<Rightarrow> byte list" where
  "clamp scalar = (let s1 = scalar[0 := scalar ! 0 AND 248]; s2 = s1[31 := s1 ! 31 AND 127] in s2[31 := s2 ! 31 OR 64])"

definition clamped :: "PrivateKey \<Rightarrow> bool" where
  "clamped k = (case key_bytes k of
     None \<Rightarrow> False
   | Some scalar \<Rightarrow> scalar ! 0 AND 7 = 0 \<and> scalar ! 31 AND 128 = 0 \<and> scalar ! 31 AND 64 = 64)"

definition GenerateKey :: "('d, PrivateKey) comp" where
  "GenerateKey = bindM (mapErr (wrap ''generate WireGuard key'') (rand_Read KeyLength)) (\<lambda>scalar.
     returnM (newPrivateKey (clamp scalar)))"

definition zero_key :: "byte list" where
  "zero_key = replicate KeyLength 0"

definition Public :: "(byte list \<Rightarrow> byte list) \<Rightarrow> PrivateKey \<Rightarrow> PublicKey" where
  "Public base_mult k = (case key_bytes k of None \<Rightarrow> zero_key | Some scalar \<Rightarrow> base_mult scalar)"

text \<open>\<open>subtle.ConstantTimeCompare(x, y) == 1\<close>: the slices are equal, in length and content.\<close>

definition ConstantTimeCompare :: "byte list \<Rightarrow> byte list \<Rightarrow> bool" where
  "ConstantTimeCompare x y \<longleftrightarrow> length x = length y \<and> foldl (\<lambda>v (a, b). v OR (a XOR b)) 0 (zip x y) = 0"

definition private_IsZero :: "PrivateKey \<Rightarrow> bool" where
  "private_IsZero k = (case key_bytes k of None \<Rightarrow> True | Some scalar \<Rightarrow> ConstantTimeCompare scalar zero_key)"

definition private_Equal :: "PrivateKey \<Rightarrow> PrivateKey \<Rightarrow> bool" where
  "private_Equal k other = (case (key_bytes k, key_bytes other) of
     (Some mine, Some theirs) \<Rightarrow> ConstantTimeCompare mine theirs
   | (mine, theirs) \<Rightarrow> mine = None \<and> theirs = None)"

definition public_IsZero :: "PublicKey \<Rightarrow> bool" where
  "public_IsZero k = ConstantTimeCompare k zero_key"

definition public_Equal :: "PublicKey \<Rightarrow> PublicKey \<Rightarrow> bool" where
  "public_Equal k other = ConstantTimeCompare k other"

section \<open>Text\<close>

definition public_String :: "PublicKey \<Rightarrow> string" where
  "public_String k = EncodeToString StdEncoding k"

definition public_MarshalText :: "PublicKey \<Rightarrow> error + string" where
  "public_MarshalText k = Inr (public_String k)"

definition parseKeyBytes :: "string \<Rightarrow> error + byte list" where
  "parseKeyBytes s = (let trimmed = TrimSpace s in
     if trimmed = [] then Inl (wrap ''it is empty'' ErrInvalidKey)
     else case DecodeString StdEncoding trimmed of
       None \<Rightarrow> Inl (wrap ''it is not valid standard base64'' ErrInvalidKey)
     | Some raw \<Rightarrow> if length raw \<noteq> KeyLength
         then Inl (wrap (''it decodes to '' @ Itoa (length raw) @ '' bytes, want '' @ Itoa KeyLength) ErrInvalidKey)
         else Inr raw)"

definition ParsePublicKey :: "string \<Rightarrow> error + PublicKey" where
  "ParsePublicKey s = (case parseKeyBytes s of Inl err \<Rightarrow> Inl err | Inr raw \<Rightarrow> Inr raw)"

definition public_UnmarshalText :: "PublicKey \<Rightarrow> string \<Rightarrow> error option \<times> PublicKey" where
  "public_UnmarshalText k text = (case ParsePublicKey text of Inl err \<Rightarrow> (Some err, k) | Inr parsed \<Rightarrow> (None, parsed))"

definition ParsePrivateKey :: "string \<Rightarrow> error + PrivateKey" where
  "ParsePrivateKey s = (case parseKeyBytes s of
     Inl err \<Rightarrow> Inl err
   | Inr raw \<Rightarrow> let key = newPrivateKey raw in
       if private_IsZero key then Inl (wrap ''it is all zeroes, which means key generation failed'' ErrInvalidKey)
       else if \<not> clamped key then Inl (wrap ''it is not clamped for X25519, so it was not produced by a correct implementation'' ErrInvalidKey)
       else Inr key)"

definition privateKeyBase64 :: "PrivateKey \<Rightarrow> string" where
  "privateKeyBase64 k = (case key_bytes k of None \<Rightarrow> [] | Some scalar \<Rightarrow> EncodeToString StdEncoding scalar)"

section \<open>Renderings of a private key\<close>

definition private_String :: "PrivateKey \<Rightarrow> string" where "private_String k = redactedPrivateKey"
definition private_GoString :: "PrivateKey \<Rightarrow> string" where "private_GoString k = redactedPrivateKey"
definition private_LogValue :: "PrivateKey \<Rightarrow> string" where "private_LogValue k = redactedPrivateKey"

definition private_Format :: "PrivateKey \<Rightarrow> char \<Rightarrow> string" where
  "private_Format k verb = (if verb = CHR ''T'' then ''wireguard.PrivateKey'' else redactedPrivateKey)"

definition private_MarshalText :: "PrivateKey \<Rightarrow> error + string" where "private_MarshalText k = Inl ErrKeyNotSerialisable"
definition private_MarshalJSON :: "PrivateKey \<Rightarrow> error + string" where "private_MarshalJSON k = Inl ErrKeyNotSerialisable"
definition private_MarshalBinary :: "PrivateKey \<Rightarrow> error + string" where "private_MarshalBinary k = Inl ErrKeyNotSerialisable"

section \<open>Clamping\<close>

lemma fold_or_zero: "foldl (\<lambda>v (a, b). v OR (a XOR b)) v ps = (0 :: byte) \<longleftrightarrow> v = 0 \<and> (\<forall>(a, b) \<in> set ps. a = b)"
proof (induction ps arbitrary: v)
  case (Cons p ps)
  have "v OR (fst p XOR snd p) = 0 \<longleftrightarrow> v = 0 \<and> fst p = snd p"
    by (simp add: or_eq_0_iff xor_zero_iff)
  then show ?case using Cons by (auto simp: case_prod_beta)
qed simp

lemma ConstantTimeCompare_eq [simp]: "ConstantTimeCompare x y \<longleftrightarrow> x = y"
proof -
  have "(\<forall>(a, b) \<in> set (zip x y). a = b) \<longleftrightarrow> x = y" if "length x = length y"
    using that by (induction x y rule: list_induct2) auto
  then show ?thesis unfolding ConstantTimeCompare_def fold_or_zero by auto
qed

lemma length_clamp [simp]: "length (clamp s) = length s"
  by (simp add: clamp_def Let_def)

lemma mask_split: "b AND (m OR n) = b \<Longrightarrow> b AND n = 0 \<Longrightarrow> b AND m = (b :: byte)"
  by (simp add: bit.conj_disj_distrib)

lemma clamp_bits:
  fixes b :: byte
  shows "(b AND 248) AND 7 = 0" "((b AND 127) OR 64) AND 128 = 0" "((b AND 127) OR 64) AND 64 = 64"
  by (simp_all add: and.assoc bit.conj_disj_distrib2)

lemma clamp_bits_id:
  fixes b :: byte
  shows "b AND 7 = 0 \<Longrightarrow> b AND 248 = b" "b AND 128 = 0 \<Longrightarrow> b AND 127 = b" "b AND 64 = 64 \<Longrightarrow> b OR 64 = b"
proof -
  have "(255 :: byte) = - 1" by simp
  then have full: "b AND 255 = b" using and.right_neutral [of b] by (simp only:)
  show "b AND 7 = 0 \<Longrightarrow> b AND 248 = b" using mask_split [of b 248 7] full by simp
  show "b AND 128 = 0 \<Longrightarrow> b AND 127 = b" using mask_split [of b 127 128] full by simp
  show "b AND 64 = 64 \<Longrightarrow> b OR 64 = b" by (metis and.commute or.commute word_ao_absorbs(8))
qed


lemma clamp_nth:
  assumes "length s = KeyLength"
  shows "clamp s ! 0 = s ! 0 AND 248" "clamp s ! 31 = (s ! 31 AND 127) OR 64"
    "\<And>i. 0 < i \<Longrightarrow> i < 31 \<Longrightarrow> clamp s ! i = s ! i"
  using assms by (simp_all add: clamp_def Let_def KeyLength_def)

lemma clamped_clamp: "length s = KeyLength \<Longrightarrow> clamped (newPrivateKey (clamp s))"
  by (simp add: clamped_def key_bytes_def newPrivateKey_def clamp_nth clamp_bits)

lemma clamp_id: "clamped (newPrivateKey s) \<Longrightarrow> length s = KeyLength \<Longrightarrow> clamp s = s"
  by (simp add: clamped_def key_bytes_def newPrivateKey_def clamp_def Let_def clamp_bits_id KeyLength_def)

lemma clamped_not_zero: "clamped k \<Longrightarrow> \<not> private_IsZero k"
  by (auto simp: clamped_def private_IsZero_def zero_key_def KeyLength_def split: option.splits)

lemma GenerateKey_Ret:
  "GenerateKey w = (Ret k, w') \<Longrightarrow> (\<exists>s. length s = KeyLength \<and> k = newPrivateKey s) \<and> clamped k \<and> \<not> private_IsZero k \<and> w_db w' = w_db w"
  by (auto simp: GenerateKey_def bindM_Ret rand_Read_def clamped_clamp not_less split: if_splits
      intro!: clamped_not_zero exI [of _ "clamp (take KeyLength (w_entropy w))"])

section \<open>Reading back\<close>

lemma chunks_ascii: "\<forall>c \<in> set s. of_char c < (128::nat) \<Longrightarrow> chunks s = map (\<lambda>c. (of_char c, [c])) s"
proof (induction s)
  case (Cons c s)
  then show ?case by (simp add: chunks_step decode_rune_def)
qed simp

lemma dropWhile_none: "\<forall>x \<in> set xs. \<not> P x \<Longrightarrow> dropWhile P xs = xs"
  by (cases xs) auto

text \<open>A line of printable ASCII comes back from \<open>TrimSpace\<close> without its line break.\<close>

definition printable :: "string \<Rightarrow> bool" where
  "printable s \<longleftrightarrow> (\<forall>c \<in> set s. 32 < (of_char c :: nat) \<and> of_char c < (127::nat))"

lemma TrimSpace_printable:
  assumes "printable s" "set t \<subseteq> {CHR 0x0A, CHR 0x0D, CHR '' ''}"
  shows "TrimSpace (s @ t) = s"
proof -
  have ascii: "\<forall>c \<in> set (s @ t). of_char c < (128::nat)" using assms by (force simp: printable_def)
  have sp: "\<not> is_space (of_char c)" if "c \<in> set s" for c using assms(1) that by (auto simp: printable_def is_space_def)
  have ts: "is_space (of_char c)" if "c \<in> set t" for c using that assms(2) by (auto simp: is_space_def)
  let ?P = "\<lambda>c::nat \<times> string. is_space (fst c)" and ?f = "\<lambda>c. (of_char c :: nat, [c])"
  have "dropWhile ?P (rev (map ?f t) @ rev (map ?f s)) = rev (map ?f s)"
    using ts sp dropWhile_none [of "rev (map ?f s)" ?P] by (subst dropWhile_append2) auto
  moreover have "dropWhile ?P (map ?f (s @ t)) = (if s = [] then [] else map ?f (s @ t))"
    using sp ts by (cases s) (auto simp: dropWhile_eq_Nil_conv)
  ultimately have "trim_chunks (map ?f (s @ t)) = map ?f s" by (auto simp: trim_chunks_def)
  then show ?thesis by (simp add: TrimSpace_def chunks_ascii [OF ascii] o_def)
qed

lemma printable_Encode: "printable (EncodeToString StdEncoding bs)"
proof -
  have alphabet: "enc_alphabet StdEncoding = std_alphabet" by (simp add: StdEncoding_def)
  have "set (EncodeToString StdEncoding bs) \<subseteq> insert (CHR ''='') (set std_alphabet)"
    using sextet_in [of StdEncoding] unfolding alphabet by (induction StdEncoding bs rule: EncodeToString.induct) (auto simp: Let_def padding_def)
  moreover have "printable (CHR ''='' # std_alphabet)" by (simp add: printable_def std_alphabet_def)
  ultimately show ?thesis by (auto simp: printable_def)
qed

lemma Encode_nonempty: "bs \<noteq> [] \<Longrightarrow> EncodeToString e bs \<noteq> []"
  by (cases "(e, bs)" rule: EncodeToString.cases) (auto simp: Let_def)

lemma parseKeyBytes_Encode:
  assumes "length bs = KeyLength" "set t \<subseteq> {CHR 0x0A, CHR 0x0D, CHR '' ''}"
  shows "parseKeyBytes (EncodeToString StdEncoding bs @ t) = Inr bs"
proof -
  have "EncodeToString StdEncoding bs \<noteq> []" using assms(1) by (intro Encode_nonempty) (auto simp: KeyLength_def)
  then show ?thesis
    using assms TrimSpace_printable [OF printable_Encode assms(2)] DecodeString_EncodeToString [of StdEncoding bs]
    by (simp add: parseKeyBytes_def)
qed


lemma ParsePrivateKey_Inr:
  "ParsePrivateKey s = Inr k \<Longrightarrow> \<exists>raw. k = newPrivateKey raw \<and> length raw = KeyLength \<and> clamped k \<and> \<not> private_IsZero k"
  by (auto simp: ParsePrivateKey_def parseKeyBytes_def Let_def split: sum.splits if_splits option.splits)

lemma ParsePrivateKey_base64:
  assumes "length raw = KeyLength" "clamped (newPrivateKey raw)" "set t \<subseteq> {CHR 0x0A, CHR 0x0D, CHR '' ''}"
  shows "ParsePrivateKey (privateKeyBase64 (newPrivateKey raw) @ t) = Inr (newPrivateKey raw)"
  using assms parseKeyBytes_Encode [OF assms(1,3)] clamped_not_zero [OF assms(2)]
  by (simp add: ParsePrivateKey_def privateKeyBase64_def key_bytes_def newPrivateKey_def Let_def)

lemma ParsePublicKey_String: "length k = KeyLength \<Longrightarrow> ParsePublicKey (public_String k) = Inr k"
  using parseKeyBytes_Encode [of k "[]"] by (simp add: ParsePublicKey_def public_String_def)

text \<open>What a parser says of a bad key depends on the shape of the text, never on its content.\<close>

lemma parseKeyBytes_Inl:
  "parseKeyBytes s = Inl e \<Longrightarrow> e = wrap ''it is empty'' ErrInvalidKey \<or> e = wrap ''it is not valid standard base64'' ErrInvalidKey \<or>
     (\<exists>n. e = wrap (''it decodes to '' @ Itoa n @ '' bytes, want '' @ Itoa KeyLength) ErrInvalidKey)"
  by (auto simp: parseKeyBytes_def Let_def split: if_splits option.splits)

text \<open>The control plane accepts every public key a device prints, the zero key apart.\<close>

lemma ValidatePublicKey_String:
  assumes "length k = KeyLength"
  shows "ValidatePublicKey (public_String k) = None \<longleftrightarrow> \<not> public_IsZero k"
proof -
  have "k = zero_key \<longleftrightarrow> list_all (\<lambda>b. b = 0) k"
    using assms by (auto simp: zero_key_def list_all_iff intro: replicate_eqI)
  moreover have "public_String k \<noteq> []" unfolding public_String_def using assms by (intro Encode_nonempty) (auto simp: KeyLength_def)
  ultimately show ?thesis
    using assms TrimSpace_printable [OF printable_Encode, of "[]" k] DecodeString_EncodeToString [of StdEncoding k]
    by (simp add: ValidatePublicKey_def public_String_def public_IsZero_def KeyLength_def wireGuardKeyLength_def)
qed

end
