(* ===== verification/Unix_Files.thy ===== *)
theory Unix_Files
  imports Go_Effects
begin

text \<open>
  A model of the Unix files the key store works on. Names are bound to inodes; an inode has a kind,
  permission bits, an owner and its data. An open file is its inode, so what happens to names does not
  touch it. Before each system call other accounts may act (\<open>mc_rivals\<close>), and each call may fail (the
  schedule of faults of the world); failures of permission are among them.
\<close>

section \<open>Files\<close>

datatype kind = Regular | Directory | Symlink string | Fifo

record node =
  n_kind :: kind
  n_mode :: "9 word"
  n_uid :: int
  n_data :: string

record fsys =
  fs_names :: "string \<Rightarrow> nat option"
  fs_nodes :: "nat \<Rightarrow> node option"
  fs_next :: nat

record machine =
  mc_fs :: fsys
  mc_rivals :: "(fsys \<Rightarrow> fsys) list"
  mc_uid :: int
  mc_umask :: "9 word"
  mc_short :: nat

definition ErrNotExist :: error where "ErrNotExist = ErrNew ''file does not exist''"
definition ErrExist :: error where "ErrExist = ErrNew ''file already exists''"
definition ELOOP :: error where "ELOOP = ErrNew ''too many levels of symbolic links''"
definition ENOTDIR :: error where "ENOTDIR = ErrNew ''not a directory''"
definition EPERM :: error where "EPERM = ErrNew ''operation not permitted''"
definition EIO :: error where "EIO = ErrNew ''input/output error''"

definition interfere :: "machine \<Rightarrow> machine" where
  "interfere m = (case mc_rivals m of [] \<Rightarrow> m | f # fs \<Rightarrow> m\<lparr>mc_fs := f (mc_fs m), mc_rivals := fs\<rparr>)"

text \<open>
  A system call: the others act, then the call fails by schedule, or does its work. A failing call
  changes the file system by \<open>partial\<close>, which is nothing for every call but \<open>write\<close>.
\<close>

definition syscall_partial :: "(machine \<Rightarrow> fsys) \<Rightarrow> (machine \<Rightarrow> error + 'a \<times> fsys) \<Rightarrow> (machine, 'a) comp" where
  "syscall_partial partial act w = (let m = interfere (w_db w) in
     if w_faults w \<noteq> [] \<and> hd (w_faults w) then (Err EIO, w\<lparr>w_db := m\<lparr>mc_fs := partial m\<rparr>, w_faults := tl (w_faults w)\<rparr>)
     else (case act m of
       Inl e \<Rightarrow> (Err e, w\<lparr>w_db := m, w_faults := tl (w_faults w)\<rparr>)
     | Inr (x, fs) \<Rightarrow> (Ret x, w\<lparr>w_db := m\<lparr>mc_fs := fs\<rparr>, w_faults := tl (w_faults w)\<rparr>)))"

definition syscall :: "(machine \<Rightarrow> error + 'a \<times> fsys) \<Rightarrow> (machine, 'a) comp" where
  "syscall act = syscall_partial mc_fs act"

definition node_at :: "fsys \<Rightarrow> string \<Rightarrow> (nat \<times> node) option" where
  "node_at fs path = (case fs_names fs path of None \<Rightarrow> None
     | Some i \<Rightarrow> map_option (\<lambda>n. (i, n)) (fs_nodes fs i))"

text \<open>Following symbolic links, as \<open>stat\<close> does, up to the kernel's limit of forty.\<close>

fun follow :: "nat \<Rightarrow> fsys \<Rightarrow> string \<Rightarrow> error + nat \<times> node" where
  "follow fuel fs path = (case node_at fs path of
     None \<Rightarrow> Inl ErrNotExist
   | Some (i, n) \<Rightarrow> (case n_kind n of
       Symlink target \<Rightarrow> (case fuel of 0 \<Rightarrow> Inl ELOOP | Suc k \<Rightarrow> follow k fs target)
     | _ \<Rightarrow> Inr (i, n)))"

declare follow.simps [simp del]

definition os_Stat :: "string \<Rightarrow> (machine, node) comp" where
  "os_Stat path = syscall (\<lambda>m. case follow 40 (mc_fs m) path of Inl e \<Rightarrow> Inl e | Inr (i, n) \<Rightarrow> Inr (n, mc_fs m))"

definition os_Chmod :: "string \<Rightarrow> 9 word \<Rightarrow> (machine, unit) comp" where
  "os_Chmod path mode = syscall (\<lambda>m. case follow 40 (mc_fs m) path of
     Inl e \<Rightarrow> Inl e
   | Inr (i, n) \<Rightarrow> if n_uid n \<noteq> mc_uid m \<and> mc_uid m \<noteq> 0 then Inl EPERM
       else Inr ((), (mc_fs m)\<lparr>fs_nodes := (fs_nodes (mc_fs m))(i \<mapsto> n\<lparr>n_mode := mode\<rparr>)\<rparr>))"

definition new_node :: "string \<Rightarrow> node \<Rightarrow> fsys \<Rightarrow> nat \<times> fsys" where
  "new_node path n fs = (fs_next fs, fs\<lparr>fs_names := (fs_names fs)(path \<mapsto> fs_next fs),
     fs_nodes := (fs_nodes fs)(fs_next fs \<mapsto> n), fs_next := Suc (fs_next fs)\<rparr>)"

text \<open>
  \<open>filepath.Dir\<close> of a clean path, and \<open>os.MkdirAll\<close>: the missing directories from the top, each with
  the mode less the umask. The bound is the length of the path, which every parent shortens.
\<close>

definition filepath_Dir :: "string \<Rightarrow> string" where
  "filepath_Dir path = (let d = rev (drop 1 (dropWhile (\<lambda>c. c \<noteq> CHR ''/'') (rev path))) in
     if CHR ''/'' \<notin> set path then ''.'' else if d = [] then ''/'' else d)"

definition os_Mkdir :: "string \<Rightarrow> 9 word \<Rightarrow> (machine, unit) comp" where
  "os_Mkdir path mode = syscall (\<lambda>m. if fs_names (mc_fs m) path \<noteq> None then Inl ErrExist
     else Inr ((), snd (new_node path \<lparr>n_kind = Directory, n_mode = mode AND NOT (mc_umask m), n_uid = mc_uid m, n_data = []\<rparr> (mc_fs m))))"

definition os_Lstat :: "string \<Rightarrow> (machine, node) comp" where
  "os_Lstat path = syscall (\<lambda>m. case node_at (mc_fs m) path of None \<Rightarrow> Inl ErrNotExist | Some (i, n) \<Rightarrow> Inr (n, mc_fs m))"

definition make_last :: "string \<Rightarrow> 9 word \<Rightarrow> (machine, unit) comp" where
  "make_last path mode = bindM (tryM (os_Mkdir path mode)) (\<lambda>r. case r of
     Inr _ \<Rightarrow> returnM ()
   | Inl err \<Rightarrow> bindM (tryM (os_Lstat path)) (\<lambda>r. case r of
       Inr n \<Rightarrow> if n_kind n = Directory then returnM () else failM err
     | Inl _ \<Rightarrow> failM err))"

fun mkdir_all :: "nat \<Rightarrow> string \<Rightarrow> 9 word \<Rightarrow> (machine, unit) comp" where
  "mkdir_all fuel path mode = bindM (tryM (os_Stat path)) (\<lambda>r. case r of
     Inr n \<Rightarrow> if n_kind n = Directory then returnM () else failM ENOTDIR
   | Inl _ \<Rightarrow> (case fuel of
       0 \<Rightarrow> make_last path mode
     | Suc k \<Rightarrow> bindM (if filepath_Dir path \<in> {''/'', ''.''} then returnM () else mkdir_all k (filepath_Dir path) mode)
         (\<lambda>_. make_last path mode)))"

declare mkdir_all.simps [simp del]

definition os_MkdirAll :: "string \<Rightarrow> 9 word \<Rightarrow> (machine, unit) comp" where
  "os_MkdirAll path mode = mkdir_all (length path) path mode"

text \<open>\<open>O_CREATE | O_EXCL | O_NOFOLLOW\<close> and \<open>O_RDONLY | O_NOFOLLOW | O_NONBLOCK\<close>; a file is its inode.\<close>

definition open_create :: "string \<Rightarrow> 9 word \<Rightarrow> (machine, nat) comp" where
  "open_create path mode = syscall (\<lambda>m. if fs_names (mc_fs m) path \<noteq> None then Inl ErrExist
     else Inr (new_node path \<lparr>n_kind = Regular, n_mode = mode AND NOT (mc_umask m), n_uid = mc_uid m, n_data = []\<rparr> (mc_fs m)))"

definition open_read :: "string \<Rightarrow> (machine, nat) comp" where
  "open_read path = syscall (\<lambda>m. case node_at (mc_fs m) path of
     None \<Rightarrow> Inl ErrNotExist
   | Some (i, n) \<Rightarrow> (case n_kind n of Symlink _ \<Rightarrow> Inl ELOOP | _ \<Rightarrow> Inr (i, mc_fs m)))"

definition file_Stat :: "nat \<Rightarrow> (machine, node) comp" where
  "file_Stat f = syscall (\<lambda>m. case fs_nodes (mc_fs m) f of None \<Rightarrow> Inl EIO | Some n \<Rightarrow> Inr (n, mc_fs m))"

definition append_data :: "nat \<Rightarrow> string \<Rightarrow> fsys \<Rightarrow> fsys" where
  "append_data f b fs = (case fs_nodes fs f of None \<Rightarrow> fs
     | Some n \<Rightarrow> fs\<lparr>fs_nodes := (fs_nodes fs)(f \<mapsto> n\<lparr>n_data := n_data n @ b\<rparr>)\<rparr>)"

definition file_Write :: "nat \<Rightarrow> string \<Rightarrow> (machine, unit) comp" where
  "file_Write f b = syscall_partial (\<lambda>m. append_data f (take (mc_short m) b) (mc_fs m)) (\<lambda>m. Inr ((), append_data f b (mc_fs m)))"

definition file_Sync :: "nat \<Rightarrow> (machine, unit) comp" where
  "file_Sync f = syscall (\<lambda>m. Inr ((), mc_fs m))"

definition file_Close :: "nat \<Rightarrow> (machine, unit) comp" where
  "file_Close f = syscall (\<lambda>m. Inr ((), mc_fs m))"

definition read_limited :: "nat \<Rightarrow> nat \<Rightarrow> (machine, string) comp" where
  "read_limited f limit = syscall (\<lambda>m. case fs_nodes (mc_fs m) f of None \<Rightarrow> Inl EIO | Some n \<Rightarrow> Inr (take limit (n_data n), mc_fs m))"

definition os_Remove :: "string \<Rightarrow> (machine, unit) comp" where
  "os_Remove path = syscall (\<lambda>m. if fs_names (mc_fs m) path = None then Inl ErrNotExist
     else Inr ((), (mc_fs m)\<lparr>fs_names := (fs_names (mc_fs m))(path := None)\<rparr>))"

definition os_Getuid :: "(machine, int) comp" where
  "os_Getuid w = (Ret (mc_uid (w_db w)), w)"

section \<open>What others may do\<close>

text \<open>
  Another account cannot change the kind, the mode or the owner of a file of this account, nor
  write to it unless its mode lets others write.
\<close>

definition rival_ok :: "int \<Rightarrow> (fsys \<Rightarrow> fsys) \<Rightarrow> bool" where
  "rival_ok uid f \<longleftrightarrow> (\<forall>fs i n. fs_nodes fs i = Some n \<longrightarrow> n_uid n = uid \<longrightarrow>
     (\<exists>d. fs_nodes (f fs) i = Some (n\<lparr>n_data := d\<rparr>) \<and> (n_mode n AND 18 = 0 \<longrightarrow> d = n_data n)))"

definition rivals_ok :: "machine \<Rightarrow> bool" where
  "rivals_ok m \<longleftrightarrow> (\<forall>f \<in> set (mc_rivals m). rival_ok (mc_uid m) f)"

lemma syscall_cases:
  assumes "syscall act w = (r, w')"
  obtains (fault) "r = Err EIO" "w_db w' = interfere (w_db w)"
    | (error) e where "r = Err e" "act (interfere (w_db w)) = Inl e" "w_db w' = interfere (w_db w)"
    | (ok) x fs where "r = Ret x" "act (interfere (w_db w)) = Inr (x, fs)" "w_db w' = (interfere (w_db w))\<lparr>mc_fs := fs\<rparr>"
  using assms by (auto simp: syscall_def syscall_partial_def Let_def split: if_splits sum.splits)

lemma interfere_sel [simp]: "mc_uid (interfere m) = mc_uid m" "mc_umask (interfere m) = mc_umask m"
  by (simp_all add: interfere_def split: list.split)

lemma rivals_interfere: "rivals_ok m \<Longrightarrow> rivals_ok (interfere m)"
  by (auto simp: rivals_ok_def interfere_def split: list.splits)

text \<open>An invariant of the machine that the others keep and the work of a call keeps is kept by the call.\<close>

lemma keeps_syscall:
  assumes "\<And>m. I m \<Longrightarrow> I (interfere m)" "\<And>m x fs. I m \<Longrightarrow> act m = Inr (x, fs) \<Longrightarrow> I (m\<lparr>mc_fs := fs\<rparr>)"
  shows "keeps I (syscall act)"
  unfolding keeps_def
proof (intro allI impI)
  fix w r w'
  assume "syscall act w = (r, w')" "I (w_db w)"
  then show "I (w_db w')" using assms by (cases rule: syscall_cases) auto
qed

end
