(* ===== verification/Key_Store.thy ===== *)
theory Key_Store
  imports Wireguard_Keys Unix_Files
begin

text \<open>
  The key store (\<open>internal/wireguard/keystore.go\<close>, \<open>keystore_unix.go\<close>): the file of a device's private
  key, its protection and its life. Wiping the buffers that held a key has no effect the model can show.
\<close>

section \<open>Protection on Unix\<close>

definition keyFileMode :: "9 word" where "keyFileMode = 384"
definition stateDirMode :: "9 word" where "stateDirMode = 448"

definition ErrNoKey :: error where "ErrNoKey = ErrNew ''no device key on this machine''"
definition ErrKeyExists :: error where "ErrKeyExists = ErrNew ''a device key already exists''"
definition ErrInsecureKeyFile :: error where "ErrInsecureKeyFile = ErrNew ''device key file is not private''"

definition createStateDir :: "string \<Rightarrow> (machine, unit) comp" where
  "createStateDir dir = bindM (os_MkdirAll dir stateDirMode) (\<lambda>_. os_Chmod dir stateDirMode)"

definition createPrivateFile :: "string \<Rightarrow> (machine, nat) comp" where
  "createPrivateFile path = open_create path keyFileMode"

definition restrictKeyFile :: "string \<Rightarrow> (machine, unit) comp" where
  "restrictKeyFile path = mapErr (wrap (''restrict permissions on '' @ path)) (os_Chmod path keyFileMode)"

definition verifyStateDir :: "string \<Rightarrow> (machine, unit) comp" where
  "verifyStateDir dir = bindM (os_Stat dir) (\<lambda>info.
     if n_kind info \<noteq> Directory then failM (wrap (dir @ '' is not a directory'') ErrInsecureKeyFile)
     else if n_mode info AND 18 \<noteq> 0 then failM (wrap (dir @ '' lets other accounts replace the key file inside it'') ErrInsecureKeyFile)
     else bindM os_Getuid (\<lambda>uid. if n_uid info \<noteq> uid
       then failM (wrap (dir @ '' is owned by another account'') ErrInsecureKeyFile) else returnM ()))"

definition verifyOpenKeyFile :: "nat \<Rightarrow> string \<Rightarrow> (machine, unit) comp" where
  "verifyOpenKeyFile f path = bindM (mapErr (\<lambda>err. ErrWrap (''cannot inspect '' @ path) [ErrInsecureKeyFile, err]) (file_Stat f)) (\<lambda>info.
     if n_kind info \<noteq> Regular then failM (wrap (path @ '' is not a regular file'') ErrInsecureKeyFile)
     else if n_mode info AND 63 \<noteq> 0 then failM (wrap (path @ '' lets other accounts read it'') ErrInsecureKeyFile)
     else bindM os_Getuid (\<lambda>uid. if n_uid info \<noteq> uid
       then failM (wrap (path @ '' is owned by another account'') ErrInsecureKeyFile) else returnM ()))"

definition openKeyFile :: "string \<Rightarrow> (machine, nat) comp" where
  "openKeyFile path = bindM (verifyStateDir (filepath_Dir path)) (\<lambda>_.
     bindM (tryM (open_read path)) (\<lambda>r. case r of
       Inl err \<Rightarrow> failM (if errors_Is err ELOOP then wrap (path @ '' is a symbolic link'') ErrInsecureKeyFile else err)
     | Inr f \<Rightarrow> bindM (tryM (verifyOpenKeyFile f path)) (\<lambda>r. case r of
         Inl err \<Rightarrow> bindM (tryM (file_Close f)) (\<lambda>_. failM err)
       | Inr _ \<Rightarrow> returnM f)))"

section \<open>The store\<close>

definition KeyFileName :: string where "KeyFileName = ''device.key''"
definition maxKeyFileBytes :: nat where "maxKeyFileBytes = 128"

record KeyStore =
  ks_path :: string

definition NewKeyStore :: "string \<Rightarrow> KeyStore" where
  "NewKeyStore path = \<lparr>ks_path = path\<rparr>"

definition Path :: "KeyStore \<Rightarrow> string" where
  "Path s = ks_path s"

definition DefaultStateDir :: string where
  "DefaultStateDir = ''/var/lib/headnet''"

definition DefaultKeyPath :: string where
  "DefaultKeyPath = DefaultStateDir @ ''/'' @ KeyFileName"

text \<open>\<open>defer f.Close()\<close>: the file is closed whatever the outcome, and the outcome stays.\<close>

definition closing :: "nat \<Rightarrow> (machine, 'a) comp \<Rightarrow> (machine, 'a) comp" where
  "closing f m w = (case m w of (r, w1) \<Rightarrow> (r, snd (file_Close f w1)))"

definition Load :: "KeyStore \<Rightarrow> (machine, PrivateKey) comp" where
  "Load s = bindM (mapErr (\<lambda>err. if errors_Is err ErrNotExist then wrap (ks_path s @ '' does not exist'') ErrNoKey else err)
       (openKeyFile (ks_path s))) (\<lambda>f.
     closing f (bindM (mapErr (wrap (''read device key '' @ ks_path s)) (read_limited f (maxKeyFileBytes + 1))) (\<lambda>raw.
       if maxKeyFileBytes < length raw
       then failM (ErrNew (''device key '' @ ks_path s @ '' is unusable: it is larger than '' @ Itoa maxKeyFileBytes @ '' bytes, so it is not a key file''))
       else case ParsePrivateKey (TrimSpace raw) of
         Inl err \<Rightarrow> failM (wrap (''device key '' @ ks_path s @ '' is unusable'') err)
       | Inr key \<Rightarrow> returnM key)))"

definition abandon :: "string \<Rightarrow> error \<Rightarrow> (machine, 'a) comp" where
  "abandon path err = bindM (tryM (os_Remove path)) (\<lambda>_. failM err)"

definition save :: "KeyStore \<Rightarrow> PrivateKey \<Rightarrow> (machine, unit) comp" where
  "save s key = (if private_IsZero key then failM (ErrNew ''refusing to store an all-zero device key'')
     else let path = ks_path s; dir = filepath_Dir path; contents = privateKeyBase64 key @ [CHR 0x0A] in
     bindM (mapErr (wrap (''create '' @ dir)) (createStateDir dir)) (\<lambda>_.
     bindM (mapErr (\<lambda>err. if errors_Is err ErrExist then wrap path ErrKeyExists else wrap (''create device key '' @ path) err)
       (createPrivateFile path)) (\<lambda>f.
     bindM (tryM (file_Write f contents)) (\<lambda>r. case r of
       Inl err \<Rightarrow> bindM (tryM (file_Close f)) (\<lambda>_. abandon path (wrap (''write device key '' @ path) err))
     | Inr _ \<Rightarrow> bindM (tryM (file_Sync f)) (\<lambda>r. case r of
         Inl err \<Rightarrow> bindM (tryM (file_Close f)) (\<lambda>_. abandon path (wrap (''sync device key '' @ path) err))
       | Inr _ \<Rightarrow> bindM (tryM (file_Close f)) (\<lambda>r. case r of
           Inl err \<Rightarrow> abandon path (wrap (''close device key '' @ path) err)
         | Inr _ \<Rightarrow> bindM (tryM (restrictKeyFile path)) (\<lambda>r. case r of
             Inl err \<Rightarrow> abandon path err
           | Inr _ \<Rightarrow> bindM (tryM (openKeyFile path)) (\<lambda>r. case r of
               Inl err \<Rightarrow> abandon path (wrap (''device key '' @ path @ '' was written but could not be protected'') err)
             | Inr check \<Rightarrow> file_Close check))))))))"

definition Create :: "KeyStore \<Rightarrow> (machine, PrivateKey) comp" where
  "Create s = bindM GenerateKey (\<lambda>key. bindM (save s key) (\<lambda>_. returnM key))"

definition LoadOrCreate :: "KeyStore \<Rightarrow> (machine, PrivateKey \<times> bool) comp" where
  "LoadOrCreate s = bindM (tryM (Load s)) (\<lambda>r. case r of
     Inr key \<Rightarrow> returnM (key, False)
   | Inl err \<Rightarrow> if errors_Is err ErrNoKey then bindM (Create s) (\<lambda>created. returnM (created, True)) else failM err)"

text \<open>Runs that return, of the combinators the store is written with.\<close>

lemma tryM_run: "tryM m w = (Ret r, w') \<longleftrightarrow> (\<exists>a. r = Inr a \<and> m w = (Ret a, w')) \<or> (\<exists>e. r = Inl e \<and> m w = (Err e, w'))"
  by (cases r) (simp_all add: tryM_Ret)

lemma case_sum_run: "(case v of Inl e \<Rightarrow> F e | Inr x \<Rightarrow> G x) w = p \<longleftrightarrow> (\<exists>e. v = Inl e \<and> F e w = p) \<or> (\<exists>x. v = Inr x \<and> G x w = p)"
  by (cases v) auto

lemma closing_run: "closing f m w = (r, w') \<longleftrightarrow> (\<exists>w1. m w = (r, w1) \<and> w' = snd (file_Close f w1))"
  by (auto simp: closing_def split: prod.splits)

lemma failM_run: "failM e w = (r, w') \<longleftrightarrow> r = Err e \<and> w' = w"
  by (auto simp: failM_def)

lemmas run_simps = bindM_Ret tryM_run case_sum_run closing_run failM_run

section \<open>A file that others cannot reach\<close>

definition sealed :: "int \<Rightarrow> nat \<Rightarrow> node \<Rightarrow> machine \<Rightarrow> bool" where
  "sealed uid f n m \<longleftrightarrow> rivals_ok m \<and> mc_uid m = uid \<and> fs_nodes (mc_fs m) f = Some n \<and> n_uid n = uid \<and> n_mode n AND 63 = 0"

lemma mode_63_18: "x AND 63 = 0 \<Longrightarrow> x AND 18 = (0 :: 9 word)"
proof -
  assume "x AND 63 = 0"
  then have "(x AND 63) AND 18 = 0" by simp
  then show ?thesis by (simp add: and.assoc)
qed

lemma sealed_interfere: "sealed uid f n m \<Longrightarrow> sealed uid f n (interfere m)"
proof -
  assume s: "sealed uid f n m"
  have "fs_nodes (mc_fs (interfere m)) f = Some n"
  proof (cases "mc_rivals m")
    case (Cons g gs)
    then have "rival_ok uid g" using s by (auto simp: sealed_def rivals_ok_def)
    then have "fs_nodes (g (mc_fs m)) f = Some n"
      using s mode_63_18 [of "n_mode n"] unfolding rival_ok_def sealed_def by force
    with Cons show ?thesis by (simp add: interfere_def)
  qed (use s in \<open>simp add: interfere_def sealed_def\<close>)
  with s show ?thesis by (simp add: sealed_def rivals_interfere)
qed

lemma sealed_reads: "keeps (sealed uid f n) (file_Close g)" "keeps (sealed uid f n) (read_limited g k)"
proof -
  show "keeps (sealed uid f n) (file_Close g)"
    unfolding file_Close_def by (rule keeps_syscall) (auto simp: sealed_interfere)
  show "keeps (sealed uid f n) (read_limited g k)"
    unfolding read_limited_def by (rule keeps_syscall) (auto simp: sealed_interfere split: option.splits)
qed

lemma rivals_keeps:
  "keeps (\<lambda>m. rivals_ok m \<and> mc_uid m = u) (syscall act)"
  by (rule keeps_syscall) (auto simp: rivals_interfere, auto simp: rivals_ok_def)

lemma verifyOpenKeyFile_Ret:
  assumes "verifyOpenKeyFile f path w = (Ret u, w')" "rivals_ok (w_db w)"
  shows "\<exists>n. n_kind n = Regular \<and> sealed (mc_uid (w_db w)) f n (w_db w')"
proof -
  obtain n w1 where st: "file_Stat f w = (Ret n, w1)" "n_kind n = Regular" "n_mode n AND 63 = 0" "n_uid n = mc_uid (w_db w1)" "w' = w1"
    using assms(1) by (auto simp: verifyOpenKeyFile_def bindM_Ret os_Getuid_def split: if_splits)
  have "fs_nodes (mc_fs (w_db w1)) f = Some n" "mc_uid (w_db w1) = mc_uid (w_db w)" "rivals_ok (w_db w1)"
    using keepsD [OF rivals_keeps st(1) [unfolded file_Stat_def], of "mc_uid (w_db w)"] assms(2) st(1)[unfolded file_Stat_def]
    by (auto elim!: syscall_cases split: option.splits)
  with st show ?thesis by (auto simp: sealed_def)
qed

lemma keeps_Getuid [pres_intros]: "keeps I os_Getuid"
  by (rule keeps_frame) (auto simp: os_Getuid_def)

lemma rivals_verifyStateDir: "keeps (\<lambda>m. rivals_ok m \<and> mc_uid m = u) (verifyStateDir dir)"
  unfolding verifyStateDir_def os_Stat_def by (intro pres_intros rivals_keeps)

lemma openKeyFile_Ret:
  assumes "openKeyFile path w = (Ret f, w')" "rivals_ok (w_db w)"
  shows "\<exists>n. n_kind n = Regular \<and> sealed (mc_uid (w_db w)) f n (w_db w')"
proof -
  obtain u w1 w2 x where a: "verifyStateDir (filepath_Dir path) w = (Ret u, w1)" "open_read path w1 = (Ret f, w2)"
    "verifyOpenKeyFile f path w2 = (Ret x, w')"
    using assms(1) by (auto simp: openKeyFile_def run_simps)
  have 1: "rivals_ok (w_db w1) \<and> mc_uid (w_db w1) = mc_uid (w_db w)" using keepsD [OF rivals_verifyStateDir a(1)] assms(2) by simp
  then have "rivals_ok (w_db w2) \<and> mc_uid (w_db w2) = mc_uid (w_db w)"
    using keepsD [OF rivals_keeps a(2) [unfolded open_read_def]] by simp
  with verifyOpenKeyFile_Ret [OF a(3)] show ?thesis by simp
qed

lemma Load_Ret:
  assumes "Load s w = (Ret k, w')" "rivals_ok (w_db w)"
  shows "\<exists>f n. n_kind n = Regular \<and> sealed (mc_uid (w_db w)) f n (w_db w') \<and>
    length (n_data n) \<le> maxKeyFileBytes \<and> ParsePrivateKey (TrimSpace (n_data n)) = Inr k"
proof -
  obtain f w1 raw w2 where a: "openKeyFile (ks_path s) w = (Ret f, w1)" "read_limited f (maxKeyFileBytes + 1) w1 = (Ret raw, w2)"
    "length raw \<le> maxKeyFileBytes" "ParsePrivateKey (TrimSpace raw) = Inr k" "w' = snd (file_Close f w2)"
    using assms(1) by (auto simp: Load_def run_simps split: if_splits)
  obtain n where n: "n_kind n = Regular" "sealed (mc_uid (w_db w)) f n (w_db w1)" using openKeyFile_Ret [OF a(1) assms(2)] by blast
  have "raw = take (maxKeyFileBytes + 1) (n_data n)"
    using a(2)[unfolded read_limited_def] sealed_interfere [OF n(2)]
    by (cases rule: syscall_cases) (auto simp: sealed_def)
  then have "raw = n_data n" using a(3) by (cases "length (n_data n) \<le> maxKeyFileBytes + 1") auto
  moreover have "sealed (mc_uid (w_db w)) f n (w_db w2)" using keepsD [OF sealed_reads(2) a(2) n(2)] .
  then have "sealed (mc_uid (w_db w)) f n (w_db w')"
    using a(5) keepsD [OF sealed_reads(1), of f w2 "fst (file_Close f w2)" w'] by simp
  ultimately show ?thesis using n a by blast
qed

section \<open>A key that is already there\<close>

text \<open>
  \<open>stays path f d\<close>: the name is bound to this inode and the inode holds these bytes, and nothing the
  others will do changes that.
\<close>

definition bound :: "string \<Rightarrow> nat \<Rightarrow> string \<Rightarrow> fsys \<Rightarrow> bool" where
  "bound path f d fs \<longleftrightarrow> fs_names fs path = Some f \<and> f < fs_next fs \<and> (\<exists>n. fs_nodes fs f = Some n \<and> n_data n = d)"

definition stays :: "string \<Rightarrow> nat \<Rightarrow> string \<Rightarrow> machine \<Rightarrow> bool" where
  "stays path f d m \<longleftrightarrow> bound path f d (mc_fs m) \<and> (\<forall>g \<in> set (mc_rivals m). \<forall>fs. bound path f d fs \<longrightarrow> bound path f d (g fs))"

lemma stays_interfere: "stays path f d m \<Longrightarrow> stays path f d (interfere m)"
  by (auto simp: stays_def interfere_def split: list.splits)

lemma stays_fs: "stays path f d m \<Longrightarrow> bound path f d fs \<Longrightarrow> stays path f d (m\<lparr>mc_fs := fs\<rparr>)"
  by (simp add: stays_def)

lemma stays_syscall:
  assumes "\<And>m x fs. stays path f d m \<Longrightarrow> act m = Inr (x, fs) \<Longrightarrow> bound path f d fs"
  shows "keeps (stays path f d) (syscall act)"
  by (rule keeps_syscall) (auto simp: stays_interfere intro: stays_fs assms)

lemma follow_node: "follow k fs path = Inr (i, n) \<Longrightarrow> fs_nodes fs i = Some n"
  by (induction k fs path rule: follow.induct)
    (subst (asm) (2) follow.simps, auto simp: node_at_def split: option.splits kind.splits nat.splits)

lemma stays_calls:
  "keeps (stays path f d) (os_Stat p)" "keeps (stays path f d) (os_Lstat p)" "keeps (stays path f d) (os_Chmod p mode)"
  "keeps (stays path f d) (os_Mkdir p mode)" "keeps (stays path f d) (open_read p)" "keeps (stays path f d) (file_Stat g)"
  "keeps (stays path f d) (file_Close g)" "keeps (stays path f d) (file_Sync g)" "keeps (stays path f d) (read_limited g k)"
  "keeps (stays path f d) (open_create p mode)"
  unfolding os_Stat_def os_Lstat_def os_Chmod_def os_Mkdir_def open_read_def file_Stat_def file_Close_def file_Sync_def read_limited_def open_create_def
  by (rule stays_syscall; auto simp: stays_def bound_def new_node_def split: sum.splits option.splits kind.splits if_splits dest!: follow_node)+

lemma stays_mkdir_all: "keeps (stays path f d) (mkdir_all k p mode)"
proof (induction k arbitrary: p)
  case 0
  show ?case unfolding mkdir_all.simps [of 0] make_last_def nat.case by (intro pres_intros stays_calls)
next
  case (Suc k)
  show ?case unfolding mkdir_all.simps [of "Suc k"] make_last_def nat.case by (intro pres_intros stays_calls Suc)
qed

lemma stays_opens: "keeps (stays path f d) (createStateDir dir)" "keeps (stays path f d) (openKeyFile p)"
  unfolding createStateDir_def os_MkdirAll_def openKeyFile_def verifyStateDir_def verifyOpenKeyFile_def
  by (intro pres_intros stays_calls stays_mkdir_all)+

lemma keeps_closing: "keeps I m \<Longrightarrow> keeps I (file_Close f) \<Longrightarrow> keeps I (closing f m)"
  unfolding keeps_def closing_run by (metis prod.collapse)

lemma stays_Load: "keeps (stays path f d) (Load s)"
  unfolding Load_def by (intro pres_intros stays_opens stays_calls keeps_closing)

lemma keeps_bind_never:
  assumes "keeps I m" "\<And>w x w'. m w = (Ret x, w') \<Longrightarrow> \<not> I (w_db w)"
  shows "keeps I (bindM m k)" "\<And>w r w'. bindM m k w = (r, w') \<Longrightarrow> I (w_db w) \<Longrightarrow> \<forall>x. r \<noteq> Ret x"
proof -
  show "keeps I (bindM m k)"
    unfolding keeps_def
  proof (intro allI impI)
    fix w r w'
    assume run: "bindM m k w = (r, w')" and I: "I (w_db w)"
    obtain x v where mw: "m w = (x, v)" by fastforce
    then have "\<forall>y. x \<noteq> Ret y" using assms(2) I by blast
    then have "w' = v" using run mw by (cases x) (auto simp: bindM_def)
    then show "I (w_db w')" using keepsD [OF assms(1) mw I] by simp
  qed
  show "\<forall>x. r \<noteq> Ret x" if run: "bindM m k w = (r, w')" and I: "I (w_db w)" for w r w'
  proof (intro allI notI)
    fix x assume "r = Ret x"
    then obtain a v where "m w = (Ret a, v)" using run by (auto simp: bindM_Ret)
    then show False using assms(2) I by blast
  qed
qed

lemma create_bound: "createPrivateFile path w = (Ret g, w') \<Longrightarrow> \<not> stays path f d (w_db w)"
proof
  assume run: "createPrivateFile path w = (Ret g, w')" and I: "stays path f d (w_db w)"
  have "fs_names (mc_fs (interfere (w_db w))) path = Some f" using stays_interfere [OF I] by (simp add: stays_def bound_def)
  then show False
    using run unfolding createPrivateFile_def open_create_def by (auto elim!: syscall_cases)
qed

lemma save_bound:
  shows "keeps (stays (ks_path s) f d) (save s key)"
    "save s key w = (r, w') \<Longrightarrow> stays (ks_path s) f d (w_db w) \<Longrightarrow> \<forall>x. r \<noteq> Ret x"
proof -
  let ?I = "stays (ks_path s) f d"
  have created: "keeps ?I (mapErr g (createPrivateFile (ks_path s)))" for g
    unfolding createPrivateFile_def by (intro pres_intros stays_calls)
  have never: "\<not> ?I (w_db w)" if "mapErr g (createPrivateFile (ks_path s)) w = (Ret x, w')" for g w x w'
    using that create_bound by auto
  show "keeps ?I (save s key)"
    unfolding save_def Let_def by (intro pres_intros stays_opens keeps_bind_never(1) [OF created never])
  assume run: "save s key w = (r, w')" and I: "?I (w_db w)"
  show "\<forall>x. r \<noteq> Ret x"
  proof (intro allI notI)
    fix x assume "r = Ret x"
    then obtain u w1 g w2 where a: "createStateDir (filepath_Dir (ks_path s)) w = (Ret u, w1)" "createPrivateFile (ks_path s) w1 = (Ret g, w2)"
      using run by (auto simp: save_def Let_def bindM_Ret split: if_splits)
    then show False using keepsD [OF stays_opens(1) a(1) I] create_bound [OF a(2)] by simp
  qed
qed

lemma Create_bound:
  shows "keeps (stays (ks_path s) f d) (Create s)"
    "Create s w = (r, w') \<Longrightarrow> stays (ks_path s) f d (w_db w) \<Longrightarrow> \<forall>x. r \<noteq> Ret x"
proof -
  have gen: "keeps I GenerateKey" for I unfolding GenerateKey_def by (intro pres_intros)
  show "keeps (stays (ks_path s) f d) (Create s)" unfolding Create_def by (intro pres_intros gen save_bound)
  assume "Create s w = (r, w')" "stays (ks_path s) f d (w_db w)"
  then show "\<forall>x. r \<noteq> Ret x"
    using keepsD [OF gen, of w _ _ "stays (ks_path s) f d"] save_bound(2) by (fastforce simp: Create_def bindM_Ret)
qed

lemma LoadOrCreate_bound:
  shows "keeps (stays (ks_path s) f d) (LoadOrCreate s)"
    "LoadOrCreate s w = (Ret (k, made), w') \<Longrightarrow> stays (ks_path s) f d (w_db w) \<Longrightarrow> \<not> made"
proof -
  show "keeps (stays (ks_path s) f d) (LoadOrCreate s)"
    unfolding LoadOrCreate_def by (intro pres_intros stays_Load Create_bound(1))
  assume "LoadOrCreate s w = (Ret (k, made), w')" "stays (ks_path s) f d (w_db w)"
  then show "\<not> made"
    using keepsD [OF stays_Load, of s w _ _ "ks_path s" f d] Create_bound(2)
    by (fastforce simp: LoadOrCreate_def run_simps split: if_splits)
qed

end
