(* ===== verification/Key_Store_Runs.thy ===== *)
theory Key_Store_Runs
  imports Key_Store
begin

text \<open>
  Runs of the key store that nothing disturbs: how a new key comes to its place, and that it is then
  found there.
\<close>

section \<open>A quiet machine\<close>

definition quiet_world :: "machine world \<Rightarrow> bool" where
  "quiet_world w \<longleftrightarrow> w_faults w = [] \<and> mc_rivals (w_db w) = []"

definition with_fs :: "fsys \<Rightarrow> machine world \<Rightarrow> machine world" where
  "with_fs fs w = w\<lparr>w_db := (w_db w)\<lparr>mc_fs := fs\<rparr>\<rparr>"

lemma with_fs_sel [simp]: "quiet_world (with_fs fs w) = quiet_world w" "mc_fs (w_db (with_fs fs w)) = fs"
  "mc_uid (w_db (with_fs fs w)) = mc_uid (w_db w)" "mc_umask (w_db (with_fs fs w)) = mc_umask (w_db w)"
  "with_fs fs (with_fs fs' w) = with_fs fs w" "with_fs (mc_fs (w_db w)) w = w" "w_entropy (with_fs fs w) = w_entropy w"
  by (simp_all add: quiet_world_def with_fs_def)

lemma quiet_syscall:
  "quiet_world w \<Longrightarrow> syscall act w = (case act (w_db w) of Inl e \<Rightarrow> (Err e, w) | Inr (x, fs) \<Rightarrow> (Ret x, with_fs fs w))"
  by (auto simp: quiet_world_def syscall_def syscall_partial_def interfere_def with_fs_def split: sum.splits)

definition wf_fs :: "fsys \<Rightarrow> bool" where
  "wf_fs fs \<longleftrightarrow> (\<forall>q i. fs_names fs q = Some i \<longrightarrow> i < fs_next fs \<and> fs_nodes fs i \<noteq> None)"

text \<open>Directories that were missing on the way to a path of this length have been made.\<close>

definition grown :: "int \<Rightarrow> nat \<Rightarrow> fsys \<Rightarrow> fsys \<Rightarrow> bool" where
  "grown uid len fs fs' \<longleftrightarrow> wf_fs fs' \<and> (\<forall>q. fs_names fs q \<noteq> None \<or> len < length q \<longrightarrow> fs_names fs' q = fs_names fs q) \<and>
     (\<forall>i < fs_next fs. fs_nodes fs' i = fs_nodes fs i) \<and> fs_next fs \<le> fs_next fs' \<and>
     (\<forall>q i. fs_names fs q = None \<longrightarrow> fs_names fs' q = Some i \<longrightarrow> (\<exists>n. fs_nodes fs' i = Some n \<and> n_kind n = Directory \<and> n_uid n = uid))"

lemma filepath_Dir_shorter: "filepath_Dir p \<notin> {''/'', ''.''} \<Longrightarrow> length (filepath_Dir p) < length p"
proof -
  assume "filepath_Dir p \<notin> {''/'', ''.''}"
  then have c: "CHR ''/'' \<in> set p" and d: "filepath_Dir p = rev (drop 1 (dropWhile (\<lambda>c. c \<noteq> CHR ''/'') (rev p)))"
    by (auto simp: filepath_Dir_def Let_def split: if_splits)
  have "dropWhile (\<lambda>c. c \<noteq> CHR ''/'') (rev p) \<noteq> []" using c by (auto simp: dropWhile_eq_Nil_conv)
  then have "length (drop 1 (dropWhile (\<lambda>c. c \<noteq> CHR ''/'') (rev p))) < length (dropWhile (\<lambda>c. c \<noteq> CHR ''/'') (rev p))" by (cases "dropWhile (\<lambda>c. c \<noteq> CHR ''/'') (rev p)") auto
  also have "\<dots> \<le> length p" using length_dropWhile_le [of _ "rev p"] by simp
  finally show ?thesis by (simp add: d)
qed

text \<open>Every directory on the way that exists is one.\<close>

definition clear_way :: "fsys \<Rightarrow> string \<Rightarrow> bool" where
  "clear_way fs p \<longleftrightarrow> (\<forall>k i n. node_at fs ((filepath_Dir ^^ k) p) = Some (i, n) \<longrightarrow> n_kind n = Directory)"

lemma clear_way_Dir: "clear_way fs p \<Longrightarrow> clear_way fs (filepath_Dir p)"
  unfolding clear_way_def by (metis funpow_Suc_right o_apply)

lemma clear_way_follow:
  "clear_way fs p \<Longrightarrow> follow k fs p = (case node_at fs p of None \<Rightarrow> Inl ErrNotExist | Some x \<Rightarrow> Inr x)"
  unfolding clear_way_def by (subst follow.simps) (auto split: option.splits kind.splits dest: spec [of _ 0])

lemma grown_refl: "wf_fs fs \<Longrightarrow> grown uid len fs fs"
  by (auto simp: grown_def)

lemma grown_mkdir:
  assumes "grown uid len fs fs'" "fs_names fs' p = None" "length p \<le> len" "n_kind n = Directory" "n_uid n = uid"
  shows "grown uid len fs (snd (new_node p n fs'))"
proof -
  let ?fs = "snd (new_node p n fs')"
  have new: "fs_names ?fs = (fs_names fs')(p \<mapsto> fs_next fs')" "fs_nodes ?fs = (fs_nodes fs')(fs_next fs' \<mapsto> n)" "fs_next ?fs = Suc (fs_next fs')"
    by (simp_all add: new_node_def)
  have old: "fs_names fs p = None" using assms(1,2) by (metis grown_def)
  have wf: "wf_fs fs'" using assms(1) by (simp add: grown_def)
  show ?thesis
    unfolding grown_def new
  proof (intro conjI allI impI)
    show "wf_fs ?fs" using wf unfolding wf_fs_def new by (auto simp: less_Suc_eq)
    show "((fs_names fs')(p \<mapsto> fs_next fs')) q = fs_names fs q" if "fs_names fs q \<noteq> None \<or> len < length q" for q
      using that assms(1,3) old by (auto simp: grown_def)
    show "((fs_nodes fs')(fs_next fs' \<mapsto> n)) i = fs_nodes fs i" if "i < fs_next fs" for i
      using that assms(1) by (auto simp: grown_def)
    show "fs_next fs \<le> Suc (fs_next fs')" using assms(1) by (simp add: grown_def)
    show "\<exists>m. ((fs_nodes fs')(fs_next fs' \<mapsto> n)) i = Some m \<and> n_kind m = Directory \<and> n_uid m = uid"
      if "fs_names fs q = None" "((fs_names fs')(p \<mapsto> fs_next fs')) q = Some i" for q i
      using that assms(1,4,5) wf by (auto simp: grown_def wf_fs_def split: if_splits)
  qed
qed

lemma quiet_Stat: "quiet_world w \<Longrightarrow> os_Stat p w = (case follow 40 (mc_fs (w_db w)) p of Inl e \<Rightarrow> (Err e, w) | Inr (i, n) \<Rightarrow> (Ret n, w))"
  by (auto simp: os_Stat_def quiet_syscall split: sum.splits)

lemma quiet_make_last:
  assumes "quiet_world w" "fs_names (mc_fs (w_db w)) p = None"
  shows "make_last p mode w = (Ret (), with_fs (snd (new_node p \<lparr>n_kind = Directory, n_mode = mode AND NOT (mc_umask (w_db w)),
    n_uid = mc_uid (w_db w), n_data = []\<rparr> (mc_fs (w_db w)))) w)"
  using assms by (simp add: make_last_def os_Mkdir_def quiet_syscall bindM_def tryM_def returnM_def)

lemma wf_node_at: "wf_fs fs \<Longrightarrow> node_at fs p = None \<longleftrightarrow> fs_names fs p = None"
  by (auto simp: wf_fs_def node_at_def split: option.splits)

lemma quiet_mkdir_all:
  assumes "quiet_world w" "wf_fs (mc_fs (w_db w))" "clear_way (mc_fs (w_db w)) p"
  shows "\<exists>fs. mkdir_all k p mode w = (Ret (), with_fs fs w) \<and> grown (mc_uid (w_db w)) (length p) (mc_fs (w_db w)) fs \<and> fs_names fs p \<noteq> None"
  using assms
proof (induction k arbitrary: p)
  case 0
  let ?fs = "mc_fs (w_db w)"
  show ?case
  proof (cases "node_at ?fs p")
    case None
    then have "fs_names ?fs p = None" using wf_node_at 0 by blast
    then show ?thesis
      using 0 None quiet_make_last [OF 0(1), of p mode] grown_mkdir [OF grown_refl [OF 0(2), of "mc_uid (w_db w)" "length p"], of p]
      by (subst mkdir_all.simps) (auto simp: bindM_def tryM_def quiet_Stat clear_way_follow new_node_def)
  next
    case (Some x)
    moreover have "n_kind (snd x) = Directory" using Some 0(3) unfolding clear_way_def by (cases x) (auto dest: spec [of _ 0])
    ultimately show ?thesis
      using 0 grown_refl [OF 0(2)] by (subst mkdir_all.simps)
       (cases x, auto simp: bindM_def tryM_def quiet_Stat clear_way_follow returnM_def node_at_def intro!: exI [of _ ?fs] split: option.splits)
  qed
next
  case (Suc k)
  let ?fs = "mc_fs (w_db w)" and ?uid = "mc_uid (w_db w)"
  show ?case
  proof (cases "node_at ?fs p")
    case None
    then have fresh: "fs_names ?fs p = None" using wf_node_at Suc.prems(2) by blast
    obtain fs where parent: "(if filepath_Dir p \<in> {''/'', ''.''} then returnM () else mkdir_all k (filepath_Dir p) mode) w = (Ret (), with_fs fs w)"
        "grown ?uid (length p) ?fs fs" "fs_names fs p = None"
    proof (cases "filepath_Dir p \<in> {''/'', ''.''}")
      case True
      then show ?thesis using that [of ?fs] grown_refl [OF Suc.prems(2)] fresh by (simp add: returnM_def)
    next
      case False
      obtain fs where fs: "mkdir_all k (filepath_Dir p) mode w = (Ret (), with_fs fs w)" "grown ?uid (length (filepath_Dir p)) ?fs fs"
        using Suc.IH [of "filepath_Dir p"] Suc.prems clear_way_Dir by blast
      have "length (filepath_Dir p) < length p" using filepath_Dir_shorter [OF False] .
      then have "grown ?uid (length p) ?fs fs" "fs_names fs p = None" using fs(2) fresh by (auto simp: grown_def)
      then show ?thesis using that [of fs] fs(1) False by simp
    qed
    have "\<exists>n. make_last p mode (with_fs fs w) = (Ret (), with_fs (snd (new_node p n fs)) w) \<and> n_kind n = Directory \<and> n_uid n = ?uid"
      using quiet_make_last [of "with_fs fs w" p mode] Suc.prems(1) parent(3) by (intro exI) auto
    then obtain n where n: "make_last p mode (with_fs fs w) = (Ret (), with_fs (snd (new_node p n fs)) w)" "n_kind n = Directory" "n_uid n = ?uid" by blast
    have "mkdir_all (Suc k) p mode w = (Ret (), with_fs (snd (new_node p n fs)) w)"
      using Suc.prems None parent(1) n(1)
      by (subst mkdir_all.simps) (simp add: bindM_def tryM_def quiet_Stat clear_way_follow)
    moreover have "grown ?uid (length p) ?fs (snd (new_node p n fs))"
      using grown_mkdir [OF parent(2,3) _ n(2,3)] by simp
    moreover have "fs_names (snd (new_node p n fs)) p \<noteq> None" by (simp add: new_node_def)
    ultimately show ?thesis by blast
  next
    case (Some x)
    moreover have "n_kind (snd x) = Directory" using Some Suc.prems(3) unfolding clear_way_def by (cases x) (auto dest: spec [of _ 0])
    ultimately show ?thesis
      using Suc.prems grown_refl [OF Suc.prems(2)] by (subst mkdir_all.simps)
       (cases x, auto simp: bindM_def tryM_def quiet_Stat clear_way_follow returnM_def node_at_def intro!: exI [of _ ?fs] split: option.splits)
  qed
qed

section \<open>A key in its place\<close>

text \<open>
  The state directory and the key file are there, belong to this account and are closed to others,
  and the others keep to the rules and cannot rebind the two names.
\<close>

definition housed :: "string \<Rightarrow> nat \<Rightarrow> node \<Rightarrow> nat \<Rightarrow> node \<Rightarrow> machine \<Rightarrow> bool" where
  "housed path j dn f n m \<longleftrightarrow> sealed (mc_uid m) j dn m \<and> n_kind dn = Directory \<and> sealed (mc_uid m) f n m \<and> n_kind n = Regular \<and>
     fs_names (mc_fs m) (filepath_Dir path) = Some j \<and> fs_names (mc_fs m) path = Some f \<and>
     (\<forall>g \<in> set (mc_rivals m). \<forall>fs. fs_names (g fs) path = fs_names fs path \<and>
        fs_names (g fs) (filepath_Dir path) = fs_names fs (filepath_Dir path))"

lemma housed_interfere: "housed path j dn f n m \<Longrightarrow> housed path j dn f n (interfere m)"
proof -
  assume h: "housed path j dn f n m"
  have "sealed (mc_uid m) j dn (interfere m)" "sealed (mc_uid m) f n (interfere m)"
    using h sealed_interfere by (auto simp: housed_def)
  then show ?thesis using h by (auto simp: housed_def interfere_def split: list.splits)
qed

definition after_rival :: "machine world \<Rightarrow> machine world" where
  "after_rival w = w\<lparr>w_db := interfere (w_db w)\<rparr>"

lemma after_sel [simp]: "w_db (after_rival w) = interfere (w_db w)" "w_faults (after_rival w) = w_faults w"
  by (simp_all add: after_rival_def)

lemma calm_syscall:
  "w_faults w = [] \<Longrightarrow> act (interfere (w_db w)) = Inr (x, mc_fs (interfere (w_db w))) \<Longrightarrow> syscall act w = (Ret x, after_rival w)"
  by (simp add: syscall_def syscall_partial_def after_rival_def)

lemma follow_direct: "node_at fs p = Some (i, n) \<Longrightarrow> n_kind n = Directory \<or> n_kind n = Regular \<Longrightarrow> follow k fs p = Inr (i, n)"
  by (subst follow.simps) auto

lemma housed_nodes:
  assumes "housed path j dn f n m"
  shows "node_at (mc_fs m) (filepath_Dir path) = Some (j, dn)" "node_at (mc_fs m) path = Some (f, n)"
    "n_uid dn = mc_uid m" "n_uid n = mc_uid m" "n_mode dn AND 18 = 0" "n_mode n AND 63 = 0" "n_kind dn = Directory" "n_kind n = Regular"
  using assms mode_63_18 by (auto simp: housed_def sealed_def node_at_def)

lemma calm_openKeyFile:
  assumes "w_faults w = []" "housed path j dn f n (w_db w)"
  shows "openKeyFile path w = (Ret f, after_rival (after_rival (after_rival w)))"
proof -
  let ?w1 = "after_rival w" let ?w2 = "after_rival ?w1" let ?w3 = "after_rival ?w2"
  have h: "housed path j dn f n (w_db ?w1)" "housed path j dn f n (w_db ?w2)" "housed path j dn f n (w_db ?w3)"
    using assms housed_interfere by auto
  have "os_Stat (filepath_Dir path) w = (Ret dn, ?w1)"
    unfolding os_Stat_def using assms(1) housed_nodes [OF h(1)] by (intro calm_syscall) (auto simp: follow_direct)
  then have dir: "verifyStateDir (filepath_Dir path) w = (Ret (), ?w1)"
    using housed_nodes [OF h(1)] by (simp add: verifyStateDir_def bindM_def os_Getuid_def returnM_def)
  have opened: "open_read path ?w1 = (Ret f, ?w2)"
    unfolding open_read_def using assms(1) housed_nodes [OF h(2)] by (intro calm_syscall) auto
  have "file_Stat f ?w2 = (Ret n, ?w3)"
    unfolding file_Stat_def using assms(1) h(3) by (intro calm_syscall) (auto simp: housed_def sealed_def)
  then have "verifyOpenKeyFile f path ?w2 = (Ret (), ?w3)"
    using housed_nodes [OF h(3)] by (simp add: verifyOpenKeyFile_def bindM_def mapErr_def os_Getuid_def returnM_def)
  with dir opened show ?thesis by (simp add: openKeyFile_def bindM_def tryM_def returnM_def)
qed

lemma calm_Load:
  assumes "w_faults w = []" "housed (ks_path s) j dn f n (w_db w)" "length (n_data n) \<le> maxKeyFileBytes"
    "ParsePrivateKey (TrimSpace (n_data n)) = Inr k"
  shows "\<exists>w'. Load s w = (Ret k, w')"
proof -
  let ?w3 = "after_rival (after_rival (after_rival w))"
  have h: "housed (ks_path s) j dn f n (w_db (after_rival ?w3))" using assms(2) housed_interfere by auto
  have "read_limited f (maxKeyFileBytes + 1) ?w3 = (Ret (n_data n), after_rival ?w3)"
    unfolding read_limited_def using assms(1,3) h by (intro calm_syscall) (auto simp: housed_def sealed_def)
  then show ?thesis
    using calm_openKeyFile [OF assms(1,2)] assms(3,4) by (simp add: Load_def bindM_def mapErr_def closing_def returnM_def)
qed

section \<open>Storing a new key\<close>

lemma quiet_createStateDir:
  assumes "quiet_world w" "wf_fs (mc_fs (w_db w))" "clear_way (mc_fs (w_db w)) dir"
    "\<forall>i n. node_at (mc_fs (w_db w)) dir = Some (i, n) \<longrightarrow> n_uid n = mc_uid (w_db w)"
    "fs_names (mc_fs (w_db w)) path = None" "length dir < length path"
  shows "\<exists>fs j dn. createStateDir dir w = (Ret (), with_fs fs w) \<and> fs_names fs dir = Some j \<and> fs_nodes fs j = Some dn \<and>
    n_kind dn = Directory \<and> n_uid dn = mc_uid (w_db w) \<and> n_mode dn = stateDirMode \<and> fs_names fs path = None \<and> j < fs_next fs"
proof -
  let ?fs = "mc_fs (w_db w)" and ?uid = "mc_uid (w_db w)"
  obtain fs where made: "os_MkdirAll dir stateDirMode w = (Ret (), with_fs fs w)" "grown ?uid (length dir) ?fs fs" "fs_names fs dir \<noteq> None"
    using quiet_mkdir_all [OF assms(1-3)] unfolding os_MkdirAll_def by blast
  then obtain j where j: "fs_names fs dir = Some j" by blast
  have "\<exists>dn. fs_nodes fs j = Some dn \<and> n_kind dn = Directory \<and> n_uid dn = ?uid"
  proof (cases "fs_names ?fs dir")
    case None
    then show ?thesis using made(2) j by (auto simp: grown_def)
  next
    case (Some i)
    then have "i = j" "i < fs_next ?fs" "fs_nodes ?fs i \<noteq> None" using made(2) j assms(2) by (auto simp: grown_def wf_fs_def)
    then obtain dn where dn: "fs_nodes ?fs i = Some dn" "node_at ?fs dir = Some (i, dn)" using Some by (auto simp: node_at_def)
    then have "n_kind dn = Directory" using assms(3) unfolding clear_way_def by (auto dest: spec [of _ 0])
    then show ?thesis using dn made(2) assms(4) \<open>i = j\<close> \<open>i < fs_next ?fs\<close> by (auto simp: grown_def)
  qed
  then obtain dn where dn: "fs_nodes fs j = Some dn" "n_kind dn = Directory" "n_uid dn = ?uid" by blast
  have "follow 40 fs dir = Inr (j, dn)" using j dn by (intro follow_direct) (auto simp: node_at_def)
  then have "os_Chmod dir stateDirMode (with_fs fs w) = (Ret (), with_fs (fs\<lparr>fs_nodes := (fs_nodes fs)(j \<mapsto> dn\<lparr>n_mode := stateDirMode\<rparr>)\<rparr>) w)"
    using assms(1) dn by (simp add: os_Chmod_def quiet_syscall)
  moreover have "fs_names fs path = None" "j < fs_next fs" using made(2) assms(5,6) j by (auto simp: grown_def wf_fs_def)
  ultimately show ?thesis using made(1) j dn by (auto simp: createStateDir_def bindM_def intro!: exI [of _ j])
qed

lemma quiet_save:
  assumes "quiet_world w" "wf_fs (mc_fs (w_db w))" "clear_way (mc_fs (w_db w)) (filepath_Dir path)" "path = ks_path s"
    "\<forall>i n. node_at (mc_fs (w_db w)) (filepath_Dir path) = Some (i, n) \<longrightarrow> n_uid n = mc_uid (w_db w)"
    "fs_names (mc_fs (w_db w)) path = None" "filepath_Dir path \<notin> {''/'', ''.''}" "\<not> private_IsZero key"
  shows "\<exists>w' j dn f n. save s key w = (Ret (), w') \<and> quiet_world w' \<and> mc_uid (w_db w') = mc_uid (w_db w) \<and>
    housed path j dn f n (w_db w') \<and> n_data n = privateKeyBase64 key @ [CHR 0x0A]"
proof -
  let ?dir = "filepath_Dir path" and ?uid = "mc_uid (w_db w)"
  obtain fs j dn where dir: "createStateDir ?dir w = (Ret (), with_fs fs w)" "fs_names fs ?dir = Some j" "fs_nodes fs j = Some dn"
    "n_kind dn = Directory" "n_uid dn = ?uid" "n_mode dn = stateDirMode" "fs_names fs path = None" "j < fs_next fs"
    using quiet_createStateDir [OF assms(1,2,3,5,6) filepath_Dir_shorter [OF assms(7)]] by blast
  have pd: "?dir \<noteq> path" using filepath_Dir_shorter [OF assms(7)] by auto
  define f where "f = fs_next fs"
  define n0 where "n0 = \<lparr>n_kind = Regular, n_mode = keyFileMode AND NOT (mc_umask (w_db w)), n_uid = ?uid, n_data = []\<rparr>"
  define contents where "contents = privateKeyBase64 key @ [CHR 0x0A]"
  define n where "n = n0\<lparr>n_data := contents, n_mode := keyFileMode\<rparr>"
  define fs1 where "fs1 = snd (new_node path n0 fs)"
  define fs2 where "fs2 = append_data f contents fs1"
  define fs3 where "fs3 = fs2\<lparr>fs_nodes := (fs_nodes fs2)(f \<mapsto> n)\<rparr>"
  have created: "createPrivateFile path (with_fs fs w) = (Ret f, with_fs fs1 w)"
    using assms(1) dir(7) by (simp add: createPrivateFile_def open_create_def quiet_syscall n0_def fs1_def f_def new_node_def)
  have written: "file_Write f contents (with_fs fs1 w) = (Ret (), with_fs fs2 w)"
    using assms(1) by (simp add: file_Write_def syscall_partial_def interfere_def quiet_world_def with_fs_def fs2_def)
  have quiet: "file_Sync g (with_fs x w) = (Ret (), with_fs x w)" "file_Close g (with_fs x w) = (Ret (), with_fs x w)" for g x
    using assms(1) by (simp_all add: file_Sync_def file_Close_def quiet_syscall)
  have at2: "node_at fs2 path = Some (f, n0\<lparr>n_data := contents\<rparr>)"
    by (simp add: fs2_def fs1_def append_data_def new_node_def f_def node_at_def n0_def)
  have restricted: "restrictKeyFile path (with_fs fs2 w) = (Ret (), with_fs fs3 w)"
    using assms(1) follow_direct [OF at2] by (simp add: restrictKeyFile_def mapErr_def os_Chmod_def quiet_syscall n0_def n_def fs3_def)
  have modes: "stateDirMode AND 63 = 0" "keyFileMode AND 63 = 0" by (simp_all add: stateDirMode_def keyFileMode_def)
  have h: "housed path j dn f n (w_db (with_fs fs3 w))"
    using dir modes pd assms(1)
    by (auto simp: housed_def sealed_def rivals_ok_def quiet_world_def with_fs_def fs3_def fs2_def fs1_def append_data_def new_node_def f_def n_def n0_def)
  have q: "w_faults (with_fs fs3 w) = []" using assms(1) by (simp add: quiet_world_def with_fs_def)
  have idle: "after_rival (with_fs x w) = with_fs x w" for x
    using assms(1) by (simp add: after_rival_def interfere_def quiet_world_def with_fs_def)
  have "openKeyFile path (with_fs fs3 w) = (Ret f, with_fs fs3 w)" using calm_openKeyFile [OF q h] idle by simp
  then have "save s key w = (Ret (), with_fs fs3 w)"
    using assms(4,8) dir(1) created written quiet restricted
    by (simp add: save_def Let_def bindM_def mapErr_def tryM_def contents_def [symmetric])
  moreover have "n_data n = privateKeyBase64 key @ [CHR 0x0A]" by (simp add: n_def contents_def)
  ultimately show ?thesis using h assms(1) with_fs_sel(1,3) by metis
qed

end
