(* ===== verification/Key_Theorems.thy ===== *)
theory Key_Theorems
  imports Key_Store_Runs
begin

text \<open>The properties of WireGuard keys and of the store that keeps them.\<close>

section \<open>Properties\<close>

definition sample_machine :: machine where
  "sample_machine = \<lparr>mc_fs = \<lparr>fs_names = (\<lambda>_. None), fs_nodes = (\<lambda>_. None), fs_next = 0\<rparr>, mc_rivals = [], mc_uid = 1000, mc_umask = 18, mc_short = 0\<rparr>"

lemma length_EncodeToString_std: "enc_padded e \<Longrightarrow> length (EncodeToString e bs) = 4 * ((length bs + 2) div 3)"
proof (induction e bs rule: EncodeToString.induct)
  case (4 e a b c rest)
  have "(length rest + 2 + 3) div 3 = (length rest + 2) div 3 + 1" by (rule div_add_self2) simp
  then have "(5 + length rest) div 3 = Suc (Suc (Suc (length rest)) div 3)" by (simp add: add.commute)
  with 4 show ?case by (simp add: Let_def)
qed (simp_all add: Let_def padding_def)

definition wipe_tmp :: "fsys \<Rightarrow> fsys" where
  "wipe_tmp fs = fs\<lparr>fs_names := (fs_names fs)(''/tmp/x'' := None)\<rparr>"

lemma wipe_tmp_ok: "rival_ok uid wipe_tmp"
  unfolding rival_ok_def wipe_tmp_def by (auto intro!: exI [of _ "n_data n" for n])

lemma default_dir: "filepath_Dir ''/var/lib/headnet/device.key'' = ''/var/lib/headnet''" "ks_path (NewKeyStore DefaultKeyPath) = ''/var/lib/headnet/device.key''"
  by (simp_all add: NewKeyStore_def DefaultKeyPath_def DefaultStateDir_def KeyFileName_def filepath_Dir_def)

text \<open>A machine with a key in place, on which another account is active.\<close>

definition sample_private :: PrivateKey where
  "sample_private = newPrivateKey (clamp (replicate 32 255))"

definition keyed_machine :: machine where
  "keyed_machine = \<lparr>mc_fs = \<lparr>fs_names = [''/var/lib/headnet'' \<mapsto> 0, ''/var/lib/headnet/device.key'' \<mapsto> 1],
     fs_nodes = [0 \<mapsto> \<lparr>n_kind = Directory, n_mode = 448, n_uid = 1000, n_data = []\<rparr>,
       1 \<mapsto> \<lparr>n_kind = Regular, n_mode = 384, n_uid = 1000, n_data = privateKeyBase64 sample_private @ [CHR 0x0A]\<rparr>], fs_next = 2\<rparr>,
     mc_rivals = [wipe_tmp], mc_uid = 1000, mc_umask = 18, mc_short = 0\<rparr>"

lemma stored_text:
  assumes "length raw = KeyLength" "clamped (newPrivateKey raw)"
  shows "ParsePrivateKey (TrimSpace (privateKeyBase64 (newPrivateKey raw) @ [CHR 0x0A])) = Inr (newPrivateKey raw)"
    "length (privateKeyBase64 (newPrivateKey raw) @ [CHR 0x0A]) \<le> maxKeyFileBytes"
proof -
  have line: "TrimSpace (privateKeyBase64 (newPrivateKey raw) @ [CHR 0x0A]) = privateKeyBase64 (newPrivateKey raw)"
    using TrimSpace_printable [OF printable_Encode, of "[CHR 0x0A]" raw]
    by (simp add: privateKeyBase64_def key_bytes_def newPrivateKey_def)
  show "ParsePrivateKey (TrimSpace (privateKeyBase64 (newPrivateKey raw) @ [CHR 0x0A])) = Inr (newPrivateKey raw)"
    using ParsePrivateKey_base64 [of raw "[]"] assms line by simp
  show "length (privateKeyBase64 (newPrivateKey raw) @ [CHR 0x0A]) \<le> maxKeyFileBytes"
    using length_EncodeToString_std [of StdEncoding raw] assms(1)
    by (simp add: privateKeyBase64_def key_bytes_def newPrivateKey_def maxKeyFileBytes_def KeyLength_def StdEncoding_def)
qed

lemma keyed_load: "\<exists>v'. Load (NewKeyStore DefaultKeyPath) \<lparr>w_db = keyed_machine, w_faults = [], w_entropy = []\<rparr> = (Ret sample_private, v')"
proof (rule calm_Load [of _ _ 0 "\<lparr>n_kind = Directory, n_mode = 448, n_uid = 1000, n_data = []\<rparr>" 1
      "\<lparr>n_kind = Regular, n_mode = 384, n_uid = 1000, n_data = privateKeyBase64 sample_private @ [CHR 0x0A]\<rparr>"])
  show "housed (ks_path (NewKeyStore DefaultKeyPath)) 0 \<lparr>n_kind = Directory, n_mode = 448, n_uid = 1000, n_data = []\<rparr> 1
      \<lparr>n_kind = Regular, n_mode = 384, n_uid = 1000, n_data = privateKeyBase64 sample_private @ [CHR 0x0A]\<rparr>
      (w_db \<lparr>w_db = keyed_machine, w_faults = [], w_entropy = []\<rparr>)"
    unfolding housed_def default_dir by (simp add: keyed_machine_def sealed_def rivals_ok_def wipe_tmp_ok) (simp add: wipe_tmp_def)
qed (use stored_text [of "clamp (replicate 32 255)"] clamped_clamp [of "replicate 32 255"] in \<open>simp_all add: sample_private_def KeyLength_def\<close>)

text \<open>
  C12: Whatever other accounts do to names and to files of their own between the steps of \<open>Load\<close>, and
  whatever calls fail, a key that \<open>Load\<close> returns is the whole content of one regular file that this
  account owns and that no other account can read or write; and it is a clamped, non-zero scalar.
\<close>

theorem load_only_private_file:
  assumes "Load s w = (Ret k, w')" "rivals_ok (w_db w)"
  shows "\<exists>f n. fs_nodes (mc_fs (w_db w')) f = Some n \<and> n_kind n = Regular \<and> n_uid n = mc_uid (w_db w) \<and> n_mode n AND 63 = 0 \<and>
    ParsePrivateKey (TrimSpace (n_data n)) = Inr k \<and> clamped k \<and> \<not> private_IsZero k"
  using Load_Ret [OF assms] by (fastforce simp: sealed_def dest: ParsePrivateKey_Inr)

theorem load_only_private_file_witness:
  "\<exists>v' f n. Load (NewKeyStore DefaultKeyPath) \<lparr>w_db = keyed_machine, w_faults = [], w_entropy = []\<rparr> = (Ret sample_private, v') \<and>
     fs_nodes (mc_fs (w_db v')) f = Some n \<and> n_uid n = 1000 \<and> n_mode n AND 63 = 0"
proof -
  obtain v' where l: "Load (NewKeyStore DefaultKeyPath) \<lparr>w_db = keyed_machine, w_faults = [], w_entropy = []\<rparr> = (Ret sample_private, v')"
    using keyed_load by blast
  have "rivals_ok keyed_machine" by (simp add: keyed_machine_def rivals_ok_def wipe_tmp_ok)
  then show ?thesis using load_only_private_file [OF l] l by (fastforce simp: keyed_machine_def)
qed

text \<open>
  C14: A key file that exists is never overwritten. Whatever fails and whatever others do short of
  changing the file themselves, \<open>Create\<close> fails and \<open>LoadOrCreate\<close> never reports a new key, and after
  either the name is still bound to the same file with the same content, be it usable or not.
\<close>

theorem existing_key_survives:
  assumes "stays (ks_path s) f d (w_db w)"
  shows "(\<forall>r w'. Create s w = (r, w') \<longrightarrow> (\<forall>k. r \<noteq> Ret k) \<and> bound (ks_path s) f d (mc_fs (w_db w'))) \<and>
    (\<forall>r w'. LoadOrCreate s w = (r, w') \<longrightarrow> (\<forall>k. r \<noteq> Ret (k, True)) \<and> bound (ks_path s) f d (mc_fs (w_db w')))"
proof -
  have "bound (ks_path s) f d (mc_fs (w_db w'))" if "Create s w = (r, w') \<or> LoadOrCreate s w = (x, w')" for r x w'
    using that keepsD [OF Create_bound(1)] keepsD [OF LoadOrCreate_bound(1)] assms by (metis stays_def)
  then show ?thesis using Create_bound(2) LoadOrCreate_bound(2) assms by blast
qed

theorem existing_key_survives_witness:
  "\<exists>r w'. Create (NewKeyStore DefaultKeyPath) \<lparr>w_db = keyed_machine, w_faults = [False, True], w_entropy = replicate 32 1\<rparr> = (r, w') \<and> (\<forall>k. r \<noteq> Ret k) \<and>
     bound ''/var/lib/headnet/device.key'' 1 (privateKeyBase64 sample_private @ [CHR 0x0A]) (mc_fs (w_db w'))"
proof -
  let ?w = "\<lparr>w_db = keyed_machine, w_faults = [False, True], w_entropy = replicate 32 1\<rparr>"
  obtain r w' where run: "Create (NewKeyStore DefaultKeyPath) ?w = (r, w')" by fastforce
  have "stays ''/var/lib/headnet/device.key'' 1 (privateKeyBase64 sample_private @ [CHR 0x0A]) keyed_machine"
    by (simp add: stays_def bound_def keyed_machine_def) (simp add: wipe_tmp_def)
  then show ?thesis
    using existing_key_survives [of "NewKeyStore DefaultKeyPath" 1 "privateKeyBase64 sample_private @ [CHR 0x0A]" ?w] run
    unfolding default_dir by auto
qed

text \<open>
  C22: On a machine without a key where nothing fails, \<open>Create\<close> makes the missing directories and stores
  a new clamped key, and every later \<open>Load\<close> returns that key, whatever other accounts do meanwhile, as
  long as they cannot rebind the names of the state directory and of the file.
\<close>

theorem created_key_loads:
  assumes "quiet_world w" "wf_fs (mc_fs (w_db w))" "clear_way (mc_fs (w_db w)) (filepath_Dir (ks_path s))"
    "\<forall>i n. node_at (mc_fs (w_db w)) (filepath_Dir (ks_path s)) = Some (i, n) \<longrightarrow> n_uid n = mc_uid (w_db w)"
    "fs_names (mc_fs (w_db w)) (ks_path s) = None" "filepath_Dir (ks_path s) \<notin> {''/'', ''.''}" "KeyLength \<le> length (w_entropy w)"
  shows "\<exists>k w'. Create s w = (Ret k, w') \<and> clamped k \<and>
    (\<forall>v. w_faults v = [] \<and> mc_fs (w_db v) = mc_fs (w_db w') \<and> mc_uid (w_db v) = mc_uid (w_db w) \<and> rivals_ok (w_db v) \<and>
      (\<forall>g \<in> set (mc_rivals (w_db v)). \<forall>fs. fs_names (g fs) (ks_path s) = fs_names fs (ks_path s) \<and>
        fs_names (g fs) (filepath_Dir (ks_path s)) = fs_names fs (filepath_Dir (ks_path s))) \<longrightarrow>
      (\<exists>v'. Load s v = (Ret k, v')))"
proof -
  obtain k w1 where gen: "GenerateKey w = (Ret k, w1)" "w1 = w\<lparr>w_entropy := drop KeyLength (w_entropy w)\<rparr>"
    using assms(7) by (simp add: GenerateKey_def bindM_def mapErr_def rand_Read_def returnM_def)
  then obtain raw where raw: "k = newPrivateKey raw" "length raw = KeyLength" and ok: "clamped k" "\<not> private_IsZero k"
    using GenerateKey_Ret [OF gen(1)] by blast
  have same: "w_db w1 = w_db w" "quiet_world w1" using gen(2) assms(1) by (simp_all add: quiet_world_def)
  obtain w' j dn f n where saved: "save s k w1 = (Ret (), w')" "mc_uid (w_db w') = mc_uid (w_db w)" "housed (ks_path s) j dn f n (w_db w')" "n_data n = privateKeyBase64 k @ [CHR 0x0A]"
    using quiet_save [OF same(2) _ _ refl _ _ assms(6) ok(2)] assms(2-5) same(1) by fastforce
  have line: "length (n_data n) \<le> maxKeyFileBytes" and parsed: "ParsePrivateKey (TrimSpace (n_data n)) = Inr k"
    using stored_text [OF raw(2)] raw(1) ok(1) saved(4) by simp_all
  have "\<exists>v'. Load s v = (Ret k, v')"
    if v: "w_faults v = []" "mc_fs (w_db v) = mc_fs (w_db w')" "mc_uid (w_db v) = mc_uid (w_db w)" "rivals_ok (w_db v)"
      "\<forall>g \<in> set (mc_rivals (w_db v)). \<forall>fs. fs_names (g fs) (ks_path s) = fs_names fs (ks_path s) \<and>
        fs_names (g fs) (filepath_Dir (ks_path s)) = fs_names fs (filepath_Dir (ks_path s))" for v
  proof -
    have "housed (ks_path s) j dn f n (w_db v)" using saved(2,3) v by (simp add: housed_def sealed_def)
    then show ?thesis using calm_Load [OF v(1) _ line parsed] by blast
  qed
  moreover have "Create s w = (Ret k, w')" using gen(1) saved(1) by (simp add: Create_def bindM_def returnM_def)
  ultimately show ?thesis using ok(1) by blast
qed

theorem created_key_loads_witness:
  "\<exists>k w' v'. Create (NewKeyStore DefaultKeyPath) \<lparr>w_db = sample_machine, w_faults = [], w_entropy = replicate 32 255\<rparr> = (Ret k, w') \<and> clamped k \<and>
     Load (NewKeyStore DefaultKeyPath) \<lparr>w_db = sample_machine\<lparr>mc_fs := mc_fs (w_db w'), mc_rivals := [wipe_tmp]\<rparr>, w_faults = [], w_entropy = []\<rparr> = (Ret k, v')"
proof -
  let ?s = "NewKeyStore DefaultKeyPath" and ?w = "\<lparr>w_db = sample_machine, w_faults = [], w_entropy = replicate 32 255\<rparr>"
  have "wf_fs (mc_fs (w_db ?w))" "clear_way (mc_fs (w_db ?w)) (filepath_Dir (ks_path ?s))" "quiet_world ?w"
    by (simp_all add: wf_fs_def clear_way_def node_at_def sample_machine_def quiet_world_def)
  from created_key_loads [OF this(3,1,2)]
  obtain k w' where k: "Create ?s ?w = (Ret k, w')" "clamped k" and load: "\<And>v. w_faults v = [] \<and> mc_fs (w_db v) = mc_fs (w_db w') \<and>
      mc_uid (w_db v) = mc_uid sample_machine \<and> rivals_ok (w_db v) \<and>
      (\<forall>g \<in> set (mc_rivals (w_db v)). \<forall>fs. fs_names (g fs) (ks_path ?s) = fs_names fs (ks_path ?s) \<and>
        fs_names (g fs) (filepath_Dir (ks_path ?s)) = fs_names fs (filepath_Dir (ks_path ?s))) \<Longrightarrow> \<exists>v'. Load ?s v = (Ret k, v')"
    unfolding default_dir by (auto simp: node_at_def sample_machine_def KeyLength_def)
  show ?thesis
    using k load [of "\<lparr>w_db = sample_machine\<lparr>mc_fs := mc_fs (w_db w'), mc_rivals := [wipe_tmp]\<rparr>, w_faults = [], w_entropy = []\<rparr>"]
    unfolding default_dir by (auto simp: rivals_ok_def wipe_tmp_ok wipe_tmp_def)
qed

text \<open>
  Keys survive their text form. The base64 of any clamped scalar parses back to the same private
  key, whatever line breaks follow it in the file; a public key parses back from the text it prints,
  and the control plane's own check accepts that text unless the key is all zeroes. A private key with
  any of the three clamped bits wrong is refused.
\<close>

theorem key_texts_round_trip:
  assumes "length raw = KeyLength" "set t \<subseteq> {CHR 0x0A, CHR 0x0D, CHR '' ''}"
  shows "ParsePrivateKey (privateKeyBase64 (newPrivateKey (clamp raw)) @ t) = Inr (newPrivateKey (clamp raw)) \<and>
    ((\<exists>k. ParsePrivateKey (privateKeyBase64 (newPrivateKey raw) @ t) = Inr k) \<longleftrightarrow> clamp raw = raw) \<and>
    ParsePublicKey (public_String raw) = Inr raw \<and> (ValidatePublicKey (public_String raw) = None \<longleftrightarrow> \<not> public_IsZero raw)"
proof -
  have "parseKeyBytes (privateKeyBase64 (newPrivateKey raw) @ t) = Inr raw"
    using parseKeyBytes_Encode [OF assms] by (simp add: privateKeyBase64_def key_bytes_def newPrivateKey_def)
  then have "(\<exists>k. ParsePrivateKey (privateKeyBase64 (newPrivateKey raw) @ t) = Inr k) \<longleftrightarrow> clamped (newPrivateKey raw)"
    by (auto simp: ParsePrivateKey_def Let_def dest: clamped_not_zero)
  then have "(\<exists>k. ParsePrivateKey (privateKeyBase64 (newPrivateKey raw) @ t) = Inr k) \<longleftrightarrow> clamp raw = raw"
    using clamp_id [of raw] clamped_clamp [OF assms(1)] assms(1) by metis
  then show ?thesis using assms ParsePrivateKey_base64 clamped_clamp ParsePublicKey_String ValidatePublicKey_String by simp
qed

theorem key_texts_round_trip_witness:
  "ParsePrivateKey (privateKeyBase64 (newPrivateKey (clamp (replicate 32 255))) @ [CHR 0x0A]) = Inr (newPrivateKey (clamp (replicate 32 255))) \<and>
   (\<nexists>k. ParsePrivateKey (privateKeyBase64 (newPrivateKey (replicate 32 255)) @ [CHR 0x0A]) = Inr k) \<and>
   ParsePublicKey (public_String (replicate 32 255)) = Inr (replicate 32 255)"
proof -
  have "replicate 32 (255 :: byte) ! 0 \<noteq> clamp (replicate 32 255) ! 0"
    using clamp_nth(1) [of "replicate 32 (255 :: byte)"] by (simp add: KeyLength_def)
  then have "clamp (replicate 32 255) \<noteq> replicate 32 (255 :: byte)" by metis
  then show ?thesis using key_texts_round_trip [of "replicate 32 255" "[CHR 0x0A]"] by (simp add: KeyLength_def)
qed

end
