(* ===== verification/Go_Durations.thy ===== *)
theory Go_Durations
  imports Go_Float Netip
begin

text \<open>
  Durations as text: \<open>time.ParseDuration\<close> and \<open>Duration.String\<close>, as the configuration reads and shows
  them. Reading works on unsigned 64-bit values and, for a fraction, in floating point; whatever
  \<open>Duration.String\<close> prints reads back as the same duration.
\<close>

section \<open>Reading\<close>

definition unitMap :: "string \<Rightarrow> nat option" where
  "unitMap u = map_of [(''ns'', 1), (''us'', 1000), ([CHR 0xC2, CHR 0xB5, CHR ''s''], 1000), ([CHR 0xCE, CHR 0xBC, CHR ''s''], 1000),
     (''ms'', 1000000), (''s'', 1000000000), (''m'', 60000000000), (''h'', 3600000000000)] u"

fun leadingInt :: "nat \<Rightarrow> string \<Rightarrow> (nat \<times> string) option" where
  "leadingInt x [] = Some (x, [])"
| "leadingInt x (c # s) = (case dec_digit c of
     None \<Rightarrow> Some (x, c # s)
   | Some d \<Rightarrow> if x > 2 ^ 63 div 10 then None
       else if x * 10 + d > 2 ^ 63 then None else leadingInt (x * 10 + d) s)"

fun leadingFraction :: "nat \<Rightarrow> rat \<Rightarrow> bool \<Rightarrow> string \<Rightarrow> nat \<times> rat \<times> string" where
  "leadingFraction x scale overflow [] = (x, scale, [])"
| "leadingFraction x scale overflow (c # s) = (case dec_digit c of
     None \<Rightarrow> (x, scale, c # s)
   | Some d \<Rightarrow> if overflow then leadingFraction x scale True s
       else if x > (2 ^ 63 - 1) div 10 then leadingFraction x scale True s
       else if x * 10 + d > 2 ^ 63 then leadingFraction x scale True s
       else leadingFraction (x * 10 + d) (round64 (scale * 10)) False s)"

text \<open>One number with its unit: its value in nanoseconds and what follows it.\<close>

definition starts_number :: "char \<Rightarrow> bool" where
  "starts_number c \<longleftrightarrow> c = CHR ''.'' \<or> dec_digit c \<noteq> None"

definition fraction_part :: "string \<Rightarrow> nat \<times> rat \<times> string \<times> bool" where
  "fraction_part s = (if s \<noteq> [] \<and> hd s = CHR ''.''
     then case leadingFraction 0 1 False (tl s) of (f, scale, s') \<Rightarrow> (f, scale, s', length s' \<noteq> length (tl s))
     else (0, 1, s, False))"

definition duration_value :: "nat \<Rightarrow> nat \<Rightarrow> rat \<Rightarrow> nat \<Rightarrow> nat option" where
  "duration_value v f scale unit = (if v > 2 ^ 63 div unit then None
     else let v1 = v * unit in
       if f > 0 then let v2 = v1 + nat (trunc_int (round64 (round64 (of_nat f) * round64 (of_nat unit / scale)))) in
         if v2 > 2 ^ 63 then None else Some v2
       else Some v1)"

definition duration_item :: "string \<Rightarrow> (nat \<times> string) option" where
  "duration_item s = (if s = [] \<or> \<not> starts_number (hd s) then None
     else case leadingInt 0 s of None \<Rightarrow> None | Some (v, s1) \<Rightarrow>
       (case fraction_part s1 of (f, scale, s2, post) \<Rightarrow>
         let pre = (length s1 \<noteq> length s); u = takeWhile (\<lambda>c. \<not> starts_number c) s2 in
         if \<not> pre \<and> \<not> post then None
         else if u = [] then None
         else case unitMap u of None \<Rightarrow> None | Some unit \<Rightarrow>
           (case duration_value v f scale unit of None \<Rightarrow> None | Some n \<Rightarrow> Some (n, drop (length u) s2))))"

lemma leadingInt_shrinks: "leadingInt x s = Some (v, t) \<Longrightarrow> length t \<le> length s"
proof (induction s arbitrary: x)
  case (Cons c s)
  then show ?case by (fastforce split: option.splits if_splits)
qed simp

lemma leadingFraction_shrinks: "length (snd (snd (leadingFraction x sc ov s))) \<le> length s"
proof (induction s arbitrary: x sc ov)
  case (Cons c s)
  show ?case using Cons.IH by (auto split: option.splits intro: le_SucI simp del: One_nat_def)
qed simp

lemma fraction_part_shrinks: "fraction_part s = (f, sc, t, post) \<Longrightarrow> length t \<le> length s"
  using leadingFraction_shrinks [of 0 1 False "tl s"]
  by (cases s) (auto simp: fraction_part_def split: prod.splits if_splits)

lemma duration_item_shrinks:
  assumes "duration_item s = Some (v, t)"
  shows "length t < length s"
proof -
  obtain n s1 f sc s2 post u where "leadingInt 0 s = Some (n, s1)" "fraction_part s1 = (f, sc, s2, post)"
    and u: "u = takeWhile (\<lambda>c. \<not> starts_number c) s2" "u \<noteq> []" "t = drop (length u) s2"
    using assms by (auto simp: duration_item_def Let_def split: if_splits option.splits prod.splits)
  then have "length s2 \<le> length s" using leadingInt_shrinks fraction_part_shrinks by (metis le_trans)
  moreover have "s2 \<noteq> []" using u by auto
  ultimately show ?thesis using u by (auto simp: neq_Nil_conv split: if_splits)
qed

function duration_items :: "nat \<Rightarrow> string \<Rightarrow> nat option" where
  "duration_items d s = (if s = [] then Some d else case duration_item s of
     None \<Rightarrow> None
   | Some (v, s') \<Rightarrow> let d' = (d + v) mod 2 ^ 64 in if d' > 2 ^ 63 then None else duration_items d' s')"
  by auto

termination by (relation "measure (length \<circ> snd)") (auto dest: duration_item_shrinks)

declare duration_items.simps [simp del]

definition ParseDuration :: "string \<Rightarrow> int option" where
  "ParseDuration orig = (let neg = (orig \<noteq> [] \<and> hd orig = CHR ''-'');
     s = (if orig \<noteq> [] \<and> (hd orig = CHR ''-'' \<or> hd orig = CHR ''+'') then tl orig else orig) in
     if s = ''0'' then Some 0
     else if s = [] then None
     else case duration_items 0 s of
       None \<Rightarrow> None
     | Some d \<Rightarrow> if neg then Some (- int d) else if d > 2 ^ 63 - 1 then None else Some (int d))"

section \<open>Printing\<close>

definition fmtFrac :: "nat \<Rightarrow> nat \<Rightarrow> string" where
  "fmtFrac v prec = (let ds = rev (dropWhile (\<lambda>d. d = 0) (rev (digits 10 prec (v mod 10 ^ prec)))) in
     if ds = [] then [] else CHR ''.'' # map (\<lambda>d. lower_digits ! d) ds)"

definition duration_body :: "nat \<Rightarrow> string" where
  "duration_body u = (if u < 1000000000 then
        if u = 0 then ''0s''
        else if u < 1000 then Itoa u @ ''ns''
        else if u < 1000000 then Itoa (u div 10 ^ 3) @ fmtFrac u 3 @ [CHR 0xC2, CHR 0xB5, CHR ''s'']
        else Itoa (u div 10 ^ 6) @ fmtFrac u 6 @ ''ms''
      else let secs = u div 10 ^ 9; mins = secs div 60; hrs = mins div 60 in
        (if 0 < mins then (if 0 < hrs then Itoa hrs @ ''h'' else []) @ Itoa (mins mod 60) @ ''m'' else []) @
        Itoa (secs mod 60) @ fmtFrac u 9 @ ''s'')"

definition Duration_String :: "int \<Rightarrow> string" where
  "Duration_String d = (if d < 0 then ''-'' else []) @ duration_body (nat \<bar>d\<bar>)"

section \<open>What is printed reads back\<close>

definition numeral_value :: "nat \<Rightarrow> string \<Rightarrow> nat" where
  "numeral_value x ds = foldl (\<lambda>v d. v * 10 + d) x (digit_values dec_digit ds)"

definition all_digits :: "string \<Rightarrow> bool" where
  "all_digits ds \<longleftrightarrow> (\<forall>c \<in> set ds. dec_digit c \<noteq> None)"

definition no_digit_next :: "string \<Rightarrow> bool" where
  "no_digit_next s \<longleftrightarrow> s = [] \<or> dec_digit (hd s) = None"

lemma numeral_value_Nil [simp]: "numeral_value x [] = x"
  by (simp add: numeral_value_def digit_values_def)

lemma numeral_value_Cons [simp]: "dec_digit c = Some d \<Longrightarrow> numeral_value x (c # s) = numeral_value (x * 10 + d) s"
  by (simp add: numeral_value_def digit_values_def)

lemma all_digits_simps [simp]: "all_digits []" "all_digits (c # s) \<longleftrightarrow> (\<exists>d. dec_digit c = Some d) \<and> all_digits s"
  by (auto simp: all_digits_def)

lemma numeral_value_ge: "all_digits s \<Longrightarrow> x * 10 ^ length s \<le> numeral_value x s"
proof (induction s arbitrary: x)
  case (Cons c s)
  then obtain d where d: "dec_digit c = Some d" "all_digits s" by auto
  have "x * 10 ^ length (c # s) \<le> (x * 10 + d) * 10 ^ length s" by (simp add: algebra_simps)
  also have "\<dots> \<le> numeral_value x (c # s)" using Cons.IH [of "x * 10 + d"] d by simp
  finally show ?case .
qed simp

lemma numeral_value_step: "all_digits s \<Longrightarrow> numeral_value (x * 10 + d) s \<le> m \<Longrightarrow> x * 10 + d \<le> (m :: nat)"
  using numeral_value_ge [of s "x * 10 + d"] by (metis le_trans mult.commute mult_le_mono1 nat_mult_1_right one_le_power one_le_numeral mult_le_mono2)

lemma leadingInt_digits:
  "all_digits ds \<Longrightarrow> no_digit_next rest \<Longrightarrow> numeral_value x ds \<le> 2 ^ 63 \<Longrightarrow> leadingInt x (ds @ rest) = Some (numeral_value x ds, rest)"
proof (induction ds arbitrary: x)
  case Nil
  then show ?case by (cases rest) (auto simp: no_digit_next_def)
next
  case (Cons c ds)
  then obtain d where d: "dec_digit c = Some d" "all_digits ds" by auto
  then have "x * 10 + d \<le> 2 ^ 63" using Cons.prems(3) by (intro numeral_value_step) simp_all
  then show ?case using Cons d by simp
qed

lemma round64_int: "n \<le> 2 ^ 53 \<Longrightarrow> round64 (of_nat n) = of_nat n"
  using float64.exact [of "int n"] by simp

lemma leadingFraction_digits:
  assumes "all_digits ds" "no_digit_next rest" "numeral_value x ds < 2 ^ 63" "k + length ds \<le> 15"
  shows "leadingFraction x (10 ^ k) False (ds @ rest) = (numeral_value x ds, 10 ^ (k + length ds), rest)"
  using assms
proof (induction ds arbitrary: x k)
  case Nil
  then show ?case by (cases rest) (auto simp: no_digit_next_def)
next
  case (Cons c ds)
  then obtain d where d: "dec_digit c = Some d" "all_digits ds" by auto
  have le: "x * 10 + d \<le> 2 ^ 63 - 1" using Cons.prems(3) d by (intro numeral_value_step [OF d(2)]) simp
  have "Suc k \<le> 15" using Cons.prems(4) by simp
  then have "(10 :: nat) ^ Suc k \<le> 10 ^ 15" by (intro power_increasing) simp_all
  then have "round64 (of_nat (10 ^ Suc k)) = of_nat (10 ^ Suc k)" by (intro round64_int) simp
  then have "round64 (10 ^ k * 10) = 10 ^ Suc k" by (simp add: mult.commute)
  then show ?case using Cons.IH [of "x * 10 + d" "Suc k"] Cons.prems d le by simp
qed

lemma numeral_value_horner: "numeral_value 0 ds = horner 10 (digit_values dec_digit ds)"
  by (simp add: numeral_value_def horner_def)

lemma horner_append: "horner b (xs @ ys) = horner b xs * b ^ length ys + horner b ys"
proof (induction ys rule: rev_induct)
  case (snoc y ys)
  have "horner b (xs @ ys @ [y]) = horner b (xs @ ys) * b + y" by (simp flip: append_assoc)
  then show ?case by (simp add: snoc.IH algebra_simps)
qed simp

lemma horner_zeros: "horner b (replicate n 0) = 0"
  by (induction n) (simp_all add: replicate_append_same [symmetric])

text \<open>The printed fraction: no digits when the rest is zero, else its digits without trailing zeros.\<close>

lemma fmtFrac_cases:
  obtains "v mod 10 ^ prec = 0" "fmtFrac v prec = []"
  | ds where "fmtFrac v prec = CHR ''.'' # ds" "ds \<noteq> []" "all_digits ds" "length ds \<le> prec" "numeral_value 0 ds * 10 ^ (prec - length ds) = v mod 10 ^ prec"
proof -
  let ?all = "digits 10 prec (v mod 10 ^ prec)"
  define ns where "ns = rev (dropWhile (\<lambda>d. d = 0) (rev ?all))"
  let ?z = "takeWhile (\<lambda>d. d = 0) (rev ?all)"
  have "rev ?all = ?z @ rev ns" by (simp add: ns_def)
  moreover have "?z = replicate (length ?z) 0" by (rule replicate_eqI) (auto dest: set_takeWhileD)
  ultimately have split: "?all = ns @ replicate (length ?z) 0" by (metis rev_append rev_replicate rev_rev_ident)
  have len: "length ns + length ?z = prec" using arg_cong [OF split, of length] by simp
  have "horner 10 ns * 10 ^ length ?z = v mod 10 ^ prec"
    using arg_cong [OF split, of "horner 10"] by (simp add: horner_append horner_zeros horner_digits)
  then have val: "horner 10 ns * 10 ^ (prec - length ns) = v mod 10 ^ prec" using len by (metis add_diff_cancel_left')
  have small: "d < 10" if "d \<in> set ns" for d using that split digits_less [of 10 d prec] by (metis Un_iff set_append zero_less_numeral)
  let ?ds = "map (\<lambda>d. lower_digits ! d) ns"
  have "digit_values dec_digit ?ds = ns" using small by (auto simp: digit_values_def dec_digit_nth intro: map_idI)
  then have nv: "numeral_value 0 ?ds = horner 10 ns" by (simp add: numeral_value_horner)
  have ad: "all_digits ?ds" using small by (auto simp: all_digits_def dec_digit_nth)
  show thesis
  proof (cases "ns = []")
    case True
    then have "fmtFrac v prec = []" unfolding fmtFrac_def ns_def by simp
    moreover have "v mod 10 ^ prec = 0" using val True by simp
    ultimately show ?thesis by (rule that(1) [rotated])
  next
    case False
    then have "fmtFrac v prec = CHR ''.'' # ?ds" using ns_def by (simp add: fmtFrac_def Let_def)
    then show ?thesis using that(2) [of ?ds] False ad nv val len by simp
  qed
qed

lemma Itoa_all: "Itoa n \<noteq> []" "all_digits (Itoa n)" "numeral_value 0 (Itoa n) = n"
  using Itoa_facts [of n] by (auto simp: all_digits_def numeral_value_horner)

definition unit_text :: "string \<Rightarrow> bool" where
  "unit_text u \<longleftrightarrow> u \<noteq> [] \<and> (\<forall>c \<in> set u. \<not> starts_number c)"

definition next_number :: "string \<Rightarrow> bool" where
  "next_number s \<longleftrightarrow> s = [] \<or> starts_number (hd s)"

lemma unit_cut:
  "unit_text u \<Longrightarrow> next_number rest \<Longrightarrow> takeWhile (\<lambda>c. \<not> starts_number c) (u @ rest) = u"
  by (cases rest) (auto simp: unit_text_def next_number_def takeWhile_append2)

lemma unit_text_head: "unit_text u \<Longrightarrow> u @ rest \<noteq> [] \<and> hd (u @ rest) \<noteq> CHR ''.'' \<and> no_digit_next (u @ rest)"
  by (cases u) (auto simp: unit_text_def starts_number_def no_digit_next_def)

lemma fraction_part_fmtFrac:
  assumes "unit_text u" "prec \<le> 9"
  shows "\<exists>f k post. fraction_part (fmtFrac w prec @ u @ rest) = (f, 10 ^ k, u @ rest, post) \<and> k \<le> prec \<and> f * 10 ^ (prec - k) = w mod 10 ^ prec"
proof (cases w prec rule: fmtFrac_cases)
  case 1
  then show ?thesis using unit_text_head [OF assms(1), of rest] by (intro exI [of _ 0] exI [of _ False]) (simp add: fraction_part_def)
next
  case (2 ds)
  have "numeral_value 0 ds * 1 \<le> numeral_value 0 ds * 10 ^ (prec - length ds)" by (intro mult_le_mono2) simp
  also have "\<dots> < 10 ^ prec" using 2(5) by simp
  also have "\<dots> \<le> 10 ^ 9" using assms(2) by (intro power_increasing) simp_all
  finally have "leadingFraction 0 (10 ^ 0) False (ds @ u @ rest) = (numeral_value 0 ds, 10 ^ (0 + length ds), u @ rest)"
    using 2 assms unit_text_head [OF assms(1), of rest] by (intro leadingFraction_digits) simp_all
  then have "fraction_part (fmtFrac w prec @ u @ rest) = (numeral_value 0 ds, 10 ^ length ds, u @ rest, True)"
    using 2 by (simp add: fraction_part_def)
  then show ?thesis using 2 by blast
qed

lemma scaled_fraction:
  assumes "k \<le> prec" "prec \<le> 9" "f * 10 ^ (prec - k) < 10 ^ prec"
  shows "nat (trunc_int (round64 (round64 (of_nat f) * round64 (of_nat (10 ^ prec) / 10 ^ k)))) = f * 10 ^ (prec - k)"
proof -
  have ten: "(10 :: nat) ^ i \<le> 2 ^ 53" if "i \<le> 9" for i using power_increasing [OF that, of "10 :: nat"] by simp
  have "f \<le> f * 10 ^ (prec - k)" by simp
  then have f: "f \<le> 2 ^ 53" "f * 10 ^ (prec - k) \<le> 2 ^ 53" using assms(3) ten [OF assms(2)] by linarith+
  have "(10 :: rat) ^ prec = 10 ^ (prec - k) * 10 ^ k" using assms(1) by (simp flip: power_add)
  then have "(of_nat (10 ^ prec) :: rat) / 10 ^ k = of_nat (10 ^ (prec - k))" by simp
  moreover have "round64 (of_nat (10 ^ (prec - k))) = of_nat (10 ^ (prec - k))" using assms(2) by (intro round64_int ten) simp
  moreover have "round64 (of_nat f * of_nat (10 ^ (prec - k))) = of_nat (f * 10 ^ (prec - k))"
    using round64_int [OF f(2)] by simp
  ultimately show ?thesis using round64_int [OF f(1)] by (simp add: trunc_int_def del: of_nat_mult of_nat_power)
qed

lemma duration_item_printed:
  assumes "unit_text u" "next_number rest" "unitMap u = Some unit" "prec = 0 \<or> unit = 10 ^ prec" "prec \<le> 9"
    "n * unit + w mod 10 ^ prec \<le> 2 ^ 63" "0 < unit"
  shows "duration_item (Itoa n @ fmtFrac w prec @ u @ rest) = Some (n * unit + w mod 10 ^ prec, rest)"
proof -
  let ?s = "Itoa n @ fmtFrac w prec @ u @ rest"
  obtain f k post where fp: "fraction_part (fmtFrac w prec @ u @ rest) = (f, 10 ^ k, u @ rest, post)"
    and k: "k \<le> prec" "f * 10 ^ (prec - k) = w mod 10 ^ prec"
    using fraction_part_fmtFrac [OF assms(1,5)] by blast
  have nn: "n \<le> 2 ^ 63 div unit" using assms(6,7) by (simp add: less_eq_div_iff_mult_less_eq)
  moreover have "n \<le> n * unit" using assms(7) by simp
  ultimately have "n \<le> 2 ^ 63" using assms(6) by linarith
  moreover have "no_digit_next (fmtFrac w prec @ u @ rest)"
    using unit_text_head [OF assms(1), of rest] by (cases w prec rule: fmtFrac_cases) (auto simp: no_digit_next_def hex_digit_chars)
  ultimately have li: "leadingInt 0 ?s = Some (n, fmtFrac w prec @ u @ rest)"
    using leadingInt_digits [OF Itoa_all(2), of "fmtFrac w prec @ u @ rest" 0 n] by (simp add: Itoa_all(3))
  have dv: "duration_value n f (10 ^ k) unit = Some (n * unit + w mod 10 ^ prec)"
  proof (cases "f > 0")
    case True
    then have "unit = 10 ^ prec" using assms(4) k by auto
    then show ?thesis using scaled_fraction [OF k(1) assms(5), of f] k(2) True nn assms(6) by (simp add: duration_value_def)
  next
    case False
    then show ?thesis using k(2) nn by (simp add: duration_value_def)
  qed
  have "starts_number (hd ?s)" using Itoa_all [of n] by (cases "Itoa n") (auto simp: starts_number_def)
  then show ?thesis
    using li fp dv unit_cut [OF assms(1,2)] assms(1,3) Itoa_all(1) [of n] by (simp add: duration_item_def unit_text_def)
qed

lemma unit_texts:
  "unit_text ''ns''" "unit_text [CHR 0xC2, CHR 0xB5, CHR ''s'']" "unit_text ''ms''" "unit_text ''s''" "unit_text ''m''" "unit_text ''h''"
  by (simp_all add: unit_text_def starts_number_def dec_digit_def)

lemma next_number_Itoa: "next_number (Itoa n @ s)"
  using Itoa_all [of n] by (cases "Itoa n") (auto simp: next_number_def starts_number_def)

lemma duration_items_step:
  assumes "duration_item s = Some (v, rest)" "d + v \<le> 2 ^ 63"
  shows "duration_items d s = duration_items (d + v) rest"
proof -
  have "(d + v) mod 2 ^ 64 = d + v" using assms(2) by simp
  moreover have "s \<noteq> []" using assms(1) by (auto simp: duration_item_def)
  ultimately show ?thesis using assms by (simp add: duration_items.simps [of d s])
qed

lemma duration_items_Nil [simp]: "duration_items d [] = Some d"
  by (simp add: duration_items.simps)

lemma fmtFrac_0: "fmtFrac w 0 = []"
  by (simp add: fmtFrac_def digits_def)

text \<open>A printed item is read after whatever came before it.\<close>

lemma items_printed:
  assumes "unit_text u" "next_number rest" "unitMap u = Some unit" "prec = 0 \<or> unit = 10 ^ prec" "prec \<le> 9"
    "d + (n * unit + w mod 10 ^ prec) \<le> 2 ^ 63" "0 < unit"
  shows "duration_items d (Itoa n @ fmtFrac w prec @ u @ rest) = duration_items (d + (n * unit + w mod 10 ^ prec)) rest"
  using duration_items_step [OF duration_item_printed] assms by simp

lemma items_whole:
  assumes "unit_text u" "next_number rest" "unitMap u = Some unit" "d + n * unit \<le> 2 ^ 63" "0 < unit"
  shows "duration_items d (Itoa n @ u @ rest) = duration_items (d + n * unit) rest"
  using items_printed [of u rest unit 0 d n 0] assms by (simp add: fmtFrac_0)

lemma items_long:
  assumes "u \<le> 2 ^ 63" "secs = u div 10 ^ 9" "mins = secs div 60" "hrs = mins div 60"
  shows "duration_items 0 ((if 0 < mins then (if 0 < hrs then Itoa hrs @ ''h'' else []) @ Itoa (mins mod 60) @ ''m'' else []) @
        Itoa (secs mod 60) @ fmtFrac u 9 @ ''s'') = Some u"
proof -
  let ?H = "hrs * 3600000000000" and ?M = "mins mod 60 * 60000000000" and ?S = "secs mod 60 * 1000000000 + u mod 10 ^ 9"
  have "u = secs * 10 ^ 9 + u mod 10 ^ 9" "secs = mins * 60 + secs mod 60" "mins = hrs * 60 + mins mod 60"
    using assms by (simp_all del: power_numeral_odd)
  then have sum: "?H + ?M + ?S = u" by simp
  have s: "duration_items d (Itoa (secs mod 60) @ fmtFrac u 9 @ ''s'') = Some (d + ?S)" if "d + ?S \<le> 2 ^ 63" for d
    using items_printed [of "''s''" "[]" "10 ^ 9" 9 d "secs mod 60" u] that by (simp add: unit_texts unitMap_def next_number_def)
  have m: "duration_items d (Itoa (mins mod 60) @ ''m'' @ Itoa (secs mod 60) @ fmtFrac u 9 @ ''s'') = Some (d + ?M + ?S)" if "d + ?M + ?S \<le> 2 ^ 63" for d
    using items_whole [of "''m''" "Itoa (secs mod 60) @ fmtFrac u 9 @ ''s''" 60000000000 d "mins mod 60"] s [of "d + ?M"] that
    by (simp add: unit_texts unitMap_def next_number_Itoa)
  have h: "duration_items 0 (Itoa hrs @ ''h'' @ Itoa (mins mod 60) @ ''m'' @ Itoa (secs mod 60) @ fmtFrac u 9 @ ''s'') = Some u"
    using items_whole [of "''h''" "Itoa (mins mod 60) @ ''m'' @ Itoa (secs mod 60) @ fmtFrac u 9 @ ''s''" 3600000000000 0 hrs] m [of ?H] sum assms(1)
    by (simp add: unit_texts unitMap_def next_number_Itoa)
  show ?thesis using h m [of 0] s [of 0] sum assms(1,4) by (cases "0 < hrs"; cases "0 < mins") simp_all
qed

lemma items_body: "u \<le> 2 ^ 63 \<Longrightarrow> duration_items 0 (duration_body u) = Some u"
proof -
  assume u: "u \<le> 2 ^ 63"
  have z: "''0s'' = Itoa 0 @ ''s'' @ []" by (simp add: Itoa_def itoa_base.simps lower_digits_def)
  consider "u = 0" | "0 < u" "u < 1000" | "1000 \<le> u" "u < 1000000" | "1000000 \<le> u" "u < 1000000000" | "1000000000 \<le> u" by linarith
  then show ?thesis
  proof cases
    case 1
    then show ?thesis using items_whole [of "''s''" "[]" "10 ^ 9" 0 0] by (simp add: duration_body_def z unit_texts unitMap_def next_number_def)
  next
    case 2
    then show ?thesis using items_whole [of "''ns''" "[]" 1 0 u] by (simp add: duration_body_def unit_texts unitMap_def next_number_def)
  next
    case 3
    then show ?thesis using items_printed [of "[CHR 0xC2, CHR 0xB5, CHR ''s'']" "[]" "10 ^ 3" 3 0 "u div 10 ^ 3" u]
      by (simp add: duration_body_def unit_texts unitMap_def next_number_def)
  next
    case 4
    then show ?thesis using items_printed [of "''ms''" "[]" "10 ^ 6" 6 0 "u div 10 ^ 6" u]
      by (simp add: duration_body_def unit_texts unitMap_def next_number_def)
  next
    case 5
    then have "\<not> u < 1000000000" by simp
    then show ?thesis using items_long [OF u refl refl refl] unfolding duration_body_def Let_def by (simp only: if_False)
  qed
qed

lemma duration_body_head: "duration_body u \<noteq> []" "hd (duration_body u) \<notin> {CHR ''-'', CHR ''+''}" "duration_body u \<noteq> ''0''"
proof -
  have hd: "hd (Itoa n @ s) \<notin> {CHR ''-'', CHR ''+''}" for n s
    using Itoa_all [of n] by (cases "Itoa n") (auto simp: dec_digit_def)
  show "hd (duration_body u) \<notin> {CHR ''-'', CHR ''+''}"
    using hd by (simp only: duration_body_def Let_def append_assoc if_distrib [of "\<lambda>x. x @ _"] append_Nil split: if_split) auto
  have "last (duration_body u) = CHR ''s'' \<and> duration_body u \<noteq> []" by (simp add: duration_body_def Let_def)
  then show "duration_body u \<noteq> []" "duration_body u \<noteq> ''0''" by auto
qed

lemma ParseDuration_String: "int64_range d \<Longrightarrow> ParseDuration (Duration_String d) = Some d"
proof -
  assume d: "int64_range d"
  then have "nat \<bar>d\<bar> \<le> 2 ^ 63" by (auto simp: int64_range_def)
  note items = items_body [OF this]
  show ?thesis
    using items duration_body_head [of "nat \<bar>d\<bar>"] d unfolding Duration_String_def by (auto simp: ParseDuration_def Let_def int64_range_def)
qed
end
