(* ===== verification/Config_Loader.thy ===== *)
theory Config_Loader
  imports Go_Durations Server_Config Metadata Unix_Files "HOL-Library.AList"
begin

text \<open>
  Package \<open>config\<close> of \<open>packages/config\<close>: layered loading (\<open>config.go\<close>) and redaction (\<open>redact.go\<close>). Both
  walk a struct by reflection, so a value is modelled as reflection sees it: its kind, the names and
  tags of its fields and what they hold. Kinds no configuration uses (maps, interfaces, channels,
  functions) are left out, and so are named types other than those of strings.
\<close>

section \<open>Reflected values\<close>

record StructField =
  sf_Name :: string
  sf_Exported :: bool
  sf_env :: string
  sf_yaml :: string
  sf_secret :: string

text \<open>The type of a string carries its name, \<open>string\<close> itself or a type defined from it.\<close>

datatype rtype = TString string | TBool | TInt nat | TUint nat | TFloat nat | TDuration | TTime
  | TSlice rtype | TArray rtype | TPointer rtype | TStruct "(StructField \<times> rtype) list"

text \<open>A slice or a pointer that is nil is \<open>None\<close>; both keep the type of what they would hold.\<close>

datatype rvalue = RString string string | RBool bool | RInt nat int | RUint nat int | RFloat nat rat
  | RDuration int | RTime instant | RSlice rtype "rvalue list option" | RArray rtype "rvalue list"
  | RPointer rtype "rvalue option" | RStruct "(StructField \<times> rvalue) list"

fun type_of :: "rvalue \<Rightarrow> rtype" where
  "type_of (RString t _) = TString t"
| "type_of (RBool _) = TBool"
| "type_of (RInt n _) = TInt n"
| "type_of (RUint n _) = TUint n"
| "type_of (RFloat n _) = TFloat n"
| "type_of (RDuration _) = TDuration"
| "type_of (RTime _) = TTime"
| "type_of (RSlice t _) = TSlice t"
| "type_of (RArray t _) = TArray t"
| "type_of (RPointer t _) = TPointer t"
| "type_of (RStruct fs) = TStruct (map (\<lambda>(f, v). (f, type_of v)) fs)"

definition is_struct :: "rvalue \<Rightarrow> bool" where
  "is_struct v = (case v of RStruct _ \<Rightarrow> True | _ \<Rightarrow> False)"

fun IsZero :: "rvalue \<Rightarrow> bool" where
  "IsZero (RString _ s) = (s = [])"
| "IsZero (RBool b) = (\<not> b)"
| "IsZero (RInt _ n) = (n = 0)"
| "IsZero (RUint _ n) = (n = 0)"
| "IsZero (RFloat _ x) = (x = 0)"
| "IsZero (RDuration d) = (d = 0)"
| "IsZero (RTime t) = (t = - 62135596800 * Second)"
| "IsZero (RSlice _ vs) = (vs = None)"
| "IsZero (RArray _ vs) = list_all IsZero vs"
| "IsZero (RPointer _ v) = (v = None)"
| "IsZero (RStruct fs) = list_all (\<lambda>(_, v). IsZero v) fs"

section \<open>Reading one variable\<close>

definition ParseBool :: "string \<Rightarrow> bool option" where
  "ParseBool s = (if s \<in> {''1'', ''t'', ''T'', ''TRUE'', ''true'', ''True''} then Some True
     else if s \<in> {''0'', ''f'', ''F'', ''FALSE'', ''false'', ''False''} then Some False else None)"

text \<open>\<open>strconv.ParseUint\<close> and \<open>ParseInt\<close> in base ten, of a width in bits.\<close>

definition ParseUint :: "string \<Rightarrow> nat \<Rightarrow> int option" where
  "ParseUint s bits = (if s = [] \<or> (\<exists>c \<in> set s. dec_digit c = None) then None
     else let n = int (horner 10 (digit_values dec_digit s)) in if n < 2 ^ bits then Some n else None)"

definition ParseInt :: "string \<Rightarrow> nat \<Rightarrow> int option" where
  "ParseInt s bits = (let neg = (s \<noteq> [] \<and> hd s = CHR ''-''); ds = (if s \<noteq> [] \<and> hd s \<in> {CHR ''-'', CHR ''+''} then tl s else s) in
     if ds = [] \<or> (\<exists>c \<in> set ds. dec_digit c = None) then None
     else let n = int (horner 10 (digit_values dec_digit ds)); v = (if neg then - n else n) in
       if - (2 ^ (bits - 1)) \<le> v \<and> v < 2 ^ (bits - 1) then Some v else None)"

text \<open>
  \<open>strconv.ParseFloat\<close> is the parameter \<open>parse_float\<close>. A slice whose elements are a named string type
  passes the check on their kind, but a \<open>[]string\<close> cannot be assigned to it: \<open>reflect.Value.Set\<close> panics.
\<close>

definition parsed :: "string \<Rightarrow> ('a \<Rightarrow> rvalue) \<Rightarrow> 'a option \<Rightarrow> rvalue res" where
  "parsed msg mk r = (case r of None \<Rightarrow> Err (ErrNew msg) | Some x \<Rightarrow> Ret (mk x))"

definition setValue :: "(nat \<Rightarrow> string \<Rightarrow> rat option) \<Rightarrow> rvalue \<Rightarrow> string \<Rightarrow> rvalue res" where
  "setValue parse_float fv raw = (case fv of
     RDuration _ \<Rightarrow> parsed ''is not a duration (expected a value such as 30s, 5m or 1h)'' RDuration (ParseDuration raw)
   | RString t _ \<Rightarrow> Ret (RString t raw)
   | RBool _ \<Rightarrow> parsed ''is not a boolean (expected true or false)'' RBool (ParseBool raw)
   | RInt bits _ \<Rightarrow> parsed ''is not an integer'' (RInt bits) (ParseInt raw bits)
   | RUint bits _ \<Rightarrow> parsed ''is not a non-negative integer'' (RUint bits) (ParseUint raw bits)
   | RFloat bits _ \<Rightarrow> parsed ''is not a number'' (RFloat bits) (parse_float bits raw)
   | RSlice (TString t) _ \<Rightarrow>
       (let out = filter (\<lambda>p. p \<noteq> []) (map TrimSpace (Split (CHR '','') raw)) in
        if t = ''string'' then Ret (RSlice (TString t) (Some (map (RString t) out)))
        else Panic (''reflect.Set: value of type []string is not assignable to type []'' @ t))
   | RSlice t _ \<Rightarrow> Err (ErrNew ''unsupported slice element type'')
   | _ \<Rightarrow> Err (ErrNew ''unsupported field type''))"

section \<open>Layers\<close>

record Options =
  EnvPrefix :: string
  Getenv :: "(string \<Rightarrow> string) option"

text \<open>What the loader is given by its host: the environment, files, the YAML decoder and number syntax.\<close>

record host =
  h_getenv :: "string \<Rightarrow> string"
  h_readFile :: "string \<Rightarrow> error + string"
  h_unmarshal :: "string \<Rightarrow> rvalue \<Rightarrow> error option \<times> rvalue"
  h_parseFloat :: "nat \<Rightarrow> string \<Rightarrow> rat option"

definition getenv :: "host \<Rightarrow> Options \<Rightarrow> string \<Rightarrow> string" where
  "getenv h opts key = (case Getenv opts of Some g \<Rightarrow> g key | None \<Rightarrow> h_getenv h key)"

definition ErrFileNotFound :: error where "ErrFileNotFound = ErrNew ''configuration file not found''"

text \<open>A destination is updated in place, so a step gives its outcome and what the destination then holds.\<close>

definition andThen :: "unit res \<times> 'v \<Rightarrow> ('v \<Rightarrow> unit res \<times> 'v) \<Rightarrow> unit res \<times> 'v" where
  "andThen p k = (case p of (Ret _, v) \<Rightarrow> k v | _ \<Rightarrow> p)"

definition loadFile :: "host \<Rightarrow> string \<Rightarrow> rvalue \<Rightarrow> unit res \<times> rvalue" where
  "loadFile h path dst = (case h_readFile h path of
     Inl err \<Rightarrow> (Err (if err = ErrNotExist then wrap path ErrFileNotFound else wrap (''reading configuration file '' @ path) err), dst)
   | Inr raw \<Rightarrow> if TrimSpace raw = [] then (Ret (), dst)
       else (case h_unmarshal h raw dst of
         (Some err, v) \<Rightarrow> (Err (wrap (''parsing configuration file '' @ path) err), v)
       | (None, v) \<Rightarrow> (Ret (), v)))"

definition env_key :: "string \<Rightarrow> StructField \<Rightarrow> string option" where
  "env_key prefix field = (let tag = sf_env field in if tag = [] \<or> tag = ''-'' then None else Some (prefix @ ''_'' @ tag))"

fun applyEnv :: "host \<Rightarrow> Options \<Rightarrow> string \<Rightarrow> rvalue \<Rightarrow> unit res \<times> rvalue"
  and applyFields :: "host \<Rightarrow> Options \<Rightarrow> string \<Rightarrow> (StructField \<times> rvalue) list \<Rightarrow> unit res \<times> (StructField \<times> rvalue) list" where
  "applyEnv h opts prefix (RStruct fs) = (case applyFields h opts prefix fs of (r, fs') \<Rightarrow> (r, RStruct fs'))"
| "applyEnv h opts prefix v = (Panic ''reflect: NumField of non-struct type'', v)"
| "applyFields h opts prefix [] = (Ret (), [])"
| "applyFields h opts prefix ((field, fv) # rest) =
     (let proceed = (\<lambda>fv'. case applyFields h opts prefix rest of (r, rest') \<Rightarrow> (r, (field, fv') # rest')) in
      if \<not> sf_Exported field then proceed fv
      else if is_struct fv then (case applyEnv h opts prefix fv of
        (Ret _, fv') \<Rightarrow> proceed fv'
      | (Err e, fv') \<Rightarrow> (Err e, (field, fv') # rest)
      | (Panic p, fv') \<Rightarrow> (Panic p, (field, fv') # rest))
      else case env_key prefix field of
        None \<Rightarrow> proceed fv
      | Some key \<Rightarrow> let raw = TrimSpace (getenv h opts key) in
          if raw = [] then proceed fv
          else case setValue (h_parseFloat h) fv raw of
            Ret fv' \<Rightarrow> proceed fv'
          | Err e \<Rightarrow> (Err (wrap (''environment variable '' @ key) e), (field, fv) # rest)
          | Panic p \<Rightarrow> (Panic p, (field, fv) # rest))"

definition config_Load :: "host \<Rightarrow> (rvalue \<Rightarrow> error option) option \<Rightarrow> string \<Rightarrow> rvalue \<Rightarrow> Options \<Rightarrow> unit res \<times> rvalue" where
  "config_Load h validator path dst opts = (case dst of
     RPointer t (Some s) \<Rightarrow>
       if \<not> is_struct s then (Err (ErrNew ''config: destination must point to a struct''), dst)
       else (case andThen (if path \<noteq> [] then loadFile h path s else (Ret (), s)) (\<lambda>s1.
           andThen (if EnvPrefix opts \<noteq> [] then applyEnv h opts (EnvPrefix opts) s1 else (Ret (), s1)) (\<lambda>s2.
           case validator of
             None \<Rightarrow> (Ret (), s2)
           | Some Validate \<Rightarrow> (case Validate s2 of
               None \<Rightarrow> (Ret (), s2)
             | Some err \<Rightarrow> (Err (wrap ''invalid configuration'' err), s2))))
         of (r, s') \<Rightarrow> (r, RPointer t (Some s')))
   | _ \<Rightarrow> (Err (ErrNew ''config: destination must be a non-nil pointer''), dst))"

definition ApplyEnv :: "host \<Rightarrow> rvalue \<Rightarrow> Options \<Rightarrow> unit res \<times> rvalue" where
  "ApplyEnv h dst opts = (case dst of
     RPointer t (Some s) \<Rightarrow>
       if \<not> is_struct s then (Err (ErrNew ''config: destination must be a non-nil pointer to a struct''), dst)
       else if EnvPrefix opts = [] then (Ret (), dst)
       else (case applyEnv h opts (EnvPrefix opts) s of (r, s') \<Rightarrow> (r, RPointer t (Some s')))
   | _ \<Rightarrow> (Err (ErrNew ''config: destination must be a non-nil pointer to a struct''), dst))"

section \<open>Redaction\<close>

definition Mask :: string where "Mask = ''***''"

text \<open>A dynamic value: \<open>Interface()\<close> of a plain string is that string.\<close>

datatype any = ANil | AText string | AValue rvalue | AItems "any list" | AMap "(string \<times> any) list"

definition Interface :: "rvalue \<Rightarrow> any" where
  "Interface v = (case v of RString t s \<Rightarrow> if t = ''string'' then AText s else AValue v | _ \<Rightarrow> AValue v)"

fun maskSecret :: "rvalue \<Rightarrow> any" where
  "maskSecret (RPointer t None) = ANil"
| "maskSecret (RPointer t (Some v)) = maskSecret v"
| "maskSecret v = (if IsZero v then Interface v else AText Mask)"

text \<open>
  \<open>strings.EqualFold(s, "true")\<close>: none of these four letters folds with a character outside ASCII.
\<close>

definition fold_ascii :: "char \<Rightarrow> nat" where
  "fold_ascii c = lower_rune id (of_char c)"

definition isSecret :: "StructField \<Rightarrow> bool" where
  "isSecret field \<longleftrightarrow> map fold_ascii (sf_secret field) = map fold_ascii ''true''"

definition fieldName :: "(nat \<Rightarrow> nat) \<Rightarrow> StructField \<Rightarrow> string" where
  "fieldName lc field = (let tag = sf_yaml field in
     if tag = ''-'' then [] else case Cut tag (CHR '','') of (name, _, _) \<Rightarrow> if name \<noteq> [] then name else ToLower lc (sf_Name field))"

fun redactValue :: "(nat \<Rightarrow> nat) \<Rightarrow> rvalue \<Rightarrow> error + any"
  and redactItems :: "(nat \<Rightarrow> nat) \<Rightarrow> rvalue list \<Rightarrow> error + any list"
  and redactStruct :: "(nat \<Rightarrow> nat) \<Rightarrow> (StructField \<times> rvalue) list \<Rightarrow> (string \<times> any) list \<Rightarrow> error + (string \<times> any) list" where
  "redactValue lc (RPointer t None) = Inr ANil"
| "redactValue lc (RPointer t (Some v)) = redactValue lc v"
| "redactValue lc (RDuration d) = Inr (AText (Duration_String d))"
| "redactValue lc (RTime t) = Inr (AText (format_RFC3339 t))"
| "redactValue lc (RStruct fs) = map_sum id AMap (redactStruct lc fs [])"
| "redactValue lc (RSlice t None) = Inr (AItems [])"
| "redactValue lc (RSlice t (Some vs)) = map_sum id AItems (redactItems lc vs)"
| "redactValue lc (RArray t vs) = map_sum id AItems (redactItems lc vs)"
| "redactValue lc v = Inr (Interface v)"
| "redactItems lc [] = Inr []"
| "redactItems lc (v # vs) = (case redactValue lc v of
     Inl err \<Rightarrow> Inl err
   | Inr item \<Rightarrow> (case redactItems lc vs of Inl err \<Rightarrow> Inl err | Inr items \<Rightarrow> Inr (item # items)))"
| "redactStruct lc [] out = Inr out"
| "redactStruct lc ((field, fv) # rest) out =
     (let name = fieldName lc field in
      if \<not> sf_Exported field then redactStruct lc rest out
      else if name = [] then redactStruct lc rest out
      else if isSecret field then redactStruct lc rest (AList.update name (maskSecret fv) out)
      else case redactValue lc fv of
        Inl err \<Rightarrow> Inl (wrap (''field '' @ sf_Name field) err)
      | Inr value \<Rightarrow> redactStruct lc rest (AList.update name value out))"

fun Redact :: "(nat \<Rightarrow> nat) \<Rightarrow> rvalue \<Rightarrow> error + (string \<times> any) list" where
  "Redact lc (RPointer t None) = Inl (ErrNew ''config: cannot redact a nil pointer'')"
| "Redact lc (RPointer t (Some v)) = Redact lc v"
| "Redact lc (RStruct fs) = redactStruct lc fs []"
| "Redact lc v = Inl (ErrNew ''config: Redact requires a struct'')"

section \<open>What the environment does to a struct\<close>

text \<open>The settings of a struct: its exported fields, those of nested sections in their place.\<close>

fun leaves :: "rvalue \<Rightarrow> (StructField \<times> rvalue) list" where
  "leaves (RStruct fs) = concat (map (\<lambda>(f, v). if \<not> sf_Exported f then [] else if is_struct v then leaves v else [(f, v)]) fs)"
| "leaves v = []"

definition from_env :: "host \<Rightarrow> Options \<Rightarrow> string \<Rightarrow> StructField \<times> rvalue \<Rightarrow> StructField \<times> rvalue \<Rightarrow> bool" where
  "from_env h opts prefix p q \<longleftrightarrow> fst q = fst p \<and> (case env_key prefix (fst p) of
     None \<Rightarrow> snd q = snd p
   | Some key \<Rightarrow> let raw = TrimSpace (getenv h opts key) in
       if raw = [] then snd q = snd p else setValue (h_parseFloat h) (snd p) raw = Ret (snd q))"

lemma setValue_Ret: "setValue pf v raw = Ret v' \<Longrightarrow> type_of v' = type_of v \<and> is_struct v' = is_struct v"
  by (auto simp: setValue_def parsed_def Let_def is_struct_def split: rvalue.splits rtype.splits option.splits if_splits)

lemma from_env_type: "from_env h opts prefix p q \<Longrightarrow> type_of (snd q) = type_of (snd p) \<and> is_struct (snd q) = is_struct (snd p)"
  by (auto simp: from_env_def Let_def dest: setValue_Ret split: option.splits if_splits)

lemma from_env_unique: "from_env h opts prefix p q \<Longrightarrow> from_env h opts prefix p q' \<Longrightarrow> q' = q"
  by (auto simp: from_env_def Let_def prod_eq_iff split: option.splits if_splits)

lemma from_env_list_unique:
  "list_all2 (from_env h opts prefix) ps qs \<Longrightarrow> list_all2 (from_env h opts prefix) ps qs' \<Longrightarrow> qs' = qs"
  by (induction ps arbitrary: qs qs') (auto simp: list_all2_Cons1 dest: from_env_unique)

definition field_leaves :: "StructField \<times> rvalue \<Rightarrow> (StructField \<times> rvalue) list" where
  "field_leaves p = (if \<not> sf_Exported (fst p) then [] else if is_struct (snd p) then leaves (snd p) else [p])"

lemma leaves_struct: "leaves (RStruct fs) = concat (map field_leaves fs)"
proof -
  have "(\<lambda>(f, v). if \<not> sf_Exported f then [] else if is_struct v then leaves v else [(f, v)]) = field_leaves"
    by (auto simp: field_leaves_def)
  then show ?thesis by simp
qed

text \<open>One field: either a section, whose settings are overlaid, or a setting.\<close>

definition overlaid :: "host \<Rightarrow> Options \<Rightarrow> string \<Rightarrow> rvalue \<Rightarrow> rvalue \<Rightarrow> bool" where
  "overlaid h opts prefix v v' \<longleftrightarrow> type_of v' = type_of v \<and> is_struct v' = is_struct v \<and>
     list_all2 (from_env h opts prefix) (leaves v) (leaves v')"

definition overlaid_field :: "host \<Rightarrow> Options \<Rightarrow> string \<Rightarrow> StructField \<times> rvalue \<Rightarrow> StructField \<times> rvalue \<Rightarrow> bool" where
  "overlaid_field h opts prefix p q \<longleftrightarrow> fst q = fst p \<and> type_of (snd q) = type_of (snd p) \<and> is_struct (snd q) = is_struct (snd p) \<and>
     list_all2 (from_env h opts prefix) (field_leaves p) (field_leaves q)"

lemma overlaid_fields:
  assumes "list_all2 (overlaid_field h opts prefix) fs fs'"
  shows "overlaid h opts prefix (RStruct fs) (RStruct fs')"
proof -
  have "map (\<lambda>(f, v). (f, type_of v)) fs' = map (\<lambda>(f, v). (f, type_of v)) fs"
    using assms by induction (auto simp: overlaid_field_def)
  moreover have "list_all2 (from_env h opts prefix) (concat (map field_leaves fs)) (concat (map field_leaves fs'))"
    using assms by induction (auto simp: overlaid_field_def intro: list_all2_appendI)
  ultimately show ?thesis by (simp add: overlaid_def is_struct_def leaves_struct del: leaves.simps)
qed

lemma applyEnv_Ret:
  "applyEnv h opts prefix v = (Ret u, v') \<Longrightarrow> overlaid h opts prefix v v'"
  "applyFields h opts prefix fs = (Ret u, fs') \<Longrightarrow> list_all2 (overlaid_field h opts prefix) fs fs'"
proof (induction h opts prefix v and h opts prefix fs arbitrary: u v' and u fs' rule: applyEnv_applyFields.induct)
  case (1 h opts prefix fs)
  then show ?case by (auto intro: overlaid_fields split: prod.splits)
next
  case (4 h opts prefix field fv rest)
  note IH = 4(1,2) and prem = 4(3)
  let ?keep = "env_key prefix field = None \<or> TrimSpace (getenv h opts (the (env_key prefix field))) = []"
  obtain fv' rest' where out: "fs' = (field, fv') # rest'" and rest: "applyFields h opts prefix rest = (Ret u, rest')"
    and fv: "if \<not> sf_Exported field then fv' = fv else if is_struct fv then (\<exists>u. applyEnv h opts prefix fv = (Ret u, fv'))
      else if ?keep then fv' = fv else setValue (h_parseFloat h) fv (TrimSpace (getenv h opts (the (env_key prefix field)))) = Ret fv'"
    using prem by (auto simp: Let_def split: if_splits prod.splits res.splits option.splits)
  have "overlaid_field h opts prefix (field, fv) (field, fv')"
  proof (cases "sf_Exported field \<and> is_struct fv")
    case True
    then have "overlaid h opts prefix fv fv'" using fv IH(2) by auto
    then show ?thesis using True by (simp add: overlaid_field_def overlaid_def field_leaves_def)
  next
    case False
    then have "from_env h opts prefix (field, fv) (field, fv') \<or> \<not> sf_Exported field \<and> fv' = fv"
      using fv by (auto simp: from_env_def Let_def split: option.splits if_splits)
    then show ?thesis using False from_env_type [of h opts prefix "(field, fv)" "(field, fv')"] by (auto simp: overlaid_field_def field_leaves_def)
  qed
  moreover have "list_all2 (overlaid_field h opts prefix) rest rest'" using rest IH(1) by blast
  ultimately show ?case using out by simp
qed simp_all

lemma applyEnv_total:
  "is_struct v \<Longrightarrow> \<forall>p \<in> set (leaves v). \<exists>q. from_env h opts prefix p q \<Longrightarrow> \<exists>v'. applyEnv h opts prefix v = (Ret (), v')"
  "\<forall>p \<in> set (concat (map field_leaves fs)). \<exists>q. from_env h opts prefix p q \<Longrightarrow> \<exists>fs'. applyFields h opts prefix fs = (Ret (), fs')"
proof (induction h opts prefix v and h opts prefix fs rule: applyEnv_applyFields.induct)
  case (1 h opts prefix fs)
  then show ?case by (auto simp: leaves_struct simp del: leaves.simps)
next
  case (4 h opts prefix field fv rest)
  note IH = 4(1,2) and prem = 4(3)
  have "\<forall>p \<in> set (concat (map field_leaves rest)). \<exists>q. from_env h opts prefix p q" using prem by simp
  then obtain rest' where rest: "applyFields h opts prefix rest = (Ret (), rest')" using IH(1) by meson
  have here: "\<forall>p \<in> set (field_leaves (field, fv)). \<exists>q. from_env h opts prefix p q" using prem by simp
  consider "\<not> sf_Exported field" | "sf_Exported field" "is_struct fv" | "sf_Exported field" "\<not> is_struct fv" by blast
  then show ?case
  proof cases
    case 2
    then obtain fv' where "applyEnv h opts prefix fv = (Ret (), fv')" using IH(2) here by (auto simp: field_leaves_def)
    then show ?thesis using 2 rest by simp
  next
    case 3
    then obtain q where "from_env h opts prefix (field, fv) q" using here by (auto simp: field_leaves_def)
    then show ?thesis using 3 rest by (auto simp: from_env_def Let_def split: option.splits if_splits)
  qed (simp add: rest)
qed (simp_all add: is_struct_def)

text \<open>A value of a known type has the shape of that type.\<close>

lemma type_inv:
  "type_of v = TString t \<longleftrightarrow> (\<exists>s. v = RString t s)"
  "type_of v = TBool \<longleftrightarrow> (\<exists>b. v = RBool b)"
  "type_of v = TInt n \<longleftrightarrow> (\<exists>i. v = RInt n i)"
  "type_of v = TDuration \<longleftrightarrow> (\<exists>d. v = RDuration d)"
  "type_of v = TSlice e \<longleftrightarrow> (\<exists>vs. v = RSlice e vs)"
  "type_of v = TStruct ts \<longleftrightarrow> (\<exists>fs. v = RStruct fs \<and> map (\<lambda>(f, v). (f, type_of v)) fs = ts)"
  by (cases v; auto)+

lemma struct_inv:
  "type_of v = TStruct ((f, t) # ts) \<Longrightarrow> \<exists>x fs. v = RStruct ((f, x) # fs) \<and> type_of x = t \<and> type_of (RStruct fs) = TStruct ts"
  by (auto simp: type_inv map_eq_Cons_conv)

section \<open>What a redacted struct discloses\<close>

fun populated :: "rvalue \<Rightarrow> bool" where
  "populated (RPointer t None) = False"
| "populated (RPointer t (Some v)) = populated v"
| "populated v = (\<not> IsZero v)"

text \<open>
  Two values are alike when they agree on everything that is not secret, and each secret is set in
  both or is the same in both.
\<close>

inductive alike :: "rvalue \<Rightarrow> rvalue \<Rightarrow> bool" where
  same: "alike x x"
| sections: "list_all2 (\<lambda>p q. fst p = fst q \<and> (isSecret (fst p) \<and> (populated (snd p) \<and> populated (snd q) \<or> snd p = snd q) \<or> \<not> isSecret (fst p) \<and> alike (snd p) (snd q))) fs gs \<Longrightarrow>
    alike (RStruct fs) (RStruct gs)"
| pointers: "alike x y \<Longrightarrow> alike (RPointer t (Some x)) (RPointer t (Some y))"
| slices: "list_all2 alike xs ys \<Longrightarrow> alike (RSlice t (Some xs)) (RSlice t (Some ys))"
| arrays: "list_all2 alike xs ys \<Longrightarrow> alike (RArray t xs) (RArray t ys)"

lemma mask_populated: "populated v \<Longrightarrow> maskSecret v = AText Mask"
  by (induction v rule: populated.induct) auto

lemma redactItems_alike: "list_all2 (\<lambda>x y. redactValue lc x = redactValue lc y) xs ys \<Longrightarrow> redactItems lc xs = redactItems lc ys"
  by (induction rule: list_all2_induct) (auto split: sum.splits)

lemma redactStruct_alike:
  "list_all2 (\<lambda>p q. fst p = fst q \<and> (isSecret (fst p) \<and> maskSecret (snd p) = maskSecret (snd q) \<or> \<not> isSecret (fst p) \<and> redactValue lc (snd p) = redactValue lc (snd q))) fs gs \<Longrightarrow>
    redactStruct lc fs out = redactStruct lc gs out"
proof (induction fs gs arbitrary: out rule: list_all2_induct)
  case (Cons p fs q gs)
  then show ?case by (cases p; cases q) (auto simp: Let_def split: sum.splits)
qed simp

lemma alike_redact: "alike x y \<Longrightarrow> redactValue lc x = redactValue lc y"
proof (induction rule: alike.induct)
  case (sections fs gs)
  then have "redactStruct lc fs [] = redactStruct lc gs []"
    by (intro redactStruct_alike) (auto simp: mask_populated elim!: list_all2_mono)
  then show ?case by simp
next
  case (slices xs ys t)
  then have "redactItems lc xs = redactItems lc ys" by (intro redactItems_alike) (auto elim: list_all2_mono)
  then show ?case by simp
next
  case (arrays xs ys t)
  then have "redactItems lc xs = redactItems lc ys" by (intro redactItems_alike) (auto elim: list_all2_mono)
  then show ?case by simp
qed simp_all

lemma alike_Redact: "alike x y \<Longrightarrow> Redact lc x = Redact lc y"
proof (induction rule: alike.induct)
  case (sections fs gs)
  have "alike (RStruct fs) (RStruct gs)" using sections by (intro alike.sections) (auto elim: list_all2_mono)
  then have "map_sum id AMap (redactStruct lc fs []) = map_sum id AMap (redactStruct lc gs [])" using alike_redact [of "RStruct fs" "RStruct gs" lc] by simp
  then show ?case by (cases "redactStruct lc fs []"; cases "redactStruct lc gs []") simp_all
qed auto

end
