(* ===== verification/Server_Settings.thy ===== *)
theory Server_Settings
  imports Config_Loader
begin

text \<open>
  \<open>Load\<close> and \<open>Redacted\<close> of \<open>internal/config/config.go\<close>: the server's configuration as reflection sees it,
  with the names, tags and types of every field, passed to the loader of \<open>packages/config\<close>.
\<close>

section \<open>The configuration by reflection\<close>

definition env_prefix :: string where "env_prefix = ''HEADNET''"

definition setting :: "string \<Rightarrow> string \<Rightarrow> string \<Rightarrow> StructField" where
  "setting name yaml env = \<lparr>sf_Name = name, sf_Exported = True, sf_env = env, sf_yaml = yaml, sf_secret = []\<rparr>"

definition reflect_Server :: "ServerConfig \<Rightarrow> rvalue" where
  "reflect_Server s = RStruct [
     (setting ''Listen'' ''listen'' ''SERVER_LISTEN'', RString ''string'' (Listen s)),
     (setting ''BaseURL'' ''base_url'' ''SERVER_BASE_URL'', RString ''string'' (BaseURL s)),
     (setting ''AllowInsecureHTTP'' ''allow_insecure_http'' ''SERVER_ALLOW_INSECURE_HTTP'', RBool (AllowInsecureHTTP s)),
     (setting ''ReadTimeout'' ''read_timeout'' ''SERVER_READ_TIMEOUT'', RDuration (ReadTimeout s)),
     (setting ''WriteTimeout'' ''write_timeout'' ''SERVER_WRITE_TIMEOUT'', RDuration (WriteTimeout s)),
     (setting ''IdleTimeout'' ''idle_timeout'' ''SERVER_IDLE_TIMEOUT'', RDuration (IdleTimeout s)),
     (setting ''ShutdownTimeout'' ''shutdown_timeout'' ''SERVER_SHUTDOWN_TIMEOUT'', RDuration (ShutdownTimeout s)),
     (setting ''MaxBodyBytes'' ''max_body_bytes'' ''SERVER_MAX_BODY_BYTES'', RInt 64 (MaxBodyBytes s))]"

definition reflect_Database :: "DatabaseConfig \<Rightarrow> rvalue" where
  "reflect_Database d = RStruct [
     (setting ''Driver'' ''driver'' ''DATABASE_DRIVER'', RString ''config.Driver'' (db_Driver d)),
     (setting ''Path'' ''path'' ''DATABASE_PATH'', RString ''string'' (db_Path d)),
     ((setting ''DSN'' ''dsn'' ''DATABASE_DSN'')\<lparr>sf_secret := ''true''\<rparr>, RString ''string'' (db_DSN d)),
     (setting ''MaxOpenConns'' ''max_open_conns'' ''DATABASE_MAX_OPEN_CONNS'', RInt 64 (MaxOpenConns d)),
     (setting ''MaxIdleConns'' ''max_idle_conns'' ''DATABASE_MAX_IDLE_CONNS'', RInt 64 (MaxIdleConns d)),
     (setting ''ConnMaxLifetime'' ''conn_max_lifetime'' ''DATABASE_CONN_MAX_LIFETIME'', RDuration (ConnMaxLifetime d))]"

definition reflect_Network :: "NetworkConfig \<Rightarrow> rvalue" where
  "reflect_Network n = RStruct [
     (setting ''IPv4CIDR'' ''ipv4_cidr'' ''NETWORK_IPV4_CIDR'', RString ''string'' (IPv4CIDR n)),
     (setting ''IPv6CIDR'' ''ipv6_cidr'' ''NETWORK_IPV6_CIDR'', RString ''string'' (IPv6CIDR n))]"

definition reflect_Auth :: "AuthConfig \<Rightarrow> rvalue" where
  "reflect_Auth a = RStruct [
     (setting ''Providers'' ''providers'' ''AUTH_PROVIDERS'',
       RSlice (TString ''config.AuthProvider'') (Some (map (RString ''config.AuthProvider'') (Providers a)))),
     (setting ''SessionLifetime'' ''session_lifetime'' ''AUTH_SESSION_LIFETIME'', RDuration (SessionLifetime a)),
     (setting ''SessionIdleTimeout'' ''session_idle_timeout'' ''AUTH_SESSION_IDLE_TIMEOUT'', RDuration (SessionIdleTimeout a)),
     (setting ''MinPasswordLength'' ''min_password_length'' ''AUTH_MIN_PASSWORD_LENGTH'', RInt 64 (MinPasswordLength a))]"

definition reflect_Relay :: "RelayConfig \<Rightarrow> rvalue" where
  "reflect_Relay r = RStruct [(setting ''Enabled'' ''enabled'' ''RELAY_ENABLED'', RBool (relay_Enabled r))]"

definition reflect_Log :: "LogConfig \<Rightarrow> rvalue" where
  "reflect_Log l = RStruct [
     (setting ''Level'' ''level'' ''LOG_LEVEL'', RString ''string'' (log_Level l)),
     (setting ''Format'' ''format'' ''LOG_FORMAT'', RString ''string'' (log_Format l)),
     (setting ''AddSource'' ''add_source'' ''LOG_ADD_SOURCE'', RBool (log_AddSource l))]"

definition reflect_RateLimit :: "RateLimitConfig \<Rightarrow> rvalue" where
  "reflect_RateLimit r = RStruct [
     (setting ''Enabled'' ''enabled'' ''RATE_LIMIT_ENABLED'', RBool (rl_Enabled r)),
     (setting ''RequestsPerMinute'' ''requests_per_minute'' ''RATE_LIMIT_REQUESTS_PER_MINUTE'', RInt 64 (RequestsPerMinute r)),
     (setting ''Burst'' ''burst'' ''RATE_LIMIT_BURST'', RInt 64 (Burst r)),
     (setting ''AuthRequestsPerMinute'' ''auth_requests_per_minute'' ''RATE_LIMIT_AUTH_REQUESTS_PER_MINUTE'', RInt 64 (AuthRequestsPerMinute r)),
     (setting ''AuthBurst'' ''auth_burst'' ''RATE_LIMIT_AUTH_BURST'', RInt 64 (AuthBurst r))]"

definition reflect_Observability :: "ObservabilityConfig \<Rightarrow> rvalue" where
  "reflect_Observability b = RStruct [(setting ''MetricsEnabled'' ''metrics_enabled'' ''OBSERVABILITY_METRICS_ENABLED'', RBool (MetricsEnabled b))]"

definition reflect_Config :: "Config \<Rightarrow> rvalue" where
  "reflect_Config c = RStruct [
     (setting ''Environment'' ''environment'' ''ENVIRONMENT'', RString ''config.Environment'' (cfg_Environment c)),
     (setting ''Server'' ''server'' [], reflect_Server (cfg_Server c)),
     (setting ''Database'' ''database'' [], reflect_Database (cfg_Database c)),
     (setting ''Network'' ''network'' [], reflect_Network (cfg_Network c)),
     (setting ''Auth'' ''auth'' [], reflect_Auth (cfg_Auth c)),
     (setting ''Relay'' ''relay'' [], reflect_Relay (cfg_Relay c)),
     (setting ''Log'' ''log'' [], reflect_Log (cfg_Log c)),
     (setting ''RateLimit'' ''rate_limit'' [], reflect_RateLimit (cfg_RateLimit c)),
     (setting ''Observability'' ''observability'' [], reflect_Observability (cfg_Observability c))]"

lemmas reflect_defs = reflect_Config_def reflect_Server_def reflect_Database_def reflect_Network_def reflect_Auth_def
  reflect_Relay_def reflect_Log_def reflect_RateLimit_def reflect_Observability_def

text \<open>The struct a reflected value is: reflection and the program see the same memory.\<close>

definition field :: "string \<Rightarrow> rvalue \<Rightarrow> rvalue" where
  "field n v = (case v of RStruct fs \<Rightarrow> (case find (\<lambda>(f, _). sf_Name f = n) fs of Some (_, x) \<Rightarrow> x | None \<Rightarrow> RBool False) | _ \<Rightarrow> RBool False)"

definition as_string :: "rvalue \<Rightarrow> string" where
  "as_string v = (case v of RString _ s \<Rightarrow> s | _ \<Rightarrow> [])"

definition as_bool :: "rvalue \<Rightarrow> bool" where
  "as_bool v = (case v of RBool b \<Rightarrow> b | _ \<Rightarrow> False)"

definition as_int :: "rvalue \<Rightarrow> int" where
  "as_int v = (case v of RInt _ n \<Rightarrow> n | RDuration d \<Rightarrow> d | _ \<Rightarrow> 0)"

definition as_strings :: "rvalue \<Rightarrow> string list" where
  "as_strings v = (case v of RSlice _ (Some vs) \<Rightarrow> map as_string vs | _ \<Rightarrow> [])"

definition Config_of :: "rvalue \<Rightarrow> Config" where
  "Config_of v = (let s = field ''Server'' v; d = field ''Database'' v; n = field ''Network'' v; a = field ''Auth'' v;
     l = field ''Log'' v; r = field ''RateLimit'' v in \<lparr>
     cfg_Environment = as_string (field ''Environment'' v),
     cfg_Server = \<lparr>Listen = as_string (field ''Listen'' s), BaseURL = as_string (field ''BaseURL'' s), AllowInsecureHTTP = as_bool (field ''AllowInsecureHTTP'' s),
       ReadTimeout = as_int (field ''ReadTimeout'' s), WriteTimeout = as_int (field ''WriteTimeout'' s), IdleTimeout = as_int (field ''IdleTimeout'' s),
       ShutdownTimeout = as_int (field ''ShutdownTimeout'' s), MaxBodyBytes = as_int (field ''MaxBodyBytes'' s)\<rparr>,
     cfg_Database = \<lparr>db_Driver = as_string (field ''Driver'' d), db_Path = as_string (field ''Path'' d), db_DSN = as_string (field ''DSN'' d),
       MaxOpenConns = as_int (field ''MaxOpenConns'' d), MaxIdleConns = as_int (field ''MaxIdleConns'' d), ConnMaxLifetime = as_int (field ''ConnMaxLifetime'' d)\<rparr>,
     cfg_Network = \<lparr>IPv4CIDR = as_string (field ''IPv4CIDR'' n), IPv6CIDR = as_string (field ''IPv6CIDR'' n)\<rparr>,
     cfg_Auth = \<lparr>Providers = as_strings (field ''Providers'' a), SessionLifetime = as_int (field ''SessionLifetime'' a),
       SessionIdleTimeout = as_int (field ''SessionIdleTimeout'' a), MinPasswordLength = as_int (field ''MinPasswordLength'' a)\<rparr>,
     cfg_Relay = \<lparr>relay_Enabled = as_bool (field ''Enabled'' (field ''Relay'' v))\<rparr>,
     cfg_Log = \<lparr>log_Level = as_string (field ''Level'' l), log_Format = as_string (field ''Format'' l), log_AddSource = as_bool (field ''AddSource'' l)\<rparr>,
     cfg_RateLimit = \<lparr>rl_Enabled = as_bool (field ''Enabled'' r), RequestsPerMinute = as_int (field ''RequestsPerMinute'' r), Burst = as_int (field ''Burst'' r),
       AuthRequestsPerMinute = as_int (field ''AuthRequestsPerMinute'' r), AuthBurst = as_int (field ''AuthBurst'' r)\<rparr>,
     cfg_Observability = \<lparr>MetricsEnabled = as_bool (field ''MetricsEnabled'' (field ''Observability'' v))\<rparr>\<rparr>)"

section \<open>Loading and rendering\<close>

definition settings_Load :: "host \<Rightarrow> (nat \<Rightarrow> nat) \<Rightarrow> (string \<Rightarrow> (string \<times> string) option) \<Rightarrow> string \<Rightarrow> Config res" where
  "settings_Load h lc parse_url path =
     (let cfg = reflect_Config Default in
      case config_Load h (Some (\<lambda>v. Config_Validate lc parse_url (Config_of v))) path (RPointer (type_of cfg) (Some cfg))
          \<lparr>EnvPrefix = env_prefix, Getenv = None\<rparr> of
        (Ret _, RPointer _ (Some v)) \<Rightarrow> Ret (Config_of v)
      | (Ret _, _) \<Rightarrow> Ret Default
      | (Err e, _) \<Rightarrow> Err e
      | (Panic p, _) \<Rightarrow> Panic p)"

definition Redacted :: "(nat \<Rightarrow> nat) \<Rightarrow> Config \<Rightarrow> error + (string \<times> any) list" where
  "Redacted lc c = Redact lc (RPointer (type_of (reflect_Config c)) (Some (reflect_Config c)))"

lemmas view_defs = field_def as_string_def as_bool_def as_int_def as_strings_def setting_def

lemma Config_of_reflect: "Config_of (reflect_Config c) = c"
  by (simp add: Config_of_def reflect_defs view_defs Let_def o_def)

lemma reflect_Server_inv: "type_of v = type_of (reflect_Server s) \<Longrightarrow> \<exists>s'. v = reflect_Server s'"
proof -
  assume "type_of v = type_of (reflect_Server s)"
  then obtain a b c d e f g i where "v = reflect_Server \<lparr>Listen = a, BaseURL = b, AllowInsecureHTTP = c, ReadTimeout = d, WriteTimeout = e, IdleTimeout = f, ShutdownTimeout = g, MaxBodyBytes = i\<rparr>"
    by (auto simp: reflect_Server_def type_inv map_eq_Cons_conv)
  then show ?thesis by blast
qed

lemma reflect_Database_inv: "type_of v = type_of (reflect_Database s) \<Longrightarrow> \<exists>s'. v = reflect_Database s'"
proof -
  assume "type_of v = type_of (reflect_Database s)"
  then obtain a b c d e f where "v = reflect_Database \<lparr>db_Driver = a, db_Path = b, db_DSN = c, MaxOpenConns = d, MaxIdleConns = e, ConnMaxLifetime = f\<rparr>"
    by (auto simp: reflect_Database_def type_inv map_eq_Cons_conv)
  then show ?thesis by blast
qed

lemma reflect_Network_inv: "type_of v = type_of (reflect_Network s) \<Longrightarrow> \<exists>s'. v = reflect_Network s'"
proof -
  assume "type_of v = type_of (reflect_Network s)"
  then obtain a b where "v = reflect_Network \<lparr>IPv4CIDR = a, IPv6CIDR = b\<rparr>"
    by (auto simp: reflect_Network_def type_inv map_eq_Cons_conv)
  then show ?thesis by blast
qed

lemma reflect_Auth_inv:
  "type_of v = type_of (reflect_Auth s) \<Longrightarrow> field ''Providers'' v = field ''Providers'' (reflect_Auth s) \<Longrightarrow> \<exists>s'. v = reflect_Auth s'"
proof -
  assume "type_of v = type_of (reflect_Auth s)" "field ''Providers'' v = field ''Providers'' (reflect_Auth s)"
  then obtain b c d where "v = reflect_Auth \<lparr>Providers = Providers s, SessionLifetime = b, SessionIdleTimeout = c, MinPasswordLength = d\<rparr>"
    by (auto simp: reflect_Auth_def type_inv map_eq_Cons_conv field_def setting_def)
  then show ?thesis by blast
qed

lemma reflect_small_inv:
  "type_of v = type_of (reflect_Relay r) \<Longrightarrow> \<exists>r'. v = reflect_Relay r'"
  "type_of v = type_of (reflect_Observability b) \<Longrightarrow> \<exists>b'. v = reflect_Observability b'"
proof -
  assume "type_of v = type_of (reflect_Relay r)"
  then obtain a where "v = reflect_Relay \<lparr>relay_Enabled = a\<rparr>" by (auto simp: reflect_Relay_def type_inv map_eq_Cons_conv)
  then show "\<exists>r'. v = reflect_Relay r'" by blast
next
  assume "type_of v = type_of (reflect_Observability b)"
  then obtain a where "v = reflect_Observability \<lparr>MetricsEnabled = a\<rparr>" by (auto simp: reflect_Observability_def type_inv map_eq_Cons_conv)
  then show "\<exists>b'. v = reflect_Observability b'" by blast
qed

lemma reflect_Log_inv: "type_of v = type_of (reflect_Log s) \<Longrightarrow> \<exists>s'. v = reflect_Log s'"
proof -
  assume "type_of v = type_of (reflect_Log s)"
  then obtain a b c where "v = reflect_Log \<lparr>log_Level = a, log_Format = b, log_AddSource = c\<rparr>"
    by (auto simp: reflect_Log_def type_inv map_eq_Cons_conv)
  then show ?thesis by blast
qed

lemma reflect_RateLimit_inv: "type_of v = type_of (reflect_RateLimit s) \<Longrightarrow> \<exists>s'. v = reflect_RateLimit s'"
proof -
  assume "type_of v = type_of (reflect_RateLimit s)"
  then obtain a b c d e where "v = reflect_RateLimit \<lparr>rl_Enabled = a, RequestsPerMinute = b, Burst = c, AuthRequestsPerMinute = d, AuthBurst = e\<rparr>"
    by (auto simp: reflect_RateLimit_def type_inv map_eq_Cons_conv)
  then show ?thesis by blast
qed

lemma from_env_named_slice:
  "from_env h opts prefix (f, RSlice (TString t) vs) q \<Longrightarrow> t \<noteq> ''string'' \<Longrightarrow> snd q = RSlice (TString t) vs"
  by (auto simp: from_env_def setValue_def Let_def split: option.splits if_splits)

lemma leaves_reflect:
  "leaves (reflect_Config c) = (setting ''Environment'' ''environment'' ''ENVIRONMENT'', RString ''config.Environment'' (cfg_Environment c)) #
     leaves (reflect_Server (cfg_Server c)) @ leaves (reflect_Database (cfg_Database c)) @ leaves (reflect_Network (cfg_Network c)) @ leaves (reflect_Auth (cfg_Auth c)) @
     leaves (reflect_Relay (cfg_Relay c)) @ leaves (reflect_Log (cfg_Log c)) @ leaves (reflect_RateLimit (cfg_RateLimit c)) @ leaves (reflect_Observability (cfg_Observability c))"
proof -
  have str: "is_struct (reflect_Server s)" "is_struct (reflect_Database d)" "is_struct (reflect_Network n)" "is_struct (reflect_Auth a)" "is_struct (reflect_Relay r)"
    "is_struct (reflect_Log l)" "is_struct (reflect_RateLimit t)" "is_struct (reflect_Observability b)" for s d n a r l t b
    by (simp_all add: is_struct_def reflect_defs)
  have "\<not> is_struct (RString t x)" for t x by (simp add: is_struct_def)
  then show ?thesis unfolding reflect_Config_def leaves_struct by (simp add: field_leaves_def str setting_def)
qed

lemma leaves_sections:
  "length (leaves (reflect_Server s)) = 8" "length (leaves (reflect_Database d)) = 6" "length (leaves (reflect_Network n)) = 2"
  by (simp_all add: reflect_defs leaves_struct field_leaves_def setting_def is_struct_def del: leaves.simps)

lemma overlaid_Config:
  assumes "overlaid h opts prefix (reflect_Config c0) v"
  shows "\<exists>c. v = reflect_Config c"
proof -
  have "type_of v = type_of (reflect_Config c0)" using assms by (simp add: overlaid_def)
  then obtain e s d n a r l t b where v: "v = RStruct [(setting ''Environment'' ''environment'' ''ENVIRONMENT'', RString ''config.Environment'' e),
     (setting ''Server'' ''server'' [], s), (setting ''Database'' ''database'' [], d), (setting ''Network'' ''network'' [], n), (setting ''Auth'' ''auth'' [], a),
     (setting ''Relay'' ''relay'' [], r), (setting ''Log'' ''log'' [], l), (setting ''RateLimit'' ''rate_limit'' [], t), (setting ''Observability'' ''observability'' [], b)]"
    and types: "type_of s = type_of (reflect_Server (cfg_Server c0))" "type_of d = type_of (reflect_Database (cfg_Database c0))" "type_of n = type_of (reflect_Network (cfg_Network c0))"
      "type_of a = type_of (reflect_Auth (cfg_Auth c0))" "type_of r = type_of (reflect_Relay (cfg_Relay c0))" "type_of l = type_of (reflect_Log (cfg_Log c0))"
      "type_of t = type_of (reflect_RateLimit (cfg_RateLimit c0))" "type_of b = type_of (reflect_Observability (cfg_Observability c0))"
    unfolding reflect_Config_def by (simp add: type_inv(6) map_eq_Cons_conv) (auto simp: type_inv(1))
  obtain s' d' n' r' l' t' b' where secs: "s = reflect_Server s'" "d = reflect_Database d'" "n = reflect_Network n'" "r = reflect_Relay r'" "l = reflect_Log l'" "t = reflect_RateLimit t'" "b = reflect_Observability b'"
    using types reflect_Server_inv reflect_Database_inv reflect_Network_inv reflect_small_inv reflect_Log_inv reflect_RateLimit_inv by meson
  obtain ps x y z where a: "a = RStruct [(setting ''Providers'' ''providers'' ''AUTH_PROVIDERS'', RSlice (TString ''config.AuthProvider'') ps),
      (setting ''SessionLifetime'' ''session_lifetime'' ''AUTH_SESSION_LIFETIME'', x), (setting ''SessionIdleTimeout'' ''session_idle_timeout'' ''AUTH_SESSION_IDLE_TIMEOUT'', y),
      (setting ''MinPasswordLength'' ''min_password_length'' ''AUTH_MIN_PASSWORD_LENGTH'', z)]"
    using types(4) by (auto simp: reflect_Auth_def type_inv map_eq_Cons_conv)
  have rel: "list_all2 (from_env h opts prefix) (leaves (reflect_Config c0)) (leaves v)" using assms by (simp add: overlaid_def)
  have "leaves (reflect_Config c0) ! 17 = (setting ''Providers'' ''providers'' ''AUTH_PROVIDERS'',
      RSlice (TString ''config.AuthProvider'') (Some (map (RString ''config.AuthProvider'') (Providers (cfg_Auth c0)))))"
    unfolding leaves_reflect by (simp add: nth_append leaves_sections) (simp add: reflect_Auth_def setting_def is_struct_def)
  moreover have "leaves v ! 17 = (setting ''Providers'' ''providers'' ''AUTH_PROVIDERS'', RSlice (TString ''config.AuthProvider'') ps)"
    unfolding v secs a by (simp add: leaves_struct field_leaves_def reflect_defs setting_def is_struct_def del: leaves.simps)
  moreover have "17 < length (leaves (reflect_Config c0))" unfolding leaves_reflect by (simp add: leaves_sections) (simp add: reflect_Auth_def setting_def is_struct_def)
  ultimately have "ps = Some (map (RString ''config.AuthProvider'') (Providers (cfg_Auth c0)))"
    using list_all2_nthD [OF rel, of 17] from_env_named_slice by fastforce
  then have "field ''Providers'' a = field ''Providers'' (reflect_Auth (cfg_Auth c0))" by (simp add: a reflect_Auth_def field_def setting_def)
  then obtain a' where "a = reflect_Auth a'" using reflect_Auth_inv types(4) by blast
  then have "v = reflect_Config \<lparr>cfg_Environment = e, cfg_Server = s', cfg_Database = d', cfg_Network = n', cfg_Auth = a', cfg_Relay = r', cfg_Log = l', cfg_RateLimit = t', cfg_Observability = b'\<rparr>"
    using v secs by (simp add: reflect_Config_def)
  then show ?thesis by blast
qed

section \<open>The layers of a loaded configuration\<close>

definition file_gives :: "host \<Rightarrow> string \<Rightarrow> Config \<Rightarrow> bool" where
  "file_gives h path c \<longleftrightarrow> (if path = [] then c = Default else (\<exists>raw. h_readFile h path = Inr raw \<and>
     (if TrimSpace raw = [] then c = Default else h_unmarshal h raw (reflect_Config Default) = (None, reflect_Config c))))"

text \<open>The decoder fills in the struct it is given: the result is a configuration again.\<close>

definition decodes_structs :: "host \<Rightarrow> bool" where
  "decodes_structs h \<longleftrightarrow> (\<forall>raw c err v. h_unmarshal h raw (reflect_Config c) = (err, v) \<longrightarrow> (\<exists>c'. v = reflect_Config c'))"

definition server_options :: Options where
  "server_options = \<lparr>EnvPrefix = env_prefix, Getenv = None\<rparr>"

definition overrides :: "host \<Rightarrow> Config \<Rightarrow> Config \<Rightarrow> bool" where
  "overrides h c c' \<longleftrightarrow> list_all2 (from_env h server_options env_prefix) (leaves (reflect_Config c)) (leaves (reflect_Config c'))"

lemma leaves_inj: "leaves (reflect_Config c) = leaves (reflect_Config c') \<Longrightarrow> c = c'"
  by (simp add: leaves_struct field_leaves_def reflect_defs setting_def is_struct_def del: leaves.simps)
    (auto intro!: Config.equality ServerConfig.equality DatabaseConfig.equality NetworkConfig.equality AuthConfig.equality RelayConfig.equality LogConfig.equality RateLimitConfig.equality ObservabilityConfig.equality simp: inj_map_eq_map inj_def)

lemma applyEnv_Config: "applyEnv h server_options env_prefix (reflect_Config c) = (Ret u, v) \<longleftrightarrow> (\<exists>c'. v = reflect_Config c' \<and> overrides h c c')"
proof
  assume "applyEnv h server_options env_prefix (reflect_Config c) = (Ret u, v)"
  then have o: "overlaid h server_options env_prefix (reflect_Config c) v" by (rule applyEnv_Ret)
  then show "\<exists>c'. v = reflect_Config c' \<and> overrides h c c'" using overlaid_Config [OF o] by (auto simp: overlaid_def overrides_def)
next
  assume "\<exists>c'. v = reflect_Config c' \<and> overrides h c c'"
  then obtain c' where c': "v = reflect_Config c'" "overrides h c c'" by blast
  have "is_struct (reflect_Config c)" by (simp add: is_struct_def reflect_Config_def)
  moreover have "\<forall>p \<in> set (leaves (reflect_Config c)). \<exists>q. from_env h server_options env_prefix p q"
    using c'(2) by (metis overrides_def list_all2_conv_all_nth in_set_conv_nth)
  ultimately obtain w where w: "applyEnv h server_options env_prefix (reflect_Config c) = (Ret (), w)" using applyEnv_total(1) by blast
  then have o: "overlaid h server_options env_prefix (reflect_Config c) w" by (rule applyEnv_Ret)
  then obtain c'' where "w = reflect_Config c''" using overlaid_Config by blast
  then have "c'' = c'" using o c'(2) from_env_list_unique leaves_inj by (metis overlaid_def overrides_def)
  then show "applyEnv h server_options env_prefix (reflect_Config c) = (Ret u, v)" using w \<open>w = reflect_Config c''\<close> c' by simp
qed

lemma reflect_inj: "reflect_Config c = reflect_Config c' \<longleftrightarrow> c = c'"
  by (metis Config_of_reflect)

lemma file_layer:
  assumes "decodes_structs h"
  shows "(if path \<noteq> [] then loadFile h path (reflect_Config Default) else (Ret (), reflect_Config Default)) = (Ret u, v) \<longleftrightarrow>
    (\<exists>c. v = reflect_Config c \<and> file_gives h path c)"
proof (cases "path = [] \<or> (\<exists>e. h_readFile h path = Inl e)")
  case True
  then show ?thesis by (auto simp: file_gives_def loadFile_def)
next
  case False
  then obtain raw where raw: "path \<noteq> []" "h_readFile h path = Inr raw" by (cases "h_readFile h path") auto
  obtain err w where u: "h_unmarshal h raw (reflect_Config Default) = (err, w)" by fastforce
  then obtain c where "w = reflect_Config c" using assms unfolding decodes_structs_def by meson
  then show ?thesis using raw u by (auto simp: file_gives_def loadFile_def reflect_inj split: option.splits)
qed

lemma andThen_Ret: "andThen p k = (Ret u, v) \<longleftrightarrow> (\<exists>w x. p = (Ret w, x) \<and> k x = (Ret u, v))"
  by (auto simp: andThen_def split: prod.splits res.splits)

lemma settings_Load_Ret:
  assumes "decodes_structs h"
  shows "settings_Load h lc parse_url path = Ret c \<longleftrightarrow>
    Config_Validate lc parse_url c = None \<and> (\<exists>c0. file_gives h path c0 \<and> overrides h c0 c)"
proof -
  let ?V = "\<lambda>v. Config_Validate lc parse_url (Config_of v)"
  let ?check = "\<lambda>s2. case ?V s2 of None \<Rightarrow> (Ret (), s2) | Some err \<Rightarrow> (Err (wrap ''invalid configuration'' err), s2)"
  define run where "run = andThen (if path \<noteq> [] then loadFile h path (reflect_Config Default) else (Ret (), reflect_Config Default))
    (\<lambda>s1. andThen (applyEnv h server_options env_prefix s1) ?check)"
  have st: "is_struct (reflect_Config Default)" by (simp add: is_struct_def reflect_Config_def)
  have pre: "env_prefix \<noteq> []" by (simp add: env_prefix_def)
  have "settings_Load h lc parse_url path = Ret c \<longleftrightarrow> (\<exists>u v. run = (Ret u, v) \<and> c = Config_of v)"
    using pre st unfolding settings_Load_def config_Load_def run_def server_options_def Let_def
    by (auto split: prod.splits res.splits)
  moreover have check: "?check x = (Ret u, v) \<longleftrightarrow> ?V x = None \<and> v = x" for x u v by (auto split: option.splits)
  have "run = (Ret u, v) \<longleftrightarrow> (\<exists>c0 c1. file_gives h path c0 \<and> overrides h c0 c1 \<and> Config_Validate lc parse_url c1 = None \<and> v = reflect_Config c1)" for u v
  proof -
    have "run = (Ret u, v) \<longleftrightarrow> (\<exists>c0. file_gives h path c0 \<and> applyEnv h server_options env_prefix (reflect_Config c0) = (Ret (), v) \<and> ?V v = None)"
      unfolding run_def andThen_Ret file_layer [OF assms] check by auto
    then show ?thesis unfolding applyEnv_Config by (auto simp: Config_of_reflect reflect_inj)
  qed
  ultimately show ?thesis by (metis Config_of_reflect)
qed
section \<open>The rendering of the server's configuration\<close>

definition durations :: "Config \<Rightarrow> int list" where
  "durations c = [ReadTimeout (cfg_Server c), WriteTimeout (cfg_Server c), IdleTimeout (cfg_Server c), ShutdownTimeout (cfg_Server c),
     ConnMaxLifetime (cfg_Database c), SessionLifetime (cfg_Auth c), SessionIdleTimeout (cfg_Auth c)]"

lemma Duration_String_inj: "int64_range d \<Longrightarrow> int64_range e \<Longrightarrow> Duration_String d = Duration_String e \<longleftrightarrow> d = e"
  by (metis ParseDuration_String option.inject)

lemma redactItems_strings: "redactItems lc (map (RString t) xs) = Inr (map (\<lambda>x. Interface (RString t x)) xs)"
  by (induction xs) auto

lemma fieldName_setting:
  "yaml \<noteq> [] \<Longrightarrow> CHR '','' \<notin> set yaml \<Longrightarrow> yaml \<noteq> ''-'' \<Longrightarrow> fieldName lc (setting n yaml e) = yaml"
  "yaml \<noteq> [] \<Longrightarrow> CHR '','' \<notin> set yaml \<Longrightarrow> yaml \<noteq> ''-'' \<Longrightarrow> fieldName lc ((setting n yaml e)\<lparr>sf_secret := x\<rparr>) = yaml"
  by (simp_all add: fieldName_def setting_def Cut_def)

lemma setting_flags: "sf_Exported (setting n y e)" "\<not> isSecret (setting n y e)" "isSecret ((setting n y e)\<lparr>sf_secret := ''true''\<rparr>)" "sf_Exported ((setting n y e)\<lparr>sf_secret := x\<rparr>)"
  by (simp_all add: setting_def isSecret_def)

lemma redacted_Database:
  "redactValue lc (reflect_Database d) = Inr (AMap [(''driver'', AValue (RString ''config.Driver'' (db_Driver d))), (''path'', AText (db_Path d)),
     (''dsn'', AText (if db_DSN d = [] then [] else Mask)), (''max_open_conns'', AValue (RInt 64 (MaxOpenConns d))),
     (''max_idle_conns'', AValue (RInt 64 (MaxIdleConns d))), (''conn_max_lifetime'', AText (Duration_String (ConnMaxLifetime d)))])"
  by (simp add: reflect_Database_def fieldName_setting setting_flags Interface_def Let_def)

lemma redacted_Server:
  "redactValue lc (reflect_Server s) = Inr (AMap [(''listen'', AText (Listen s)), (''base_url'', AText (BaseURL s)), (''allow_insecure_http'', AValue (RBool (AllowInsecureHTTP s))),
     (''read_timeout'', AText (Duration_String (ReadTimeout s))), (''write_timeout'', AText (Duration_String (WriteTimeout s))), (''idle_timeout'', AText (Duration_String (IdleTimeout s))),
     (''shutdown_timeout'', AText (Duration_String (ShutdownTimeout s))), (''max_body_bytes'', AValue (RInt 64 (MaxBodyBytes s)))])"
  by (simp add: reflect_Server_def fieldName_setting setting_flags Interface_def Let_def)

lemma redacted_Network:
  "redactValue lc (reflect_Network n) = Inr (AMap [(''ipv4_cidr'', AText (IPv4CIDR n)), (''ipv6_cidr'', AText (IPv6CIDR n))])"
  by (simp add: reflect_Network_def fieldName_setting setting_flags Interface_def Let_def)

lemma redacted_Auth:
  "redactValue lc (reflect_Auth a) = Inr (AMap [(''providers'', AItems (map (\<lambda>p. AValue (RString ''config.AuthProvider'' p)) (Providers a))),
     (''session_lifetime'', AText (Duration_String (SessionLifetime a))), (''session_idle_timeout'', AText (Duration_String (SessionIdleTimeout a))),
     (''min_password_length'', AValue (RInt 64 (MinPasswordLength a)))])"
  by (simp add: reflect_Auth_def fieldName_setting setting_flags Interface_def Let_def redactItems_strings)

lemma redacted_rest:
  "redactValue lc (reflect_Relay r) = Inr (AMap [(''enabled'', AValue (RBool (relay_Enabled r)))])"
  "redactValue lc (reflect_Observability b) = Inr (AMap [(''metrics_enabled'', AValue (RBool (MetricsEnabled b)))])"
  "redactValue lc (reflect_Log l) = Inr (AMap [(''level'', AText (log_Level l)), (''format'', AText (log_Format l)), (''add_source'', AValue (RBool (log_AddSource l)))])"
  "redactValue lc (reflect_RateLimit t) = Inr (AMap [(''enabled'', AValue (RBool (rl_Enabled t))), (''requests_per_minute'', AValue (RInt 64 (RequestsPerMinute t))),
     (''burst'', AValue (RInt 64 (Burst t))), (''auth_requests_per_minute'', AValue (RInt 64 (AuthRequestsPerMinute t))), (''auth_burst'', AValue (RInt 64 (AuthBurst t)))])"
  by (simp_all add: reflect_Relay_def reflect_Observability_def reflect_Log_def reflect_RateLimit_def fieldName_setting setting_flags Interface_def Let_def)

lemma Redacted_fields:
  "Redacted lc c = Inr [(''environment'', AValue (RString ''config.Environment'' (cfg_Environment c))),
     (''server'', projr (redactValue lc (reflect_Server (cfg_Server c)))), (''database'', projr (redactValue lc (reflect_Database (cfg_Database c)))),
     (''network'', projr (redactValue lc (reflect_Network (cfg_Network c)))), (''auth'', projr (redactValue lc (reflect_Auth (cfg_Auth c)))),
     (''relay'', projr (redactValue lc (reflect_Relay (cfg_Relay c)))), (''log'', projr (redactValue lc (reflect_Log (cfg_Log c)))),
     (''rate_limit'', projr (redactValue lc (reflect_RateLimit (cfg_RateLimit c)))), (''observability'', projr (redactValue lc (reflect_Observability (cfg_Observability c))))]"
  by (simp add: Redacted_def reflect_Config_def fieldName_setting setting_flags Interface_def Let_def redacted_Database redacted_Server redacted_Network redacted_Auth redacted_rest)

lemma Redacted_eq_iff:
  assumes "\<forall>d \<in> set (durations c). int64_range d" "\<forall>d \<in> set (durations c'). int64_range d"
  shows "Redacted lc c = Redacted lc c' \<longleftrightarrow> c\<lparr>cfg_Database := (cfg_Database c)\<lparr>db_DSN := []\<rparr>\<rparr> = c'\<lparr>cfg_Database := (cfg_Database c')\<lparr>db_DSN := []\<rparr>\<rparr> \<and>
    (db_DSN (cfg_Database c) = [] \<longleftrightarrow> db_DSN (cfg_Database c') = [])"
proof -
  note sections = redacted_Database redacted_Server redacted_Network redacted_Auth redacted_rest
  have inj: "inj (\<lambda>p. AValue (RString ''config.AuthProvider'' p))" by (simp add: inj_def)
  obtain e s d n a r l t b where c: "c = \<lparr>cfg_Environment = e, cfg_Server = s, cfg_Database = d, cfg_Network = n, cfg_Auth = a, cfg_Relay = r, cfg_Log = l, cfg_RateLimit = t, cfg_Observability = b\<rparr>"
    by (cases c)
  obtain e' s' d' n' a' r' l' t' b' where c': "c' = \<lparr>cfg_Environment = e', cfg_Server = s', cfg_Database = d', cfg_Network = n', cfg_Auth = a', cfg_Relay = r', cfg_Log = l', cfg_RateLimit = t', cfg_Observability = b'\<rparr>"
    by (cases c')
  show ?thesis
    using assms unfolding Redacted_fields sections c c' durations_def
    by (cases s; cases d; cases n; cases a; cases r; cases l; cases t; cases b; cases s'; cases d'; cases n'; cases a'; cases r'; cases l'; cases t'; cases b')
      (auto simp: Duration_String_inj inj_map_eq_map [OF inj] Mask_def)
qed

end
