(* ===== verification/Config_Theorems.thy ===== *)
theory Config_Theorems
  imports Server_Settings Sample_Server
begin

text \<open>The properties of loading the server's configuration and of rendering it without secrets.\<close>

section \<open>A sample host\<close>

definition sample_host :: "(string \<Rightarrow> string) \<Rightarrow> host" where
  "sample_host env = \<lparr>h_getenv = env, h_readFile = (\<lambda>path. if path = ''/etc/headnet.yaml'' then Inr ''network: {}'' else Inl ErrNotExist),
     h_unmarshal = (\<lambda>raw v. (None, reflect_Config ((Config_of v)\<lparr>cfg_Network := sample_network\<rparr>))), h_parseFloat = (\<lambda>_ _. None)\<rparr>"

definition one_variable :: "string \<Rightarrow> string \<Rightarrow> string \<Rightarrow> string" where
  "one_variable name val key = (if key = name then val else [])"

lemma sample_decodes: "decodes_structs (sample_host env)"
  by (auto simp: decodes_structs_def sample_host_def)

definition sourced_config :: Config where
  "sourced_config = sample_config\<lparr>cfg_Log := (cfg_Log sample_config)\<lparr>log_AddSource := True\<rparr>\<rparr>"

lemma sourced_valid: "Config_Validate (lib_lower sample_lib) (lib_ParseURL sample_lib) sourced_config = None"
  using sample_config_valid unfolding Config_Validate_None sourced_config_def by (auto simp: Log_validate_def validateEnvironment_def split: if_splits)

lemma sample_file: "file_gives (sample_host env) ''/etc/headnet.yaml'' sample_config"
  by (simp add: file_gives_def sample_host_def Config_of_reflect sample_config_def str_simps)

lemma sample_overrides:
  "overrides (sample_host (one_variable ''HEADNET_LOG_ADD_SOURCE'' '' true'')) sample_config sourced_config"
  unfolding overrides_def sourced_config_def
  by (simp add: leaves_struct field_leaves_def reflect_defs setting_def is_struct_def from_env_def env_key_def env_prefix_def server_options_def getenv_def
      sample_host_def one_variable_def TrimSpace_Nil del: leaves.simps)
    (simp add: str_simps setValue_def parsed_def ParseBool_def)

section \<open>Properties\<close>

text \<open>
  C15: Loading yields a configuration exactly when the named file can be read and decoded and the
  result is valid, and then each setting is the one its environment variable spells, where that is set
  and not blank, and otherwise the one of the file, or the default. The check comes last: what is
  validated is what is returned.
\<close>

theorem settings_layered:
  assumes "decodes_structs h"
  shows "settings_Load h lc parse_url path = Ret c \<longleftrightarrow>
    Config_Validate lc parse_url c = None \<and> (\<exists>c0. file_gives h path c0 \<and> overrides h c0 c)"
  using assms by (rule settings_Load_Ret)

theorem settings_layered_witness:
  "settings_Load (sample_host (one_variable ''HEADNET_LOG_ADD_SOURCE'' '' true'')) (lib_lower sample_lib) (lib_ParseURL sample_lib) ''/etc/headnet.yaml'' = Ret sourced_config"
  using settings_layered [OF sample_decodes] sourced_valid sample_file sample_overrides by blast

text \<open>
  C32: The variable that is documented to list the authentication providers makes the server fail.
  Whatever it is set to, no configuration is loaded; set alone, as in the example environment file, it
  makes the loader panic, because a list of strings is assigned to a list of another type.
\<close>

theorem providers_variable_panics:
  assumes "decodes_structs h" "TrimSpace (h_getenv h ''HEADNET_AUTH_PROVIDERS'') \<noteq> []"
  shows "(\<nexists>c. settings_Load h lc parse_url path = Ret c) \<and>
    ((\<forall>key. key \<noteq> ''HEADNET_AUTH_PROVIDERS'' \<longrightarrow> h_getenv h key = []) \<longrightarrow> (\<exists>p. settings_Load h lc parse_url [] = Panic p))"
proof (intro conjI impI)
  have "\<not> overrides h c0 c" for c0 c
  proof
    assume "overrides h c0 c"
    then have "from_env h server_options env_prefix (leaves (reflect_Config c0) ! 17) (leaves (reflect_Config c) ! 17)"
      unfolding overrides_def by (rule list_all2_nthD) (simp add: leaves_struct field_leaves_def reflect_defs setting_def is_struct_def del: leaves.simps)
    then show False using assms(2)
      by (simp add: leaves_struct field_leaves_def reflect_defs setting_def is_struct_def from_env_def env_key_def env_prefix_def server_options_def getenv_def setValue_def Let_def del: leaves.simps)
  qed
  then show "\<nexists>c. settings_Load h lc parse_url path = Ret c" using settings_Load_Ret [OF assms(1)] by blast
next
  assume "\<forall>key. key \<noteq> ''HEADNET_AUTH_PROVIDERS'' \<longrightarrow> h_getenv h key = []"
  then have blank: "key \<noteq> ''HEADNET_AUTH_PROVIDERS'' \<Longrightarrow> h_getenv h key = []" for key by blast
  show "\<exists>p. settings_Load h lc parse_url [] = Panic p"
    using assms(2)
    by (simp add: settings_Load_def config_Load_def Let_def andThen_def reflect_defs is_struct_def env_prefix_def env_key_def getenv_def setting_def
        blank TrimSpace_Nil setValue_def)
qed

theorem providers_variable_panics_witness:
  "\<exists>p. settings_Load (sample_host (one_variable ''HEADNET_AUTH_PROVIDERS'' ''local'')) (lib_lower sample_lib) (lib_ParseURL sample_lib) [] = Panic p"
proof -
  let ?h = "sample_host (one_variable ''HEADNET_AUTH_PROVIDERS'' ''local'')"
  have "TrimSpace (h_getenv ?h ''HEADNET_AUTH_PROVIDERS'') \<noteq> []" by (simp add: sample_host_def one_variable_def str_simps)
  moreover have "\<forall>key. key \<noteq> ''HEADNET_AUTH_PROVIDERS'' \<longrightarrow> h_getenv ?h key = []" by (simp add: sample_host_def one_variable_def)
  ultimately show ?thesis using providers_variable_panics [OF sample_decodes] by blast
qed

text \<open>
  C17: The printed configuration discloses of the database password only whether there is one, and
  everything else in full: two configurations print the same exactly when they agree on every other
  setting and both or neither have a connection string.
\<close>

theorem redaction_exact:
  assumes "\<forall>d \<in> set (durations c). int64_range d" "\<forall>d \<in> set (durations c'). int64_range d"
  shows "Redacted lc c = Redacted lc c' \<longleftrightarrow>
    c\<lparr>cfg_Database := (cfg_Database c)\<lparr>db_DSN := []\<rparr>\<rparr> = c'\<lparr>cfg_Database := (cfg_Database c')\<lparr>db_DSN := []\<rparr>\<rparr> \<and>
    (db_DSN (cfg_Database c) = [] \<longleftrightarrow> db_DSN (cfg_Database c') = [])"
  using assms by (rule Redacted_eq_iff)

theorem redaction_exact_witness:
  "Redacted id (Default\<lparr>cfg_Database := (cfg_Database Default)\<lparr>db_DSN := ''password=a''\<rparr>\<rparr>) =
     Redacted id (Default\<lparr>cfg_Database := (cfg_Database Default)\<lparr>db_DSN := ''password=b''\<rparr>\<rparr>) \<and>
   Redacted id (Default\<lparr>cfg_Database := (cfg_Database Default)\<lparr>db_DSN := ''password=a''\<rparr>\<rparr>) \<noteq> Redacted id Default"
proof -
  have "\<forall>d \<in> set (durations (Default\<lparr>cfg_Database := (cfg_Database Default)\<lparr>db_DSN := x\<rparr>\<rparr>)). int64_range d" "\<forall>d \<in> set (durations Default). int64_range d" for x
    by (simp_all add: durations_def Default_def duration_defs int64_range_def)
  then show ?thesis by (simp add: redaction_exact) (simp add: Default_def)
qed

text \<open>
  Of any struct, nested to any depth, the rendering does not depend on a field tagged as secret
  beyond whether it is set: structs that agree outside their secrets, and in which the same secrets
  are set, render alike.
\<close>

theorem secrets_masked:
  assumes "alike x y"
  shows "Redact lc x = Redact lc y"
  using assms by (rule alike_Redact)

theorem secrets_masked_witness:
  "Redact id (RStruct [(setting ''Name'' ''name'' [], RString ''string'' ''a''),
       (setting ''Inner'' ''inner'' [], RPointer TBool (Some (RStruct [((setting ''Key'' ''key'' [])\<lparr>sf_secret := ''TRUE''\<rparr>, RInt 64 7)])))]) =
   Redact id (RStruct [(setting ''Name'' ''name'' [], RString ''string'' ''a''),
       (setting ''Inner'' ''inner'' [], RPointer TBool (Some (RStruct [((setting ''Key'' ''key'' [])\<lparr>sf_secret := ''TRUE''\<rparr>, RInt 64 8)])))])"
proof -
  have key: "isSecret ((setting ''Key'' ''key'' [])\<lparr>sf_secret := ''TRUE''\<rparr>)" by (simp add: isSecret_def setting_def fold_ascii_def lower_rune_def)
  have "alike (RStruct [((setting ''Key'' ''key'' [])\<lparr>sf_secret := ''TRUE''\<rparr>, RInt 64 7)]) (RStruct [((setting ''Key'' ''key'' [])\<lparr>sf_secret := ''TRUE''\<rparr>, RInt 64 8)])"
    by (rule alike.sections) (simp add: key)
  then show ?thesis by (intro secrets_masked alike.sections) (simp add: setting_flags alike.same alike.pointers)
qed

end
