(* ===== verification/Command_Line.thy ===== *)
theory Command_Line
  imports Config_Loader "HOL-Library.Char_ord" "HOL-Library.List_Lexorder"
begin

text \<open>
  The command tree of the command-line tools (\<open>internal/cliutil/command.go\<close>) with what it uses of
  package \<open>flag\<close>. The loop that walks the tree is a partial function, so that its end is a theorem.
  What a command does is an argument of its node: from the flags and the arguments left to what it
  writes and how it ends.
\<close>

section \<open>Flags\<close>

datatype flag_value = FString string | FBool bool | FDuration int

record flag_spec =
  fl_Name :: string
  fl_Default :: flag_value
  fl_Usage :: string

datatype flag_error = ErrHelp | FlagError string

type_synonym flag_set = "string \<Rightarrow> flag_value option"

definition flag_defaults :: "flag_spec list \<Rightarrow> flag_set" where
  "flag_defaults fs = map_of (map (\<lambda>f. (fl_Name f, fl_Default f)) fs)"

definition flag_Set :: "flag_value \<Rightarrow> string \<Rightarrow> flag_value option" where
  "flag_Set old s = (case old of FString _ \<Rightarrow> Some (FString s) | FBool _ \<Rightarrow> map_option FBool (ParseBool s)
     | FDuration _ \<Rightarrow> map_option FDuration (ParseDuration s))"

text \<open>\<open>parseOne\<close>: \<open>None\<close> when the flags have ended, with the arguments that remain.\<close>

definition flag_name :: "string \<Rightarrow> string" where
  "flag_name s = (if take 2 s = ''--'' then drop 2 s else drop 1 s)"

definition parseOne :: "flag_set \<Rightarrow> string list \<Rightarrow> flag_error + (flag_set option \<times> string list)" where
  "parseOne vals args = (case args of [] \<Rightarrow> Inr (None, [])
   | s # rest \<Rightarrow>
     if length s < 2 \<or> hd s \<noteq> CHR ''-'' then Inr (None, args)
     else if s = ''--'' then Inr (None, rest)
     else let nm = flag_name s in
       if nm = [] \<or> hd nm = CHR ''-'' \<or> hd nm = CHR ''='' then Inl (FlagError (''bad flag syntax: '' @ s))
       else let (name, val, hasValue) = Cut nm (CHR ''='') in
         case vals name of
           None \<Rightarrow> if name = ''help'' \<or> name = ''h'' then Inl ErrHelp else Inl (FlagError (''flag provided but not defined: -'' @ name))
         | Some (FBool b) \<Rightarrow> (case flag_Set (FBool b) (if hasValue then val else ''true'') of
             None \<Rightarrow> Inl (FlagError (''invalid boolean value for -'' @ name))
           | Some v \<Rightarrow> Inr (Some (vals(name \<mapsto> v)), rest))
         | Some old \<Rightarrow>
             if \<not> hasValue \<and> rest = [] then Inl (FlagError (''flag needs an argument: -'' @ name))
             else let (val', rest') = (if hasValue then (val, rest) else (hd rest, tl rest)) in
               (case flag_Set old val' of
                  None \<Rightarrow> Inl (FlagError (''invalid value for flag -'' @ name))
                | Some v \<Rightarrow> Inr (Some (vals(name \<mapsto> v)), rest')))"

lemma parseOne_shrinks: "parseOne vals args = Inr (Some vals', rest) \<Longrightarrow> length rest < length args"
  by (auto simp: parseOne_def Let_def split: list.splits if_splits prod.splits option.splits flag_value.splits)

function flag_Parse :: "flag_set \<Rightarrow> string list \<Rightarrow> flag_error + flag_set \<times> string list" where
  "flag_Parse vals args = (case parseOne vals args of
     Inl e \<Rightarrow> Inl e
   | Inr (None, rest) \<Rightarrow> Inr (vals, rest)
   | Inr (Some vals', rest) \<Rightarrow> flag_Parse vals' rest)"
  by auto

termination by (relation "measure (length \<circ> snd)") (auto dest: parseOne_shrinks)

declare flag_Parse.simps [simp del]

definition flag_string :: "flag_set \<Rightarrow> string \<Rightarrow> string" where
  "flag_string vals name = (case vals name of Some (FString s) \<Rightarrow> s | _ \<Rightarrow> [])"

definition flag_bool :: "flag_set \<Rightarrow> string \<Rightarrow> bool" where
  "flag_bool vals name = (case vals name of Some (FBool b) \<Rightarrow> b | _ \<Rightarrow> False)"

definition flag_duration :: "flag_set \<Rightarrow> string \<Rightarrow> duration" where
  "flag_duration vals name = (case vals name of Some (FDuration d) \<Rightarrow> d | _ \<Rightarrow> 0)"

section \<open>Commands\<close>

definition ExitOK :: int where "ExitOK = 0"
definition ExitFailure :: int where "ExitFailure = 1"
definition ExitUsage :: int where "ExitUsage = 2"
definition ExitNotImplemented :: int where "ExitNotImplemented = 3"
definition ExitUnavailable :: int where "ExitUnavailable = 4"

lemmas exit_defs = ExitOK_def ExitFailure_def ExitUsage_def ExitNotImplemented_def ExitUnavailable_def

text \<open>What is written to the two streams, and the error a command returns: one with an exit code, or any.\<close>

record streams =
  io_Out :: string
  io_ErrOut :: string

datatype exec_error = ExitError int "string option" | PlainError string

type_synonym exec = "flag_set \<Rightarrow> string list \<Rightarrow> streams \<times> exec_error option"

datatype Command = Command (cmd_Name: string) (cmd_Summary: string) (cmd_Usage: string) (cmd_Long: string)
  (cmd_SetFlags: "flag_spec list option") (cmd_Exec: "exec option") (cmd_Subcommands: "Command list") (cmd_Hidden: bool)

definition Errorf :: "int \<Rightarrow> string \<Rightarrow> exec_error" where
  "Errorf code msg = ExitError code (Some msg)"

definition line_break :: string where "line_break = [CHR 0x0A]"

definition cli_NotImplemented :: "string \<Rightarrow> string \<Rightarrow> exec_error" where
  "cli_NotImplemented feature phase = ExitError ExitNotImplemented (Some (feature @ '' is not implemented yet.'' @ line_break @ line_break @
     ''It is planned for '' @ phase @ '' of the roadmap:'' @ line_break @
     ''  https://github.com/CauaMora1s/Headnet/blob/main/docs/ROADMAP.md''))"

fun ExitError_Error :: "exec_error \<Rightarrow> string" where
  "ExitError_Error (ExitError code None) = ''exit status '' @ (if code < 0 then ''-'' else []) @ Itoa (nat \<bar>code\<bar>)"
| "ExitError_Error (ExitError code (Some err)) = err"
| "ExitError_Error (PlainError err) = err"

definition cmd_lookup :: "Command \<Rightarrow> string \<Rightarrow> Command option" where
  "cmd_lookup c name = find (\<lambda>sub. cmd_Name sub = name) (cmd_Subcommands c)"

text \<open>
  The walk down the tree; \<open>at_root\<close> says whether the node reached is still the root, and \<open>quote\<close> stands
  for the format \<open>%q\<close>.
\<close>

partial_function (option) resolve_loop :: "(string \<Rightarrow> string) \<Rightarrow> bool \<Rightarrow> Command \<Rightarrow> string \<Rightarrow> string list \<Rightarrow> (string + Command \<times> string list \<times> string) option" where
  "resolve_loop quote at_root cmd path argv = (case argv of
     [] \<Rightarrow> Some (Inr (cmd, argv, path))
   | name # rest \<Rightarrow>
     if HasPrefix name ''-'' then Some (Inr (cmd, argv, path))
     else (case cmd_lookup cmd name of
         None \<Rightarrow> Some (if at_root then Inl (''unknown command '' @ quote name) else Inr (cmd, argv, path))
       | Some child \<Rightarrow> resolve_loop quote False child (path @ '' '' @ cmd_Name child) rest))"

definition cli_resolve :: "(string \<Rightarrow> string) \<Rightarrow> Command \<Rightarrow> string list \<Rightarrow> (string + Command \<times> string list \<times> string) option" where
  "cli_resolve quote tree argv = resolve_loop quote True tree (cmd_Name tree) argv"

section \<open>Help\<close>

definition pad_right :: "nat \<Rightarrow> string \<Rightarrow> string" where
  "pad_right width s = s @ replicate (width - length (runes s)) (CHR '' '')"

definition help_visible :: "Command \<Rightarrow> Command list" where
  "help_visible cmd = sort_key cmd_Name (filter (\<lambda>sub. \<not> cmd_Hidden sub) (cmd_Subcommands cmd))"

text \<open>\<open>FlagSet.PrintDefaults\<close> is the parameter \<open>print_defaults\<close>.\<close>

definition writeHelp :: "(flag_spec list \<Rightarrow> string) \<Rightarrow> Command \<Rightarrow> string \<Rightarrow> string" where
  "writeHelp print_defaults cmd path =
     (let intro = (if cmd_Long cmd \<noteq> [] then TrimSpace (cmd_Long cmd) @ line_break @ line_break
            else if cmd_Summary cmd \<noteq> [] then cmd_Summary cmd @ line_break @ line_break else []);
          usage = (if cmd_Usage cmd \<noteq> [] then cmd_Usage cmd else if cmd_Subcommands cmd \<noteq> [] then ''<command> [flags]'' else ''[flags]'');
          visible = help_visible cmd;
          width = foldl (\<lambda>w sub. max w (length (cmd_Name sub))) 0 visible;
          listing = (if visible = [] then [] else line_break @ ''Commands:'' @ line_break @
            concat (map (\<lambda>sub. ''  '' @ pad_right width (cmd_Name sub) @ ''  '' @ cmd_Summary sub @ line_break) visible) @
            line_break @ ''Run '' @ [CHR 0x22] @ path @ '' <command> -h'' @ [CHR 0x22] @ '' for more information about a command.'' @ line_break);
          flags = (case cmd_SetFlags cmd of None \<Rightarrow> [] | Some [] \<Rightarrow> []
            | Some fs \<Rightarrow> line_break @ ''Flags:'' @ line_break @ print_defaults fs) in
      intro @ ''Usage:'' @ line_break @ ''  '' @ path @ '' '' @ usage @ line_break @ listing @ flags)"

section \<open>Running\<close>

definition to_out :: "string \<Rightarrow> streams" where "to_out s = \<lparr>io_Out = s, io_ErrOut = []\<rparr>"
definition to_err :: "string \<Rightarrow> streams" where "to_err s = \<lparr>io_Out = [], io_ErrOut = s\<rparr>"

definition flag_error_text :: "flag_error \<Rightarrow> string" where
  "flag_error_text e = (case e of ErrHelp \<Rightarrow> ''flag: help requested'' | FlagError s \<Rightarrow> s)"

definition Run_command :: "(flag_spec list \<Rightarrow> string) \<Rightarrow> Command \<Rightarrow> string list \<Rightarrow> string \<Rightarrow> int \<times> streams" where
  "Run_command print_defaults cmd args path =
     (case flag_Parse (case cmd_SetFlags cmd of None \<Rightarrow> flag_defaults [] | Some fs \<Rightarrow> flag_defaults fs) args of
        Inl ErrHelp \<Rightarrow> (ExitOK, to_out (writeHelp print_defaults cmd path))
      | Inl err \<Rightarrow> (ExitUsage, to_err (path @ '': '' @ flag_error_text err @ line_break @ line_break @ writeHelp print_defaults cmd path))
      | Inr (vals, rest) \<Rightarrow> (case cmd_Exec cmd of
          None \<Rightarrow> (if cmd_Subcommands cmd = [] then ExitFailure else ExitUsage, to_out (writeHelp print_defaults cmd path))
        | Some exec \<Rightarrow> (case exec vals rest of
            (io, None) \<Rightarrow> (ExitOK, io)
          | (io, Some (ExitError code None)) \<Rightarrow> (code, io)
          | (io, Some (ExitError code (Some err))) \<Rightarrow> (code, io\<lparr>io_ErrOut := io_ErrOut io @ path @ '': '' @ err @ line_break\<rparr>)
          | (io, Some (PlainError err)) \<Rightarrow> (ExitFailure, io\<lparr>io_ErrOut := io_ErrOut io @ path @ '': '' @ err @ line_break\<rparr>))))"

definition Run :: "(string \<Rightarrow> string) \<Rightarrow> (flag_spec list \<Rightarrow> string) \<Rightarrow> Command \<Rightarrow> string list \<Rightarrow> (int \<times> streams) option" where
  "Run quote print_defaults tree argv = (case cli_resolve quote tree argv of
     None \<Rightarrow> None
   | Some (Inl err) \<Rightarrow> Some (ExitUsage, to_err (cmd_Name tree @ '': '' @ err @ line_break @ line_break @ writeHelp print_defaults tree (cmd_Name tree)))
   | Some (Inr (cmd, args, path)) \<Rightarrow> Some (Run_command print_defaults cmd args path))"

section \<open>The walk ends\<close>

text \<open>A command that the names lead to from a node.\<close>

inductive descends :: "Command \<Rightarrow> string list \<Rightarrow> Command \<Rightarrow> bool" where
  here: "descends cmd [] cmd"
| child: "cmd_lookup cmd name = Some sub \<Longrightarrow> descends sub names cmd' \<Longrightarrow> descends cmd (name # names) cmd'"

inductive_simps descends_Nil [simp]: "descends cmd [] cmd'"
inductive_simps descends_Cons: "descends cmd (name # names) cmd'"

lemma cmd_lookup_name: "cmd_lookup c name = Some sub \<Longrightarrow> cmd_Name sub = name \<and> sub \<in> set (cmd_Subcommands c)"
  by (auto simp: cmd_lookup_def dest: find_SomeD)

definition stops_at :: "Command \<Rightarrow> string list \<Rightarrow> bool" where
  "stops_at cmd argv \<longleftrightarrow> argv = [] \<or> HasPrefix (hd argv) ''-'' \<or> cmd_lookup cmd (hd argv) = None"

text \<open>
  The loop ends on every command line: with the deepest command the leading words name, what is
  left for it and its path; or, when the very first word names none, with an error.
\<close>

lemma resolve_loop_ends:
  "\<exists>names rest cmd'. argv = names @ rest \<and> descends cmd names cmd' \<and> stops_at cmd' rest \<and> list_all (\<lambda>n. \<not> HasPrefix n ''-'') names \<and>
     resolve_loop quote at_root cmd path argv = Some (if at_root \<and> names = [] \<and> rest \<noteq> [] \<and> \<not> HasPrefix (hd rest) ''-'' then Inl (''unknown command '' @ quote (hd rest))
       else Inr (cmd', rest, path @ concat (map ((#) (CHR '' '')) names)))"
proof (induction argv arbitrary: at_root cmd path)
  case Nil
  show ?case by (intro exI [of _ "[]"] exI [of _ cmd]) (simp add: stops_at_def resolve_loop.simps)
next
  case (Cons name rest)
  show ?case
  proof (cases "HasPrefix name ''-'' \<or> cmd_lookup cmd name = None")
    case True
    then show ?thesis by (intro exI [of _ "[]"] exI [of _ "name # rest"] exI [of _ cmd]) (auto simp: stops_at_def resolve_loop.simps)
  next
    case False
    then obtain sub where sub: "cmd_lookup cmd name = Some sub" "\<not> HasPrefix name ''-''" by auto
    obtain names rest' cmd' where *: "rest = names @ rest'" "descends sub names cmd'" "stops_at cmd' rest'" "list_all (\<lambda>n. \<not> HasPrefix n ''-'') names"
      "resolve_loop quote False sub (path @ '' '' @ cmd_Name sub) rest = Some (Inr (cmd', rest', (path @ '' '' @ cmd_Name sub) @ concat (map ((#) (CHR '' '')) names)))"
      using Cons.IH [of sub False "path @ '' '' @ cmd_Name sub"] by auto
    then show ?thesis using sub cmd_lookup_name [OF sub(1)]
      by (intro exI [of _ "name # names"] exI [of _ rest'] exI [of _ cmd']) (simp add: resolve_loop.simps descends.child)
  qed
qed

end
