(* ===== verification/Cli_App.thy ===== *)
theory Cli_App
  imports Command_Line Server_Routes
begin

text \<open>
  The command-line client (\<open>apps/cli\<close>): its command tree (\<open>main.go\<close>) and the diagnostics it runs
  (\<open>diagnostics.go\<close>). The network is an argument: parsing a URL, resolving a name, an exchange with a
  server and what decoding its body leaves in the destination.
\<close>

section \<open>Checks\<close>

type_synonym checkState = string

definition statePass :: checkState where "statePass = ''pass''"
definition stateFail :: checkState where "stateFail = ''fail''"
definition stateSkipped :: checkState where "stateSkipped = ''skipped''"

lemmas state_defs = statePass_def stateFail_def stateSkipped_def

definition symbol :: "checkState \<Rightarrow> string" where
  "symbol s = (if s = statePass then [CHR 0xE2, CHR 0x9C, CHR 0x93] else if s = stateFail then [CHR 0xE2, CHR 0x9C, CHR 0x97]
     else [CHR 0xE2, CHR 0x80, CHR 0x93])"

record checkResult =
  cr_Name :: string
  cr_State :: checkState
  cr_Detail :: string
  cr_Remedy :: string

record diagnosticsReport =
  dg_Version :: string
  dg_Checks :: "checkResult list"
  dg_Failed :: nat

record url =
  u_Scheme :: string
  u_Host :: string
  u_Hostname :: string
  u_JoinPath :: "string list \<Rightarrow> string"

record cli_env =
  ce_build :: Info
  ce_parseURL :: "string \<Rightarrow> url option"
  ce_lookupHost :: "duration \<Rightarrow> string \<Rightarrow> error + string list"
  ce_newRequest :: "string \<Rightarrow> error option"
  ce_do :: "duration \<Rightarrow> string \<Rightarrow> error + int \<times> string"
  ce_health :: "string \<Rightarrow> HealthResponse"
  ce_version :: "string \<Rightarrow> VersionResponse"
  ce_quote :: "string \<Rightarrow> string"
  ce_encode :: "diagnosticsReport \<Rightarrow> string \<times> error option"
  ce_errorText :: "error \<Rightarrow> string"

definition getJSON :: "cli_env \<Rightarrow> duration \<Rightarrow> string \<Rightarrow> (string \<Rightarrow> 'a) \<Rightarrow> error + int \<times> 'a" where
  "getJSON e timeout endpoint decode = (case ce_newRequest e endpoint of
     Some err \<Rightarrow> Inl err
   | None \<Rightarrow> (case ce_do e timeout endpoint of
       Inl err \<Rightarrow> Inl err
     | Inr (status, body) \<Rightarrow> Inr (status, decode body)))"

text \<open>\<open>net.ParseIP\<close> accepts what \<open>netip.ParseAddr\<close> accepts, without a zone.\<close>

definition is_IP :: "string \<Rightarrow> bool" where
  "is_IP host = (case ParseAddr host of Some (V4 _) \<Rightarrow> True | Some (V6 _ z) \<Rightarrow> z = [] | _ \<Rightarrow> False)"

definition checkDNS :: "cli_env \<Rightarrow> duration \<Rightarrow> url \<Rightarrow> checkResult" where
  "checkDNS e timeout base = (let host = u_Hostname base in
     if is_IP host then \<lparr>cr_Name = ''DNS'', cr_State = stateSkipped, cr_Detail = ''the server was given as a literal IP address, so no lookup was needed'', cr_Remedy = []\<rparr>
     else case ce_lookupHost e timeout host of
       Inl _ \<Rightarrow> \<lparr>cr_Name = ''DNS'', cr_State = stateFail, cr_Detail = host @ '' could not be resolved'',
         cr_Remedy = ''Check the hostname spelling and this machine's DNS configuration.''\<rparr>
     | Inr addrs \<Rightarrow> \<lparr>cr_Name = ''DNS'', cr_State = statePass, cr_Detail = host @ '' resolves to '' @ join_comma addrs, cr_Remedy = []\<rparr>)"

definition checkReachable :: "cli_env \<Rightarrow> duration \<Rightarrow> url \<Rightarrow> checkResult" where
  "checkReachable e timeout base = (let endpoint = u_JoinPath base [''/health''] in
     case getJSON e timeout endpoint (ce_health e) of
       Inl _ \<Rightarrow> \<lparr>cr_Name = ''Control server'', cr_State = stateFail, cr_Detail = endpoint @ '' could not be reached'',
         cr_Remedy = ''Confirm the server is running, that the port is open, and that no firewall or proxy is blocking outbound HTTPS to it.''\<rparr>
     | Inr (status, health) \<Rightarrow>
         if status \<ge> 500 then \<lparr>cr_Name = ''Control server'', cr_State = stateFail, cr_Detail = ''reachable, but reporting '' @ ce_quote e (hr_Status health),
           cr_Remedy = ''The server is running but unhealthy. Check its logs and its database.''\<rparr>
         else if status \<noteq> 200 then \<lparr>cr_Name = ''Control server'', cr_State = stateFail, cr_Detail = endpoint @ '' returned HTTP '' @ Itoa_int status,
           cr_Remedy = ''Confirm the URL points at a Headnet control server rather than another service.''\<rparr>
         else \<lparr>cr_Name = ''Control server'', cr_State = statePass,
           cr_Detail = u_Host base @ '' is reachable and reports '' @ ce_quote e (hr_Status health) @ '' (version '' @ hr_Version health @ '')'', cr_Remedy = []\<rparr>)"

definition en_dash :: string where "en_dash = [CHR 0xE2, CHR 0x80, CHR 0x93]"

definition checkProtocol :: "cli_env \<Rightarrow> duration \<Rightarrow> url \<Rightarrow> checkResult" where
  "checkProtocol e timeout base = (let endpoint = u_JoinPath base [''/api/v1'', ''/version''];
       failed = \<lparr>cr_Name = ''Protocol compatibility'', cr_State = stateFail, cr_Detail = endpoint @ '' did not return version information'',
         cr_Remedy = ''The server may be older than this client, or the URL may not point at a Headnet server.''\<rparr> in
     case getJSON e timeout endpoint (ce_version e) of
       Inl _ \<Rightarrow> failed
     | Inr (status, remote) \<Rightarrow>
         if status \<noteq> 200 then failed
         else let loc = Local; given = vr_MinProtocolVersion remote;
           remoteRange = \<lparr>rg_Version = vr_ProtocolVersion remote, rg_Min = (if given \<le> 0 then vr_ProtocolVersion remote else given)\<rparr> in
           (case Negotiate loc remoteRange {} {} of
              Inl err \<Rightarrow> \<lparr>cr_Name = ''Protocol compatibility'', cr_State = stateFail, cr_Detail = negotiate_Error err,
                cr_Remedy = ''Upgrade whichever side is older so their supported protocol ranges overlap.''\<rparr>
            | Inr (negotiated, _) \<Rightarrow> \<lparr>cr_Name = ''Protocol compatibility'', cr_State = statePass,
                cr_Detail = ''agreed on protocol v'' @ Itoa_int negotiated @ '' (this build speaks '' @ Itoa_int (rg_Min loc) @ en_dash @ Itoa_int (rg_Version loc) @
                  '', the server speaks '' @ Itoa_int (rg_Min remoteRange) @ en_dash @ Itoa_int (rg_Version remoteRange) @ '')'', cr_Remedy = []\<rparr>))"

definition checkControlServer :: "cli_env \<Rightarrow> string \<Rightarrow> duration \<Rightarrow> checkResult list" where
  "checkControlServer e serverURL timeout = (
     if TrimSpace serverURL = [] then [\<lparr>cr_Name = ''Control server'', cr_State = stateSkipped, cr_Detail = ''no server specified'',
       cr_Remedy = ''Pass -server https://your-control-server to test reachability and version compatibility.''\<rparr>]
     else let bad = [\<lparr>cr_Name = ''Control server'', cr_State = stateFail, cr_Detail = ce_quote e serverURL @ '' is not a valid URL'',
         cr_Remedy = ''Use a full URL including the scheme, for example https://vpn.example.com''\<rparr>] in
       case ce_parseURL e serverURL of
         None \<Rightarrow> bad
       | Some base \<Rightarrow>
           if u_Scheme base = [] \<or> u_Host base = [] then bad
           else let results = [checkDNS e timeout base, checkReachable e timeout base] in
             results @ [if cr_State (last results) = statePass then checkProtocol e timeout base
               else \<lparr>cr_Name = ''Protocol compatibility'', cr_State = stateSkipped, cr_Detail = ''the control server did not respond'', cr_Remedy = []\<rparr>])"

definition unbuilt_checks :: "checkResult list" where
  "unbuilt_checks = [
     \<lparr>cr_Name = ''Client daemon'', cr_State = stateSkipped, cr_Detail = ''not built yet (Phase 2)'',
       cr_Remedy = ''The background daemon that holds this device's keys and manages WireGuard is not implemented.''\<rparr>,
     \<lparr>cr_Name = ''WireGuard interface'', cr_State = stateSkipped, cr_Detail = ''not built yet (Phase 2)'',
       cr_Remedy = ''No network interface is created by this build, so no traffic is carried.''\<rparr>,
     \<lparr>cr_Name = ''Direct peer connectivity'', cr_State = stateSkipped, cr_Detail = ''not built yet (Phase 4)'',
       cr_Remedy = ''NAT traversal '' @ [CHR 0xE2, CHR 0x80, CHR 0x94] @ '' endpoint discovery, STUN and hole punching '' @ [CHR 0xE2, CHR 0x80, CHR 0x94] @ '' has not been implemented.''\<rparr>,
     \<lparr>cr_Name = ''Relay fallback'', cr_State = stateSkipped, cr_Detail = ''not built yet (Phase 5)'',
       cr_Remedy = ''The relay used when a direct connection is impossible has not been implemented.''\<rparr>]"

definition runDiagnostics :: "cli_env \<Rightarrow> string \<Rightarrow> duration \<Rightarrow> checkResult list" where
  "runDiagnostics e serverURL timeout = (let build = ce_build e in
     [\<lparr>cr_Name = ''CLI build'', cr_State = statePass, cr_Detail = in_Version build @ '' ('' @ in_Commit build @ '', '' @ in_Platform build @ '')'', cr_Remedy = []\<rparr>] @
     checkControlServer e serverURL timeout @ unbuilt_checks)"

definition writeDiagnostics :: "checkResult list \<Rightarrow> string" where
  "writeDiagnostics checks = (let width = foldl (\<lambda>w c. max w (length (cr_Name c))) 0 checks;
       notes = filter (\<lambda>c. cr_Remedy c \<noteq> [] \<and> cr_State c \<noteq> statePass) checks in
     line_break @ concat (map (\<lambda>c. ''  '' @ symbol (cr_State c) @ ''  '' @ pad_right width (cr_Name c) @ ''  '' @ cr_Detail c @ line_break) checks) @
     (if notes = [] then [] else line_break @ ''Details:'' @ line_break @
       concat (map (\<lambda>c. ''  '' @ cr_Name c @ '': '' @ cr_Remedy c @ line_break) notes)) @ line_break)"

section \<open>Commands\<close>

definition diagnostics_flags :: "flag_spec list" where
  "diagnostics_flags = [
     \<lparr>fl_Name = ''server'', fl_Default = FString [], fl_Usage = ''control server base URL to test, e.g. https://vpn.example.com''\<rparr>,
     \<lparr>fl_Name = ''json'', fl_Default = FBool False, fl_Usage = ''emit machine-readable JSON''\<rparr>,
     \<lparr>fl_Name = ''timeout'', fl_Default = FDuration (5 * Second), fl_Usage = ''per-check network timeout''\<rparr>]"

definition diagnostics_exec :: "cli_env \<Rightarrow> exec" where
  "diagnostics_exec e vals args = (
     if args \<noteq> [] then (to_out [], Some (Errorf ExitUsage (''diagnostics takes no positional arguments (got '' @ ce_quote e (Join (CHR '' '') args) @ '')'')))
     else let checks = runDiagnostics e (flag_string vals ''server'') (flag_duration vals ''timeout'');
       failed = length (filter (\<lambda>c. cr_State c = stateFail) checks);
       verdict = (if failed > 0 then Some (ExitError ExitFailure None) else None) in
       if flag_bool vals ''json'' then
         (case ce_encode e \<lparr>dg_Version = in_Version (ce_build e), dg_Checks = checks, dg_Failed = failed\<rparr> of
            (out, Some err) \<Rightarrow> (to_out out, Some (PlainError (ce_errorText e err)))
          | (out, None) \<Rightarrow> (to_out out, verdict))
       else (to_out (writeDiagnostics checks), verdict))"

definition diagnosticsCommand :: "cli_env \<Rightarrow> Command" where
  "diagnosticsCommand e = Command ''diagnostics'' ''check what is working and what is not'' ''diagnostics [-server URL] [-json]''
     (''Runs every check this build can perform and explains each result.'' @ line_break @ line_break @
      ''Checks for subsystems that have not been built yet are reported as'' @ line_break @
      ''skipped, never as passing. A green line here always means something'' @ line_break @ ''was actually verified.'')
     (Some diagnostics_flags) (Some (diagnostics_exec e)) [] False"

definition versionCommand :: "cli_env \<Rightarrow> Command" where
  "versionCommand e = Command ''version'' ''print the build version'' [] [] None
     (Some (\<lambda>_ _. (to_out (Info_String (ce_build e) @ line_break), None))) [] False"

definition statusCommand :: Command where
  "statusCommand = Command ''status'' ''show this device's connection status'' []
     (''Shows whether this device is connected, which peers it can reach,'' @ line_break @ ''and how each connection is carried.'' @ line_break @ line_break @
      ''This requires the client daemon, which is not built yet.'')
     None (Some (\<lambda>_ _. (to_out [], Some (cli_NotImplemented ''connection status'' ''Phase 2'')))) [] False"

definition planned :: "string \<Rightarrow> string \<Rightarrow> string \<Rightarrow> string \<Rightarrow> Command" where
  "planned name summary feature phase = Command name (summary @ '' (planned, '' @ phase @ '')'') [] [] None
     (Some (\<lambda>_ _. (to_out [], Some (cli_NotImplemented feature phase)))) [] False"

definition rootCommand :: "cli_env \<Rightarrow> Command" where
  "rootCommand e = Command ''headnet'' ''Manage this device's Headnet private network'' []
     (''headnet manages this device's membership of a Headnet private network.'' @ line_break @ line_break @
      ''This is an early build. Commands marked below as planned are not'' @ line_break @ ''implemented yet and will tell you so rather than pretending to work.'')
     None None
     [versionCommand e, diagnosticsCommand e, statusCommand,
      planned ''login'' ''authenticate this device with a control server'' ''logging in'' ''Phase 2'',
      planned ''logout'' ''sign out and forget local credentials'' ''logging out'' ''Phase 2'',
      planned ''up'' ''bring the network up, optionally with a setup key'' ''bringing the network up'' ''Phase 2'',
      planned ''connect'' ''connect to the private network'' ''connecting to a network'' ''Phase 2'',
      planned ''disconnect'' ''disconnect from the private network'' ''disconnecting'' ''Phase 2'',
      planned ''devices'' ''list the devices on this network'' ''listing devices'' ''Phase 3'',
      planned ''peers'' ''show peer connection detail'' ''showing peers'' ''Phase 3'',
      planned ''ping'' ''check reachability of another device'' ''pinging a device'' ''Phase 3'',
      planned ''routes'' ''manage advertised subnet routes'' ''route management'' ''Phase 8''] False"

text \<open>\<open>main\<close>: the exit code and the output of the process.\<close>

definition cli_main :: "(string \<Rightarrow> string) \<Rightarrow> (flag_spec list \<Rightarrow> string) \<Rightarrow> cli_env \<Rightarrow> string list \<Rightarrow> (int \<times> streams) option" where
  "cli_main quote print_defaults e argv = Run quote print_defaults (rootCommand e) (drop 1 argv)"

end
