(* ===== verification/Cli_Theorems.thy ===== *)
theory Cli_Theorems
  imports Cli_App
begin

text \<open>The properties of the command-line client.\<close>

section \<open>Dispatch\<close>

lemma Run_ends:
  "\<exists>names rest cmd. argv = names @ rest \<and> descends tree names cmd \<and> stops_at cmd rest \<and> list_all (\<lambda>n. \<not> HasPrefix n ''-'') names \<and>
     Run quote pd tree argv = Some (if names = [] \<and> rest \<noteq> [] \<and> \<not> HasPrefix (hd rest) ''-''
       then (ExitUsage, to_err (cmd_Name tree @ '': unknown command '' @ quote (hd rest) @ line_break @ line_break @ writeHelp pd tree (cmd_Name tree)))
       else Run_command pd cmd rest (cmd_Name tree @ concat (map ((#) (CHR '' '')) names)))"
proof -
  obtain names rest cmd where "argv = names @ rest" "descends tree names cmd" "stops_at cmd rest" "list_all (\<lambda>n. \<not> HasPrefix n ''-'') names"
    "resolve_loop quote True tree (cmd_Name tree) argv = Some (if True \<and> names = [] \<and> rest \<noteq> [] \<and> \<not> HasPrefix (hd rest) ''-'' then Inl (''unknown command '' @ quote (hd rest))
       else Inr (cmd, rest, cmd_Name tree @ concat (map ((#) (CHR '' '')) names)))"
    using resolve_loop_ends [of argv tree quote True "cmd_Name tree"] by blast
  then show ?thesis by (intro exI [of _ names] exI [of _ rest] exI [of _ cmd]) (simp add: Run_def cli_resolve_def)
qed

definition unbuilt :: "string set" where
  "unbuilt = {''status'', ''login'', ''logout'', ''up'', ''connect'', ''disconnect'', ''devices'', ''peers'', ''ping'', ''routes''}"

definition unbuilt_command :: "Command \<Rightarrow> bool" where
  "unbuilt_command sub \<longleftrightarrow> (\<exists>feature phase. cmd_Exec sub = Some (\<lambda>_ _. (to_out [], Some (cli_NotImplemented feature phase)))) \<and>
     cmd_SetFlags sub = None \<and> cmd_Subcommands sub = []"

lemma unbuilt_commands: "unbuilt_command statusCommand" "unbuilt_command (planned name summary feature phase)"
  by (auto simp: unbuilt_command_def statusCommand_def planned_def)

lemma command_names: "cmd_Name (versionCommand e) = ''version''" "cmd_Name (diagnosticsCommand e) = ''diagnostics''" "cmd_Name statusCommand = ''status''"
  "cmd_Name (planned name summary feature phase) = name"
  by (simp_all add: versionCommand_def diagnosticsCommand_def statusCommand_def planned_def)

lemma unbuilt_lookup: "name \<in> unbuilt \<Longrightarrow> \<exists>sub. cmd_lookup (rootCommand e) name = Some sub \<and> unbuilt_command sub"
  unfolding unbuilt_def cmd_lookup_def rootCommand_def Command.sel
  by (elim insertE emptyE) (simp_all add: command_names unbuilt_commands)

lemma unbuilt_no_flag: "name \<in> unbuilt \<Longrightarrow> \<not> HasPrefix name ''-''"
  by (auto simp: unbuilt_def HasPrefix_def)

lemma Run_child:
  assumes "cmd_lookup tree name = Some sub" "cmd_Subcommands sub = []" "\<not> HasPrefix name ''-''"
  shows "Run quote pd tree (name # args) = Some (Run_command pd sub args (cmd_Name tree @ '' '' @ name))"
proof -
  have leaf: "resolve_loop quote False sub path args = Some (Inr (sub, args, path))" for path
    using assms(2) by (cases args) (simp_all add: resolve_loop.simps cmd_lookup_def)
  then show ?thesis using assms(1,3) cmd_lookup_name [OF assms(1)]
    by (simp add: Run_def cli_resolve_def resolve_loop.simps [of _ True])
qed

section \<open>Diagnostics\<close>

lemma getJSON_Inr: "getJSON e t ep d = Inr (status, x) \<longleftrightarrow> ce_newRequest e ep = None \<and> (\<exists>body. ce_do e t ep = Inr (status, body) \<and> x = d body)"
  by (auto simp: getJSON_def split: option.splits sum.splits)

lemma states_differ [simp]: "statePass \<noteq> stateFail" "stateFail \<noteq> statePass" "stateSkipped \<noteq> statePass" "statePass \<noteq> stateSkipped" "stateSkipped \<noteq> stateFail" "stateFail \<noteq> stateSkipped"
  by (simp_all add: state_defs)

lemma checkReachable_pass: "cr_State (checkReachable e t base) = statePass \<longleftrightarrow> (\<exists>health. getJSON e t (u_JoinPath base [''/health'']) (ce_health e) = Inr (200, health))"
  by (auto simp: checkReachable_def Let_def split: sum.splits)

definition server_range :: "VersionResponse \<Rightarrow> Range" where
  "server_range v = \<lparr>rg_Version = vr_ProtocolVersion v, rg_Min = (if vr_MinProtocolVersion v \<le> 0 then vr_ProtocolVersion v else vr_MinProtocolVersion v)\<rparr>"

lemma checkProtocol_pass: "cr_State (checkProtocol e t base) = statePass \<longleftrightarrow>
  (\<exists>v agreed. getJSON e t (u_JoinPath base [''/api/v1'', ''/version'']) (ce_version e) = Inr (200, v) \<and> Negotiate Local (server_range v) {} {} = Inr agreed)"
  by (auto simp: checkProtocol_def server_range_def Let_def split: sum.splits)

lemma check_names: "cr_Name (checkDNS e t base) = ''DNS''" "cr_Name (checkReachable e t base) = ''Control server''" "cr_Name (checkProtocol e t base) = ''Protocol compatibility''"
  by (auto simp: checkDNS_def checkReachable_def checkProtocol_def Let_def split: sum.splits)

text \<open>What the version endpoint of the server answers is acceptable to a client of the same build.\<close>

lemma same_build_agrees: "Negotiate Local (server_range \<lparr>vr_Version = v, vr_Commit = c, vr_BuildDate = b, vr_ProtocolVersion = protocol_Version, vr_MinProtocolVersion = MinVersion,
    vr_Capabilities = cs\<rparr>) {} {} = Inr (protocol_Version, Intersect {} {})"
  by (simp add: Negotiate_def Local_def server_range_def Range_Valid_def protocol_Version_def MinVersion_def)

text \<open>What a check stands for: the name resolves, the server is healthy, the two sides agree on a protocol.\<close>

definition answers_health :: "cli_env \<Rightarrow> duration \<Rightarrow> url \<Rightarrow> bool" where
  "answers_health e t base \<longleftrightarrow> ce_newRequest e (u_JoinPath base [''/health'']) = None \<and> (\<exists>body. ce_do e t (u_JoinPath base [''/health'']) = Inr (200, body))"

definition protocol_agrees :: "cli_env \<Rightarrow> duration \<Rightarrow> url \<Rightarrow> bool" where
  "protocol_agrees e t base \<longleftrightarrow> ce_newRequest e (u_JoinPath base [''/api/v1'', ''/version'']) = None \<and>
     (\<exists>body agreed. ce_do e t (u_JoinPath base [''/api/v1'', ''/version'']) = Inr (200, body) \<and> Negotiate Local (server_range (ce_version e body)) {} {} = Inr agreed)"

definition name_resolves :: "cli_env \<Rightarrow> duration \<Rightarrow> url \<Rightarrow> bool" where
  "name_resolves e t base \<longleftrightarrow> (\<exists>addrs. ce_lookupHost e t (u_Hostname base) = Inr addrs)"

definition server_works :: "cli_env \<Rightarrow> string \<Rightarrow> duration \<Rightarrow> bool" where
  "server_works e serverURL t \<longleftrightarrow> (\<exists>base. ce_parseURL e serverURL = Some base \<and> u_Scheme base \<noteq> [] \<and> u_Host base \<noteq> [] \<and>
     (is_IP (u_Hostname base) \<or> name_resolves e t base) \<and> answers_health e t base \<and> protocol_agrees e t base)"

definition check_verified :: "cli_env \<Rightarrow> string \<Rightarrow> duration \<Rightarrow> checkResult \<Rightarrow> bool" where
  "check_verified e serverURL t c \<longleftrightarrow> (\<exists>base. ce_parseURL e serverURL = Some base \<and>
     (cr_Name c = ''DNS'' \<and> name_resolves e t base \<or> cr_Name c = ''Control server'' \<and> answers_health e t base \<or>
      cr_Name c = ''Protocol compatibility'' \<and> protocol_agrees e t base))"

definition report_of :: "cli_env \<Rightarrow> checkResult list \<Rightarrow> diagnosticsReport" where
  "report_of e checks = \<lparr>dg_Version = in_Version (ce_build e), dg_Checks = checks, dg_Failed = length (filter (\<lambda>c. cr_State c = stateFail) checks)\<rparr>"

lemma check_states:
  "cr_State (checkReachable e t base) = (if answers_health e t base then statePass else stateFail)"
  "cr_State (checkProtocol e t base) = (if protocol_agrees e t base then statePass else stateFail)"
  "cr_State (checkDNS e t base) = (if is_IP (u_Hostname base) then stateSkipped else if name_resolves e t base then statePass else stateFail)"
proof -
  have "cr_State (checkReachable e t base) \<in> {statePass, stateFail}" "cr_State (checkProtocol e t base) \<in> {statePass, stateFail}"
    by (auto simp: checkReachable_def checkProtocol_def Let_def split: sum.splits)
  then show "cr_State (checkReachable e t base) = (if answers_health e t base then statePass else stateFail)"
    "cr_State (checkProtocol e t base) = (if protocol_agrees e t base then statePass else stateFail)"
    using checkReachable_pass [of e t base] checkProtocol_pass [of e t base] by (auto simp: answers_health_def protocol_agrees_def getJSON_Inr)
  show "cr_State (checkDNS e t base) = (if is_IP (u_Hostname base) then stateSkipped else if name_resolves e t base then statePass else stateFail)"
    by (auto simp: checkDNS_def name_resolves_def Let_def split: sum.splits)
qed

lemma passing_verified:
  assumes "c \<in> set (runDiagnostics e serverURL t)" "cr_State c = statePass"
  shows "cr_Name c = ''CLI build'' \<or> check_verified e serverURL t c"
proof (cases "c \<in> set (checkControlServer e serverURL t)")
  case True
  then obtain base where "ce_parseURL e serverURL = Some base" "c = checkDNS e t base \<or> c = checkReachable e t base \<or> c = checkProtocol e t base"
    using assms(2) by (auto simp: checkControlServer_def Let_def split: if_splits option.splits)
  then show ?thesis using assms(2) check_states [of e t base] check_names [of e t base] by (auto simp: check_verified_def split: if_splits)
next
  case False
  then show ?thesis using assms by (auto simp: runDiagnostics_def unbuilt_checks_def Let_def)
qed

lemma no_failure_iff:
  "(\<forall>c \<in> set (runDiagnostics e serverURL t). cr_State c \<noteq> stateFail) \<longleftrightarrow> TrimSpace serverURL = [] \<or> server_works e serverURL t"
proof -
  have "(\<forall>c \<in> set (runDiagnostics e serverURL t). cr_State c \<noteq> stateFail) \<longleftrightarrow> (\<forall>c \<in> set (checkControlServer e serverURL t). cr_State c \<noteq> stateFail)"
    by (simp add: runDiagnostics_def unbuilt_checks_def Let_def)
  also have "\<dots> \<longleftrightarrow> TrimSpace serverURL = [] \<or> server_works e serverURL t"
    by (auto simp: checkControlServer_def server_works_def check_states Let_def split: option.splits)
  finally show ?thesis .
qed

lemma Run_diagnostics: "Run quote pd (rootCommand e) (''diagnostics'' # args) = Some (Run_command pd (diagnosticsCommand e) args ''headnet diagnostics'')"
proof -
  have "cmd_lookup (rootCommand e) ''diagnostics'' = Some (diagnosticsCommand e)" "cmd_Name (rootCommand e) = ''headnet''"
    by (simp_all add: cmd_lookup_def rootCommand_def command_names)
  then show ?thesis using Run_child [of "rootCommand e" "''diagnostics''" "diagnosticsCommand e" quote pd args]
    by (simp add: diagnosticsCommand_def HasPrefix_def)
qed

lemma diagnostics_run:
  assumes "flag_Parse (flag_defaults diagnostics_flags) args = Inr (vals, rest)"
  shows "Run_command pd (diagnosticsCommand e) args path = (case diagnostics_exec e vals rest of
     (io, None) \<Rightarrow> (ExitOK, io)
   | (io, Some (ExitError code None)) \<Rightarrow> (code, io)
   | (io, Some (ExitError code (Some err))) \<Rightarrow> (code, io\<lparr>io_ErrOut := io_ErrOut io @ path @ '': '' @ err @ line_break\<rparr>)
   | (io, Some (PlainError err)) \<Rightarrow> (ExitFailure, io\<lparr>io_ErrOut := io_ErrOut io @ path @ '': '' @ err @ line_break\<rparr>))"
  using assms by (simp add: Run_command_def diagnosticsCommand_def split: prod.split option.split exec_error.split)

section \<open>A sample environment\<close>

definition sample_url :: url where
  "sample_url = \<lparr>u_Scheme = ''https'', u_Host = ''vpn.example.com'', u_Hostname = ''vpn.example.com'', u_JoinPath = concat\<rparr>"

definition sample_env :: cli_env where
  "sample_env = \<lparr>ce_build = \<lparr>in_Version = ''1.0.0'', in_Commit = ''abc'', in_BuildDate = [], in_GoVersion = [], in_Platform = ''linux/amd64''\<rparr>,
     ce_parseURL = (\<lambda>_. Some sample_url), ce_lookupHost = (\<lambda>_ _. Inr [''192.0.2.1'']), ce_newRequest = (\<lambda>_. None),
     ce_do = (\<lambda>_ endpoint. if endpoint = ''/health'' then Inr (200, []) else Inr (404, [])),
     ce_health = (\<lambda>_. \<lparr>hr_Status = StatusOK, hr_Version = ''1.0.0'', hr_UptimeSeconds = 1, hr_Checks = []\<rparr>),
     ce_version = (\<lambda>_. \<lparr>vr_Version = [], vr_Commit = [], vr_BuildDate = [], vr_ProtocolVersion = 0, vr_MinProtocolVersion = 0, vr_Capabilities = []\<rparr>),
     ce_quote = id, ce_encode = (\<lambda>_. ([], None)), ce_errorText = (\<lambda>_. [])\<rparr>"

section \<open>Properties\<close>

text \<open>
  C37: Whatever the command tree and the command line, \<open>Run\<close> ends with an exit code. It runs the deepest
  command the leading words name, with the remaining words as its arguments; only when the first word
  is neither a flag nor a command does it stop, as wrong usage, without running anything.
\<close>

theorem command_line_ends:
  "\<exists>names rest cmd. argv = names @ rest \<and> descends tree names cmd \<and> stops_at cmd rest \<and>
     Run quote pd tree argv = Some (if names = [] \<and> rest \<noteq> [] \<and> \<not> HasPrefix (hd rest) ''-''
       then (ExitUsage, to_err (cmd_Name tree @ '': unknown command '' @ quote (hd rest) @ line_break @ line_break @ writeHelp pd tree (cmd_Name tree)))
       else Run_command pd cmd rest (cmd_Name tree @ concat (map ((#) (CHR '' '')) names)))"
  using Run_ends [of argv tree quote pd] by blast

text \<open>
  A command that is not built never claims success: whatever its arguments, it exits with the code
  for a missing feature and writes nothing but an error, unless its help was asked for or a flag was
  wrong.
\<close>

theorem unbuilt_commands_say_so:
  assumes "name \<in> unbuilt" "Run quote pd (rootCommand e) (name # args) = Some (code, io)"
  shows "code = ExitNotImplemented \<and> io_Out io = [] \<and> io_ErrOut io \<noteq> [] \<or>
    code = ExitOK \<and> flag_Parse (flag_defaults []) args = Inl ErrHelp \<or> code = ExitUsage \<and> io_Out io = []"
proof -
  obtain sub feature phase where sub: "cmd_lookup (rootCommand e) name = Some sub" "cmd_Exec sub = Some (\<lambda>_ _. (to_out [], Some (cli_NotImplemented feature phase)))"
    "cmd_SetFlags sub = None" "cmd_Subcommands sub = []" using unbuilt_lookup [OF assms(1)] unfolding unbuilt_command_def by blast
  have "Run_command pd sub args (cmd_Name (rootCommand e) @ '' '' @ name) = (code, io)"
    using Run_child [OF sub(1,4) unbuilt_no_flag [OF assms(1)]] assms(2) by simp
  then show ?thesis using sub
    by (auto simp: Run_command_def cli_NotImplemented_def to_out_def to_err_def split: sum.splits flag_error.splits prod.splits)
qed

theorem unbuilt_commands_say_so_witness:
  "\<exists>code io. Run id (\<lambda>_. []) (rootCommand sample_env) [''connect'', ''home''] = Some (code, io) \<and> code \<noteq> ExitOK"
proof -
  obtain code io where run: "Run id (\<lambda>_. []) (rootCommand sample_env) [''connect'', ''home''] = Some (code, io)"
    using Run_ends [of "[''connect'', ''home'']" "rootCommand sample_env" id "\<lambda>_. []"] by fastforce
  have "flag_Parse (flag_defaults []) [''home''] \<noteq> Inl ErrHelp" by (simp add: flag_Parse.simps parseOne_def)
  then have "code \<noteq> ExitOK" using unbuilt_commands_say_so [OF _ run] by (auto simp: unbuilt_def exit_defs)
  then show ?thesis using run by blast
qed

text \<open>
  C38: A passing line of the diagnostics, the line on the build itself apart, means that the check ran and
  succeeded: the name resolved, the server answered its health endpoint with 200, or it answered 200 with
  a protocol range this build can negotiate with. \<open>headnet diagnostics\<close> prints all its lines, or as JSON the
  same report with the number of failures, and exits with success exactly when no server was named or the
  server named passes all of these checks (and, as JSON, the report could be written); otherwise with
  failure.
\<close>

theorem diagnostics_honest:
  assumes "flag_Parse (flag_defaults diagnostics_flags) args = Inr (vals, [])" "Run quote pd (rootCommand e) (''diagnostics'' # args) = Some (code, io)"
    "flag_string vals ''server'' = serverURL" "flag_duration vals ''timeout'' = timeout" "runDiagnostics e serverURL timeout = checks"
  shows "(\<forall>c \<in> set checks. cr_State c = statePass \<longrightarrow> cr_Name c = ''CLI build'' \<or> check_verified e serverURL timeout c) \<and>
    (code = ExitOK \<longleftrightarrow> (TrimSpace serverURL = [] \<or> server_works e serverURL timeout) \<and>
      (flag_bool vals ''json'' \<longrightarrow> snd (ce_encode e (report_of e checks)) = None)) \<and>
    (code \<noteq> ExitOK \<longrightarrow> code = ExitFailure) \<and>
    io_Out io = (if flag_bool vals ''json'' then fst (ce_encode e (report_of e checks)) else writeDiagnostics checks)"
proof -
  have run: "Run_command pd (diagnosticsCommand e) args ''headnet diagnostics'' = (code, io)" using assms(2) by (simp add: Run_diagnostics)
  have fails: "filter (\<lambda>c. cr_State c = stateFail) checks = [] \<longleftrightarrow> TrimSpace serverURL = [] \<or> server_works e serverURL timeout"
    using no_failure_iff [of e serverURL timeout] assms(5) by (simp add: filter_empty_conv)
  have "(code = ExitOK \<longleftrightarrow> filter (\<lambda>c. cr_State c = stateFail) checks = [] \<and> (flag_bool vals ''json'' \<longrightarrow> snd (ce_encode e (report_of e checks)) = None)) \<and>
    (code \<noteq> ExitOK \<longrightarrow> code = ExitFailure) \<and>
    io_Out io = (if flag_bool vals ''json'' then fst (ce_encode e (report_of e checks)) else writeDiagnostics checks)"
    using run assms(1,3-5) unfolding diagnostics_run [OF assms(1)]
    by (auto simp: diagnostics_exec_def report_of_def Let_def exit_defs to_out_def split: prod.splits option.splits if_splits)
  moreover have "\<forall>c \<in> set checks. cr_State c = statePass \<longrightarrow> cr_Name c = ''CLI build'' \<or> check_verified e serverURL timeout c"
    using passing_verified [of _ e serverURL timeout] assms(5) by blast
  ultimately show ?thesis using fails by blast
qed

theorem diagnostics_honest_witness:
  "\<exists>code io. Run id (\<lambda>_. []) (rootCommand sample_env) [''diagnostics'', ''-server=https://vpn.example.com''] = Some (code, io) \<and> code = ExitFailure \<and>
     cr_State (checkReachable sample_env (5 * Second) sample_url) = statePass \<and>
     check_verified sample_env ''https://vpn.example.com'' (5 * Second) (checkReachable sample_env (5 * Second) sample_url)"
proof -
  let ?u = "''https://vpn.example.com''" and ?vals = "(flag_defaults diagnostics_flags)(''server'' \<mapsto> FString ''https://vpn.example.com'')"
  let ?c = "checkReachable sample_env (5 * Second) sample_url"
  have parse: "flag_Parse (flag_defaults diagnostics_flags) [''-server=https://vpn.example.com''] = Inr (?vals, [])"
    by (simp add: flag_Parse.simps parseOne_def flag_name_def Cut_def flag_defaults_def diagnostics_flags_def flag_Set_def Let_def)
  have vals: "flag_string ?vals ''server'' = ?u" "flag_duration ?vals ''timeout'' = 5 * Second"
    by (simp_all add: flag_string_def flag_duration_def flag_defaults_def diagnostics_flags_def)
  obtain code io where run: "Run id (\<lambda>_. []) (rootCommand sample_env) [''diagnostics'', ''-server=https://vpn.example.com''] = Some (code, io)"
    by (simp add: Run_diagnostics) (metis surj_pair)
  have trim: "TrimSpace ?u \<noteq> []" by (simp add: str_simps)
  have pass: "cr_State ?c = statePass" unfolding checkReachable_pass by (simp add: getJSON_Inr sample_env_def sample_url_def)
  have "?c \<in> set (checkControlServer sample_env ?u (5 * Second))"
    using trim by (simp add: checkControlServer_def sample_env_def sample_url_def)
  then have c: "?c \<in> set (runDiagnostics sample_env ?u (5 * Second))" by (simp add: runDiagnostics_def Let_def)
  have "\<not> server_works sample_env ?u (5 * Second)"
    by (simp add: server_works_def protocol_agrees_def sample_env_def sample_url_def)
  then show ?thesis using diagnostics_honest [OF parse run vals refl] run trim c pass check_names(2) [of sample_env "5 * Second" sample_url] by auto
qed

end
