(* ===== verification/Log_Handler.thy ===== *)
theory Log_Handler
  imports Server_Config
begin

text \<open>
  The structured logger (\<open>internal/logging/logging.go\<close>). A handler of package \<open>slog\<close> is known by the
  attributes and groups it was derived with; what it writes is the tree of fields behind the time, the
  level and the message. JSON shows the tree as it is and text flattens it. The context handler wraps
  one and puts the request ID at the top level of every line.
\<close>

section \<open>Handlers of package slog\<close>

type_synonym attr = "string \<times> string"

datatype fields = Leaf string | Node "(string \<times> fields) list"

record handlerOp =
  op_group :: string
  op_attrs :: "attr list"

record slog_Record =
  rec_Level :: Level
  rec_Message :: string
  rec_Attrs :: "attr list"

record slog_Handler =
  sh_Level :: Level
  sh_AddSource :: bool
  sh_Format :: Format
  sh_ops :: "handlerOp list"

definition leaf_attrs :: "attr list \<Rightarrow> (string \<times> fields) list" where
  "leaf_attrs as = map (\<lambda>(k, v). (k, Leaf v)) as"

text \<open>A group holds all that is added after it; a group that stays empty is not written.\<close>

fun render :: "handlerOp list \<Rightarrow> attr list \<Rightarrow> (string \<times> fields) list" where
  "render [] as = leaf_attrs as"
| "render (op # ops) as = (if op_group op \<noteq> []
     then (let inner = render ops as in if inner = [] then [] else [(op_group op, Node inner)])
     else leaf_attrs (op_attrs op) @ render ops as)"

definition sh_WithAttrs :: "slog_Handler \<Rightarrow> attr list \<Rightarrow> slog_Handler" where
  "sh_WithAttrs h as = (if as = [] then h else h\<lparr>sh_ops := sh_ops h @ [\<lparr>op_group = [], op_attrs = as\<rparr>]\<rparr>)"

definition sh_WithGroup :: "slog_Handler \<Rightarrow> string \<Rightarrow> slog_Handler" where
  "sh_WithGroup h name = (if name = [] then h else h\<lparr>sh_ops := sh_ops h @ [\<lparr>op_group = name, op_attrs = []\<rparr>]\<rparr>)"

definition sh_Handle :: "slog_Handler \<Rightarrow> slog_Record \<Rightarrow> (string \<times> fields) list" where
  "sh_Handle h record = render (sh_ops h) (rec_Attrs record)"

definition level_rank :: "Level \<Rightarrow> int" where
  "level_rank l = (case l of LevelDebug \<Rightarrow> - 4 | LevelInfo \<Rightarrow> 0 | LevelWarn \<Rightarrow> 4 | LevelError \<Rightarrow> 8)"

definition sh_Enabled :: "slog_Handler \<Rightarrow> Level \<Rightarrow> bool" where
  "sh_Enabled h level \<longleftrightarrow> level_rank (sh_Level h) \<le> level_rank level"

section \<open>Contexts\<close>

definition RequestIDAttr :: string where "RequestIDAttr = ''request_id''"

record contextHandler =
  ch_root :: slog_Handler
  ch_inner :: slog_Handler
  ch_ops :: "handlerOp list"
  ch_grouped :: bool

text \<open>The values a context carries under the two keys of the package; no logger is the discarding one.\<close>

record log_context =
  cx_requestID :: "string option"
  cx_logger :: "contextHandler option"

definition ctx_WithRequestID :: "log_context \<Rightarrow> string \<Rightarrow> log_context" where
  "ctx_WithRequestID ctx ident = (if ident = [] then ctx else ctx\<lparr>cx_requestID := Some ident\<rparr>)"

definition RequestIDFrom :: "log_context \<Rightarrow> string" where
  "RequestIDFrom ctx = (case cx_requestID ctx of Some ident \<Rightarrow> ident | None \<Rightarrow> [])"

definition WithLogger :: "log_context \<Rightarrow> contextHandler option \<Rightarrow> log_context" where
  "WithLogger ctx logger = (case logger of None \<Rightarrow> ctx | Some l \<Rightarrow> ctx\<lparr>cx_logger := Some l\<rparr>)"

text \<open>The logger of \<open>Discard\<close> is the one without a handler of this package.\<close>

definition Discard :: "contextHandler option" where
  "Discard = None"

definition FromContext :: "log_context \<Rightarrow> contextHandler option" where
  "FromContext ctx = (case cx_logger ctx of Some logger \<Rightarrow> Some logger | None \<Rightarrow> Discard)"

section \<open>The context handler\<close>

record LogOptions =
  lo_Level :: string
  lo_Format :: string
  lo_AddSource :: bool
  lo_Output :: bool

definition logging_New :: "(nat \<Rightarrow> nat) \<Rightarrow> LogOptions \<Rightarrow> error + contextHandler" where
  "logging_New lc opts = (case ParseLevel lc (lo_Level opts) of
     None \<Rightarrow> Inl (ErrNew ''unknown log level'')
   | Some level \<Rightarrow> (case ParseFormat lc (lo_Format opts) of
       None \<Rightarrow> Inl (ErrNew ''unknown log format'')
     | Some format \<Rightarrow> if \<not> lo_Output opts then Inl (ErrNew ''logging: Output must be set'')
         else let handler = \<lparr>sh_Level = level, sh_AddSource = lo_AddSource opts, sh_Format = format, sh_ops = []\<rparr> in
           Inr \<lparr>ch_root = handler, ch_inner = handler, ch_ops = [], ch_grouped = False\<rparr>))"

definition Formats :: "string list" where
  "Formats = [''json'', ''text'']"

definition Levels :: "string list" where
  "Levels = [''debug'', ''info'', ''warn'', ''error'']"

definition ch_Enabled :: "contextHandler \<Rightarrow> Level \<Rightarrow> bool" where
  "ch_Enabled h level = sh_Enabled (ch_inner h) level"

definition replay_op :: "slog_Handler \<Rightarrow> handlerOp \<Rightarrow> slog_Handler" where
  "replay_op target op = (if op_group op \<noteq> [] then sh_WithGroup target (op_group op) else sh_WithAttrs target (op_attrs op))"

definition ch_Handle :: "contextHandler \<Rightarrow> log_context \<Rightarrow> slog_Record \<Rightarrow> (string \<times> fields) list" where
  "ch_Handle h ctx record = (let ident = RequestIDFrom ctx in
     if ident = [] then sh_Handle (ch_inner h) record
     else if \<not> ch_grouped h then sh_Handle (ch_inner h) (record\<lparr>rec_Attrs := rec_Attrs record @ [(RequestIDAttr, ident)]\<rparr>)
     else let target = sh_WithAttrs (ch_root h) [(RequestIDAttr, ident)] in
       sh_Handle (foldl replay_op target (ch_ops h)) record)"

definition ch_WithAttrs :: "contextHandler \<Rightarrow> attr list \<Rightarrow> contextHandler" where
  "ch_WithAttrs h as = (if as = [] then h
     else \<lparr>ch_root = ch_root h, ch_inner = sh_WithAttrs (ch_inner h) as, ch_ops = ch_ops h @ [\<lparr>op_group = [], op_attrs = as\<rparr>], ch_grouped = ch_grouped h\<rparr>)"

definition ch_WithGroup :: "contextHandler \<Rightarrow> string \<Rightarrow> contextHandler" where
  "ch_WithGroup h name = (if name = [] then h
     else \<lparr>ch_root = ch_root h, ch_inner = sh_WithGroup (ch_inner h) name, ch_ops = ch_ops h @ [\<lparr>op_group = name, op_attrs = []\<rparr>], ch_grouped = True\<rparr>)"

section \<open>The contract of a handler\<close>

text \<open>
  What package \<open>slog\<close> asks of a handler: deriving one adds a group or attributes to those it has, and a
  line shows the record's attributes behind them. \<open>derive\<close> is a sequence of derivations.
\<close>

datatype derivation = Attrs "attr list" | Group string

definition op_of :: "derivation \<Rightarrow> handlerOp list" where
  "op_of d = (case d of Attrs as \<Rightarrow> (if as = [] then [] else [\<lparr>op_group = [], op_attrs = as\<rparr>])
     | Group name \<Rightarrow> (if name = [] then [] else [\<lparr>op_group = name, op_attrs = []\<rparr>]))"

definition derive :: "('h \<Rightarrow> attr list \<Rightarrow> 'h) \<Rightarrow> ('h \<Rightarrow> string \<Rightarrow> 'h) \<Rightarrow> 'h \<Rightarrow> derivation list \<Rightarrow> 'h" where
  "derive with_attrs with_group h ds = foldl (\<lambda>h d. case d of Attrs as \<Rightarrow> with_attrs h as | Group name \<Rightarrow> with_group h name) h ds"

locale log_handler =
  fixes with_attrs :: "'h \<Rightarrow> attr list \<Rightarrow> 'h" and with_group :: "'h \<Rightarrow> string \<Rightarrow> 'h"
    and emit :: "'h \<Rightarrow> slog_Record \<Rightarrow> (string \<times> fields) list" and ops :: "'h \<Rightarrow> handlerOp list" and ok :: "'h \<Rightarrow> bool"
  assumes attrs_ops: "ok h \<Longrightarrow> ops (with_attrs h as) = ops h @ op_of (Attrs as)"
    and group_ops: "ok h \<Longrightarrow> ops (with_group h name) = ops h @ op_of (Group name)"
    and attrs_ok: "ok h \<Longrightarrow> ok (with_attrs h as)"
    and group_ok: "ok h \<Longrightarrow> ok (with_group h name)"
    and written: "ok h \<Longrightarrow> emit h r = render (ops h) (rec_Attrs r)"
begin

lemma derive_ops: "ok h \<Longrightarrow> ok (derive with_attrs with_group h ds) \<and> ops (derive with_attrs with_group h ds) = ops h @ concat (map op_of ds)"
  by (induction ds rule: rev_induct) (auto simp: derive_def attrs_ops group_ops attrs_ok group_ok split: derivation.splits)

lemma derived_writes: "ok h \<Longrightarrow> emit (derive with_attrs with_group h ds) r = render (ops h @ concat (map op_of ds)) (rec_Attrs r)"
  using derive_ops written by simp

end

interpretation slog: log_handler sh_WithAttrs sh_WithGroup sh_Handle sh_ops "\<lambda>_. True"
  by unfold_locales (simp_all add: sh_WithAttrs_def sh_WithGroup_def sh_Handle_def op_of_def)

text \<open>A context handler remembers how it was derived, and its inner handler was derived alike.\<close>

definition op_ok :: "handlerOp \<Rightarrow> bool" where
  "op_ok op \<longleftrightarrow> (op_group op \<noteq> []) = (op_attrs op = [])"

definition ch_ok :: "contextHandler \<Rightarrow> bool" where
  "ch_ok h \<longleftrightarrow> sh_ops (ch_root h) = [] \<and> sh_ops (ch_inner h) = ch_ops h \<and> ch_grouped h = (\<exists>op \<in> set (ch_ops h). op_group op \<noteq> []) \<and>
     (\<forall>op \<in> set (ch_ops h). op_ok op)"

definition Background :: log_context where
  "Background = \<lparr>cx_requestID = None, cx_logger = None\<rparr>"

interpretation quiet: log_handler ch_WithAttrs ch_WithGroup "\<lambda>h r. ch_Handle h Background r" ch_ops ch_ok
  by unfold_locales
    (auto simp: ch_WithAttrs_def ch_WithGroup_def ch_Handle_def ch_ok_def op_ok_def sh_Handle_def sh_WithAttrs_def sh_WithGroup_def op_of_def
      Background_def RequestIDFrom_def)

lemma logging_New_ok: "logging_New lc opts = Inr h \<Longrightarrow> ch_ok h \<and> ch_ops h = []"
  by (auto simp: logging_New_def ch_ok_def Let_def split: option.splits if_splits)

lemma replay_ops: "\<forall>op \<in> set ops. op_ok op \<Longrightarrow> sh_ops (foldl replay_op t ops) = sh_ops t @ ops"
proof (induction ops arbitrary: t)
  case (Cons op ops)
  have "sh_ops (replay_op t op) = sh_ops t @ [op]"
    using Cons.prems by (cases op) (auto simp: replay_op_def sh_WithAttrs_def sh_WithGroup_def op_ok_def)
  then show ?case using Cons by simp
qed simp

lemma render_flat: "\<forall>op \<in> set ops. op_group op = [] \<Longrightarrow> render ops as = concat (map (\<lambda>op. leaf_attrs (op_attrs op)) ops) @ leaf_attrs as"
  by (induction ops) auto

text \<open>Both paths through the context handler put the request ID among the fields a plain handler writes.\<close>

lemma ch_Handle_places:
  assumes "ch_ok h" "RequestIDFrom ctx = ident" "ident \<noteq> []"
  shows "\<exists>pre post. ch_Handle h ctx r = pre @ (RequestIDAttr, Leaf ident) # post \<and> pre @ post = render (ch_ops h) (rec_Attrs r)"
proof (cases "ch_grouped h")
  case True
  have "sh_ops (foldl replay_op (sh_WithAttrs (ch_root h) [(RequestIDAttr, ident)]) (ch_ops h)) = \<lparr>op_group = [], op_attrs = [(RequestIDAttr, ident)]\<rparr> # ch_ops h"
    using assms(1) by (subst replay_ops) (auto simp: ch_ok_def sh_WithAttrs_def)
  then have "ch_Handle h ctx r = (RequestIDAttr, Leaf ident) # render (ch_ops h) (rec_Attrs r)"
    using True assms by (simp add: ch_Handle_def sh_Handle_def leaf_attrs_def)
  then show ?thesis by (metis append_Nil)
next
  case False
  then have flat: "\<forall>op \<in> set (ch_ops h). op_group op = []" using assms(1) by (simp add: ch_ok_def)
  then have "ch_Handle h ctx r = render (ch_ops h) (rec_Attrs r) @ [(RequestIDAttr, Leaf ident)]"
    using False assms by (simp add: ch_Handle_def sh_Handle_def ch_ok_def render_flat leaf_attrs_def)
  then show ?thesis by (intro exI [of _ "render (ch_ops h) (rec_Attrs r)"] exI [of _ "[]"]) simp
qed

lemma ch_Handle_none: "ch_ok h \<Longrightarrow> RequestIDFrom ctx = [] \<Longrightarrow> ch_Handle h ctx r = render (ch_ops h) (rec_Attrs r)"
  by (simp add: ch_Handle_def sh_Handle_def ch_ok_def)

lemma ch_Enabled_derived: "ch_Enabled (derive ch_WithAttrs ch_WithGroup h ds) level = ch_Enabled h level"
  by (induction ds rule: rev_induct)
    (auto simp: derive_def ch_Enabled_def sh_Enabled_def ch_WithAttrs_def ch_WithGroup_def sh_WithAttrs_def sh_WithGroup_def split: derivation.splits)

end
