(* ===== verification/Startup.thy ===== *)
theory Startup
  imports Log_Handler Command_Line Server_Settings Server_Routes Migrations
begin

text \<open>
  How the server comes up: opening the database (\<open>Open\<close> and what it calls in
  \<open>internal/storage/storage.go\<close>), \<open>run\<close> of \<open>apps/server/main.go\<close>, and \<open>Run\<close> and \<open>Serve\<close> of
  \<open>internal/server/server.go\<close>. What \<open>database/sql\<close> and the network do is an argument. Messages of errors are
  those of the source without the values formatted into them.
\<close>

section \<open>Opening the database\<close>

definition MemoryPath :: string where "MemoryPath = '':memory:''"

record StorageOptions =
  op_Driver :: Driver
  op_Path :: string
  op_DSN :: string
  op_MaxOpenConns :: int
  op_MaxIdleConns :: int
  op_ConnMaxLifetime :: duration

text \<open>A handle: its dialect, how it connects and the limits of its pool, where they were set.\<close>

record DB =
  db_driver :: Driver
  db_source :: "string \<times> string"
  db_maxOpen :: "int option"
  db_maxIdle :: "int option"
  db_lifetime :: "duration option"

record sql_host =
  sq_open :: "string \<Rightarrow> string \<Rightarrow> error option"
  sq_ping :: "string \<Rightarrow> string \<Rightarrow> error option"
  sq_mkdir :: "string \<Rightarrow> error option"

definition pragmas :: string where
  "pragmas = ''_pragma=busy_timeout(5000)'' @ ''&_pragma=journal_mode(WAL)'' @ ''&_pragma=foreign_keys(1)'' @ ''&_pragma=synchronous(NORMAL)''"

text \<open>\<open>filepath.ToSlash\<close>, where the separator is a slash already.\<close>

definition filepath_ToSlash :: "string \<Rightarrow> string" where
  [simp]: "filepath_ToSlash path = path"

definition sqliteDSN :: "sql_host \<Rightarrow> string \<Rightarrow> ('d, string) comp" where
  "sqliteDSN h path = (if path = MemoryPath
     then bindM (NewID []) (\<lambda>name. returnM (''file:headnet_mem_'' @ name @ ''?mode=memory&cache=shared&'' @ pragmas))
     else let dir = filepath_Dir path in
       case (if dir \<noteq> [] \<and> dir \<noteq> ''.'' then sq_mkdir h dir else None) of
         Some err \<Rightarrow> failM (wrap (''storage: creating the database directory '' @ dir) err)
       | None \<Rightarrow> returnM (''file:'' @ filepath_ToSlash path @ ''?'' @ pragmas))"

definition openSQLite :: "sql_host \<Rightarrow> StorageOptions \<Rightarrow> ('d, DB) comp" where
  "openSQLite h opts = (if TrimSpace (op_Path opts) = [] then failM (ErrNew ''storage: sqlite requires a database path'')
     else bindM (sqliteDSN h (op_Path opts)) (\<lambda>dsn.
       case sq_open h ''sqlite'' dsn of
         Some err \<Rightarrow> failM (wrap ''storage: opening the sqlite database'' err)
       | None \<Rightarrow> let handle = \<lparr>db_driver = DriverSQLite, db_source = (''sqlite'', dsn), db_maxOpen = Some 1, db_maxIdle = Some 1, db_lifetime = Some 0\<rparr> in
           (case sq_ping h ''sqlite'' dsn of
              Some err \<Rightarrow> failM (wrap (''storage: connecting to the sqlite database at '' @ op_Path opts) err)
            | None \<Rightarrow> returnM handle)))"

definition openPostgres :: "sql_host \<Rightarrow> StorageOptions \<Rightarrow> ('d, DB) comp" where
  "openPostgres h opts = (if TrimSpace (op_DSN opts) = [] then failM (ErrNew ''storage: postgres requires a connection string'')
     else case sq_open h ''pgx'' (op_DSN opts) of
       Some err \<Rightarrow> failM (wrap ''storage: opening the postgres database'' err)
     | None \<Rightarrow> let handle = \<lparr>db_driver = DriverPostgres, db_source = (''pgx'', op_DSN opts),
           db_maxOpen = (if op_MaxOpenConns opts > 0 then Some (op_MaxOpenConns opts) else None),
           db_maxIdle = (if op_MaxIdleConns opts \<ge> 0 then Some (op_MaxIdleConns opts) else None), db_lifetime = Some (op_ConnMaxLifetime opts)\<rparr> in
         (case sq_ping h ''pgx'' (op_DSN opts) of
            Some err \<Rightarrow> failM (wrap ''storage: connecting to the postgres database'' err)
          | None \<Rightarrow> returnM handle))"

definition Open :: "sql_host \<Rightarrow> StorageOptions \<Rightarrow> ('d, DB) comp" where
  "Open h opts = (if op_Driver opts = DriverSQLite then openSQLite h opts
     else if op_Driver opts = DriverPostgres then openPostgres h opts
     else if op_Driver opts = [] then failM (ErrNew ''storage: no driver configured (expected sqlite or postgres)'')
     else failM (ErrNew ''storage: unsupported driver''))"

section \<open>The entry point\<close>

record server_env =
  sv_host :: host
  sv_lib :: libraries
  sv_sql :: sql_host
  sv_exec :: sql_engine
  sv_appliedAt :: "int \<Rightarrow> instant"
  sv_wall :: time
  sv_encode :: "(string \<times> any) list \<Rightarrow> string \<times> error option"

text \<open>What \<open>shared.SystemClock\<close> says while the server starts; the wall clock is read once.\<close>

definition sv_now :: "server_env \<Rightarrow> instant" where
  "sv_now env = tm_instant (Now SystemClock (sv_wall env))"

text \<open>The dependencies of a server, any of which a caller may leave out.\<close>

record ServerOptions =
  opt_Config :: "Config option"
  opt_DB :: "DB option"
  opt_Logger :: "contextHandler option"
  opt_InstanceID :: string
  opt_Clock :: "Clock option"

definition server_New :: "libraries \<Rightarrow> time \<Rightarrow> ServerOptions \<Rightarrow> (db, Server) comp" where
  "server_New lib wall opts = (case opt_Config opts of
     None \<Rightarrow> failM (ErrNew ''server: a configuration is required'')
   | Some cfg \<Rightarrow>
       if opt_Logger opts = None then failM (ErrNew ''server: a logger is required'')
       else if opt_DB opts = None then failM (ErrNew ''server: a database handle is required'')
       else let clock = (case opt_Clock opts of None \<Rightarrow> SystemClock | Some c \<Rightarrow> c) in
         New lib cfg (opt_InstanceID opts) (tm_instant (Now clock wall)))"

lemma server_New_complete: "server_New lib wall \<lparr>opt_Config = Some cfg, opt_DB = Some handle, opt_Logger = Some logger,
    opt_InstanceID = ident, opt_Clock = c\<rparr> = New lib cfg ident (tm_instant (Now (case c of None \<Rightarrow> SystemClock | Some c \<Rightarrow> c) wall))"
  by (simp add: server_New_def)

text \<open>Inside \<open>New\<close>, the store of devices always gets its two dependencies.\<close>

lemma New_device_store: "New lib cfg ident now w = (Ret s, w') \<Longrightarrow>
    NewStore (lib_lower lib) (lib_IntN lib) (Some handle) (Some (st_allocator (se_devices s))) = Inr (se_devices s)"
  by (auto simp: New_def NewStore_def bindM_Ret failM_def split: option.splits)

datatype run_result = Printed string | MigrationsOnly nat | Ready Server

definition server_flags :: "flag_spec list" where
  "server_flags = [
     \<lparr>fl_Name = ''config'', fl_Default = FString [], fl_Usage = ''path to the configuration file (optional; defaults and environment variables are used when absent)''\<rparr>,
     \<lparr>fl_Name = ''version'', fl_Default = FBool False, fl_Usage = ''print the build version and exit''\<rparr>,
     \<lparr>fl_Name = ''print-config'', fl_Default = FBool False, fl_Usage = ''print the effective configuration with secrets masked, then exit''\<rparr>,
     \<lparr>fl_Name = ''migrate-only'', fl_Default = FBool False, fl_Usage = ''apply database migrations and exit without serving''\<rparr>]"

definition liftR :: "'a res \<Rightarrow> ('d, 'a) comp" where
  "liftR r w = (r, w)"

definition liftS :: "error + 'a \<Rightarrow> ('d, 'a) comp" where
  "liftS r = (case r of Inl e \<Rightarrow> failM e | Inr x \<Rightarrow> returnM x)"

definition printEffectiveConfig :: "server_env \<Rightarrow> Config \<Rightarrow> ('d, run_result) comp" where
  "printEffectiveConfig env cfg = bindM (liftS (Redacted (lib_lower (sv_lib env)) cfg)) (\<lambda>redacted.
     case sv_encode env redacted of (out, Some err) \<Rightarrow> failM err | (out, None) \<Rightarrow> returnM (Printed out))"

definition storage_options :: "Config \<Rightarrow> StorageOptions" where
  "storage_options cfg = (let d = cfg_Database cfg in \<lparr>op_Driver = db_Driver d, op_Path = db_Path d, op_DSN = db_DSN d,
     op_MaxOpenConns = MaxOpenConns d, op_MaxIdleConns = MaxIdleConns d, op_ConnMaxLifetime = ConnMaxLifetime d\<rparr>)"

definition start_server :: "server_env \<Rightarrow> Config \<Rightarrow> bool \<Rightarrow> (db, run_result) comp" where
  "start_server env cfg migrateOnly =
     bindM (liftS (logging_New (lib_lower (sv_lib env)) \<lparr>lo_Level = log_Level (cfg_Log cfg), lo_Format = log_Format (cfg_Log cfg), lo_AddSource = log_AddSource (cfg_Log cfg), lo_Output = True\<rparr>)) (\<lambda>logger.
     bindM (Open (sv_sql env) (storage_options cfg)) (\<lambda>db.
     bindM (Migrate (sv_exec env) (lib_migrationsFS (sv_lib env)) (db_driver db) (sv_appliedAt env)) (\<lambda>(applied, err).
     case err of
       Some e \<Rightarrow> failM e
     | None \<Rightarrow> if migrateOnly then returnM (MigrationsOnly applied)
         else bindM (InstanceID (sv_now env)) (\<lambda>instanceID.
           bindM (server_New (sv_lib env) (sv_wall env) \<lparr>opt_Config = Some cfg, opt_DB = Some db, opt_Logger = Some logger,
             opt_InstanceID = instanceID, opt_Clock = None\<rparr>) (\<lambda>srv. returnM (Ready srv))))))"

definition start_up :: "server_env \<Rightarrow> string list \<Rightarrow> (db, run_result) comp" where
  "start_up env argv = (case flag_Parse (flag_defaults server_flags) argv of
     Inl err \<Rightarrow> failM (ErrNew (flag_error_text err))
   | Inr (vals, _) \<Rightarrow>
       if flag_bool vals ''version'' then returnM (Printed (Info_String (lib_build (sv_lib env)) @ line_break))
       else bindM (mapErr (\<lambda>err. if errors_Is err ErrFileNotFound
             then wrap ''Check the -config path, or omit the flag to use defaults and environment variables'' err else err)
           (liftR (settings_Load (sv_host env) (lib_lower (sv_lib env)) (lib_ParseURL (sv_lib env)) (flag_string vals ''config'')))) (\<lambda>cfg.
         if flag_bool vals ''print-config'' then printEffectiveConfig env cfg
         else start_server env cfg (flag_bool vals ''migrate-only'')))"

section \<open>Serving\<close>

text \<open>
  How serving ends: \<open>http.Server.Serve\<close> returns by itself, always with an error, or the context is
  cancelled, \<open>Shutdown\<close> returns, and then the error of \<open>Serve\<close> is collected. Requests meanwhile act on
  the database as \<open>traffic\<close>. The lines logged on the way are not part of the result, apart from the
  warning of \<open>warnIfUnclaimed\<close>.
\<close>

datatype serve_end = Ended error | Cancelled "error option" error

definition ErrServerClosed :: error where "ErrServerClosed = ErrNew ''http: Server closed''"

datatype warning = Claimed | Unclaimed | Undetermined error

definition warnIfUnclaimed :: "(db, warning) comp" where
  "warnIfUnclaimed = bindM (tryM BootstrapClaimed) (\<lambda>r. case r of
     Inl err \<Rightarrow> returnM (Undetermined err)
   | Inr yes \<Rightarrow> returnM (if yes then Claimed else Unclaimed))"

definition Serve :: "(db \<Rightarrow> db) \<Rightarrow> serve_end \<Rightarrow> (db, warning) comp" where
  "Serve traffic ending = (let serveErr = (\<lambda>err. if errors_Is err ErrServerClosed then None else Some err) in
     bindM warnIfUnclaimed (\<lambda>warned.
     bindM (\<lambda>w. (Ret (), w\<lparr>w_db := traffic (w_db w)\<rparr>)) (\<lambda>_.
     case ending of
       Ended err \<Rightarrow> (case serveErr err of Some err \<Rightarrow> failM err | None \<Rightarrow> returnM warned)
     | Cancelled (Some err) _ \<Rightarrow> failM (wrap ''shutting down'' err)
     | Cancelled None err \<Rightarrow> (case serveErr err of Some err \<Rightarrow> failM err | None \<Rightarrow> returnM warned))))"

definition server_Run :: "(string \<Rightarrow> error option) \<Rightarrow> Server \<Rightarrow> (db \<Rightarrow> db) \<Rightarrow> serve_end \<Rightarrow> (db, warning) comp" where
  "server_Run listen s traffic ending = (let addr = Listen (cfg_Server (se_cfg s)) in
     case listen addr of Some err \<Rightarrow> failM (wrap (''binding '' @ addr) err) | None \<Rightarrow> Serve traffic ending)"

datatype exit = Exited run_result | Stopped

definition run :: "server_env \<Rightarrow> (string \<Rightarrow> error option) \<Rightarrow> (db \<Rightarrow> db) \<Rightarrow> serve_end \<Rightarrow> string list \<Rightarrow> (db, exit) comp" where
  "run env listen traffic ending argv = bindM (start_up env argv) (\<lambda>r. case r of
     Ready srv \<Rightarrow> bindM (server_Run listen srv traffic ending) (\<lambda>_. returnM Stopped)
   | _ \<Rightarrow> returnM (Exited r))"

text \<open>\<open>main\<close>: the exit code of the process and what it writes to standard error at its end.\<close>

datatype process_end = Exit int string | Crash string

definition server_main :: "server_env \<Rightarrow> (string \<Rightarrow> error option) \<Rightarrow> (db \<Rightarrow> db) \<Rightarrow> serve_end \<Rightarrow> string list \<Rightarrow> db world \<Rightarrow> process_end \<times> db world" where
  "server_main env listen traffic ending argv w = (case run env listen traffic ending (drop 1 argv) w of
     (Ret _, w') \<Rightarrow> (Exit 0 [], w')
   | (Err err, w') \<Rightarrow> (Exit 1 (''headnet-server: '' @ lib_errorText (sv_lib env) err @ line_break), w')
   | (Panic msg, w') \<Rightarrow> (Crash msg, w'))"

section \<open>What a start has done\<close>

lemma Open_Ret: "Open h opts w = (Ret handle, w') \<Longrightarrow> db_driver handle = op_Driver opts \<and> w_db w' = w_db w \<and>
    (op_Driver opts = DriverSQLite \<longrightarrow> db_maxOpen handle = Some 1 \<and> (\<exists>pre. snd (db_source handle) = pre @ pragmas))"
proof -
  assume o: "Open h opts w = (Ret handle, w')"
  have ne: "DriverSQLite \<noteq> DriverPostgres" by (simp add: name_defs)
  have dsn: "w_db v = w_db w \<and> (\<exists>pre. dsn = pre @ pragmas)" if "sqliteDSN h p w = (Ret dsn, v)" for p dsn v
    using that by (auto simp: sqliteDSN_def Let_def bindM_Ret failM_def split: if_splits option.splits dest: NewID_frame intro: append_assoc [symmetric])
  show ?thesis
    using o ne by (auto simp: Open_def openSQLite_def openPostgres_def bindM_Ret failM_def Let_def split: if_splits option.splits dest!: dsn)
qed

lemma keeps_ledger_InstanceID: "keeps (\<lambda>d. schema_migrations d = l) (InstanceID now)"
proof -
  have "keeps (\<lambda>d. schema_migrations d = l) (execM (insert_metadata_once k v t))" for k v t
    by (rule keeps_execM) (auto simp: insert_metadata_once_def split: if_splits)
  then show ?thesis unfolding InstanceID_def instance_tx_def by (intro pres_intros keeps_commits)
qed

lemma keeps_New: "keeps I (New lib cfg i t)"
proof -
  have "w_db w' = w_db w" if "DummyHash idkey w = (r, w')" for idkey w r and w' :: "db world"
    using that by (auto simp: DummyHash_def bindM_def mapErr_def rand_Read_def split: if_splits prod.splits res.splits dest: HashPassword_frame)
  then have "keeps I (DummyHash idkey)" for idkey by (intro keeps_frame)
  moreover have "keeps I (NewAllocator n)" for n
    by (rule keeps_frame) (auto simp: NewAllocator_def returnM_def failM_def panicM_def split: option.splits if_splits prod.splits sum.splits)
  ultimately show ?thesis unfolding New_def by (intro pres_intros)
qed

lemma New_frame: "New lib cfg i t w = (Ret s, w') \<Longrightarrow> w_db w' = w_db w \<and> se_cfg s = cfg \<and> se_instanceID s = i \<and> se_migrationsFS s = lib_migrationsFS lib \<and>
    Config_Validate (lib_lower lib) (lib_ParseURL lib) cfg = None"
proof -
  assume n: "New lib cfg i t w = (Ret s, w')"
  have "w_db w' = w_db w" using keepsD [OF keeps_New [of "\<lambda>d. d = w_db w"] n] by simp
  moreover have "se_cfg s = cfg \<and> se_instanceID s = i \<and> se_migrationsFS s = lib_migrationsFS lib \<and> Config_Validate (lib_lower lib) (lib_ParseURL lib) cfg = None"
    using n unfolding New_def by (cases "Config_Validate (lib_lower lib) (lib_ParseURL lib) cfg") (auto simp: bindM_Ret failM_def)
  ultimately show ?thesis by blast
qed

lemma print_not_Ready: "printEffectiveConfig env cfg w \<noteq> (Ret (Ready s), w')"
  by (auto simp: printEffectiveConfig_def bindM_Ret failM_def split: prod.splits option.splits)

lemma start_server_New: "start_server env cfg migrateOnly =
     bindM (liftS (logging_New (lib_lower (sv_lib env)) \<lparr>lo_Level = log_Level (cfg_Log cfg), lo_Format = log_Format (cfg_Log cfg), lo_AddSource = log_AddSource (cfg_Log cfg), lo_Output = True\<rparr>)) (\<lambda>logger.
     bindM (Open (sv_sql env) (storage_options cfg)) (\<lambda>db.
     bindM (Migrate (sv_exec env) (lib_migrationsFS (sv_lib env)) (db_driver db) (sv_appliedAt env)) (\<lambda>(applied, err).
     case err of
       Some e \<Rightarrow> failM e
     | None \<Rightarrow> if migrateOnly then returnM (MigrationsOnly applied)
         else bindM (InstanceID (sv_now env)) (\<lambda>instanceID.
           bindM (New (sv_lib env) cfg instanceID (sv_now env)) (\<lambda>srv. returnM (Ready srv))))))"
  unfolding start_server_def server_New_complete sv_now_def option.case by (rule refl)

lemma start_server_Ready:
  assumes "start_server env cfg only w = (Ret (Ready s), w')"
  obtains w1 w2 n w3 where "w_db w1 = w_db w" "Migrate (sv_exec env) (lib_migrationsFS (sv_lib env)) (db_Driver (cfg_Database cfg)) (sv_appliedAt env) w1 = (Ret (n, None), w2)"
    "InstanceID (sv_now env) w2 = (Ret (se_instanceID s), w3)" "New (sv_lib env) cfg (se_instanceID s) (sv_now env) w3 = (Ret s, w')" "\<not> only"
proof -
  obtain handle v w1 n err w2 where run: "logging_New (lib_lower (sv_lib env)) \<lparr>lo_Level = log_Level (cfg_Log cfg), lo_Format = log_Format (cfg_Log cfg), lo_AddSource = log_AddSource (cfg_Log cfg), lo_Output = True\<rparr> = Inr v"
    "Open (sv_sql env) (storage_options cfg) w = (Ret handle, w1)" "Migrate (sv_exec env) (lib_migrationsFS (sv_lib env)) (db_driver handle) (sv_appliedAt env) w1 = (Ret (n, err), w2)"
    "(case err of Some e \<Rightarrow> failM e | None \<Rightarrow> if only then returnM (MigrationsOnly n)
         else bindM (InstanceID (sv_now env)) (\<lambda>instanceID. bindM (New (sv_lib env) cfg instanceID (sv_now env)) (\<lambda>srv. returnM (Ready srv)))) w2 = (Ret (Ready s), w')"
    using assms by (auto simp: start_server_New liftS_def bindM_Ret failM_def split: sum.splits)
  then obtain i w3 where last: "err = None" "\<not> only" "InstanceID (sv_now env) w2 = (Ret i, w3)" "New (sv_lib env) cfg i (sv_now env) w3 = (Ret s, w')"
    by (auto simp: bindM_Ret failM_def split: option.splits if_splits)
  moreover have "db_driver handle = db_Driver (cfg_Database cfg)" "w_db w1 = w_db w" using Open_Ret [OF run(2)] by (simp_all add: storage_options_def Let_def)
  moreover have "se_instanceID s = i" using New_frame [OF last(4)] by simp
  ultimately show thesis using that run(3) by auto
qed

lemma start_up_Ready:
  assumes "start_up env argv w = (Ret (Ready s), w')"
  shows "\<exists>path only. settings_Load (sv_host env) (lib_lower (sv_lib env)) (lib_ParseURL (sv_lib env)) path = Ret (se_cfg s) \<and> start_server env (se_cfg s) only w = (Ret (Ready s), w')"
proof -
  obtain vals cfg rest where run: "flag_Parse (flag_defaults server_flags) argv = Inr (vals, rest)"
    "settings_Load (sv_host env) (lib_lower (sv_lib env)) (lib_ParseURL (sv_lib env)) (flag_string vals ''config'') = Ret cfg"
    "start_server env cfg (flag_bool vals ''migrate-only'') w = (Ret (Ready s), w')"
    using assms by (auto simp: start_up_def bindM_Ret liftR_def print_not_Ready failM_def split: sum.splits if_splits prod.splits option.splits)
  obtain w3 where "New (sv_lib env) cfg (se_instanceID s) (sv_now env) w3 = (Ret s, w')" using start_server_Ready [OF run(3)] by blast
  then have "se_cfg s = cfg" using New_frame by blast
  then show ?thesis using run(2,3) by blast
qed

end
