(* ===== verification/Startup_Theorems.thy ===== *)
theory Startup_Theorems
  imports Startup Migration_Theorems Config_Theorems
begin

text \<open>What holds of a server that has started.\<close>

section \<open>A sample start\<close>

text \<open>An installation that has its identity already and no migration yet.\<close>

definition claimed_db :: db where
  "claimed_db = empty_db\<lparr>server_metadata := [\<lparr>m_key = KeyInstanceID, m_value = ''net_1'', m_created_at = 0, m_updated_at = 0\<rparr>]\<rparr>"

definition first_world :: "db world" where
  "first_world = \<lparr>w_db = claimed_db, w_faults = [], w_entropy = replicate 48 7\<rparr>"

definition sample_server_env :: server_env where
  "sample_server_env = \<lparr>sv_host = sample_host (\<lambda>_. []), sv_lib = sample_lib, sv_sql = \<lparr>sq_open = (\<lambda>_ _. None), sq_ping = (\<lambda>_ _. None), sq_mkdir = (\<lambda>_. None)\<rparr>,
     sv_exec = sample_exec, sv_appliedAt = (\<lambda>_. 7), sv_wall = \<lparr>tm_instant = 0, tm_zone = 3600\<rparr>, sv_encode = (\<lambda>_. ([], None))\<rparr>"

lemma sample_unset: "overrides (sample_host (\<lambda>_. [])) c c"
  unfolding overrides_def list_all2_same
  by (auto simp: from_env_def getenv_def server_options_def sample_host_def TrimSpace_Nil split: option.splits)

lemma sample_settings:
  "settings_Load (sample_host (\<lambda>_. [])) (lib_lower sample_lib) (lib_ParseURL sample_lib) ''/etc/headnet.yaml'' = Ret sample_config"
  using settings_Load_Ret [OF sample_decodes] sample_config_valid sample_file sample_unset by blast

lemma sample_migrate:
  "\<exists>d. Migrate sample_exec sample_fs ''sqlite'' (\<lambda>_. 7) first_world = (Ret (2, None), first_world\<lparr>w_db := d\<rparr>) \<and> metadata d KeyInstanceID = Some ''net_1''"
  by (simp add: Migrate_def sample_loaded ensureLedger_def AppliedMigrations_def create_ledger_def first_world_def claimed_db_def empty_db_def
      calm_execM calm_queryM bindM_def tryM_def mapErr_def returnM_def applyOne_def calm_InTx InTx_def calm_driver_call sample_exec_def insert_ledger_def
      sample_migration_def metadata_def KeyInstanceID_def)

lemma sample_start: "\<exists>s w'. start_up sample_server_env [''-config'', ''/etc/headnet.yaml''] first_world = (Ret (Ready s), w') \<and> se_cfg s = sample_config"
proof -
  obtain d where m: "Migrate sample_exec sample_fs ''sqlite'' (\<lambda>_. 7) first_world = (Ret (2, None), first_world\<lparr>w_db := d\<rparr>)" "metadata d KeyInstanceID = Some ''net_1''"
    using sample_migrate by blast
  let ?v = "first_world\<lparr>w_db := d\<rparr>"
  have flags: "flag_Parse (flag_defaults server_flags) [''-config'', ''/etc/headnet.yaml''] = Inr ((flag_defaults server_flags)(''config'' \<mapsto> FString ''/etc/headnet.yaml''), [])"
    by (simp add: flag_Parse.simps parseOne_def flag_name_def Cut_def flag_defaults_def server_flags_def flag_Set_def Let_def)
  have vals: "flag_string ((flag_defaults server_flags)(''config'' \<mapsto> FString p)) ''config'' = p" "\<not> flag_bool ((flag_defaults server_flags)(''config'' \<mapsto> FString p)) ''version''"
    "\<not> flag_bool ((flag_defaults server_flags)(''config'' \<mapsto> FString p)) ''print-config''" "\<not> flag_bool ((flag_defaults server_flags)(''config'' \<mapsto> FString p)) ''migrate-only''" for p
    by (simp_all add: flag_string_def flag_bool_def flag_defaults_def server_flags_def)
  obtain logger where log: "logging_New (lib_lower sample_lib) \<lparr>lo_Level = log_Level (cfg_Log sample_config), lo_Format = log_Format (cfg_Log sample_config), lo_AddSource = log_AddSource (cfg_Log sample_config), lo_Output = True\<rparr> = Inr logger"
    using sample_config_valid unfolding Config_Validate_None by (auto simp: Log_validate_def logging_New_def Let_def)
  have dsn: "sqliteDSN (sv_sql sample_server_env) p first_world = (Ret (''file:'' @ p @ ''?'' @ pragmas), first_world)" if "p \<noteq> MemoryPath" for p
    using that by (cases "filepath_Dir p \<noteq> [] \<and> filepath_Dir p \<noteq> ''.''") (simp_all add: sqliteDSN_def sample_server_env_def returnM_def Let_def)
  obtain handle where opened: "Open (sv_sql sample_server_env) (storage_options sample_config) first_world = (Ret handle, first_world)" "db_driver handle = ''sqlite''"
    by (simp add: Open_def openSQLite_def storage_options_def sample_config_def Default_def name_defs bindM_def dsn MemoryPath_def returnM_def str_simps Let_def)
      (simp add: sample_server_env_def name_defs)
  have ident: "InstanceID 0 ?v = (Ret ''net_1'', ?v)"
    using m(2) by (simp add: InstanceID_def bindM_def tryM_def calm_GetMetadata first_world_def returnM_def)
  obtain w' where built: "New sample_lib sample_config ''net_1'' 0 ?v = (Ret sample_server, w')" using New_sample [of d] by (auto simp: first_world_def)
  have env: "sv_lib sample_server_env = sample_lib" "sv_host sample_server_env = sample_host (\<lambda>_. [])" "sv_exec sample_server_env = sample_exec" "sv_appliedAt sample_server_env = (\<lambda>_. 7)" "sv_now sample_server_env = 0"
    "lib_migrationsFS sample_lib = sample_fs"
    by (simp_all add: sample_server_env_def sample_lib_def sv_now_def)
  have "start_server sample_server_env sample_config False first_world = (Ret (Ready sample_server), w')"
    using log opened m(1) ident built by (simp add: start_server_New bindM_def liftS_def returnM_def env)
  then have "start_up sample_server_env [''-config'', ''/etc/headnet.yaml''] first_world = (Ret (Ready sample_server), w')"
    using flags vals sample_settings by (simp add: start_up_def bindM_def mapErr_def liftR_def env)
  then show ?thesis using New_frame [OF built] by blast
qed

section \<open>Properties\<close>

text \<open>
  C16: A server that comes up has a valid configuration, each setting of which comes from its variable,
  the file or the default; its database records exactly the migrations of this build; and the identity
  it answers with is the one the database holds. As long as the database answers, its probes report it
  as healthy.
\<close>

theorem startup_ready:
  assumes "start_up env argv w = (Ret (Ready s), w')" "decodes_structs (sv_host env)"
    "LoadMigrations (lib_migrationsFS (sv_lib env)) (db_Driver (cfg_Database (se_cfg s))) = Inr (pre @ todo)" "pre @ todo \<noteq> []"
    "\<forall>m \<in> set todo. leaves_ledger (sv_exec env) m" "migrated (sv_exec env) base pre (w_db w)"
  shows "Config_Validate (lib_lower (sv_lib env)) (lib_ParseURL (sv_lib env)) (se_cfg s) = None \<and>
    (\<exists>path c0. file_gives (sv_host env) path c0 \<and> overrides (sv_host env) c0 (se_cfg s)) \<and>
    map (\<lambda>r. (l_version r, l_name r, l_checksum r)) (ledger_rows (w_db w')) = map entry_of (pre @ todo) \<and>
    metadata (w_db w') KeyInstanceID = Some (se_instanceID s) \<and>
    (\<forall>v start fin. w_faults v = [] \<and> w_db v = w_db w' \<longrightarrow> (\<exists>resp. probe s start fin v = (Ret resp, v) \<and> hr_Status resp = StatusOK))"
proof -
  obtain path only where load: "settings_Load (sv_host env) (lib_lower (sv_lib env)) (lib_ParseURL (sv_lib env)) path = Ret (se_cfg s)"
    and start: "start_server env (se_cfg s) only w = (Ret (Ready s), w')" using start_up_Ready [OF assms(1)] by blast
  obtain w1 w2 n w3 where run: "w_db w1 = w_db w"
    "Migrate (sv_exec env) (lib_migrationsFS (sv_lib env)) (db_Driver (cfg_Database (se_cfg s))) (sv_appliedAt env) w1 = (Ret (n, None), w2)"
    "InstanceID (sv_now env) w2 = (Ret (se_instanceID s), w3)" "New (sv_lib env) (se_cfg s) (se_instanceID s) (sv_now env) w3 = (Ret s, w')" "\<not> only"
    by (rule start_server_Ready [OF start])
  have "migrated (sv_exec env) base (pre @ todo) (w_db w2)"
    using Migrate_refines [OF assms(3,5) _ run(2), of base] assms(6) run(1) by auto
  then have entries: "map (\<lambda>r. (l_version r, l_name r, l_checksum r)) (ledger_rows (w_db w2)) = map entry_of (pre @ todo)" by (simp add: migrated_def)
  have "schema_migrations (w_db w3) = schema_migrations (w_db w2)" using keepsD [OF keeps_ledger_InstanceID run(3)] by simp
  moreover have new: "w_db w' = w_db w3" "se_migrationsFS s = lib_migrationsFS (sv_lib env)" using New_frame [OF run(4)] by simp_all
  ultimately have ledger: "map (\<lambda>r. (l_version r, l_name r, l_checksum r)) (ledger_rows (w_db w')) = map entry_of (pre @ todo)"
    using entries by (simp add: ledger_rows_def)
  moreover have "\<exists>resp. probe s start fin v = (Ret resp, v) \<and> hr_Status resp = StatusOK" if "w_faults v = []" "w_db v = w_db w'" for v start fin
    using probe_current [of s "pre @ todo" v] assms(3,4) new(2) ledger that by simp
  moreover have "Config_Validate (lib_lower (sv_lib env)) (lib_ParseURL (sv_lib env)) (se_cfg s) = None" "\<exists>c0. file_gives (sv_host env) path c0 \<and> overrides (sv_host env) c0 (se_cfg s)"
    using load unfolding settings_Load_Ret [OF assms(2)] by blast+
  moreover have "metadata (w_db w') KeyInstanceID = Some (se_instanceID s)" using InstanceID_Ret [OF run(3)] new(1) by simp
  ultimately show ?thesis by blast
qed

theorem startup_ready_witness:
  "\<exists>s w' resp v'. start_up sample_server_env [''-config'', ''/etc/headnet.yaml''] first_world = (Ret (Ready s), w') \<and>
     metadata (w_db w') KeyInstanceID = Some (se_instanceID s) \<and> probe s 0 5 \<lparr>w_db = w_db w', w_faults = [], w_entropy = []\<rparr> = (Ret resp, v') \<and> hr_Status resp = StatusOK"
proof -
  obtain s w' where start: "start_up sample_server_env [''-config'', ''/etc/headnet.yaml''] first_world = (Ret (Ready s), w')" "se_cfg s = sample_config"
    using sample_start by blast
  have "decodes_structs (sv_host sample_server_env)" using sample_decodes by (simp add: sample_server_env_def)
  moreover have "LoadMigrations (lib_migrationsFS (sv_lib sample_server_env)) (db_Driver (cfg_Database (se_cfg s))) = Inr ([] @ [sample_migration 1 ''init'' ''A'', sample_migration 2 ''users'' ''B''])"
    using sample_loaded start(2) by (simp add: sample_server_env_def sample_lib_def sample_config_def Default_def name_defs)
  moreover have "migrated (sv_exec sample_server_env) claimed_db [] (w_db first_world)" by (simp add: migrated_def ledger_rows_def first_world_def claimed_db_def empty_db_def)
  moreover have "leaves_ledger (sv_exec sample_server_env) m" for m using sample_leaves by (simp add: sample_server_env_def)
  ultimately have up: "metadata (w_db w') KeyInstanceID = Some (se_instanceID s)"
      "\<And>v start fin. w_faults v = [] \<and> w_db v = w_db w' \<Longrightarrow> \<exists>resp. probe s start fin v = (Ret resp, v) \<and> hr_Status resp = StatusOK"
    using startup_ready [OF start(1), of "[]" "[sample_migration 1 ''init'' ''A'', sample_migration 2 ''users'' ''B'']" claimed_db] by blast+
  show ?thesis using start(1) up(1) up(2) [of "\<lparr>w_db = w_db w', w_faults = [], w_entropy = []\<rparr>" 0 5] by auto
qed

end
