(* ===== verification/Request_Log.thy ===== *)
theory Request_Log
  imports Log_Handler Server_Routes
begin

text \<open>
  The line logged for every request (\<open>RequestLogger\<close>, \<open>WithLogger\<close> and \<open>responseRecorder\<close> of
  \<open>internal/httpapi/middleware.go\<close>). Here a handler is what it does with its \<open>http.ResponseWriter\<close>: the
  calls it makes and whether it panics after them. How many bytes of a write the connection takes is
  an argument.
\<close>

section \<open>Response writers\<close>

datatype call = CallWriteHeader nat | CallWrite string

text \<open>
  The writer of \<open>net/http\<close>: the final status once it is sent, the informational ones before it and the
  bytes of the body. A panic is the first component.
\<close>

record response_writer =
  rw_final :: "nat option"
  rw_early :: "nat list"
  rw_body :: string

definition rw_WriteHeader :: "nat \<Rightarrow> response_writer \<Rightarrow> string option \<times> response_writer" where
  "rw_WriteHeader status w = (if rw_final w \<noteq> None then (None, w)
     else if status < 100 \<or> status > 999 then (Some (''invalid WriteHeader code '' @ Itoa status), w)
     else if status \<le> 199 \<and> status \<noteq> 101 then (None, w\<lparr>rw_early := rw_early w @ [status]\<rparr>)
     else (None, w\<lparr>rw_final := Some status\<rparr>))"

definition rw_Write :: "(response_writer \<Rightarrow> string \<Rightarrow> nat) \<Rightarrow> string \<Rightarrow> response_writer \<Rightarrow> nat \<times> response_writer" where
  "rw_Write takes b w = (let w1 = (if rw_final w = None then w\<lparr>rw_final := Some 200\<rparr> else w); sent = take (takes w1 b) b in
     (length sent, w1\<lparr>rw_body := rw_body w1 @ sent\<rparr>))"

definition rw_call :: "(response_writer \<Rightarrow> string \<Rightarrow> nat) \<Rightarrow> call \<Rightarrow> response_writer \<Rightarrow> string option \<times> response_writer" where
  "rw_call takes c w = (case c of CallWriteHeader status \<Rightarrow> rw_WriteHeader status w | CallWrite b \<Rightarrow> (None, snd (rw_Write takes b w)))"

text \<open>What the client gets once the handler has returned: without a status, the server sends 200.\<close>

definition sent_status :: "response_writer \<Rightarrow> nat" where
  "sent_status w = (case rw_final w of None \<Rightarrow> 200 | Some status \<Rightarrow> status)"

definition fresh_writer :: response_writer where
  "fresh_writer = \<lparr>rw_final = None, rw_early = [], rw_body = []\<rparr>"

record responseRecorder =
  rr_ResponseWriter :: response_writer
  rr_status :: nat
  rr_written :: int
  rr_wroteHeader :: bool

definition rr_WriteHeader :: "nat \<Rightarrow> responseRecorder \<Rightarrow> string option \<times> responseRecorder" where
  "rr_WriteHeader status r = (if rr_wroteHeader r then (None, r)
     else let r1 = r\<lparr>rr_wroteHeader := True, rr_status := status\<rparr> in
       case rw_WriteHeader status (rr_ResponseWriter r1) of (p, w) \<Rightarrow> (p, r1\<lparr>rr_ResponseWriter := w\<rparr>))"

definition rr_Write :: "(response_writer \<Rightarrow> string \<Rightarrow> nat) \<Rightarrow> string \<Rightarrow> responseRecorder \<Rightarrow> nat \<times> responseRecorder" where
  "rr_Write takes b r = (let r1 = (if \<not> rr_wroteHeader r then snd (rr_WriteHeader 200 r) else r) in
     case rw_Write takes b (rr_ResponseWriter r1) of (n, w) \<Rightarrow>
       (n, r1\<lparr>rr_ResponseWriter := w, rr_written := rr_written r1 + int n\<rparr>))"

definition rr_call :: "(response_writer \<Rightarrow> string \<Rightarrow> nat) \<Rightarrow> call \<Rightarrow> responseRecorder \<Rightarrow> string option \<times> responseRecorder" where
  "rr_call takes c r = (case c of CallWriteHeader status \<Rightarrow> rr_WriteHeader status r | CallWrite b \<Rightarrow> (None, snd (rr_Write takes b r)))"

definition rr_Unwrap :: "responseRecorder \<Rightarrow> response_writer" where
  "rr_Unwrap r = rr_ResponseWriter r"

text \<open>The calls of a handler, up to a panic.\<close>

fun run_calls :: "(call \<Rightarrow> 'w \<Rightarrow> string option \<times> 'w) \<Rightarrow> call list \<Rightarrow> 'w \<Rightarrow> string option \<times> 'w" where
  "run_calls step [] w = (None, w)"
| "run_calls step (c # cs) w = (case step c w of (Some p, w') \<Rightarrow> (Some p, w') | (None, w') \<Rightarrow> run_calls step cs w')"

record behaviour =
  bh_calls :: "call list"
  bh_panic :: "string option"

definition ServeHTTP :: "(call \<Rightarrow> 'w \<Rightarrow> string option \<times> 'w) \<Rightarrow> behaviour \<Rightarrow> 'w \<Rightarrow> string option \<times> 'w" where
  "ServeHTTP step b w = (case run_calls step (bh_calls b) w of (Some p, w') \<Rightarrow> (Some p, w') | (None, w') \<Rightarrow> (bh_panic b, w'))"

section \<open>The middleware\<close>

definition url_Path :: "request \<Rightarrow> string" where
  "url_Path r = concat (map (\<lambda>s. ''/'' @ s) (rq_Path r))"

text \<open>\<open>slog.Logger.Log\<close>: a record below the level of the handler is dropped.\<close>

definition logger_Log :: "contextHandler \<Rightarrow> log_context \<Rightarrow> Level \<Rightarrow> string \<Rightarrow> attr list \<Rightarrow> (Level \<times> string \<times> (string \<times> fields) list) option" where
  "logger_Log h ctx level msg as = (if ch_Enabled h level
     then Some (level, msg, ch_Handle h ctx \<lparr>rec_Level = level, rec_Message = msg, rec_Attrs = as\<rparr>) else None)"

definition mw_WithLogger :: "contextHandler \<Rightarrow> (log_context \<Rightarrow> 'a) \<Rightarrow> log_context \<Rightarrow> 'a" where
  "mw_WithLogger logger next ctx = next (WithLogger ctx (Some logger))"

definition request_attrs :: "request \<Rightarrow> responseRecorder \<Rightarrow> instant \<Rightarrow> instant \<Rightarrow> attr list" where
  "request_attrs r rec start fin = [(''method'', rq_Method r), (''path'', url_Path r), (''status'', Itoa (rr_status rec)),
     (''bytes'', Itoa_int (rr_written rec)), (''duration_ms'', Itoa_int (Milliseconds (time_Sub fin start))), (''remote_ip'', ClientIP r)]"

definition RequestLogger :: "contextHandler \<Rightarrow> (response_writer \<Rightarrow> string \<Rightarrow> nat) \<Rightarrow> instant \<Rightarrow> instant \<Rightarrow> (log_context \<Rightarrow> behaviour) \<Rightarrow> request \<Rightarrow> log_context \<Rightarrow>
    response_writer \<Rightarrow> (string option \<times> response_writer) \<times> (Level \<times> string \<times> (string \<times> fields) list) option" where
  "RequestLogger logger takes start fin next r ctx w =
     (let rec = \<lparr>rr_ResponseWriter = w, rr_status = 200, rr_written = 0, rr_wroteHeader = False\<rparr> in
      case ServeHTTP (rr_call takes) (next ctx) rec of
        (Some p, rec1) \<Rightarrow> ((Some p, rr_ResponseWriter rec1), None)
      | (None, rec1) \<Rightarrow>
          ((None, rr_ResponseWriter rec1), logger_Log logger ctx (log_level (rr_status rec1)) ''handled request'' (request_attrs r rec1 start fin)))"

section \<open>The recorder against the writer it wraps\<close>

text \<open>
  A wrapper that answers every call like the writer it wraps, and stays related to it, does so for every
  handler.
\<close>

locale writer_wrapper =
  fixes step :: "call \<Rightarrow> 'w \<Rightarrow> string option \<times> 'w" and wrapped :: "call \<Rightarrow> 'v \<Rightarrow> string option \<times> 'v"
    and rel :: "'w \<Rightarrow> 'v \<Rightarrow> bool"
  assumes call_alike: "\<lbrakk>rel w v; step c w = (p, w'); wrapped c v = (q, v')\<rbrakk> \<Longrightarrow> p = q \<and> rel w' v'"
begin

lemma calls_alike: "\<lbrakk>rel w v; run_calls step cs w = (p, w'); run_calls wrapped cs v = (q, v')\<rbrakk> \<Longrightarrow> p = q \<and> rel w' v'"
proof (induction cs arbitrary: w v)
  case (Cons c cs)
  obtain a w1 b v1 where one: "step c w = (a, w1)" "wrapped c v = (b, v1)" by fastforce
  have "a = b" "rel w1 v1" using call_alike [OF Cons.prems(1) one] by simp_all
  then show ?case using Cons one by (cases b) auto
qed simp

lemma served_alike: "\<lbrakk>rel w v; ServeHTTP step b w = (p, w'); ServeHTTP wrapped b v = (q, v')\<rbrakk> \<Longrightarrow> p = q \<and> rel w' v'"
  by (auto simp: ServeHTTP_def split: prod.splits option.splits dest: calls_alike)

end

text \<open>
  The recorder takes the first status for the final one. It is, unless the handler starts with an
  informational status, which \<open>net/http\<close> sends at once while it waits for another: from then on the
  recorder lets no status through, and the writer behind it sees the writes only.
\<close>

definition early_hint :: "behaviour \<Rightarrow> nat option" where
  "early_hint b = (case bh_calls b of CallWriteHeader status # _ \<Rightarrow> if 100 \<le> status \<and> status \<le> 199 \<and> status \<noteq> 101 then Some status else None
     | _ \<Rightarrow> None)"

definition after_hint :: "behaviour \<Rightarrow> behaviour" where
  "after_hint b = b\<lparr>bh_calls := tl (bh_calls b)\<rparr>"

definition write_only :: "(response_writer \<Rightarrow> string \<Rightarrow> nat) \<Rightarrow> call \<Rightarrow> response_writer \<Rightarrow> string option \<times> response_writer" where
  "write_only takes c w = (case c of CallWriteHeader _ \<Rightarrow> (None, w) | CallWrite b \<Rightarrow> (None, snd (rw_Write takes b w)))"

definition recorded :: "nat \<Rightarrow> responseRecorder \<Rightarrow> response_writer \<Rightarrow> bool" where
  "recorded status r w \<longleftrightarrow> rr_ResponseWriter r = w \<and> rr_wroteHeader r \<and> rr_status r = status \<and> rr_written r = int (length (rw_body w))"

interpretation settled: writer_wrapper "rr_call takes" "rw_call takes" "\<lambda>r w. recorded s r w \<and> rw_final w = Some s" for takes s
  by unfold_locales
    (auto simp: rr_call_def rw_call_def rr_WriteHeader_def rw_WriteHeader_def rr_Write_def rw_Write_def recorded_def Let_def split: call.splits)

interpretation hushed: writer_wrapper "rr_call takes" "write_only takes" "\<lambda>r w. recorded s r w \<and> (rw_final w = None \<or> rw_final w = Some 200)" for takes s
  by unfold_locales
    (auto simp: rr_call_def write_only_def rr_WriteHeader_def rr_Write_def rw_Write_def recorded_def Let_def split: call.splits)

text \<open>What the first call leaves behind.\<close>

definition new_recorder :: responseRecorder where
  "new_recorder = \<lparr>rr_ResponseWriter = fresh_writer, rr_status = 200, rr_written = 0, rr_wroteHeader = False\<rparr>"

lemma served_Cons: "bh_calls b = c # cs \<Longrightarrow> ServeHTTP step b w = (case step c w of (Some p, w') \<Rightarrow> (Some p, w') | (None, w') \<Rightarrow> ServeHTTP step (after_hint b) w')"
  by (simp add: ServeHTTP_def after_hint_def split: prod.splits option.splits)

lemma first_call:
  assumes "rr_call takes c new_recorder = (p, r)" "rw_call takes c fresh_writer = (q, w)"
    "\<And>status. c = CallWriteHeader status \<Longrightarrow> \<not> (100 \<le> status \<and> status \<le> 199 \<and> status \<noteq> 101)"
  shows "p = q \<and> rr_ResponseWriter r = w \<and> (p = None \<longrightarrow> (\<exists>s. recorded s r w \<and> rw_final w = Some s))"
  using assms
  by (cases c) (auto simp: rr_call_def rw_call_def rr_WriteHeader_def rw_WriteHeader_def rr_Write_def rw_Write_def recorded_def new_recorder_def
      fresh_writer_def Let_def split: if_splits)

lemma recorder_plain:
  assumes "early_hint b = None" "ServeHTTP (rr_call takes) b new_recorder = (p, r)" "ServeHTTP (rw_call takes) b fresh_writer = (q, w)"
  shows "p = q \<and> rr_ResponseWriter r = w \<and> (p = None \<longrightarrow> rr_status r = sent_status w \<and> rr_written r = int (length (rw_body w)))"
proof (cases "bh_calls b")
  case Nil
  then show ?thesis using assms(2,3) by (auto simp: ServeHTTP_def new_recorder_def fresh_writer_def sent_status_def)
next
  case (Cons c cs)
  obtain p1 r1 q1 w1 where one: "rr_call takes c new_recorder = (p1, r1)" "rw_call takes c fresh_writer = (q1, w1)" by fastforce
  have "\<not> (100 \<le> status \<and> status \<le> 199 \<and> status \<noteq> 101)" if "c = CallWriteHeader status" for status
    using assms(1) Cons that by (auto simp: early_hint_def split: if_splits)
  note first = first_call [OF one this]
  show ?thesis
  proof (cases q1)
    case None
    then obtain s where "recorded s r1 w1 \<and> rw_final w1 = Some s" using first by auto
    moreover have "ServeHTTP (rr_call takes) (after_hint b) r1 = (p, r)" "ServeHTTP (rw_call takes) (after_hint b) w1 = (q, w)"
      using assms(2,3) one first None by (simp_all add: served_Cons [OF Cons])
    ultimately have "p = q" "recorded s r w" "rw_final w = Some s" using settled.served_alike by blast+
    then show ?thesis by (simp add: recorded_def sent_status_def)
  next
    case (Some x)
    then show ?thesis using assms(2,3) one first by (auto simp: served_Cons [OF Cons])
  qed
qed

lemma recorder_hinted:
  assumes "early_hint b = Some s" "ServeHTTP (rr_call takes) b new_recorder = (p, r)"
    "ServeHTTP (write_only takes) (after_hint b) (fresh_writer\<lparr>rw_early := [s]\<rparr>) = (q, w)"
  shows "p = q \<and> rr_ResponseWriter r = w \<and> rr_status r = s \<and> rr_written r = int (length (rw_body w)) \<and> sent_status w = 200"
proof -
  obtain cs where c: "bh_calls b = CallWriteHeader s # cs" "100 \<le> s" "s \<le> 199" "s \<noteq> 101"
    using assms(1) by (auto simp: early_hint_def split: list.splits call.splits if_splits)
  let ?r = "\<lparr>rr_ResponseWriter = fresh_writer\<lparr>rw_early := [s]\<rparr>, rr_status = s, rr_written = 0, rr_wroteHeader = True\<rparr>"
  have "rr_call takes (CallWriteHeader s) new_recorder = (None, ?r)"
    using c(2-4) by (simp add: rr_call_def rr_WriteHeader_def rw_WriteHeader_def new_recorder_def fresh_writer_def Let_def)
  then have "ServeHTTP (rr_call takes) (after_hint b) ?r = (p, r)" using assms(2) by (simp add: served_Cons [OF c(1)])
  moreover have "recorded s ?r (fresh_writer\<lparr>rw_early := [s]\<rparr>) \<and> (rw_final (fresh_writer\<lparr>rw_early := [s]\<rparr>) = None \<or> rw_final (fresh_writer\<lparr>rw_early := [s]\<rparr>) = Some 200)"
    by (simp add: recorded_def fresh_writer_def)
  ultimately have "p = q \<and> recorded s r w \<and> (rw_final w = None \<or> rw_final w = Some 200)" using hushed.served_alike assms(3) by blast
  then show ?thesis by (auto simp: recorded_def sent_status_def)
qed

lemma RequestLogger_run:
  assumes "ServeHTTP (rr_call takes) (handle ctx) new_recorder = (p, r1)"
  shows "RequestLogger logger takes start fin handle r ctx fresh_writer = ((p, rr_ResponseWriter r1),
    if p = None then logger_Log logger ctx (log_level (rr_status r1)) ''handled request'' (request_attrs r r1 start fin) else None)"
  using assms by (cases p) (simp_all add: RequestLogger_def new_recorder_def Let_def)

end
