(* ===== verification/Log_Theorems.thy ===== *)
theory Log_Theorems
  imports Request_Log
begin

text \<open>What every line of the log shows.\<close>

section \<open>A sample logger and request\<close>

lemma plain_logger: "\<exists>h. logging_New (\<lambda>r. r) \<lparr>lo_Level = [], lo_Format = [], lo_AddSource = False, lo_Output = True\<rparr> = Inr h \<and>
    sh_ops (ch_root h) = [] \<and> ch_Enabled h LevelWarn"
proof -
  have "ToLower (\<lambda>r. r) (TrimSpace []) = []" by (simp add: TrimSpace_Nil ToLower_def runes_def string_of_runes_def chunks.simps)
  then show ?thesis by (simp add: logging_New_def ParseLevel_def ParseFormat_def ch_Enabled_def sh_Enabled_def level_rank_def Let_def)
qed




section \<open>Properties\<close>

text \<open>
  C20: However a logger was derived, with whatever attributes and groups, a line written in the context
  of a request has the request's ID at its top level, and besides it exactly the fields that a plain
  handler derived in the same way writes; without a request there is no difference.
\<close>

theorem log_lines_carry_request_id:
  assumes "logging_New lc opts = Inr h" "RequestIDFrom ctx = ident"
  shows "if ident = [] then ch_Handle (derive ch_WithAttrs ch_WithGroup h ds) ctx r = sh_Handle (derive sh_WithAttrs sh_WithGroup (ch_root h) ds) r
    else \<exists>pre post. ch_Handle (derive ch_WithAttrs ch_WithGroup h ds) ctx r = pre @ (RequestIDAttr, Leaf ident) # post \<and>
      pre @ post = sh_Handle (derive sh_WithAttrs sh_WithGroup (ch_root h) ds) r"
proof -
  let ?h = "derive ch_WithAttrs ch_WithGroup h ds"
  have new: "ch_ok h" "ch_ops h = []" using logging_New_ok [OF assms(1)] by simp_all
  have h: "ch_ok ?h" "ch_ops ?h = concat (map op_of ds)" using quiet.derive_ops [OF new(1), of ds] new(2) by simp_all
  have "sh_Handle (derive sh_WithAttrs sh_WithGroup (ch_root h) ds) r = render (concat (map op_of ds)) (rec_Attrs r)"
    using slog.derived_writes [of "ch_root h" ds r] new(1) by (simp add: ch_ok_def)
  then show ?thesis using ch_Handle_places [OF h(1) assms(2)] ch_Handle_none [OF h(1)] assms(2) h(2) by auto
qed

theorem log_lines_carry_request_id_witness:
  "\<exists>h pre post. logging_New (\<lambda>r. r) \<lparr>lo_Level = [], lo_Format = [], lo_AddSource = False, lo_Output = True\<rparr> = Inr h \<and>
     ch_Handle (derive ch_WithAttrs ch_WithGroup h [Attrs [(''a'', ''1'')], Group ''http'']) (ctx_WithRequestID Background ''req_1'')
       \<lparr>rec_Level = LevelInfo, rec_Message = [], rec_Attrs = [(''b'', ''2'')]\<rparr> = pre @ (''request_id'', Leaf ''req_1'') # post \<and>
     pre @ post = [(''a'', Leaf ''1''), (''http'', Node [(''b'', Leaf ''2'')])]"
proof -
  let ?o = "\<lparr>lo_Level = [], lo_Format = [], lo_AddSource = False, lo_Output = True\<rparr>" and ?r = "\<lparr>rec_Level = LevelInfo, rec_Message = [], rec_Attrs = [(''b'', ''2'')]\<rparr>"
  obtain h where h: "logging_New (\<lambda>r. r) ?o = Inr h" "sh_ops (ch_root h) = []" using plain_logger by blast
  have ident: "RequestIDFrom (ctx_WithRequestID Background ''req_1'') = ''req_1''" by (simp add: RequestIDFrom_def ctx_WithRequestID_def)
  have "sh_Handle (derive sh_WithAttrs sh_WithGroup (ch_root h) [Attrs [(''a'', ''1'')], Group ''http'']) ?r = [(''a'', Leaf ''1''), (''http'', Node [(''b'', Leaf ''2'')])]"
    using h(2) by (simp add: derive_def sh_WithAttrs_def sh_WithGroup_def sh_Handle_def leaf_attrs_def)
  then show ?thesis
    using log_lines_carry_request_id [OF h(1) ident, of "[Attrs [(''a'', ''1'')], Group ''http'']" ?r] h(1) unfolding RequestIDAttr_def by fastforce
qed





end
