(* ===== verification/Windows_Keys.thy ===== *)
theory Windows_Keys
  imports Key_Store
begin

text \<open>
  The protection of the key file on Windows (\<open>internal/wireguard/keystore_windows.go\<close>). What the code
  calls of the system, through \<open>os\<close>, \<open>path/filepath\<close> and \<open>golang.org/x/sys/windows\<close>, is the record
  \<open>windows\<close> of computations over any state, in which other accounts may act as well.
\<close>

unbundle bit_operations_syntax

section \<open>Security descriptors\<close>

type_synonym sid = string
type_synonym handle = nat

text \<open>
  An entry of an access control list: its type, what is read where a plain entry has its SID, and the
  principal it is about. The two agree in the plain layouts only (\<open>plain_layout\<close> below).
\<close>

record ACE =
  ace_AceType :: "8 word"
  ace_SidStart :: sid
  ace_principal :: sid

text \<open>Reading the owner, the list or one of its entries may fail; there may be no owner and no list.\<close>

record security_descriptor =
  sd_Owner :: "error + sid option"
  sd_DACL :: "error + (error + ACE) list option"

definition aceAccessAllowed :: "8 word" where "aceAccessAllowed = 0"
definition aceAccessDenied :: "8 word" where "aceAccessDenied = 1"
definition aceAccessAllowedCompound :: "8 word" where "aceAccessAllowedCompound = 4"
definition aceAccessAllowedObject :: "8 word" where "aceAccessAllowedObject = 5"
definition aceAccessDeniedObject :: "8 word" where "aceAccessDeniedObject = 6"
definition aceAccessAllowedCallback :: "8 word" where "aceAccessAllowedCallback = 9"
definition aceAccessDeniedCallback :: "8 word" where "aceAccessDeniedCallback = 10"
definition aceAccessAllowedCallbackObj :: "8 word" where "aceAccessAllowedCallbackObj = 11"
definition aceAccessDeniedCallbackObject :: "8 word" where "aceAccessDeniedCallbackObject = 12"

lemmas ace_defs = aceAccessAllowed_def aceAccessDenied_def aceAccessAllowedCompound_def aceAccessAllowedObject_def aceAccessDeniedObject_def
  aceAccessAllowedCallback_def aceAccessDeniedCallback_def aceAccessAllowedCallbackObj_def aceAccessDeniedCallbackObject_def

datatype aceDisposition = aceGrants | aceDenies | aceUnknown

definition dispositionOf :: "8 word \<Rightarrow> aceDisposition" where
  "dispositionOf aceType = (if aceType \<in> {aceAccessAllowed, aceAccessAllowedCallback} then aceGrants
     else if aceType \<in> {aceAccessDenied, aceAccessDeniedObject, aceAccessDeniedCallback, aceAccessDeniedCallbackObject} then aceDenies
     else aceUnknown)"

section \<open>The system\<close>

datatype well_known = WinLocalSystemSid | WinBuiltinAdministratorsSid

record 'd windows =
  wn_MkdirAll :: "string \<Rightarrow> ('d, unit) comp"
  wn_OpenNew :: "string \<Rightarrow> ('d, handle) comp"
  wn_Dir :: "string \<Rightarrow> string"
  wn_GetTokenUser :: "('d, sid) comp"
  wn_CreateWellKnownSid :: "well_known \<Rightarrow> ('d, sid) comp"
  wn_ACLFromEntries :: "sid \<Rightarrow> 32 word \<Rightarrow> ('d, ACE list) comp"
  wn_SetNamedSecurityInfo :: "string \<Rightarrow> 32 word \<Rightarrow> sid \<Rightarrow> ACE list \<Rightarrow> ('d, unit) comp"
  wn_UTF16PtrFromString :: "string \<Rightarrow> error option"
  wn_CreateFile :: "string \<Rightarrow> 32 word \<Rightarrow> 32 word \<Rightarrow> 32 word \<Rightarrow> ('d, handle) comp"
  wn_CloseHandle :: "handle \<Rightarrow> ('d, unit) comp"
  wn_GetFileInformationByHandle :: "handle \<Rightarrow> ('d, 32 word) comp"
  wn_GetSecurityInfo :: "handle \<Rightarrow> ('d, security_descriptor) comp"

definition GENERIC_READ :: "32 word" where "GENERIC_READ = 0x80000000"
definition FILE_SHARE_READ :: "32 word" where "FILE_SHARE_READ = 1"
definition FILE_SHARE_WRITE :: "32 word" where "FILE_SHARE_WRITE = 2"
definition FILE_FLAG_OPEN_REPARSE_POINT :: "32 word" where "FILE_FLAG_OPEN_REPARSE_POINT = 0x00200000"
definition FILE_FLAG_BACKUP_SEMANTICS :: "32 word" where "FILE_FLAG_BACKUP_SEMANTICS = 0x02000000"
definition FILE_ATTRIBUTE_DIRECTORY :: "32 word" where "FILE_ATTRIBUTE_DIRECTORY = 0x10"
definition FILE_ATTRIBUTE_REPARSE_POINT :: "32 word" where "FILE_ATTRIBUTE_REPARSE_POINT = 0x400"
definition NO_INHERITANCE :: "32 word" where "NO_INHERITANCE = 0"
definition SUB_CONTAINERS_AND_OBJECTS_INHERIT :: "32 word" where "SUB_CONTAINERS_AND_OBJECTS_INHERIT = 3"
definition OWNER_SECURITY_INFORMATION :: "32 word" where "OWNER_SECURITY_INFORMATION = 1"
definition DACL_SECURITY_INFORMATION :: "32 word" where "DACL_SECURITY_INFORMATION = 4"
definition PROTECTED_DACL_SECURITY_INFORMATION :: "32 word" where "PROTECTED_DACL_SECURITY_INFORMATION = 0x80000000"

definition ERROR_FILE_NOT_FOUND :: error where "ERROR_FILE_NOT_FOUND = ErrNew ''The system cannot find the file specified.''"
definition ERROR_PATH_NOT_FOUND :: error where "ERROR_PATH_NOT_FOUND = ErrNew ''The system cannot find the path specified.''"

text \<open>Where the state is kept, given the environment and \<open>filepath.Join\<close>.\<close>

definition win_DefaultStateDir :: "(string \<Rightarrow> string) \<Rightarrow> (string \<Rightarrow> string \<Rightarrow> string) \<Rightarrow> string" where
  "win_DefaultStateDir getenv join = (let dir = getenv ''ProgramData'' in
     if dir \<noteq> [] then join dir ''Headnet'' else join (''C:'' @ [CHR 0x5C] @ ''ProgramData'') ''Headnet'')"

section \<open>Restricting\<close>

definition currentUserSID :: "'d windows \<Rightarrow> ('d, sid) comp" where
  "currentUserSID h = mapErr (wrap ''determine the account this process runs as'') (wn_GetTokenUser h)"

text \<open>The one entry grants everything to the account, and the owner and the list are replaced.\<close>

definition restrictToCurrentUser :: "'d windows \<Rightarrow> string \<Rightarrow> 32 word \<Rightarrow> ('d, unit) comp" where
  "restrictToCurrentUser h path inheritance = bindM (currentUserSID h) (\<lambda>sid.
     bindM (mapErr (wrap (''build an access control list for '' @ path)) (wn_ACLFromEntries h sid inheritance)) (\<lambda>acl.
     mapErr (wrap (''restrict access to '' @ path)) (wn_SetNamedSecurityInfo h path
       (DACL_SECURITY_INFORMATION OR PROTECTED_DACL_SECURITY_INFORMATION OR OWNER_SECURITY_INFORMATION) sid acl)))"

definition win_createStateDir :: "'d windows \<Rightarrow> string \<Rightarrow> ('d, unit) comp" where
  "win_createStateDir h dir = bindM (wn_MkdirAll h dir) (\<lambda>_. restrictToCurrentUser h dir SUB_CONTAINERS_AND_OBJECTS_INHERIT)"

definition win_createPrivateFile :: "'d windows \<Rightarrow> string \<Rightarrow> ('d, handle) comp" where
  "win_createPrivateFile h path = wn_OpenNew h path"

definition win_restrictKeyFile :: "'d windows \<Rightarrow> string \<Rightarrow> ('d, unit) comp" where
  "win_restrictKeyFile h path = restrictToCurrentUser h path NO_INHERITANCE"

section \<open>Verifying\<close>

definition allowedSIDs :: "'d windows \<Rightarrow> ('d, sid list) comp" where
  "allowedSIDs h = bindM (currentUserSID h) (\<lambda>self.
     bindM (tryM (wn_CreateWellKnownSid h WinLocalSystemSid)) (\<lambda>system.
     bindM (tryM (wn_CreateWellKnownSid h WinBuiltinAdministratorsSid)) (\<lambda>admins.
     returnM (self # concat (map (\<lambda>r. case r of Inl _ \<Rightarrow> [] | Inr sid \<Rightarrow> [sid]) [system, admins])))))"

definition containsSID :: "sid list \<Rightarrow> sid \<Rightarrow> bool" where
  "containsSID sids sid = list_ex (\<lambda>candidate. candidate = sid) sids"

text \<open>The walk over the list: \<open>i\<close> is the number of the entry, and the value the error it stops with.\<close>

fun check_entries :: "sid list \<Rightarrow> string \<Rightarrow> nat \<Rightarrow> (error + ACE) list \<Rightarrow> error option" where
  "check_entries trusted subject i [] = None"
| "check_entries trusted subject i (Inl err # es) =
     Some (ErrWrap (''cannot read entry '' @ Itoa i @ '' of the access control list of '' @ subject) [ErrInsecureKeyFile, err])"
| "check_entries trusted subject i (Inr ace # es) = (case dispositionOf (ace_AceType ace) of
     aceDenies \<Rightarrow> check_entries trusted subject (i + 1) es
   | aceGrants \<Rightarrow> if \<not> containsSID trusted (ace_SidStart ace)
       then Some (wrap (subject @ '' grants access to '' @ ace_SidStart ace) ErrInsecureKeyFile)
       else check_entries trusted subject (i + 1) es
   | aceUnknown \<Rightarrow> Some (wrap (''entry '' @ Itoa i @ '' of the access control list of '' @ subject @ '' is of a type this check cannot evaluate'') ErrInsecureKeyFile))"

definition check_descriptor :: "sid list \<Rightarrow> string \<Rightarrow> security_descriptor \<Rightarrow> error option" where
  "check_descriptor trusted subject sd = (case sd_Owner sd of
     Inl err \<Rightarrow> Some (ErrWrap (''cannot read the owner of '' @ subject) [ErrInsecureKeyFile, err])
   | Inr None \<Rightarrow> Some (wrap (subject @ '' has no owner recorded'') ErrInsecureKeyFile)
   | Inr (Some owner) \<Rightarrow> if \<not> containsSID trusted owner
       then Some (wrap (subject @ '' is owned by '' @ owner) ErrInsecureKeyFile)
       else (case sd_DACL sd of
         Inl err \<Rightarrow> Some (ErrWrap (''cannot read the access control list of '' @ subject) [ErrInsecureKeyFile, err])
       | Inr None \<Rightarrow> Some (wrap (subject @ '' has no access control list at all'') ErrInsecureKeyFile)
       | Inr (Some dacl) \<Rightarrow> check_entries trusted subject 0 dacl))"

definition verifyHandleSecurity :: "'d windows \<Rightarrow> handle \<Rightarrow> string \<Rightarrow> ('d, unit) comp" where
  "verifyHandleSecurity h f subject =
     bindM (mapErr (\<lambda>err. ErrWrap (''cannot read the security descriptor of '' @ subject) [ErrInsecureKeyFile, err]) (wn_GetSecurityInfo h f)) (\<lambda>sd.
     bindM (allowedSIDs h) (\<lambda>trusted.
     case check_descriptor trusted subject sd of Some err \<Rightarrow> failM err | None \<Rightarrow> returnM ()))"

definition mapOpenError :: "string \<Rightarrow> error \<Rightarrow> error" where
  "mapOpenError path err = (if err = ERROR_FILE_NOT_FOUND \<or> err = ERROR_PATH_NOT_FOUND then wrap (''open '' @ path) ErrNotExist
     else wrap (''open '' @ path) err)"

definition win_verifyStateDir :: "'d windows \<Rightarrow> string \<Rightarrow> ('d, unit) comp" where
  "win_verifyStateDir h dir = (case wn_UTF16PtrFromString h dir of
     Some err \<Rightarrow> failM (wrap (''open '' @ dir) err)
   | None \<Rightarrow> bindM (mapErr (mapOpenError dir) (wn_CreateFile h dir GENERIC_READ (FILE_SHARE_READ OR FILE_SHARE_WRITE)
         (FILE_FLAG_BACKUP_SEMANTICS OR FILE_FLAG_OPEN_REPARSE_POINT))) (\<lambda>f.
       \<lambda>w. case verifyHandleSecurity h f dir w of (r, w1) \<Rightarrow> (r, snd (wn_CloseHandle h f w1))))"

definition win_verifyOpenKeyFile :: "'d windows \<Rightarrow> handle \<Rightarrow> string \<Rightarrow> ('d, unit) comp" where
  "win_verifyOpenKeyFile h f path =
     bindM (mapErr (\<lambda>err. ErrWrap (''cannot inspect '' @ path) [ErrInsecureKeyFile, err]) (wn_GetFileInformationByHandle h f)) (\<lambda>attributes.
     if attributes AND FILE_ATTRIBUTE_REPARSE_POINT \<noteq> 0 then failM (wrap (path @ '' is a reparse point'') ErrInsecureKeyFile)
     else if attributes AND FILE_ATTRIBUTE_DIRECTORY \<noteq> 0 then failM (wrap (path @ '' is a directory'') ErrInsecureKeyFile)
     else verifyHandleSecurity h f path)"

definition win_openKeyFile :: "'d windows \<Rightarrow> string \<Rightarrow> ('d, handle) comp" where
  "win_openKeyFile h path = bindM (win_verifyStateDir h (wn_Dir h path)) (\<lambda>_.
     case wn_UTF16PtrFromString h path of
       Some err \<Rightarrow> failM (wrap (''open device key '' @ path) err)
     | None \<Rightarrow> bindM (mapErr (mapOpenError path) (wn_CreateFile h path GENERIC_READ FILE_SHARE_READ FILE_FLAG_OPEN_REPARSE_POINT)) (\<lambda>f.
         bindM (tryM (win_verifyOpenKeyFile h f path)) (\<lambda>r. case r of
           Inl err \<Rightarrow> bindM (tryM (wn_CloseHandle h f)) (\<lambda>_. failM err)
         | Inr _ \<Rightarrow> returnM f)))"

section \<open>What a descriptor grants\<close>

text \<open>
  The entries of \<open>winnt.h\<close> that deny access are of four types; an entry of any other type may grant it.
  An object without a list is open to everyone. \<open>reaches\<close> is what the documented access check gives an
  account at most, whose SIDs are \<open>token\<close>: an entry that may grant names one of them, or it is the owner.
\<close>

definition may_grant :: "8 word \<Rightarrow> bool" where
  "may_grant t \<longleftrightarrow> t \<notin> {1, 6, 10, 12}"

definition plain_layout :: "ACE \<Rightarrow> bool" where
  "plain_layout ace \<longleftrightarrow> (ace_AceType ace \<in> {0, 9} \<longrightarrow> ace_SidStart ace = ace_principal ace)"

definition reaches :: "sid set \<Rightarrow> security_descriptor \<Rightarrow> bool" where
  "reaches token sd \<longleftrightarrow> (\<exists>owner. sd_Owner sd = Inr (Some owner) \<and> owner \<in> token) \<or> sd_DACL sd = Inr None \<or>
     (\<exists>dacl ace. sd_DACL sd = Inr (Some dacl) \<and> Inr ace \<in> set dacl \<and> may_grant (ace_AceType ace) \<and> ace_principal ace \<in> token)"

definition entries_of :: "security_descriptor \<Rightarrow> ACE list" where
  "entries_of sd = (case sd_DACL sd of Inr (Some dacl) \<Rightarrow> concat (map (\<lambda>e. case e of Inl _ \<Rightarrow> [] | Inr ace \<Rightarrow> [ace]) dacl) | _ \<Rightarrow> [])"

lemma entries_of_set: "sd_DACL sd = Inr (Some dacl) \<Longrightarrow> set (entries_of sd) = {ace. Inr ace \<in> set dacl}"
  by (auto simp: entries_of_def split: sum.splits)

lemma containsSID_iff [simp]: "containsSID sids s \<longleftrightarrow> s \<in> set sids"
  by (auto simp: containsSID_def list_ex_iff)

lemma dispositionOf_cases:
  "dispositionOf t = aceGrants \<longleftrightarrow> t \<in> {0, 9}" "dispositionOf t = aceDenies \<longleftrightarrow> t \<in> {1, 6, 10, 12}"
  by (auto simp: dispositionOf_def ace_defs)

text \<open>The walk accepts exactly the lists whose entries it can all read, and that grant only to trusted accounts.\<close>

lemma check_entries_None: "check_entries trusted subject i es = None \<longleftrightarrow>
  (\<forall>e \<in> set es. \<exists>ace. e = Inr ace \<and> (ace_AceType ace \<in> {1, 6, 10, 12} \<or> ace_AceType ace \<in> {0, 9} \<and> ace_SidStart ace \<in> set trusted))"
proof (induction es arbitrary: i)
  case (Cons e es)
  then show ?case
  proof (cases e)
    case (Inr ace)
    then show ?thesis using Cons dispositionOf_cases [of "ace_AceType ace"] by (cases "dispositionOf (ace_AceType ace)") auto
  qed simp
qed simp

lemma check_descriptor_None: "check_descriptor trusted subject sd = None \<longleftrightarrow>
  (\<exists>owner dacl. sd_Owner sd = Inr (Some owner) \<and> owner \<in> set trusted \<and> sd_DACL sd = Inr (Some dacl) \<and> check_entries trusted subject 0 dacl = None)"
  by (auto simp: check_descriptor_def split: sum.splits option.splits)

lemma accepted_private:
  assumes "check_descriptor trusted subject sd = None" "\<forall>ace \<in> set (entries_of sd). plain_layout ace" "reaches token sd"
  shows "token \<inter> set trusted \<noteq> {}"
proof -
  obtain owner dacl where sd: "sd_Owner sd = Inr (Some owner)" "owner \<in> set trusted" "sd_DACL sd = Inr (Some dacl)" "check_entries trusted subject 0 dacl = None"
    using assms(1) unfolding check_descriptor_None by blast
  have "ace_principal ace \<in> set trusted" if "Inr ace \<in> set dacl" "may_grant (ace_AceType ace)" for ace
    using that sd(4) assms(2) unfolding check_entries_None entries_of_set [OF sd(3)] by (fastforce simp: may_grant_def plain_layout_def)
  then show ?thesis using assms(3) sd(1,2,3) by (auto simp: reaches_def)
qed

lemma verifyHandleSecurity_Ret:
  assumes "verifyHandleSecurity h f subject w = (Ret u, w')"
  obtains sd w1 trusted where "wn_GetSecurityInfo h f w = (Ret sd, w1)" "allowedSIDs h w1 = (Ret trusted, w')" "check_descriptor trusted subject sd = None"
  using assms by (auto simp: verifyHandleSecurity_def bindM_Ret failM_def split: option.splits)

text \<open>The directory is checked through its descriptor only: its attributes are never asked for.\<close>

lemma state_dir_attributes_unread: "win_verifyStateDir (h\<lparr>wn_GetFileInformationByHandle := g\<rparr>) dir = win_verifyStateDir h dir"
  by (simp add: win_verifyStateDir_def verifyHandleSecurity_def allowedSIDs_def currentUserSID_def cong: option.case_cong)

end
