(* ===== verification/Windows_Theorems.thy ===== *)
theory Windows_Theorems
  imports Windows_Keys
begin

text \<open>What holds of the key file on Windows.\<close>

section \<open>A system that does what it documents\<close>

text \<open>
  \<open>restricts h me\<close>: the process runs as \<open>me\<close>, a list for one entry is a plain grant to it, and once the owner and the
  protected list of an object were replaced, a handle opened for it shows exactly those.
\<close>

definition restricts :: "'d windows \<Rightarrow> sid \<Rightarrow> bool" where
  "restricts h me \<longleftrightarrow> (\<forall>w. wn_GetTokenUser h w = (Ret me, w)) \<and>
     (\<forall>k w. \<exists>r. wn_CreateWellKnownSid h k w = (r, w) \<and> (\<forall>p. r \<noteq> Panic p)) \<and>
     (\<forall>inh w. wn_ACLFromEntries h me inh w = (Ret [\<lparr>ace_AceType = aceAccessAllowed, ace_SidStart = me, ace_principal = me\<rparr>], w)) \<and>
     (\<forall>path flags acl w w' access share how. wn_SetNamedSecurityInfo h path flags me acl w = (Ret (), w') \<longrightarrow> list_all plain_layout acl \<longrightarrow>
       flags AND PROTECTED_DACL_SECURITY_INFORMATION \<noteq> 0 \<longrightarrow> flags AND DACL_SECURITY_INFORMATION \<noteq> 0 \<longrightarrow> flags AND OWNER_SECURITY_INFORMATION \<noteq> 0 \<longrightarrow>
       wn_UTF16PtrFromString h path = None \<and> (\<exists>f v. wn_CreateFile h path access share how w' = (Ret f, v) \<and>
         wn_GetSecurityInfo h f v = (Ret \<lparr>sd_Owner = Inr (Some me), sd_DACL = Inr (Some (map Inr acl))\<rparr>, v)))"

lemma allowedSIDs_self:
  assumes "restricts h me"
  shows "\<exists>trusted. allowedSIDs h w = (Ret trusted, w) \<and> me \<in> set trusted"
proof -
  have me: "wn_GetTokenUser h w = (Ret me, w)" using assms by (simp add: restricts_def)
  obtain r1 r2 where known: "wn_CreateWellKnownSid h WinLocalSystemSid w = (r1, w)" "wn_CreateWellKnownSid h WinBuiltinAdministratorsSid w = (r2, w)"
    "\<And>p. r1 \<noteq> Panic p" "\<And>p. r2 \<noteq> Panic p" using assms unfolding restricts_def by meson
  then show ?thesis using me by (cases r1; cases r2) (auto simp: allowedSIDs_def currentUserSID_def bindM_def mapErr_def tryM_def returnM_def)
qed

text \<open>What \<open>restrictToCurrentUser\<close> has restricted, a file or a directory, passes the check of any later handle.\<close>

theorem restricted_verifies:
  assumes "restricts h me" "restrictToCurrentUser h path inh w = (Ret (), w')"
  shows "\<exists>f v. wn_CreateFile h path access share how w' = (Ret f, v) \<and> verifyHandleSecurity h f subject v = (Ret (), v)"
proof -
  let ?acl = "[\<lparr>ace_AceType = aceAccessAllowed, ace_SidStart = me, ace_principal = me\<rparr>]"
  let ?flags = "DACL_SECURITY_INFORMATION OR PROTECTED_DACL_SECURITY_INFORMATION OR OWNER_SECURITY_INFORMATION"
  have set: "wn_SetNamedSecurityInfo h path ?flags me ?acl w = (Ret (), w')"
    using assms by (auto simp: restricts_def restrictToCurrentUser_def currentUserSID_def bindM_Ret)
  have bits: "?flags AND PROTECTED_DACL_SECURITY_INFORMATION \<noteq> 0" "?flags AND DACL_SECURITY_INFORMATION \<noteq> 0" "?flags AND OWNER_SECURITY_INFORMATION \<noteq> 0"
    by (simp_all add: DACL_SECURITY_INFORMATION_def PROTECTED_DACL_SECURITY_INFORMATION_def OWNER_SECURITY_INFORMATION_def)
  have layout: "list_all plain_layout ?acl" by (simp add: plain_layout_def)
  obtain f v where opened: "wn_CreateFile h path access share how w' = (Ret f, v)"
    "wn_GetSecurityInfo h f v = (Ret \<lparr>sd_Owner = Inr (Some me), sd_DACL = Inr (Some (map Inr ?acl))\<rparr>, v)"
    using assms(1) set bits layout unfolding restricts_def by blast
  obtain trusted where "allowedSIDs h v = (Ret trusted, v)" "me \<in> set trusted" using allowedSIDs_self [OF assms(1)] by blast
  moreover from this(2) have "check_descriptor trusted subject \<lparr>sd_Owner = Inr (Some me), sd_DACL = Inr (Some (map Inr ?acl))\<rparr> = None"
    unfolding check_descriptor_None check_entries_None by (simp add: aceAccessAllowed_def)
  ultimately have "verifyHandleSecurity h f subject v = (Ret (), v)"
    using opened(2) by (simp add: verifyHandleSecurity_def bindM_def mapErr_def returnM_def)
  then show ?thesis using opened(1) by blast
qed

section \<open>A sample machine\<close>

text \<open>One account and one descriptor for every object.\<close>

definition sample_windows :: "security_descriptor windows" where
  "sample_windows = \<lparr>wn_MkdirAll = (\<lambda>_. returnM ()), wn_OpenNew = (\<lambda>_. returnM 3), wn_Dir = (\<lambda>_. ''C:''), wn_GetTokenUser = returnM ''S-1-5-21-7'',
     wn_CreateWellKnownSid = (\<lambda>k. returnM (case k of WinLocalSystemSid \<Rightarrow> ''S-1-5-18'' | WinBuiltinAdministratorsSid \<Rightarrow> ''S-1-5-32-544'')),
     wn_ACLFromEntries = (\<lambda>sid _. returnM [\<lparr>ace_AceType = aceAccessAllowed, ace_SidStart = sid, ace_principal = sid\<rparr>]),
     wn_SetNamedSecurityInfo = (\<lambda>_ _ sid acl w. (Ret (), w\<lparr>w_db := \<lparr>sd_Owner = Inr (Some sid), sd_DACL = Inr (Some (map Inr acl))\<rparr>\<rparr>)),
     wn_UTF16PtrFromString = (\<lambda>_. None), wn_CreateFile = (\<lambda>_ _ _ _. returnM 3), wn_CloseHandle = (\<lambda>_. returnM ()),
     wn_GetFileInformationByHandle = (\<lambda>_. returnM 0x80), wn_GetSecurityInfo = (\<lambda>_ w. (if list_all plain_layout (entries_of (w_db w)) then Ret (w_db w) else Err EIO, w))\<rparr>"

definition open_descriptor :: security_descriptor where
  "open_descriptor = \<lparr>sd_Owner = Inr (Some ''S-1-5-18''), sd_DACL = Inr (Some [Inr \<lparr>ace_AceType = 0, ace_SidStart = ''S-1-1-0'', ace_principal = ''S-1-1-0''\<rparr>])\<rparr>"

definition sample_machine :: "security_descriptor world" where
  "sample_machine = \<lparr>w_db = open_descriptor, w_faults = [], w_entropy = []\<rparr>"

lemma sample_restricts: "restricts sample_windows ''S-1-5-21-7''"
proof -
  have "entries_of \<lparr>sd_Owner = x, sd_DACL = Inr (Some (map Inr acl))\<rparr> = acl" for x acl by (induction acl) (simp_all add: entries_of_def)
  then show ?thesis by (simp add: restricts_def sample_windows_def returnM_def)
qed

lemma sample_allowed: "allowedSIDs sample_windows w = (Ret [''S-1-5-21-7'', ''S-1-5-18'', ''S-1-5-32-544''], w)"
  by (simp add: allowedSIDs_def currentUserSID_def sample_windows_def bindM_def mapErr_def tryM_def returnM_def)

lemma sample_opens: "\<exists>w' v. restrictToCurrentUser sample_windows ''C:key'' NO_INHERITANCE sample_machine = (Ret (), w') \<and> win_openKeyFile sample_windows ''C:key'' w' = (Ret 3, v)"
proof -
  obtain w' where fin: "restrictToCurrentUser sample_windows ''C:key'' NO_INHERITANCE sample_machine = (Ret (), w')"
    by (simp add: restrictToCurrentUser_def currentUserSID_def sample_windows_def bindM_def mapErr_def returnM_def)
  have opens: "wn_CreateFile sample_windows p a sh how v = (Ret 3, v)" "wn_UTF16PtrFromString sample_windows p = None" "wn_CloseHandle sample_windows 3 v = (Ret (), v)"
    "wn_GetFileInformationByHandle sample_windows 3 v = (Ret 0x80, v)" for p a sh how v
    by (simp_all add: sample_windows_def returnM_def)
  have ok: "verifyHandleSecurity sample_windows 3 p w' = (Ret (), w')" for p
    using restricted_verifies [OF sample_restricts fin, of 0 0 0 p] opens(1) by auto
  have "win_openKeyFile sample_windows ''C:key'' w' = (Ret 3, w')"
    by (simp add: win_openKeyFile_def win_verifyStateDir_def win_verifyOpenKeyFile_def opens ok bindM_def mapErr_def tryM_def returnM_def
        FILE_ATTRIBUTE_REPARSE_POINT_def FILE_ATTRIBUTE_DIRECTORY_def)
  then show ?thesis using fin by blast
qed

section \<open>Properties\<close>

text \<open>
  C13: A key file that is opened on Windows is private, step by step through the run that opened it: the
  very handle that is returned was asked, and is neither a link nor a directory, and no account can
  reach its object, as owner or through any entry of its list, unless it holds one of the SIDs that
  \<open>allowedSIDs\<close> collected then. Before that the object opened at the name of its directory passed the
  same check of its descriptor; its attributes are not read, so if it is a junction this is said of the
  junction and of no directory behind it.
\<close>

theorem windows_key_private:
  assumes "win_openKeyFile h path w = (Ret f, w')" "\<forall>g v sd v'. wn_GetSecurityInfo h g v = (Ret sd, v') \<longrightarrow> list_all plain_layout (entries_of sd)"
  shows "\<exists>d v0 dir_sd v1 dir_trusted v2 w1 attributes w2 sd w3 trusted.
    wn_CreateFile h (wn_Dir h path) GENERIC_READ (FILE_SHARE_READ OR FILE_SHARE_WRITE) (FILE_FLAG_BACKUP_SEMANTICS OR FILE_FLAG_OPEN_REPARSE_POINT) w = (Ret d, v0) \<and>
    wn_GetSecurityInfo h d v0 = (Ret dir_sd, v1) \<and> allowedSIDs h v1 = (Ret dir_trusted, v2) \<and>
    (\<forall>token. reaches token dir_sd \<longrightarrow> token \<inter> set dir_trusted \<noteq> {}) \<and>
    wn_CreateFile h path GENERIC_READ FILE_SHARE_READ FILE_FLAG_OPEN_REPARSE_POINT (snd (wn_CloseHandle h d v2)) = (Ret f, w1) \<and>
    wn_GetFileInformationByHandle h f w1 = (Ret attributes, w2) \<and> attributes AND FILE_ATTRIBUTE_REPARSE_POINT = 0 \<and> attributes AND FILE_ATTRIBUTE_DIRECTORY = 0 \<and>
    wn_GetSecurityInfo h f w2 = (Ret sd, w3) \<and> allowedSIDs h w3 = (Ret trusted, w') \<and>
    (\<forall>token. reaches token sd \<longrightarrow> token \<inter> set trusted \<noteq> {})"
proof -
  have closed: "\<exists>sd u1 trusted. wn_GetSecurityInfo h g v = (Ret sd, u1) \<and> allowedSIDs h u1 = (Ret trusted, v') \<and>
      (\<forall>token. reaches token sd \<longrightarrow> token \<inter> set trusted \<noteq> {})" if run_ok: "verifyHandleSecurity h g subject v = (Ret x, v')" for g subject v x v'
  proof -
    obtain sd u1 trusted where run: "wn_GetSecurityInfo h g v = (Ret sd, u1)" "allowedSIDs h u1 = (Ret trusted, v')" "check_descriptor trusted subject sd = None"
      by (rule verifyHandleSecurity_Ret [OF run_ok])
    have "\<forall>ace \<in> set (entries_of sd). plain_layout ace" using assms(2) run(1) by (auto simp: list_all_iff)
    then show ?thesis using run accepted_private [OF run(3)] by blast
  qed
  obtain u w1 where dir: "win_verifyStateDir h (wn_Dir h path) w = (Ret (), u)"
    and opened: "wn_CreateFile h path GENERIC_READ FILE_SHARE_READ FILE_FLAG_OPEN_REPARSE_POINT u = (Ret f, w1)" "win_verifyOpenKeyFile h f path w1 = (Ret (), w')"
    using assms(1) by (auto simp: win_openKeyFile_def bindM_Ret tryM_run case_sum_run failM_def split: option.splits)
  obtain d v0 v2 x where d: "wn_CreateFile h (wn_Dir h path) GENERIC_READ (FILE_SHARE_READ OR FILE_SHARE_WRITE) (FILE_FLAG_BACKUP_SEMANTICS OR FILE_FLAG_OPEN_REPARSE_POINT) w = (Ret d, v0)"
    "verifyHandleSecurity h d (wn_Dir h path) v0 = (Ret x, v2)" "u = snd (wn_CloseHandle h d v2)"
    using dir by (auto simp: win_verifyStateDir_def bindM_Ret failM_def case_prod_beta split: option.splits) (metis prod.collapse)
  obtain attributes w2 where a: "wn_GetFileInformationByHandle h f w1 = (Ret attributes, w2)" "attributes AND FILE_ATTRIBUTE_REPARSE_POINT = 0"
    "attributes AND FILE_ATTRIBUTE_DIRECTORY = 0" "verifyHandleSecurity h f path w2 = (Ret (), w')"
    using opened(2) by (auto simp: win_verifyOpenKeyFile_def bindM_Ret failM_def split: if_splits)
  show ?thesis using opened(1) [unfolded d(3)] a(1-3) d(1) closed [OF d(2)] closed [OF a(4)] by blast
qed

theorem windows_key_private_witness:
  "\<exists>w' f v u sd u1. restrictToCurrentUser sample_windows ''C:key'' NO_INHERITANCE sample_machine = (Ret (), w') \<and> win_openKeyFile sample_windows ''C:key'' w' = (Ret f, v) \<and>
     wn_GetSecurityInfo sample_windows f u = (Ret sd, u1) \<and> allowedSIDs sample_windows u1 = (Ret [''S-1-5-21-7'', ''S-1-5-18'', ''S-1-5-32-544''], v) \<and>
     \<not> reaches {''S-1-1-0''} sd"
proof -
  obtain w' v where run: "restrictToCurrentUser sample_windows ''C:key'' NO_INHERITANCE sample_machine = (Ret (), w')" "win_openKeyFile sample_windows ''C:key'' w' = (Ret 3, v)"
    using sample_opens by blast
  have "\<forall>g v sd v'. wn_GetSecurityInfo sample_windows g v = (Ret sd, v') \<longrightarrow> list_all plain_layout (entries_of sd)" by (auto simp: sample_windows_def split: if_splits)
  from windows_key_private [OF run(2) this] obtain u sd u1 trusted where "wn_GetSecurityInfo sample_windows 3 u = (Ret sd, u1)"
    "allowedSIDs sample_windows u1 = (Ret trusted, v)" "\<forall>token. reaches token sd \<longrightarrow> token \<inter> set trusted \<noteq> {}" by blast
  then have "wn_GetSecurityInfo sample_windows 3 u = (Ret sd, u1)" "allowedSIDs sample_windows u1 = (Ret [''S-1-5-21-7'', ''S-1-5-18'', ''S-1-5-32-544''], v)"
    "\<not> reaches {''S-1-1-0''} sd" by (auto simp: sample_allowed)
  then show ?thesis using run by blast
qed

end
