(* ===== verification/Interleaving.thy ===== *)
theory Interleaving
  imports Inventory_History Device_Lifecycle
begin

text \<open>
  Operations of the stores running at the same time. SQLite is held to one connection, so a statement
  outside a transaction and a transaction as a whole run without others in between; between two of
  them anything may happen. An operation is a thread of such sections. That its sections, run one
  after the other, are the operation of the source is proved for every one of them.
\<close>

section \<open>Threads\<close>

datatype 'a thread = Halt "'a res" | Section "db world \<Rightarrow> 'a thread \<times> db world"

primrec run_thread :: "'a thread \<Rightarrow> (db, 'a) comp" where
  "run_thread (Halt r) = (\<lambda>w. (r, w))"
| "run_thread (Section f) = (\<lambda>w. case map_prod run_thread id (f w) of (m, w') \<Rightarrow> m w')"

primrec bindT :: "'a thread \<Rightarrow> ('a \<Rightarrow> 'b thread) \<Rightarrow> 'b thread" where
  "bindT (Halt r) k = (case r of Ret a \<Rightarrow> k a | Err e \<Rightarrow> Halt (Err e) | Panic p \<Rightarrow> Halt (Panic p))"
| "bindT (Section f) k = Section (\<lambda>w. map_prod (\<lambda>t. bindT t k) id (f w))"

definition atomically :: "(db, 'a) comp \<Rightarrow> 'a thread" where
  "atomically m = Section (\<lambda>w. case m w of (r, w') \<Rightarrow> (Halt r, w'))"

definition returnT :: "'a \<Rightarrow> 'a thread" where "returnT a = Halt (Ret a)"
definition failT :: "error \<Rightarrow> 'a thread" where "failT e = Halt (Err e)"

lemma thread_induct [case_names Halt Section]:
  assumes "\<And>r. P (Halt r)" "\<And>f. (\<And>w t v. f w = (t, v) \<Longrightarrow> P t) \<Longrightarrow> P (Section f)"
  shows "P t"
proof (induction t)
  case (Section f)
  have "P u" if "f w = (u, v)" for w u v using Section [of "f w" u] that rangeI [of f w] by simp
  then show ?case by (rule assms(2))
qed (rule assms(1))

text \<open>Run without interruption, a thread is the computation it is made of.\<close>

lemma run_bindT: "run_thread (bindT t k) = bindM (run_thread t) (\<lambda>a. run_thread (k a))"
proof (induction t rule: thread_induct)
  case (Section f)
  show ?case
  proof
    fix w
    obtain t w' where f: "f w = (t, w')" by (cases "f w")
    then show "run_thread (bindT (Section f) k) w = bindM (run_thread (Section f)) (\<lambda>a. run_thread (k a)) w"
      using Section [OF f] by (simp add: bindM_def)
  qed
qed (auto simp: fun_eq_iff bindM_def split: res.splits)

lemma run_atomically: "run_thread (atomically m) = m"
  by (auto simp: atomically_def fun_eq_iff split: prod.splits)

lemma run_halts: "run_thread (returnT a) = returnM a" "run_thread (failT e) = failM e"
  by (simp_all add: returnT_def failT_def fun_eq_iff returnM_def failM_def)

lemma run_if: "run_thread (if b then t else u) = (if b then run_thread t else run_thread u)"
  by simp

lemma run_option: "run_thread (case x of None \<Rightarrow> t | Some y \<Rightarrow> k y) = (case x of None \<Rightarrow> run_thread t | Some y \<Rightarrow> run_thread (k y))"
  by (cases x) simp_all

lemma run_sum: "run_thread (case x of Inl y \<Rightarrow> t y | Inr y \<Rightarrow> k y) = (case x of Inl y \<Rightarrow> run_thread (t y) | Inr y \<Rightarrow> run_thread (k y))"
  by (cases x) simp_all

lemmas run_simps_thread = run_bindT run_atomically run_halts run_if run_option run_sum

section \<open>The operations as threads\<close>

definition Enroll_thread :: "Store \<Rightarrow> string \<Rightarrow> NewDevice \<Rightarrow> instant \<Rightarrow> (Device \<times> string) thread" where
  "Enroll_thread s token inp now = bindT (atomically (SetupKeyByToken s token)) (\<lambda>key.
     case Redeemable key now of
       Some reason \<Rightarrow> failT reason
     | None \<Rightarrow> bindT (atomically (NewToken 32)) (\<lambda>raw.
         let secret = deviceTokenPrefix @ raw in
         bindT (atomically (create s (sk_CreatedBy key) inp (sk_ID key) (HashToken secret) now)) (\<lambda>device.
         returnT (device, secret))))"

definition Revoke_thread :: "string \<Rightarrow> Scope \<Rightarrow> instant \<Rightarrow> unit thread" where
  "Revoke_thread ident sc now = bindT (atomically (ByID ident sc)) (\<lambda>device.
     if Revoked device then failT ErrDeviceRevoked else atomically (InTx (revoke_tx (dv_ID device) now)))"

definition RevokeSetupKey_thread :: "Store \<Rightarrow> string \<Rightarrow> instant \<Rightarrow> unit thread" where
  "RevokeSetupKey_thread s ident now =
     bindT (atomically (bindM (mapErr (wrap ''revoking the setup key'')
       (execM (update_setup_keys (\<lambda>r. k_id r = ident \<and> k_revoked_at r = None) (\<lambda>r. r\<lparr>k_revoked_at := Some now\<rparr>))))
       (\<lambda>result. tryM (rowsAffected result)))) (\<lambda>affected.
     if affected = Inr 0 then bindT (atomically (SetupKeyByID s ident)) (\<lambda>_. returnT ()) else returnT ())"

definition Lookup_thread :: "SessionStore \<Rightarrow> string \<Rightarrow> instant \<Rightarrow> Session thread" where
  "Lookup_thread s token now = (if token = [] then failT ErrSessionNotFound
     else bindT (atomically (mapErr (wrap ''reading the session'')
         (queryM (\<lambda>d. find (\<lambda>r. s_token_hash r = HashToken token) (sessions d))))) (\<lambda>row.
       case row of None \<Rightarrow> failT ErrSessionNotFound
       | Some r \<Rightarrow> let session = scanSession r in
           if isExpired s session now then bindT (atomically (deleteByID (ss_ID session))) (\<lambda>_. failT ErrSessionExpired)
           else if sessionTouchInterval < time_Sub now (ss_LastUsedAt session) then
             bindT (atomically (mapErr (wrap ''refreshing the session'') (execM (update_sessions
               (\<lambda>r. s_id r = ss_ID session) (\<lambda>r. r\<lparr>s_last_used_at := now\<rparr>))))) (\<lambda>_.
             returnT (session\<lparr>ss_LastUsedAt := now\<rparr>))
           else returnT session))"

definition InstanceID_thread :: "instant \<Rightarrow> string thread" where
  "InstanceID_thread now = bindT (atomically (tryM (GetMetadata KeyInstanceID))) (\<lambda>first.
     case first of
       Inr ident \<Rightarrow> returnT ident
     | Inl err \<Rightarrow> if \<not> errors_Is err ErrMetadataNotFound then failT err
         else bindT (atomically (NewID ''net'')) (\<lambda>candidate.
           bindT (atomically (mapErr (wrap ''initialising the instance identity'') (InTx (instance_tx candidate now)))) (\<lambda>_.
           atomically (mapErr (wrap ''initialising the instance identity'') (GetMetadata KeyInstanceID)))))"

lemma Enroll_sections: "run_thread (Enroll_thread s token inp now) = Enroll s token inp now"
  by (simp add: Enroll_thread_def Enroll_def run_simps_thread Let_def cong: option.case_cong)

lemma Revoke_sections: "run_thread (Revoke_thread ident sc now) = Revoke ident sc now"
  by (simp add: Revoke_thread_def Revoke_def run_simps_thread cong: if_cong)

lemma bindM_assoc: "bindM (bindM m k) l = bindM m (\<lambda>a. bindM (k a) l)"
  by (auto simp: fun_eq_iff bindM_def split: prod.splits res.splits)

lemma RevokeSetupKey_sections: "run_thread (RevokeSetupKey_thread s ident now) = RevokeSetupKey s ident now"
  by (simp add: RevokeSetupKey_thread_def RevokeSetupKey_def run_simps_thread bindM_assoc cong: if_cong)

lemma Lookup_sections: "run_thread (Lookup_thread s token now) = Lookup s token now"
  by (simp add: Lookup_thread_def Lookup_def run_simps_thread Let_def cong: option.case_cong if_cong)

lemma InstanceID_sections: "run_thread (InstanceID_thread now) = InstanceID now"
  by (simp add: InstanceID_thread_def InstanceID_def run_simps_thread cong: sum.case_cong if_cong)

section \<open>Atomic steps\<close>

text \<open>What a statement or a transaction does to the database, with any arguments.\<close>

inductive atomic_step :: "db \<Rightarrow> db \<Rightarrow> bool" where
  session_insert: "insert_session row d = Inr (n, e) \<Longrightarrow> atomic_step d e"
| session_delete: "delete_sessions P d = Inr (n, e) \<Longrightarrow> atomic_step d e"
| session_touch: "update_sessions P (\<lambda>r. r\<lparr>s_last_used_at := now\<rparr>) d = Inr (n, e) \<Longrightarrow> atomic_step d e"
| enrolled: "create_guards st dev h now d \<Longrightarrow> atomic_step d (created_db dev h now d)"
| revoked: "atomic_step d (revoked_db i now d)"
| seen: "update_devices Q (\<lambda>r. r\<lparr>d_last_seen_at := Some now\<rparr>) d = Inr (n, e) \<Longrightarrow> atomic_step d e"
| key_insert: "insert_setup_key k d = Inr (n, e) \<Longrightarrow> k_uses k = 0 \<Longrightarrow> 0 \<le> k_max_uses k \<Longrightarrow> atomic_step d e"
| key_revoke: "update_setup_keys (\<lambda>r. k_id r = i \<and> k_revoked_at r = None) (\<lambda>r. r\<lparr>k_revoked_at := Some now\<rparr>) d = Inr (n, e) \<Longrightarrow> atomic_step d e"
| bootstrap: "bootstrap_tx s req now w = (Ret u, w') \<Longrightarrow> atomic_step (w_db w) (w_db w')"
| password: "update_users (\<lambda>r. u_id r = i) (\<lambda>r. r\<lparr>u_password_hash := Some hash, u_updated_at := now\<rparr>) d = Inr (n, e) \<Longrightarrow> atomic_step d e"
| login: "update_users (\<lambda>r. u_id r = i) (\<lambda>r. r\<lparr>u_last_login_at := Some now\<rparr>) d = Inr (n, e) \<Longrightarrow> atomic_step d e"
| identity: "key \<in> {KeyInstanceID, KeyInitialisedAt} \<Longrightarrow> insert_metadata_once key val now d = Inr (n, e) \<Longrightarrow> atomic_step d e"

text \<open>Every invariant of the database is kept by atomic steps.\<close>

context database_invariant
begin

lemma atomic_kept: "atomic_step d e \<Longrightarrow> J d \<Longrightarrow> J e"
proof (induction rule: atomic_step.induct)
  case run: (bootstrap s req now w u w')
  then show ?case using bootstrap [of s req now] by (auto simp: commits_def)
qed (auto intro: session_insert session_delete session_touch enrolled revoked seen key_insert key_revoke password login instance_id)

lemma atomic_steps_kept: "atomic_step\<^sup>*\<^sup>* d e \<Longrightarrow> J d \<Longrightarrow> J e"
  by (induction rule: rtranclp.induct) (auto intro: atomic_kept)

end

text \<open>And to have been made from \<open>d0\<close> by atomic steps is such an invariant, so every operation and request is a sequence of them.\<close>

interpretation steps: database_invariant "atomic_step\<^sup>*\<^sup>* d0" for d0
  by unfold_locales (auto simp: commits_def intro: rtranclp.rtrancl_into_rtrancl atomic_step.intros)

lemma steps_of: "(\<And>d0. keeps (atomic_step\<^sup>*\<^sup>* d0) m) \<Longrightarrow> m w = (r, w') \<Longrightarrow> atomic_step\<^sup>*\<^sup>* (w_db w) (w_db w')"
  using keepsD [of "atomic_step\<^sup>*\<^sup>* (w_db w)" m w r w'] by simp

text \<open>A request changes the database by a sequence of atomic steps, whatever fails, and so does a start.\<close>

lemma request_steps:
  assumes "allocator_ok (st_allocator (se_devices s))" "server_step s st ev st'"
  shows "atomic_step\<^sup>*\<^sup>* (sv_db st) (sv_db st')"
  using steps.step_kept [OF assms, of "sv_db st"] by simp

section \<open>What holds of every section\<close>

primrec each :: "('a thread \<Rightarrow> db \<Rightarrow> db \<Rightarrow> bool) \<Rightarrow> 'a thread \<Rightarrow> bool" where
  "each Q (Halt r) = True"
| "each Q (Section f) = (\<forall>w. Q (fst (f w)) (w_db w) (w_db (snd (f w))) \<and> fst (map_prod (each Q) id (f w)))"

lemma each_Section: "each Q (Section f) \<Longrightarrow> f w = (t, v) \<Longrightarrow> Q t (w_db w) (w_db v) \<and> each Q t"
  by (auto dest: spec [of _ w])

lemma each_atomically: "each Q (atomically m) \<longleftrightarrow> (\<forall>w r w'. m w = (r, w') \<longrightarrow> Q (Halt r) (w_db w) (w_db w'))"
  by (auto simp: atomically_def split: prod.splits)

lemma each_halts [simp]: "each Q (returnT a)" "each Q (failT e)"
  by (simp_all add: returnT_def failT_def)

lemma each_bindT: "each (\<lambda>t. Q (bindT t k)) t \<Longrightarrow> (\<And>a. each Q (k a)) \<Longrightarrow> each Q (bindT t k)"
proof (induction t rule: thread_induct)
  case (Section f)
  have "Q (bindT (fst (f w)) k) (w_db w) (w_db (snd (f w))) \<and> each Q (bindT (fst (f w)) k)" for w
  proof -
    obtain t v where f: "f w = (t, v)" by (cases "f w")
    have "each Q (bindT t k)" using Section.IH [OF f] Section.prems(2) each_Section [OF Section.prems(1) f] by blast
    then show ?thesis using f each_Section [OF Section.prems(1) f] by simp
  qed
  then show ?case by simp
qed (auto split: res.splits)

text \<open>\<open>steady\<close>: each section does atomic steps only. \<open>yields P\<close>: an answer given in a section from one database to another has \<open>P\<close>.\<close>

definition steady :: "'a thread \<Rightarrow> bool" where
  "steady = each (\<lambda>_. atomic_step\<^sup>*\<^sup>*)"

definition yields :: "('a \<Rightarrow> db \<Rightarrow> db \<Rightarrow> bool) \<Rightarrow> 'a thread \<Rightarrow> bool" where
  "yields P = each (\<lambda>t d e. \<forall>a. t = Halt (Ret a) \<longrightarrow> P a d e)"

lemma steady_intros:
  "(\<And>d0. keeps (atomic_step\<^sup>*\<^sup>* d0) m) \<Longrightarrow> steady (atomically m)"
  "steady t \<Longrightarrow> (\<And>a. steady (k a)) \<Longrightarrow> steady (bindT t k)"
  "steady (returnT a)" "steady (failT e)"
  "(b \<Longrightarrow> steady t) \<Longrightarrow> (\<not> b \<Longrightarrow> steady u) \<Longrightarrow> steady (if b then t else u)"
  "steady t \<Longrightarrow> (\<And>x. steady (l x)) \<Longrightarrow> steady (case opt of None \<Rightarrow> t | Some x \<Rightarrow> l x)"
  "(\<And>x. steady (m' x)) \<Longrightarrow> (\<And>y. steady (l' y)) \<Longrightarrow> steady (case sm of Inl x \<Rightarrow> m' x | Inr y \<Rightarrow> l' y)"
  unfolding steady_def
  by (auto simp: each_atomically intro: steps_of each_bindT split: option.splits sum.splits)

text \<open>Only the last section of a thread can yield: the ones before it are followed by more.\<close>

lemma yields_halts [simp]: "yields P (returnT a)" "yields P (failT e)"
  by (simp_all add: yields_def)

lemma yields_atomically: "yields P (atomically m) \<longleftrightarrow> (\<forall>w a w'. m w = (Ret a, w') \<longrightarrow> P a (w_db w) (w_db w'))"
  by (auto simp: yields_def each_atomically)

lemma yields_bindT:
  assumes "yields (\<lambda>a d e. \<forall>b. k a = returnT b \<longrightarrow> P b d e) t" "\<And>a. yields P (k a)"
  shows "yields P (bindT t k)"
proof -
  have halt: "\<exists>a. t = Halt (Ret a) \<and> k a = returnT b" if "bindT t k = Halt (Ret b)" for t b
    using that by (cases t) (auto simp: returnT_def split: res.splits)
  have "each (\<lambda>t d e. \<forall>b. bindT t k = Halt (Ret b) \<longrightarrow> P b d e) u" if "yields (\<lambda>a d e. \<forall>b. k a = returnT b \<longrightarrow> P b d e) u" for u
    using that unfolding yields_def
  proof (induction u rule: thread_induct)
    case (Section f)
    have "(\<forall>b. bindT (fst (f w)) k = Halt (Ret b) \<longrightarrow> P b (w_db w) (w_db (snd (f w)))) \<and>
        each (\<lambda>t d e. \<forall>b. bindT t k = Halt (Ret b) \<longrightarrow> P b d e) (fst (f w))" for w
    proof -
      obtain t v where f: "f w = (t, v)" by (cases "f w")
      note e = each_Section [OF Section.prems f]
      have "each (\<lambda>t d e. \<forall>b. bindT t k = Halt (Ret b) \<longrightarrow> P b d e) t" using Section.IH [OF f] e by blast
      then show ?thesis using f e halt by fastforce
    qed
    then show ?case by simp
  qed simp
  then show ?thesis using assms unfolding yields_def by (intro each_bindT) auto
qed

section \<open>Operations at the same time\<close>

text \<open>The operations that handlers call, and their answers.\<close>

datatype operation = OpEnroll string NewDevice instant | OpRegister string NewDevice instant | OpRevoke string Scope instant
  | OpAuthenticate string | OpHeartbeat string instant | OpIssue string Meta instant | OpLookup string instant | OpLogout string
  | OpCreateKey string NewSetupKey instant | OpRevokeKey string instant | OpBootstrap BootstrapRequest instant
  | OpRehash string string instant | OpRecordLogin string instant | OpInstanceID instant

datatype answer = Enrolled Device string | DeviceOf Device | IssuedOf Issued | SessionOf Session | KeyOf IssuedSetupKey
  | Administrator User | Identity string | NoAnswer

definition fmapM :: "('a \<Rightarrow> 'b) \<Rightarrow> ('d, 'a) comp \<Rightarrow> ('d, 'b) comp" where
  "fmapM g m = bindM m (\<lambda>a. returnM (g a))"

definition fmapT :: "('a \<Rightarrow> 'b) \<Rightarrow> 'a thread \<Rightarrow> 'b thread" where
  "fmapT g t = bindT t (\<lambda>a. returnT (g a))"

fun perform :: "Server \<Rightarrow> operation \<Rightarrow> (db, answer) comp" where
  "perform s (OpEnroll token inp now) = fmapM (\<lambda>(dev, secret). Enrolled dev secret) (Enroll (se_devices s) token inp now)"
| "perform s (OpRegister u inp now) = fmapM DeviceOf (Register (se_devices s) u inp now)"
| "perform s (OpRevoke ident sc now) = fmapM (\<lambda>_. NoAnswer) (Revoke ident sc now)"
| "perform s (OpAuthenticate token) = fmapM DeviceOf (Authenticate token)"
| "perform s (OpHeartbeat token now) = fmapM (\<lambda>_. NoAnswer) (Heartbeat token now)"
| "perform s (OpIssue u meta now) = fmapM IssuedOf (Issue (se_sessions s) u meta now)"
| "perform s (OpLookup token now) = fmapM SessionOf (Lookup (se_sessions s) token now)"
| "perform s (OpLogout token) = fmapM (\<lambda>_. NoAnswer) (session_Revoke token)"
| "perform s (OpCreateKey u inp now) = fmapM KeyOf (CreateSetupKey (se_devices s) u inp now)"
| "perform s (OpRevokeKey ident now) = fmapM (\<lambda>_. NoAnswer) (RevokeSetupKey (se_devices s) ident now)"
| "perform s (OpBootstrap req now) = fmapM Administrator (InTx (bootstrap_tx s req now))"
| "perform s (OpRehash ident password now) = fmapM (\<lambda>_. NoAnswer) (RehashPassword (se_users s) ident password now)"
| "perform s (OpRecordLogin ident now) = fmapM (\<lambda>_. NoAnswer) (RecordLogin ident now)"
| "perform s (OpInstanceID now) = fmapM Identity (InstanceID now)"

fun thread_of :: "Server \<Rightarrow> operation \<Rightarrow> answer thread" where
  "thread_of s (OpEnroll token inp now) = fmapT (\<lambda>(dev, secret). Enrolled dev secret) (Enroll_thread (se_devices s) token inp now)"
| "thread_of s (OpRevoke ident sc now) = fmapT (\<lambda>_. NoAnswer) (Revoke_thread ident sc now)"
| "thread_of s (OpLookup token now) = fmapT SessionOf (Lookup_thread (se_sessions s) token now)"
| "thread_of s (OpRevokeKey ident now) = fmapT (\<lambda>_. NoAnswer) (RevokeSetupKey_thread (se_devices s) ident now)"
| "thread_of s (OpInstanceID now) = fmapT Identity (InstanceID_thread now)"
| "thread_of s op = atomically (perform s op)"

lemma thread_of_sections: "run_thread (thread_of s op) = perform s op"
  by (cases op) (simp_all add: fmapT_def fmapM_def run_simps_thread Enroll_sections Revoke_sections Lookup_sections RevokeSetupKey_sections InstanceID_sections)

lemma thread_of_open: "thread_of s op = Halt (Ret a) \<Longrightarrow> False"
  by (cases op) (auto simp: fmapT_def atomically_def Enroll_thread_def Revoke_thread_def Lookup_thread_def RevokeSetupKey_thread_def InstanceID_thread_def failT_def
      split: if_splits)

lemma steady_thread_of:
  assumes "allocator_ok (st_allocator (se_devices s))"
  shows "steady (thread_of s op)"
proof -
  have "steady (Enroll_thread (se_devices s) token inp now)" for token inp now
    unfolding Enroll_thread_def Let_def SetupKeyByToken_def by (intro steady_intros pres_intros steps.create_kept assms)
  moreover have "commits (atomic_step\<^sup>*\<^sup>* d0) (revoke_tx i now)" for d0 i now
    unfolding commits_def using revoke_tx_Ret steps.revoked by metis
  then have "steady (Revoke_thread ident sc now)" for ident sc now
    unfolding Revoke_thread_def by (intro steady_intros pres_intros)
  moreover have "steady (Lookup_thread (se_sessions s) token now)" for token now
    unfolding Lookup_thread_def Let_def deleteByID_def
    by (intro steady_intros pres_intros keeps_execM; erule steps.session_delete steps.session_touch; assumption)+
  moreover have "steady (RevokeSetupKey_thread (se_devices s) ident now)" for ident now
    unfolding RevokeSetupKey_thread_def SetupKeyByID_def by (intro steady_intros pres_intros keeps_execM) (erule steps.key_revoke; assumption)
  moreover have "steady (InstanceID_thread now)" for now
    unfolding InstanceID_thread_def instance_tx_def
    by (intro steady_intros pres_intros keeps_execM keeps_commits) (erule steps.instance_id; simp)+
  ultimately show ?thesis
    by (cases op) (auto simp: fmapT_def fmapM_def intro!: steady_intros pres_intros steps.store_kept steps.devices_kept assms steps.bootstrap)
qed

text \<open>What an answer says about the section that gave it: the device is new and now there, the installation is now claimed.\<close>

fun gained :: "answer \<Rightarrow> db \<Rightarrow> db \<Rightarrow> bool" where
  "gained (Enrolled dev secret) d e \<longleftrightarrow> dv_ID dev \<notin> d_id ` set (devices d) \<and> device_row_of dev \<in> set (devices e)"
| "gained (Administrator u) d e \<longleftrightarrow> \<not> claimed d \<and> claimed e"
| "gained _ d e \<longleftrightarrow> True"

lemma yields_any: "(\<And>a d e. P a d e) \<Longrightarrow> yields P t"
  unfolding yields_def by (induction t rule: thread_induct) (auto simp: split_beta' intro: prod.collapse [symmetric])

lemma returnT_eq [simp]: "bindT (atomically m) k \<noteq> returnT a" "failT e \<noteq> returnT a" "returnT a = returnT b \<longleftrightarrow> a = b"
  by (simp_all add: atomically_def returnT_def failT_def)

lemma yields_fmapT: "yields (\<lambda>a. P (g a)) t \<Longrightarrow> yields P (fmapT g t)"
  unfolding fmapT_def by (rule yields_bindT) simp_all

lemma create_gains:
  assumes "allocator_ok (st_allocator s)" "create s u inp k h now w = (Ret dev, w')"
  shows "gained (Enrolled dev secret) (w_db w) (w_db w')"
  using create_Ret [OF assms] by (auto simp: create_guards_def created_db_def)

lemma bootstrap_gains:
  assumes "bootstrap_tx s req now w = (Ret u, w')"
  shows "gained (Administrator u) (w_db w) (w_db w')"
proof -
  obtain w1 where c: "ClaimBootstrap now w = (Ret True, w1)"
    and u: "user_Create (se_users s) \<lparr>nu_Email = br_Email req, nu_Password = br_Password req, nu_DisplayName = br_DisplayName req,
       nu_Role = RoleAdmin\<rparr> now w1 = (Ret u, w')"
    using assms by (auto simp: bootstrap_tx_def bindM_Ret split: if_splits)
  then show ?thesis using ClaimBootstrap_Ret [OF c] user_Create_Ret [OF u] by (simp add: claimed_def metadata_def)
qed

lemma yields_thread_of:
  assumes "allocator_ok (st_allocator (se_devices s))"
  shows "yields gained (thread_of s op)"
proof (cases op)
  case (OpEnroll token inp now)
  let ?P = "\<lambda>(dev, secret). gained (Enrolled dev secret)"
  have "yields ?P (bindT (atomically (create (se_devices s) u inp k h now)) (\<lambda>device. returnT (device, secret)))" for u k h secret
    by (rule yields_bindT) (auto simp: yields_atomically dest: create_gains [OF assms])
  then have "yields ?P (bindT (atomically (NewToken 32)) (\<lambda>raw. bindT (atomically (create (se_devices s) u inp k (HashToken (deviceTokenPrefix @ raw)) now))
      (\<lambda>device. returnT (device, deviceTokenPrefix @ raw))))" for u k
    by (intro yields_bindT [where t = "atomically (NewToken 32)"]) (auto simp: yields_atomically)
  then have "yields ?P (Enroll_thread (se_devices s) token inp now)"
    unfolding Enroll_thread_def Let_def by (intro yields_bindT) (auto simp: yields_atomically split: option.splits)
  then show ?thesis unfolding OpEnroll thread_of.simps by (intro yields_fmapT) (simp add: split_beta')
next
  case (OpBootstrap req now)
  then show ?thesis using InTx_Ret bootstrap_gains by (fastforce simp: yields_atomically fmapM_def bindM_Ret)
qed (auto simp: yields_atomically fmapM_def bindM_Ret intro!: yields_fmapT [OF yields_any])

section \<open>Interleavings\<close>

text \<open>
  A state is the threads and the world they share. In a step one of them runs its next section, or the rest of the program
  makes an atomic step, which also takes its share of the faults and random bytes.
\<close>

inductive pool_step :: "answer thread list \<times> db world \<Rightarrow> nat option \<Rightarrow> answer thread list \<times> db world \<Rightarrow> bool" where
  turn: "i < length ts \<Longrightarrow> ts ! i = Section f \<Longrightarrow> f w = (t, v) \<Longrightarrow> pool_step (ts, w) (Some i) (ts[i := t], v)"
| others: "atomic_step (w_db w) (w_db v) \<Longrightarrow> pool_step (ts, w) None (ts, v)"

inductive_cases pool_stepE: "pool_step (ts, w) e (ts', w')"

definition started :: "Server \<Rightarrow> operation list \<Rightarrow> answer thread list \<times> db world \<Rightarrow> bool" where
  "started s ops st \<longleftrightarrow> fst st = map (thread_of s) ops"

interpretation pool: transition_system "started s ops" pool_step for s ops .

text \<open>The answers given so far.\<close>

definition answered :: "answer thread list \<Rightarrow> nat \<Rightarrow> answer \<Rightarrow> bool" where
  "answered ts i a \<longleftrightarrow> i < length ts \<and> ts ! i = Halt (Ret a)"

text \<open>
  What holds of a pool started on the database \<open>d0\<close>: the threads go on as they should, the database was made by atomic
  steps, and the answers are true of it. No two threads were told of the same device, and at most one that it is the
  administrator.
\<close>

definition pool_ok :: "db \<Rightarrow> answer thread list \<times> db world \<Rightarrow> bool" where
  "pool_ok d0 st \<longleftrightarrow> (case st of (ts, w) \<Rightarrow>
     (\<forall>t \<in> set ts. steady t \<and> yields gained t) \<and> atomic_step\<^sup>*\<^sup>* d0 (w_db w) \<and>
     (\<forall>i dev secret. answered ts i (Enrolled dev secret) \<longrightarrow> dv_ID dev \<notin> d_id ` set (devices d0) \<and>
        (\<exists>r \<in> set (devices (w_db w)). device_after (device_row_of dev) r)) \<and>
     (\<forall>i j dev dev' secret secret'. answered ts i (Enrolled dev secret) \<longrightarrow> answered ts j (Enrolled dev' secret') \<longrightarrow> i \<noteq> j \<longrightarrow> dv_ID dev \<noteq> dv_ID dev') \<and>
     (\<forall>i u. answered ts i (Administrator u) \<longrightarrow> \<not> claimed d0 \<and> claimed (w_db w)) \<and>
     (\<forall>i j u u'. answered ts i (Administrator u) \<longrightarrow> answered ts j (Administrator u') \<longrightarrow> i = j))"

lemma pool_okD:
  assumes "pool_ok d0 (ts, w)"
  shows "atomic_step\<^sup>*\<^sup>* d0 (w_db w)"
    "answered ts i (Enrolled dev secret) \<Longrightarrow> dv_ID dev \<notin> d_id ` set (devices d0) \<and> (\<exists>r \<in> set (devices (w_db w)). device_after (device_row_of dev) r)"
    "answered ts i (Enrolled dev secret) \<Longrightarrow> answered ts j (Enrolled dev' secret') \<Longrightarrow> i \<noteq> j \<Longrightarrow> dv_ID dev \<noteq> dv_ID dev'"
    "answered ts i (Administrator u) \<Longrightarrow> \<not> claimed d0 \<and> claimed (w_db w)"
    "answered ts i (Administrator u) \<Longrightarrow> answered ts j (Administrator u') \<Longrightarrow> i = j"
  using assms unfolding pool_ok_def prod.case by blast+

lemma later_devices:
  assumes "later d e" "\<exists>r \<in> set (devices d). device_after q r"
  shows "\<exists>r \<in> set (devices e). device_after q r"
proof -
  obtain r where "r \<in> set (devices d)" "device_after q r" using assms(2) by blast
  moreover from this(1) obtain r' where "r' \<in> set (devices e)" "device_after r r'" using assms(1) unfolding later_def by blast
  ultimately show ?thesis using device_after_trans by blast
qed

lemma later_ids: "later d e \<Longrightarrow> d_id ` set (devices d) \<subseteq> d_id ` set (devices e)"
  unfolding later_def by (clarsimp, metis device_after_def image_eqI)

lemma later_claimed: "later d e \<Longrightarrow> claimed d \<Longrightarrow> claimed e"
  by (auto simp: later_def claimed_def map_le_def dom_def)

lemma steps_later: "atomic_step\<^sup>*\<^sup>* d e \<Longrightarrow> later d e"
  using history.atomic_steps_kept [OF _ later_refl] .

lemma pool_ok_mono:
  assumes "pool_ok d0 (ts, w)" "atomic_step\<^sup>*\<^sup>* (w_db w) (w_db v)"
  shows "pool_ok d0 (ts, v)"
  using assms(1) rtranclp_trans [OF _ assms(2)] later_devices [OF steps_later [OF assms(2)]] later_claimed [OF steps_later [OF assms(2)]]
  unfolding pool_ok_def by auto

lemma pool_ok_turn:
  assumes ok: "pool_ok d0 (ts, w)" and turn: "i < length ts" "ts ! i = Section f" "f w = (t, v)"
  shows "pool_ok d0 (ts[i := t], v)"
proof -
  have th: "steady (Section f)" "yields gained (Section f)" using ok turn(1,2) nth_mem [OF turn(1)] by (auto simp: pool_ok_def)
  have steps: "atomic_step\<^sup>*\<^sup>* (w_db w) (w_db v)" "steady t" using each_Section [OF th(1) [unfolded steady_def] turn(3)] unfolding steady_def by simp_all
  have gain: "\<And>a. t = Halt (Ret a) \<Longrightarrow> gained a (w_db w) (w_db v)" "yields gained t" using each_Section [OF th(2) [unfolded yields_def] turn(3)] unfolding yields_def by simp_all
  have before: "pool_ok d0 (ts, v)" using pool_ok_mono [OF ok steps(1)] .
  have old: "\<not> answered ts i a" for a using turn(2) by (simp add: answered_def)
  have ans: "answered (ts[i := t]) j a \<longleftrightarrow> (if j = i then t = Halt (Ret a) else answered ts j a)" for j a
    using turn(1) by (auto simp: answered_def)
  have d0: "later d0 (w_db w)" using steps_later [OF pool_okD(1) [OF ok]] .
  have fresh: "dv_ID dev \<notin> d_id ` set (devices d0) \<and> (\<exists>r \<in> set (devices (w_db v)). device_after (device_row_of dev) r) \<and>
      (\<forall>j dev' secret'. answered ts j (Enrolled dev' secret') \<longrightarrow> dv_ID dev' \<noteq> dv_ID dev)" if "t = Halt (Ret (Enrolled dev secret))" for dev secret
  proof -
    have g: "dv_ID dev \<notin> d_id ` set (devices (w_db w))" "device_row_of dev \<in> set (devices (w_db v))" using gain(1) [OF that] by auto
    have "dv_ID dev' \<in> d_id ` set (devices (w_db w))" if told: "answered ts j (Enrolled dev' secret')" for j dev' secret'
    proof -
      obtain r where "r \<in> set (devices (w_db w))" "device_after (device_row_of dev') r" using pool_okD(2) [OF ok told] by blast
      then show ?thesis by (auto simp: device_after_def device_row_of_def intro!: image_eqI [of _ d_id r])
    qed
    then have "\<forall>j dev' secret'. answered ts j (Enrolled dev' secret') \<longrightarrow> dv_ID dev' \<noteq> dv_ID dev" using g(1) by metis
    moreover have "dv_ID dev \<notin> d_id ` set (devices d0)" using g(1) later_ids [OF d0] by blast
    moreover have "\<exists>r \<in> set (devices (w_db v)). device_after (device_row_of dev) r" using g(2) by (rule bexI [rotated]) simp
    ultimately show ?thesis by blast
  qed
  have claim: "\<not> claimed d0 \<and> claimed (w_db v) \<and> (\<forall>j u'. \<not> answered ts j (Administrator u'))" if "t = Halt (Ret (Administrator u))" for u
  proof -
    have g: "\<not> claimed (w_db w)" "claimed (w_db v)" using gain(1) [OF that] by auto
    then show ?thesis using pool_okD(4) [OF ok] later_claimed [OF d0] by blast
  qed
  have "\<forall>t' \<in> set (ts[i := t]). steady t' \<and> yields gained t'"
    using before steps(2) gain(2) set_update_subset_insert [of ts i t] by (auto simp: pool_ok_def)
  moreover have "dv_ID dev \<notin> d_id ` set (devices d0) \<and> (\<exists>r \<in> set (devices (w_db v)). device_after (device_row_of dev) r)"
    if "answered (ts[i := t]) j (Enrolled dev secret)" for j dev secret
    using that fresh [of dev secret] pool_okD(2) [OF before, of j dev secret] unfolding ans by (cases "j = i") simp_all
  moreover have "dv_ID dev \<noteq> dv_ID dev'"
    if "answered (ts[i := t]) j (Enrolled dev secret)" "answered (ts[i := t]) k (Enrolled dev' secret')" "j \<noteq> k" for j k dev dev' secret secret'
    using that fresh [of dev secret] fresh [of dev' secret'] pool_okD(3) [OF before, of j dev secret k dev' secret'] unfolding ans
    by (cases "j = i"; cases "k = i") (simp_all, metis+)
  moreover have "\<not> claimed d0 \<and> claimed (w_db v)" if "answered (ts[i := t]) j (Administrator u)" for j u
    using that claim [of u] pool_okD(4) [OF before, of j u] unfolding ans by (cases "j = i") simp_all
  moreover have "j = k" if "answered (ts[i := t]) j (Administrator u)" "answered (ts[i := t]) k (Administrator u')" for j k u u'
    using that claim [of u] claim [of u'] pool_okD(5) [OF before, of j u k u'] unfolding ans by (cases "j = i"; cases "k = i") simp_all
  ultimately show ?thesis using pool_okD(1) [OF before] unfolding pool_ok_def prod.case by blast
qed

lemma pool_ok_reaches:
  assumes "pool.reaches st st'" "pool_ok d0 st"
  shows "pool_ok d0 st'"
proof (rule pool.reaches_invariant [where I = "pool_ok d0", OF _ assms])
  fix st e st' assume "pool_ok d0 st" "pool_step st e st'"
  then show "pool_ok d0 st'"
    by (cases st; cases st') (auto elim!: pool_stepE intro: pool_ok_turn pool_ok_mono)
qed

lemma pool_ok_started:
  assumes "allocator_ok (st_allocator (se_devices s))" "pool.reaches (map (thread_of s) ops, w) (ts, v)"
  shows "pool_ok (w_db w) (ts, v)"
proof (rule pool_ok_reaches [OF assms(2)])
  have "\<not> answered (map (thread_of s) ops) i a" for i a
    by (auto simp: answered_def dest: thread_of_open)
  then show "pool_ok (w_db w) (map (thread_of s) ops, w)"
    using steady_thread_of [OF assms(1)] yields_thread_of [OF assms(1)] by (auto simp: pool_ok_def)
qed

end
