(* ===== verification/Interleaving_Theorems.thy ===== *)
theory Interleaving_Theorems
  imports Interleaving Control_Theorems Account_Theorems
begin

text \<open>What concurrency cannot break.\<close>

section \<open>Runs of a pool\<close>

text \<open>One thread run to its end is an interleaving.\<close>

lemma run_reaches:
  assumes "i < length ts" "run_thread (ts ! i) w = (r, v)"
  shows "pool.reaches (ts, w) (ts[i := Halt r], v)"
proof -
  have "pool.reaches (ts, w) (ts[i := Halt r], v)" if "i < length ts" "ts ! i = t" "run_thread t w = (r, v)" for t ts w
    using that
  proof (induction t arbitrary: ts w rule: thread_induct)
    case (Halt q)
    then have "ts[i := Halt r] = ts" "v = w" using list_update_id [of ts i] by auto
    then show ?case by (simp add: pool.reaches.refl)
  next
    case (Section f)
    obtain t w1 where f: "f w = (t, w1)" by (cases "f w")
    have "pool.reaches (ts, w) (ts[i := t], w1)"
      using pool.reaches.step [OF pool.reaches.refl pool_step.turn [OF Section.prems(1,2) f]] .
    moreover have "pool.reaches (ts[i := t], w1) ((ts[i := t])[i := Halt r], v)" using Section.IH [OF f, of "ts[i := t]" w1] Section.prems f by simp
    ultimately show ?case using pool.reaches_trans by fastforce
  qed
  then show ?thesis using assms by blast
qed

text \<open>Devices of a key, counted by their IDs.\<close>

lemma key_device_ids:
  assumes "consistent d"
  shows "length (filter (\<lambda>r. d_enrolled_with r = Some k) (devices d)) = card (d_id ` {r \<in> set (devices d). d_enrolled_with r = Some k})"
proof -
  have "distinct (map d_id (devices d))" using assms by (simp add: consistent_def schema_ok_def devices_schema_def)
  then have "distinct (map d_id (filter (\<lambda>r. d_enrolled_with r = Some k) (devices d)))" by (rule distinct_map_filter)
  then show ?thesis using distinct_card [of "map d_id (filter (\<lambda>r. d_enrolled_with r = Some k) (devices d))"] by simp
qed

lemma sample_enrols: "\<exists>dev secret w'. Enroll sample_store ''secret'' sample_device 0 sample_world = (Ret (dev, secret), w')"
proof (rule Enroll_total [where r = sample_setup_key])
  show "Redeemable (scanSetupKey sample_store sample_setup_key) 0 = None"
    by (simp add: Redeemable_def key_Revoked_def key_Expired_def key_Exhausted_def scanSetupKey_def sample_setup_key_def)
  show "free_in (st_allocator sample_store) (al_v4 (st_allocator sample_store)) (w_db sample_world) \<noteq> []"
    by (simp add: free_in_def sample_store_def sample_hosts sample_last in_use_def sample_world_def sample_db_def empty_db_def)
  show "truncate_str (TrimSpace (nd_Name sample_device)) maxNameLength \<noteq> []" by (simp add: sample_name)
  show "ValidatePublicKey (TrimSpace (nd_PublicKey sample_device)) = None"
    by (simp add: sample_device_def sample_key_valid)
qed (simp_all add: sample_allocator_ok sample_consistent sample_world_def, simp_all add: sample_db_def empty_db_def
     sample_setup_key_def sample_store_def IPv6Enabled_def)

section \<open>Properties\<close>

text \<open>
  C6: However many operations run at the same time, interleaved statement by statement and transaction by
  transaction, with each other and with whatever else the program does, the inventory stays consistent, the installation
  keeps its one administrator, and history only moves forward. The sections of an operation, run one after the other, are
  the operation; and every request and start changes the database by the same atomic steps.
\<close>

theorem interleavings_keep_inventory:
  assumes "New lib cfg i t u = (Ret s, u')" "pool.reaches (map (thread_of s) ops, w) (ts, v)" "consistent (w_db w)" "bootstrap_ok (w_db w)"
  shows "consistent (w_db v) \<and> bootstrap_ok (w_db v) \<and> later (w_db w) (w_db v) \<and>
    (\<forall>op. run_thread (thread_of s op) = perform s op) \<and> (\<forall>st ev st'. server_step s st ev st' \<longrightarrow> atomic_step\<^sup>*\<^sup>* (sv_db st) (sv_db st'))"
proof -
  note ok = New_ok(1) [OF assms(1)]
  have "atomic_step\<^sup>*\<^sup>* (w_db w) (w_db v)" using pool_okD(1) [OF pool_ok_started [OF ok assms(2)]] .
  then show ?thesis
    using inventory.atomic_steps_kept administrator.atomic_steps_kept steps_later assms(3,4) thread_of_sections request_steps [OF ok] by blast
qed

theorem interleavings_keep_inventory_witness:
  "\<exists>a b v. pool.reaches (map (thread_of sample_server) [OpInstanceID 0, OpInstanceID 1], \<lparr>w_db = empty_db, w_faults = [], w_entropy = replicate 16 7\<rparr>)
       ([Halt a, Halt b], v) \<and> consistent (w_db v) \<and> bootstrap_ok (w_db v)"
proof -
  let ?w = "\<lparr>w_db = empty_db, w_faults = [], w_entropy = replicate 16 7\<rparr>" and ?ts = "map (thread_of sample_server) [OpInstanceID 0, OpInstanceID 1]"
  obtain a w1 b v where run: "run_thread (?ts ! 0) ?w = (a, w1)" "run_thread (?ts ! 1) w1 = (b, v)" by fastforce
  have "pool.reaches (?ts, ?w) (?ts[0 := Halt a], w1)" using run_reaches [OF _ run(1)] by simp
  moreover have "pool.reaches (?ts[0 := Halt a], w1) (?ts[0 := Halt a, 1 := Halt b], v)" using run_reaches [of 1 "?ts[0 := Halt a]"] run(2) by simp
  ultimately have reach: "pool.reaches (?ts, ?w) ([Halt a, Halt b], v)" using pool.reaches_trans by fastforce
  have "consistent empty_db" "bootstrap_ok empty_db" using consistent_empty [of None] by (simp_all add: bootstrap_ok_def claimed_def metadata_def empty_db_def)
  moreover obtain u' where "New sample_lib sample_config ''net_1'' 0 \<lparr>w_db = empty_db, w_faults = [], w_entropy = replicate 48 7\<rparr> = (Ret sample_server, u')"
    using New_sample by blast
  ultimately have "consistent (w_db v)" "bootstrap_ok (w_db v)" using interleavings_keep_inventory [OF _ reach] by simp_all
  then show ?thesis using reach by blast
qed

text \<open>
  C7: However many enrolments race for one setup key with a limit, and whatever else happens meanwhile, at most as many
  succeed as the key had uses left.
\<close>

theorem enrolment_races_bounded:
  assumes "New lib cfg i t u = (Ret s, u')" "pool.reaches (map (thread_of s) ops, w) (ts, v)" "consistent (w_db w)"
    "k \<in> set (setup_keys (w_db v))" "k_max_uses k \<noteq> 0" "k_id k \<noteq> []"
  shows "int (card {i. \<exists>dev secret. answered ts i (Enrolled dev secret) \<and> dv_EnrolledWith dev = k_id k}) +
      int (length (filter (\<lambda>r. d_enrolled_with r = Some (k_id k)) (devices (w_db w)))) \<le> k_max_uses k"
proof -
  define W where "W = {i. \<exists>dev secret. answered ts i (Enrolled dev secret) \<and> dv_EnrolledWith dev = k_id k}"
  define ids where "ids d = d_id ` {r \<in> set (devices d). d_enrolled_with r = Some (k_id k)}" for d :: db
  note ok = pool_ok_started [OF New_ok(1) [OF assms(1)] assms(2)]
  note steps = pool_okD(1) [OF ok]
  have c: "consistent (w_db v)" using inventory.atomic_steps_kept [OF steps assms(3)] .
  obtain dev where dev: "\<forall>i \<in> W. \<exists>secret. answered ts i (Enrolled (dev i) secret) \<and> dv_EnrolledWith (dev i) = k_id k"
    using bchoice [of W "\<lambda>i dev. \<exists>secret. answered ts i (Enrolled dev secret) \<and> dv_EnrolledWith dev = k_id k"] by (auto simp: W_def)
  have inj: "inj_on (\<lambda>i. dv_ID (dev i)) W"
  proof (rule inj_onI)
    fix i j assume "i \<in> W" "j \<in> W" and same: "dv_ID (dev i) = dv_ID (dev j)"
    then obtain x y where "answered ts i (Enrolled (dev i) x)" "answered ts j (Enrolled (dev j) y)" using dev by blast
    then show "i = j" using pool_okD(3) [OF ok, of i "dev i" x j "dev j" y] same by blast
  qed
  have "dv_ID (dev i) \<in> ids (w_db v) - ids (w_db w)" if mem: "i \<in> W" for i
  proof -
    obtain secret where a: "answered ts i (Enrolled (dev i) secret)" "dv_EnrolledWith (dev i) = k_id k" using bspec [OF dev mem] by blast
    obtain r where "r \<in> set (devices (w_db v))" "device_after (device_row_of (dev i)) r" using pool_okD(2) [OF ok a(1)] by blast
    then have "dv_ID (dev i) \<in> ids (w_db v)" using a(2) assms(6) by (auto simp: ids_def device_after_def device_row_of_def nullableID_def intro!: image_eqI [of _ d_id r])
    then show ?thesis using pool_okD(2) [OF ok a(1)] by (auto simp: ids_def)
  qed
  then have "(\<lambda>i. dv_ID (dev i)) ` W \<subseteq> ids (w_db v) - ids (w_db w)" by blast
  then have new: "card W \<le> card (ids (w_db v) - ids (w_db w))"
    using card_mono [of "ids (w_db v) - ids (w_db w)" "(\<lambda>i. dv_ID (dev i)) ` W"] card_image [OF inj] by (simp add: ids_def)
  have old: "ids (w_db w) \<subseteq> ids (w_db v)"
  proof
    fix x assume "x \<in> ids (w_db w)"
    then obtain q where q: "q \<in> set (devices (w_db w))" "d_enrolled_with q = Some (k_id k)" "x = d_id q" by (auto simp: ids_def)
    obtain r where "r \<in> set (devices (w_db v))" "device_after q r" using steps_later [OF steps] q(1) by (auto simp: later_def)
    then show "x \<in> ids (w_db v)" using q by (auto simp: ids_def device_after_def intro!: image_eqI [of _ d_id r])
  qed
  have "finite (ids d)" for d by (simp add: ids_def)
  then have "card W + card (ids (w_db w)) \<le> card (ids (w_db v))" using new card_Diff_subset [OF _ old] card_mono [OF _ old] by simp
  moreover have "int (card (ids (w_db v))) \<le> k_max_uses k"
    using c assms(4,5) key_device_ids [OF c, of "k_id k"] by (auto simp: consistent_def uses_ok_def keys_ok_def ids_def)
  ultimately show ?thesis using key_device_ids [OF assms(3), of "k_id k"] by (simp add: W_def ids_def)
qed

theorem enrolment_races_bounded_witness:
  "\<exists>dev secret v. pool.reaches (map (thread_of sample_server) [OpEnroll ''secret'' sample_device 0, OpEnroll ''secret'' sample_device 0], sample_world)
       ([Halt (Ret (Enrolled dev secret)), thread_of sample_server (OpEnroll ''secret'' sample_device 0)], v) \<and>
     int (card {i. \<exists>dev' secret'. answered [Halt (Ret (Enrolled dev secret)), thread_of sample_server (OpEnroll ''secret'' sample_device 0)] i (Enrolled dev' secret') \<and>
        dv_EnrolledWith dev' = ''sk_1''}) \<le> 1"
proof -
  let ?op = "OpEnroll ''secret'' sample_device 0"
  obtain dev secret v where run: "Enroll sample_store ''secret'' sample_device 0 sample_world = (Ret (dev, secret), v)" using sample_enrols by blast
  have "se_devices sample_server = sample_store" by (simp add: sample_server_def)
  then have "perform sample_server ?op sample_world = (Ret (Enrolled dev secret), v)" using run by (simp add: fmapM_def bindM_def returnM_def)
  then have reach: "pool.reaches (map (thread_of sample_server) [?op, ?op], sample_world) ([Halt (Ret (Enrolled dev secret)), thread_of sample_server ?op], v)"
    using run_reaches [of 0 "map (thread_of sample_server) [?op, ?op]" sample_world] thread_of_sections [of sample_server ?op] by simp
  obtain u' where new: "New sample_lib sample_config ''net_1'' 0 \<lparr>w_db = empty_db, w_faults = [], w_entropy = replicate 48 7\<rparr> = (Ret sample_server, u')"
    using New_sample by blast
  have "later sample_db (w_db v)" using steps_later [OF pool_okD(1) [OF pool_ok_started [OF New_ok(1) [OF new] reach]]] by (simp add: sample_world_def)
  then obtain k where k: "k \<in> set (setup_keys (w_db v))" "key_after sample_setup_key k" by (auto simp: later_def sample_db_def)
  have "consistent (w_db sample_world)" using sample_consistent by (simp add: sample_world_def)
  note bound = enrolment_races_bounded [OF new reach this k(1)]
  have "k_id k = ''sk_1''" "k_max_uses k = 1" using k(2) by (simp_all add: key_after_def sample_setup_key_def)
  then have "int (card {i. \<exists>dev' secret'. answered [Halt (Ret (Enrolled dev secret)), thread_of sample_server ?op] i (Enrolled dev' secret') \<and> dv_EnrolledWith dev' = ''sk_1''}) \<le> 1"
    using bound by simp
  then show ?thesis using reach by blast
qed

text \<open>
  C8: However many clients race to claim an installation, one of them at most becomes its administrator, and none when it
  was claimed already.
\<close>

theorem bootstrap_race_one_winner:
  assumes "New lib cfg i t u = (Ret s, u')" "pool.reaches (map (thread_of s) ops, w) (ts, v)"
  shows "card {i. \<exists>admin. answered ts i (Administrator admin)} \<le> (if claimed (w_db w) then 0 else 1)"
proof -
  note ok = pool_ok_started [OF New_ok(1) [OF assms(1)] assms(2)]
  have "{i. \<exists>admin. answered ts i (Administrator admin)} = {} \<or> \<not> claimed (w_db w) \<and> (\<exists>j. {i. \<exists>admin. answered ts i (Administrator admin)} = {j})"
    using pool_okD(4) [OF ok] pool_okD(5) [OF ok] by blast
  then show ?thesis by auto
qed

theorem bootstrap_race_one_winner_witness:
  "\<exists>admin b v. pool.reaches (map (thread_of sample_server) [OpBootstrap sample_bootstrap 0, OpBootstrap sample_bootstrap 0], fresh_world)
       ([Halt (Ret (Administrator admin)), Halt b], v) \<and> card {i. \<exists>a. answered [Halt (Ret (Administrator admin)), Halt b] i (Administrator a)} \<le> 1"
proof -
  let ?op = "OpBootstrap sample_bootstrap 0"
  let ?ts = "map (thread_of sample_server) [?op, ?op]"
  obtain admin w1 where "InTx (bootstrap_tx sample_server sample_bootstrap 0) fresh_world = (Ret admin, w1)" using bootstrap_sample by blast
  then have first: "run_thread (?ts ! 0) fresh_world = (Ret (Administrator admin), w1)" by (simp add: run_atomically fmapM_def bindM_def returnM_def)
  obtain b v where second: "run_thread (?ts ! 1) w1 = (b, v)" by fastforce
  have "pool.reaches (?ts, fresh_world) (?ts[0 := Halt (Ret (Administrator admin))], w1)" using run_reaches [OF _ first] by simp
  moreover have "pool.reaches (?ts[0 := Halt (Ret (Administrator admin))], w1) (?ts[0 := Halt (Ret (Administrator admin)), 1 := Halt b], v)"
    using run_reaches [of 1 "?ts[0 := Halt (Ret (Administrator admin))]"] second by simp
  ultimately have reach: "pool.reaches (?ts, fresh_world) ([Halt (Ret (Administrator admin)), Halt b], v)" using pool.reaches_trans by fastforce
  obtain u' where new: "New sample_lib sample_config ''net_1'' 0 \<lparr>w_db = empty_db, w_faults = [], w_entropy = replicate 48 7\<rparr> = (Ret sample_server, u')"
    using New_sample by blast
  have "card {i. \<exists>a. answered [Halt (Ret (Administrator admin)), Halt b] i (Administrator a)} \<le> 1"
    using bootstrap_race_one_winner [OF new reach] by (rule order_trans) simp
  then show ?thesis using reach by blast
qed

end
