(* ===== verification/Test_Database.thy ===== *)
theory Test_Database
  imports Startup
begin

text \<open>
  The helper that opens a database for a test (\<open>internal/storage/storagetest\<close>): a database in memory, or a
  schema of its own on a PostgreSQL server. The state is that of the test: the handles that are open, the
  schemas of the server, the database the test works on, and what \<open>t.Cleanup\<close> has registered. \<open>t.Fatalf\<close>
  and \<open>t.Skip\<close> end the test, as an error does here; the cleanups run all the same. \<open>net/url\<close> is an argument.
\<close>

section \<open>The helper\<close>

record 'r parsed_url =
  pu_RawQuery :: string
  pu_rest :: 'r

record 'r url_library =
  ul_Parse :: "string \<Rightarrow> error + 'r parsed_url"
  ul_Query :: "'r parsed_url \<Rightarrow> (string \<times> string list) list"
  ul_Encode :: "(string \<times> string list) list \<Rightarrow> string"
  ul_String :: "'r parsed_url \<Rightarrow> string"

record 'r test_env =
  te_Getenv :: "string \<Rightarrow> string"
  te_lower :: "nat \<Rightarrow> nat"
  te_sql :: sql_host
  te_exec :: sql_engine
  te_migrationsFS :: embed_FS
  te_appliedAt :: "int \<Rightarrow> instant"
  te_url :: "'r url_library"

datatype cleanup = CloseDB DB | DropSchema DB DB string

record test_state =
  ts_db :: db
  ts_open :: "DB list"
  ts_schemas :: "string list"
  ts_cleanup :: "cleanup list"
  ts_log :: "string list"

definition PostgresDSNEnv :: string where "PostgresDSNEnv = ''HEADNET_TEST_POSTGRES_DSN''"

definition safeIdentifier :: "string \<Rightarrow> bool" where
  "safeIdentifier s = (case s of [] \<Rightarrow> False
     | c # cs \<Rightarrow> c \<in> set ''abcdefghijklmnopqrstuvwxyz'' \<and> length cs \<le> 48 \<and> list_all (\<lambda>x. x \<in> set ''abcdefghijklmnopqrstuvwxyz0123456789_'') cs)"

definition postgresDSN :: "'r test_env \<Rightarrow> string" where
  "postgresDSN e = TrimSpace (te_Getenv e PostgresDSNEnv)"

definition Backend :: "'r test_env \<Rightarrow> Driver" where
  "Backend e = (if postgresDSN e \<noteq> [] then DriverPostgres else DriverSQLite)"

definition IsPostgres :: "'r test_env \<Rightarrow> bool" where
  "IsPostgres e \<longleftrightarrow> Backend e = DriverPostgres"

definition SkipUnlessSQLite :: "'r test_env \<Rightarrow> (test_state, unit) comp" where
  "SkipUnlessSQLite e = (if IsPostgres e then failM (ErrNew ''this test asserts SQLite-specific behaviour'') else returnM ())"

text \<open>\<open>storage.Open\<close>, \<open>db.Close\<close>, \<open>t.Cleanup\<close> and \<open>t.Logf\<close> on the state of the test.\<close>

definition on_test :: "('d \<Rightarrow> 'd) \<Rightarrow> ('d, unit) comp" where
  "on_test f w = (Ret (), w\<lparr>w_db := f (w_db w)\<rparr>)"

definition storage_Open :: "'r test_env \<Rightarrow> StorageOptions \<Rightarrow> (test_state, DB) comp" where
  "storage_Open e opts = bindM (Open (te_sql e) opts) (\<lambda>handle.
     bindM (on_test (\<lambda>s. s\<lparr>ts_open := handle # ts_open s\<rparr>)) (\<lambda>_. returnM handle))"

definition db_Close :: "DB \<Rightarrow> (test_state, unit) comp" where
  "db_Close handle = on_test (\<lambda>s. s\<lparr>ts_open := remove1 handle (ts_open s)\<rparr>)"

definition Cleanup :: "cleanup \<Rightarrow> (test_state, unit) comp" where
  "Cleanup c = on_test (\<lambda>s. s\<lparr>ts_cleanup := c # ts_cleanup s\<rparr>)"

definition Logf :: "string \<Rightarrow> (test_state, unit) comp" where
  "Logf msg = on_test (\<lambda>s. s\<lparr>ts_log := ts_log s @ [msg]\<rparr>)"

definition on_test_db :: "(db, 'a) comp \<Rightarrow> (test_state, 'a) comp" where
  "on_test_db m w = (case m \<lparr>w_db = ts_db (w_db w), w_faults = w_faults w, w_entropy = w_entropy w\<rparr> of
     (r, v) \<Rightarrow> (r, \<lparr>w_db = (w_db w)\<lparr>ts_db := w_db v\<rparr>, w_faults = w_faults v, w_entropy = w_entropy v\<rparr>))"

definition migrate_handle :: "'r test_env \<Rightarrow> DB \<Rightarrow> (test_state, DB) comp" where
  "migrate_handle e handle = bindM (on_test_db (Migrate (te_exec e) (te_migrationsFS e) (db_driver handle) (te_appliedAt e))) (\<lambda>(_, err).
     case err of Some err \<Rightarrow> failM (wrap ''migrating failed'' err) | None \<Rightarrow> returnM handle)"

definition test_openSQLite :: "'r test_env \<Rightarrow> (test_state, DB) comp" where
  "test_openSQLite e = bindM (mapErr (wrap ''opening the sqlite database failed'') (storage_Open e
       \<lparr>op_Driver = DriverSQLite, op_Path = MemoryPath, op_DSN = [], op_MaxOpenConns = 0, op_MaxIdleConns = 0, op_ConnMaxLifetime = 0\<rparr>)) (\<lambda>handle.
     bindM (Cleanup (CloseDB handle)) (\<lambda>_. migrate_handle e handle))"

definition withSearchPath :: "'r url_library \<Rightarrow> string \<Rightarrow> string \<Rightarrow> error + string" where
  "withSearchPath lib dsn schema = (case ul_Parse lib dsn of
     Inl err \<Rightarrow> Inl (wrap ''parsing the DSN'' err)
   | Inr u \<Rightarrow> let q = AList.update ''options'' [''-c search_path='' @ schema] (ul_Query lib u) in
       Inr (ul_String lib (u\<lparr>pu_RawQuery := ul_Encode lib q\<rparr>)))"

definition postgres_options :: "string \<Rightarrow> int \<Rightarrow> int \<Rightarrow> StorageOptions" where
  "postgres_options dsn maxOpen maxIdle = \<lparr>op_Driver = DriverPostgres, op_Path = [], op_DSN = dsn, op_MaxOpenConns = maxOpen, op_MaxIdleConns = maxIdle, op_ConnMaxLifetime = 0\<rparr>"

definition create_schema :: "string \<Rightarrow> test_state \<Rightarrow> sql_code + nat \<times> test_state" where
  "create_schema schema s = (if schema \<in> set (ts_schemas s) then Inl DriverFailure else Inr (0, s\<lparr>ts_schemas := schema # ts_schemas s\<rparr>))"

definition drop_schema :: "string \<Rightarrow> test_state \<Rightarrow> sql_code + nat \<times> test_state" where
  "drop_schema schema s = (if schema \<in> set (ts_schemas s) then Inr (0, s\<lparr>ts_schemas := remove1 schema (ts_schemas s)\<rparr>) else Inl DriverFailure)"

definition schema_name :: "(nat \<Rightarrow> nat) \<Rightarrow> string \<Rightarrow> string" where
  "schema_name lower ident = ''hn_'' @ take 20 (ToLower lower ident)"

definition schema_failed :: "string \<Rightarrow> string \<Rightarrow> string" where
  "schema_failed doing schema = doing @ '' the schema '' @ schema @ '' failed''"

text \<open>Closing the connection of the administrator before the test is given up.\<close>

definition give_up :: "DB \<Rightarrow> string \<Rightarrow> error \<Rightarrow> (test_state, 'a) comp" where
  "give_up admin msg err = bindM (db_Close admin) (\<lambda>_. failM (wrap msg err))"

text \<open>The part of \<open>openPostgres\<close> behind the schema.\<close>

definition on_schema :: "'r test_env \<Rightarrow> string \<Rightarrow> string \<Rightarrow> DB \<Rightarrow> (test_state, DB) comp" where
  "on_schema e baseDSN schema admin = (case withSearchPath (te_url e) baseDSN schema of
     Inl err \<Rightarrow> give_up admin ''building the scoped DSN failed'' err
   | Inr scoped \<Rightarrow> bindM (tryM (storage_Open e (postgres_options scoped 10 5))) (\<lambda>r. case r of
       Inl err \<Rightarrow> give_up admin (schema_failed ''connecting to'' schema) err
     | Inr handle \<Rightarrow> bindM (Cleanup (DropSchema handle admin schema)) (\<lambda>_. migrate_handle e handle)))"

definition test_openPostgres :: "'r test_env \<Rightarrow> string \<Rightarrow> (test_state, DB) comp" where
  "test_openPostgres e baseDSN = bindM (NewID []) (\<lambda>ident.
     if length (ToLower (te_lower e) ident) < 20 then panicM ''slice bounds out of range''
     else let schema = schema_name (te_lower e) ident in
     if \<not> safeIdentifier schema then failM (ErrNew ''generated an unusable schema name'')
     else bindM (mapErr (wrap ''connecting to postgres failed'') (storage_Open e (postgres_options baseDSN 2 1))) (\<lambda>admin.
       bindM (tryM (execM (create_schema schema))) (\<lambda>r. case r of
         Inl err \<Rightarrow> give_up admin (schema_failed ''creating'' schema) err
       | Inr _ \<Rightarrow> on_schema e baseDSN schema admin)))"

definition test_Open :: "'r test_env \<Rightarrow> (test_state, DB) comp" where
  "test_Open e = (let dsn = postgresDSN e in if dsn \<noteq> [] then test_openPostgres e dsn else test_openSQLite e)"

fun run_cleanup :: "cleanup \<Rightarrow> (test_state, unit) comp" where
  "run_cleanup (CloseDB handle) = db_Close handle"
| "run_cleanup (DropSchema handle admin schema) = bindM (db_Close handle) (\<lambda>_.
     bindM (tryM (execM (drop_schema schema))) (\<lambda>r. bindM
       (case r of Inl _ \<Rightarrow> Logf (''dropping the schema '' @ schema @ '' failed, leaving it behind'') | Inr _ \<Rightarrow> returnM ()) (\<lambda>_.
     db_Close admin)))"

text \<open>The end of a test: what was registered last runs first.\<close>

fun run_cleanups :: "cleanup list \<Rightarrow> (test_state, unit) comp" where
  "run_cleanups [] = returnM ()"
| "run_cleanups (c # cs) = bindM (run_cleanup c) (\<lambda>_. run_cleanups cs)"

definition finish :: "(test_state, unit) comp" where
  "finish w = run_cleanups (ts_cleanup (w_db w)) (w\<lparr>w_db := (w_db w)\<lparr>ts_cleanup := []\<rparr>\<rparr>)"

section \<open>The name of a schema\<close>

lemma ToLower_ascii:
  assumes "\<forall>c \<in> set s. (of_char c :: nat) < 128"
  shows "ToLower lc s = map (\<lambda>c. char_of (lower_rune lc (of_char c))) s"
  using assms
proof (induction s)
  case Nil
  then show ?case by (simp add: ToLower_def runes_def string_of_runes_def)
next
  case (Cons c s)
  have "chunks (c # s) = (of_char c, [c]) # chunks s"
    using Cons.prems by (subst chunks_step) (simp_all add: decode_rune_def Let_def)
  moreover have "lower_rune lc (of_char c) < 128" using Cons.prems by (simp add: lower_rune_def)
  ultimately show ?case
    using Cons by (simp add: ToLower_def runes_def string_of_runes_def encode_rune_def valid_rune_def)
qed

text \<open>The check of the name that \<open>safeIdentifier\<close> makes cannot fail, and neither can the slice before it.\<close>

lemma lower_alphabet:
  assumes "c \<in> set idAlphabet"
  shows "(of_char c :: nat) < 128 \<and> char_of (lower_rune lc (of_char c)) \<in> set ''abcdefghijklmnopqrstuvwxyz0123456789_''"
proof -
  have "list_all (\<lambda>c. (of_char c :: nat) < 128 \<and> char_of (lower_rune id (of_char c)) \<in> set ''abcdefghijklmnopqrstuvwxyz0123456789_'') idAlphabet"
    by code_simp
  then have "(of_char c :: nat) < 128" "char_of (lower_rune id (of_char c)) \<in> set ''abcdefghijklmnopqrstuvwxyz0123456789_''"
    using assms unfolding list_all_iff by blast+
  moreover from this(1) have "lower_rune lc (of_char c) = lower_rune id (of_char c)" by (simp add: lower_rune_def)
  ultimately show ?thesis by simp
qed

lemma generated_schema_safe:
  assumes "NewID [] w = (Ret ident, w')"
  shows "20 \<le> length (ToLower lc ident) \<and> safeIdentifier (schema_name lc ident)"
proof -
  have s: "set ident \<subseteq> set idAlphabet" "length ident = 26"
    using assms set_base32_Encode by (auto simp: NewID_Ret length_base32_Encode IDEntropyBytes_def)
  then have eq: "ToLower lc ident = map (\<lambda>c. char_of (lower_rune lc (of_char c))) ident"
    using lower_alphabet by (intro ToLower_ascii) blast
  have "x \<in> set ''abcdefghijklmnopqrstuvwxyz0123456789_''" if "x \<in> set (take 20 (ToLower lc ident))" for x
    using s(1) lower_alphabet in_set_takeD [OF that] unfolding eq by auto
  then show ?thesis using s(2) by (simp add: safeIdentifier_def schema_name_def list_all_iff eq)
qed

section \<open>Nothing is left behind\<close>

lemma Open_frame: "Open h opts w = (r, w') \<Longrightarrow> w_db w' = w_db w"
proof -
  have dsn: "keeps I (sqliteDSN h p)" for I p unfolding sqliteDSN_def Let_def by (intro pres_intros)
  have "keeps (\<lambda>d. d = w_db w) (Open h opts)"
    unfolding Open_def openSQLite_def openPostgres_def Let_def by (intro pres_intros dsn)
  then show "Open h opts w = (r, w') \<Longrightarrow> w_db w' = w_db w" by (auto simp: keeps_def)
qed

lemma storage_Open_run: "storage_Open e opts w = (r, w') \<Longrightarrow>
    (\<exists>h. r = Ret h \<and> w_db w' = (w_db w)\<lparr>ts_open := h # ts_open (w_db w)\<rparr>) \<or> ((\<forall>h. r \<noteq> Ret h) \<and> w_db w' = w_db w)"
  by (auto simp: storage_Open_def bindM_def on_test_def returnM_def dest: Open_frame split: prod.splits res.splits)

lemma migrate_handle_run: "migrate_handle e handle w = (r, w') \<Longrightarrow> (\<exists>d. w_db w' = (w_db w)\<lparr>ts_db := d\<rparr>) \<and> (\<forall>h. r = Ret h \<longrightarrow> h = handle)"
  by (auto simp: migrate_handle_def on_test_db_def bindM_def returnM_def failM_def split: prod.splits res.splits option.splits)

text \<open>The handles a cleanup closes. \<open>ready\<close>: what a test that got its database has registered, and the schema it made.\<close>

fun owed :: "cleanup \<Rightarrow> DB list" where
  "owed (CloseDB handle) = [handle]"
| "owed (DropSchema handle admin schema) = [handle, admin]"

definition ready :: "test_state \<Rightarrow> DB \<Rightarrow> test_state \<Rightarrow> bool" where
  "ready s handle s' \<longleftrightarrow> (ts_cleanup s' = CloseDB handle # ts_cleanup s \<and> ts_schemas s' = ts_schemas s) \<or>
     (\<exists>admin schema. ts_cleanup s' = DropSchema handle admin schema # ts_cleanup s \<and> ts_schemas s' = schema # ts_schemas s)"

definition tracked :: "test_state \<Rightarrow> test_state \<Rightarrow> bool" where
  "tracked s s' \<longleftrightarrow> (\<exists>cs. ts_cleanup s' = cs @ ts_cleanup s \<and> ts_open s' = concat (map owed cs) @ ts_open s)"

lemma tracked_same: "ts_cleanup s' = ts_cleanup s \<Longrightarrow> ts_open s' = ts_open s \<Longrightarrow> tracked s s'"
  unfolding tracked_def by (rule exI [of _ "[]"]) simp

lemma tracked_one: "ts_cleanup s' = c # ts_cleanup s \<Longrightarrow> ts_open s' = owed c @ ts_open s \<Longrightarrow> tracked s s'"
  unfolding tracked_def by (rule exI [of _ "[c]"]) simp

lemma give_up_run: "give_up admin msg err w = (r, w') \<Longrightarrow> (\<forall>h. r \<noteq> Ret h) \<and> w_db w' = (w_db w)\<lparr>ts_open := remove1 admin (ts_open (w_db w))\<rparr>"
  by (auto simp: give_up_def db_Close_def on_test_def bindM_def failM_def)

lemma openSQLite_tracked:
  assumes "test_openSQLite e w = (r, w')"
  shows "tracked (w_db w) (w_db w') \<and> (\<forall>h. r = Ret h \<longrightarrow> ready (w_db w) h (w_db w'))"
proof -
  let ?o = "\<lparr>op_Driver = DriverSQLite, op_Path = MemoryPath, op_DSN = [], op_MaxOpenConns = 0, op_MaxIdleConns = 0, op_ConnMaxLifetime = 0\<rparr>"
  obtain q v where o: "storage_Open e ?o w = (q, v)" by (cases "storage_Open e ?o w")
  show ?thesis
  proof (cases "\<exists>h. q = Ret h")
    case True
    then obtain h where h: "q = Ret h" "w_db v = (w_db w)\<lparr>ts_open := h # ts_open (w_db w)\<rparr>" using storage_Open_run [OF o] by auto
    then have "migrate_handle e h (v\<lparr>w_db := (w_db v)\<lparr>ts_cleanup := CloseDB h # ts_cleanup (w_db w)\<rparr>\<rparr>) = (r, w')"
      using assms o by (simp add: test_openSQLite_def bindM_def mapErr_def Cleanup_def on_test_def)
    then show ?thesis
      using h(2) by (auto dest!: migrate_handle_run intro: tracked_one simp: ready_def)
  next
    case False
    then have "w_db w' = w_db w \<and> (\<forall>h. r \<noteq> Ret h)"
      using assms o storage_Open_run [OF o] by (auto simp: test_openSQLite_def bindM_def mapErr_def split: res.splits)
    then show ?thesis by (simp add: tracked_same)
  qed
qed

lemma postgres_no_panic: "storage_Open e (postgres_options dsn m n) w \<noteq> (Panic p, w')"
  by (auto simp: storage_Open_def postgres_options_def Open_def openPostgres_def bindM_def failM_def returnM_def on_test_def Let_def name_defs
      split: if_splits option.splits prod.splits res.splits)

lemma on_schema_run:
  assumes "on_schema e baseDSN schema admin v = (r, w')" "ts_open (w_db v) = admin # rest"
  shows "(ts_cleanup (w_db w') = ts_cleanup (w_db v) \<and> ts_open (w_db w') = rest \<and> (\<forall>h. r \<noteq> Ret h)) \<or>
    (\<exists>h. ts_cleanup (w_db w') = DropSchema h admin schema # ts_cleanup (w_db v) \<and> ts_open (w_db w') = h # admin # rest \<and>
      ts_schemas (w_db w') = ts_schemas (w_db v) \<and> (\<forall>h'. r = Ret h' \<longrightarrow> h' = h))"
proof (cases "withSearchPath (te_url e) baseDSN schema")
  case (Inl err)
  then show ?thesis using assms by (auto simp: on_schema_def dest!: give_up_run)
next
  case (Inr scoped)
  obtain q u where o: "storage_Open e (postgres_options scoped 10 5) v = (q, u)" by fastforce
  show ?thesis
  proof (cases q)
    case (Ret h)
    then have "migrate_handle e h (u\<lparr>w_db := (w_db u)\<lparr>ts_cleanup := DropSchema h admin schema # ts_cleanup (w_db u)\<rparr>\<rparr>) = (r, w')"
      using assms(1) Inr o by (simp add: on_schema_def bindM_def tryM_def Cleanup_def on_test_def)
    then show ?thesis using storage_Open_run [OF o] Ret assms(2) by (auto dest!: migrate_handle_run)
  next
    case (Err err)
    then show ?thesis using storage_Open_run [OF o] assms Inr o by (auto simp: on_schema_def bindM_def tryM_def dest!: give_up_run)
  next
    case (Panic p)
    then show ?thesis using o by (simp add: postgres_no_panic)
  qed
qed

lemma openPostgres_tracked:
  assumes "test_openPostgres e dsn w = (r, w')"
  shows "tracked (w_db w) (w_db w') \<and> (\<forall>h. r = Ret h \<longrightarrow> ready (w_db w) h (w_db w'))"
proof (cases "NewID [] w")
  case (Pair i v)
  have v: "w_db v = w_db w" using NewID_frame [OF Pair] by simp
  show ?thesis
  proof (cases i)
    case (Ret ident)
    let ?schema = "schema_name (te_lower e) ident"
    obtain q u where o: "storage_Open e (postgres_options dsn 2 1) v = (q, u)" by fastforce
    have "(bindM (mapErr (wrap ''connecting to postgres failed'') (storage_Open e (postgres_options dsn 2 1))) (\<lambda>admin.
       bindM (tryM (execM (create_schema ?schema))) (\<lambda>r. case r of
         Inl err \<Rightarrow> give_up admin (schema_failed ''creating'' ?schema) err
       | Inr _ \<Rightarrow> on_schema e dsn ?schema admin))) v = (r, w')"
      using assms Pair Ret generated_schema_safe [of w ident v "te_lower e"] by (simp add: test_openPostgres_def bindM_def Let_def)
    note run = this
    show ?thesis
    proof (cases q)
      case h: (Ret admin)
      have u: "w_db u = (w_db w)\<lparr>ts_open := admin # ts_open (w_db w)\<rparr>" using storage_Open_run [OF o] h v by simp
      obtain x y where c: "execM (create_schema ?schema) u = (x, y)" by fastforce
      have y: "(\<exists>n. x = Ret n \<and> w_db y = (w_db u)\<lparr>ts_schemas := ?schema # ts_schemas (w_db u)\<rparr>) \<or> (\<exists>err. x = Err err \<and> w_db y = w_db u)"
        using c by (auto simp: execM_def bindM_def driver_call_def create_schema_def split: list.splits if_splits)
      then show ?thesis
      proof (elim disjE exE conjE)
        fix n assume n: "x = Ret n" "w_db y = (w_db u)\<lparr>ts_schemas := ?schema # ts_schemas (w_db u)\<rparr>"
        then have "on_schema e dsn ?schema admin y = (r, w')" using run o h c by (simp add: bindM_def mapErr_def tryM_def)
        from on_schema_run [OF this, of "ts_open (w_db w)"] show ?thesis
          using n(2) u by (auto simp: ready_def intro: tracked_same tracked_one)
      next
        fix err assume n: "x = Err err" "w_db y = w_db u"
        then have "give_up admin (schema_failed ''creating'' ?schema) err y = (r, w')"
          using run o h c by (simp add: bindM_def mapErr_def tryM_def)
        then show ?thesis using n(2) u by (auto dest!: give_up_run intro: tracked_same)
      qed
    qed (use run o storage_Open_run [OF o] v in \<open>auto simp: bindM_def mapErr_def intro: tracked_same\<close>)
  qed (use assms Pair v in \<open>auto simp: test_openPostgres_def bindM_def intro: tracked_same\<close>)
qed

lemma run_cleanup_run: "\<exists>w'. run_cleanup c w = (Ret (), w') \<and> ts_open (w_db w') = foldl (\<lambda>hs h. remove1 h hs) (ts_open (w_db w)) (owed c) \<and>
    ts_cleanup (w_db w') = ts_cleanup (w_db w)"
  by (cases c) (auto simp: db_Close_def on_test_def Logf_def returnM_def bindM_def tryM_def execM_def driver_call_def drop_schema_def split: list.splits)

lemma run_cleanups_close: "ts_open (w_db w) = concat (map owed cs) @ rest \<Longrightarrow> \<exists>w'. run_cleanups cs w = (Ret (), w') \<and> ts_open (w_db w') = rest"
proof (induction cs arbitrary: w)
  case (Cons c cs)
  obtain v where v: "run_cleanup c w = (Ret (), v)" "ts_open (w_db v) = foldl (\<lambda>hs h. remove1 h hs) (ts_open (w_db w)) (owed c)"
    using run_cleanup_run [of c w] by blast
  then have "ts_open (w_db v) = concat (map owed cs) @ rest" using Cons.prems by (cases c) simp_all
  then show ?case using Cons.IH v(1) by (simp add: bindM_def)
qed (simp add: returnM_def)

text \<open>
  However a test's database opens, and whatever fails, the end of the test closes every handle the helper opened;
  and a test that got its database leaves no schema behind when the server answers.
\<close>

lemma no_handle_left:
  assumes "test_Open e w = (r, w1)" "ts_cleanup (w_db w) = []"
  shows "\<exists>w2. finish w1 = (Ret (), w2) \<and> ts_open (w_db w2) = ts_open (w_db w)"
proof -
  have "tracked (w_db w) (w_db w1)"
    using assms(1) by (auto simp: test_Open_def Let_def split: if_splits dest: openSQLite_tracked openPostgres_tracked)
  then show ?thesis unfolding finish_def tracked_def using assms(2) by (auto intro!: run_cleanups_close)
qed

lemma schema_dropped:
  assumes "test_Open e w = (Ret h, w1)" "ts_cleanup (w_db w) = []" "w_faults w1 = []" "finish w1 = (Ret (), w2)"
  shows "ts_schemas (w_db w2) = ts_schemas (w_db w)"
proof -
  have "ready (w_db w) h (w_db w1)"
    using assms(1) by (auto simp: test_Open_def Let_def split: if_splits dest: openSQLite_tracked openPostgres_tracked)
  then show ?thesis
    using assms(2-4) by (auto simp: ready_def finish_def db_Close_def on_test_def bindM_def tryM_def returnM_def calm_execM drop_schema_def)
qed

end
