(* ===== verification/Spec2Isabelle.thy ===== *)
theory Spec2Isabelle
  imports Control_Theorems Access_Theorems Account_Theorems Inventory_Theorems Network_Theorems Limit_Theorems Migration_Theorems
    Key_Theorems Config_Theorems Cli_Theorems Startup_Theorems Log_Theorems Windows_Theorems Interleaving_Theorems Test_Database
begin

text \<open>
  Headnet is the control plane of a WireGuard overlay network: an HTTP API over one SQL database
  that keeps accounts, sessions, setup keys, devices and the addresses devices hold. This library
  models its Go code and proves what makes it correct. Every definition that models code keeps the
  name it has there; where two packages use one name, the name of the store comes first
  (\<open>user_Create\<close>, \<open>session_Revoke\<close>), and the columns and fields of records carry a short prefix.

  \<^bold>\<open>How the program is modelled.\<close> A computation of the program is a function from a world to an
  outcome and a world (\<open>Go_Effects\<close>): the outcome is a value, an error or a panic; the world holds
  the database, a schedule of driver faults and a stream of random bytes. Every driver call
  consumes one entry of the schedule and fails when it says so, so a theorem for all worlds holds
  under every pattern of faults; when the schedule is empty nothing fails. \<open>InTx\<close> restores the
  database unless its body returns normally and the commit succeeds. Errors are values with the
  wrapping that \<open>errors.Is\<close> and \<open>errors.As\<close> walk. Instants and durations are integers of
  nanoseconds; \<open>time.Sub\<close> saturates at 64 bits and products of durations wrap. Passwords' costs and
  bytes are words of their width, floats are rationals rounded to 53 bits (\<open>Go_Float\<close>).

  \<^bold>\<open>Theories, from the bottom.\<close>
  \<^item> \<open>Headnet_Prelude\<close>: types, time, shared lemmas and collections of facts. \<open>Go_Strings\<close>,
    \<open>Go_Encoding\<close>, \<open>Go_Sha256\<close>, \<open>Go_Effects\<close>, \<open>Go_Float\<close>, \<open>Go_Durations\<close>, \<open>Netip\<close>: what the program uses
    of the language and its standard library: UTF-8 strings, base64, SHA-256, computations, float64,
    durations as text and addresses.
  \<^item> \<open>Shared_Id\<close> (\<open>packages/shared/id.go\<close>), \<open>Shared_Clock\<close> (\<open>clock.go\<close>, with times as text), \<open>Server_Config\<close> (\<open>internal/config/config.go\<close>),
    \<open>Storage_Schema\<close> (\<open>internal/storage/migrations\<close>: one record per row, one list per table, the
    constraints as \<open>schema_ok\<close>).
  \<^item> \<open>Config_Loader\<close> (\<open>packages/config\<close>): layered loading and redaction of any configuration struct, as
    reflection sees it; \<open>Server_Settings\<close>: \<open>Load\<close> and \<open>Redacted\<close> of the server's own, with the tags of its
    fields.
  \<^item> \<open>IPAM\<close> (\<open>internal/network/ipam.go\<close>): address pools. The locale \<open>address_pool\<close> is the contract the
    device store relies on, interpreted on \<open>Allocate\<close> and \<open>Release\<close>. What rival transactions commit
    between a read and a write, rows added or released, is an explicit schedule for each family.
  \<^item> \<open>Auth_Tokens\<close>, \<open>Sessions\<close> (\<open>internal/auth/session.go\<close>), \<open>Passwords\<close> (\<open>password.go\<close>), \<open>Users\<close>
    (\<open>user.go\<close>), \<open>Metadata\<close> (\<open>internal/storage/metadata.go\<close>), \<open>Migrations\<close> (\<open>migrate.go\<close>), \<open>Setup_Keys\<close>
    (\<open>internal/devices/setupkey.go\<close>), \<open>Devices\<close> (\<open>device.go\<close>, \<open>token.go\<close>): the stores, each with what
    it keeps of the invariant \<open>consistent\<close>. \<open>Device_Lifecycle\<close> has what a successful or a calm run of
    enrolment and authentication did.
  \<^item> \<open>Rate_Limit\<close> (\<open>internal/httpapi/ratelimit.go\<close>), \<open>Api_Types\<close> (\<open>packages/api\<close>), \<open>Protocol\<close>
    (\<open>packages/protocol\<close>), \<open>Build_Version\<close> (\<open>internal/version\<close>), \<open>Http_Layer\<close> (\<open>internal/httpapi\<close>):
    the pieces of the HTTP server.
  \<^item> \<open>Server_Auth\<close> and \<open>Server_Routes\<close> (\<open>internal/server\<close>): the server as \<open>New\<close> builds it, its guards,
    every handler, the route table and the chain of middleware; \<open>serve\<close> is one request through all
    of it.
  \<^item> \<open>Wireguard_Keys\<close> (\<open>internal/wireguard/key.go\<close>), \<open>Unix_Files\<close>, \<open>Key_Store\<close> (\<open>keystore.go\<close>,
    \<open>keystore_unix.go\<close>) and \<open>Key_Store_Runs\<close>: the device side, its private key and the file that holds it.
    Files are inodes with names; between any two system calls other accounts may do whatever the
    permissions allow (\<open>rival_ok\<close>). \<open>Windows_Keys\<close> (\<open>keystore_windows.go\<close>): the check of an open handle and its
    security descriptor.
  \<^item> \<open>Log_Handler\<close> (\<open>internal/logging/logging.go\<close>): the handler that adds the request ID, and the locale
    \<open>log_handler\<close>, the contract of package \<open>slog\<close>, interpreted on the plain handler and on this one.
    \<open>Request_Log\<close> (\<open>RequestLogger\<close> and \<open>responseRecorder\<close> of \<open>middleware.go\<close>): the line for every request, on
    response writers; the locale \<open>writer_wrapper\<close> carries what holds of one call to whole handlers.
  \<^item> \<open>Startup\<close> (\<open>Open\<close> of \<open>storage.go\<close>, \<open>apps/server/main.go\<close>, \<open>Run\<close> and \<open>Serve\<close> of \<open>server.go\<close>): how the server comes
    up and how it ends.
  \<^item> \<open>Test_Database\<close> (\<open>internal/storage/storagetest\<close>): the database a test gets, with a schema of its own on
    PostgreSQL, and what the end of the test closes and drops.
  \<^item> \<open>Command_Line\<close> (\<open>internal/cliutil/command.go\<close>, with the flag parser it uses) and \<open>Cli_App\<close> (\<open>apps/cli\<close>): the
    command-line client and its diagnostics.
  \<^item> \<open>Control_Plane\<close>: the server as a transition system whose steps are starts and requests
    (\<open>server_step\<close>), and the locale \<open>database_invariant\<close>: a property of the database that every
    statement of the stores keeps is kept by every request. \<open>Inventory_History\<close> interprets it three
    times: consistency, the single administrator, and a history that only moves forward.
  \<^item> \<open>Interleaving\<close>: operations of the stores at the same time. An operation is a thread of sections, each a
    statement or a whole transaction, since SQLite is held to one connection; run without interruption a
    thread is proved to be the operation (\<open>thread_of_sections\<close>). A pool of threads takes steps in any
    order. That a database was made by such sections is itself an interpretation of \<open>database_invariant\<close>,
    so every invariant of the server holds for interleavings too.
  \<^item> \<open>Access_Control\<close> and \<open>Reply_Contract\<close>: what the guards demand of a request, followed through the
    middleware, and the form of every reply.
  \<^item> \<open>Sample_Network\<close> and \<open>Sample_Server\<close>: one small deployment on which hypotheses are seen to hold.

  \<^bold>\<open>What is shown.\<close> \<open>Control_Theorems\<close>: in every reachable state the inventory is consistent, there is
  at most one administrator and one exactly when the installation is claimed, revocation and the
  installation's identity are permanent; consistency includes that keys stay within their limits and that
  an address has one device.
  \<open>Interleaving_Theorems\<close>: the same holds however operations interleave; a race for a setup key has no more
  winners than the key has uses left, a race to claim the installation at most one.
  \<open>Access_Theorems\<close>: success on a guarded route needs the credentials of that route, the right
  credentials are let through, every reply keeps the error contract (the reports of the probes apart). \<open>Account_Theorems\<close>: passwords,
  login, bootstrap and the life of a session. \<open>Device_Theorems\<close> and \<open>Inventory_Theorems\<close>: enrolment is
  all or nothing and goes through when nothing stands in its way, revocation ends access, members are
  isolated, refusals disclose nothing. \<open>Network_Theorems\<close>: pools, the scan for free addresses and its
  reference, allocation under races. \<open>Limit_Theorems\<close>: the limiter and version negotiation.
  \<open>Migration_Theorems\<close>: a migration that is interrupted anywhere leaves a prefix applied and recorded,
  it converges, it refuses a ledger it does not know, and the probes report where it stands.
  \<open>Key_Theorems\<close>: only a private file is read as a key, no key file is overwritten, a stored key comes
  back. \<open>Config_Theorems\<close>: where each setting comes from and what a printed configuration discloses.
  \<open>Startup_Theorems\<close>: what holds of a server that has come up, across configuration, migrations, identity
  and probes. \<open>Log_Theorems\<close>: what a line of the log shows, and that logging changes no response
  unless the handler begins with an informational status, when it is said what it changes.
  \<open>Windows_Theorems\<close>: an opened key file is out of reach of other accounts; of its directory this is said
  of the object at that name, which may be a junction. \<open>Cli_Theorems\<close>: dispatch ends, unbuilt commands say
  so, a passing diagnostic was verified and the exit status says whether the server works. Some theorems show where the code falls short: \<open>public_key_has_two_spellings\<close> and
  \<open>revoked_key_returns\<close>, \<open>key_lifetime_wraps\<close>, \<open>double_burst_after_idle\<close>, \<open>stale_migrator_stops\<close>, \<open>providers_variable_panics\<close>.

  \<^bold>\<open>Loops and bounds.\<close> Every definition is total. The retry loop of the allocator is bounded by the
  code's own 32 attempts; the scan over a pool ends because each step raises the address, which is the
  measure of its termination proof. The walk down the command tree is a partial function that is proved
  to return on every command line (\<open>command_line_ends\<close>).

  \<^bold>\<open>Parameters.\<close> Code outside the repository is an argument: \<open>argon2.IDKey\<close> (assumed to return as many
  bytes as asked for, \<open>idkey_ok\<close>), \<open>mail.ParseAddress\<close>, \<open>url.Parse\<close>, the JSON decoder, the lower-case
  table of Unicode beyond ASCII (\<open>lower_table_ok\<close>), \<open>rand.IntN\<close>, \<open>curve25519.ScalarBaseMult\<close>, the YAML
  decoder (\<open>decodes_structs\<close>: it fills in the struct it is given), \<open>strconv.ParseFloat\<close>, what the SQL
  engine makes of a migration script (\<open>leaves_ledger\<close>: it does not touch the ledger) and the text of an
  error. So are \<open>database/sql\<close>, the network as the diagnostics see it, the formats \<open>%q\<close> and \<open>PrintDefaults\<close>, and
  the system calls of Windows (\<open>plain_layout\<close>: a plain entry has its SID where the code reads it;
  \<open>restricts\<close>: a descriptor that was set is the one a handle shows). The migration files embedded in the build are an argument too.

  \<^bold>\<open>Concurrency.\<close> A step of \<open>Control_Plane\<close> is a whole request; \<open>Interleaving\<close> has the operations inside
  requests run at once, section by section, on the one connection SQLite is given. What other PostgreSQL
  transactions commit between the statements of one transaction is modelled where the code defends against
  it, in the allocator; the race between two conditional updates of one setup key, which PostgreSQL settles
  by its row lock, is not.

  \<^bold>\<open>Simplifications.\<close> A commit that fails is a rollback; the case that a driver reports failure of a commit
  that took place is outside the model. A start in \<open>server_step\<close> runs \<open>InstanceID\<close>, which is
  what a start writes once the schema is there, and leaves the limiters in any state; the server it
  starts always has the configuration of the first. Migrating comes before it and is in \<open>Migrations\<close> and
  \<open>Startup\<close>, which has the whole start. \<open>buildHandler\<close> is the chain without \<open>WithLogger\<close> and
  \<open>RequestLogger\<close>, which neither look at the database nor choose a response and are modelled on response
  writers in \<open>Request_Log\<close>; its limiter is in any state, of which a new one is an instance. \<open>WriteJSON\<close> has no
  branch for a value that cannot be encoded: of the bodies the server sends only a time whose year has
  more than four digits would be one. In the file system of the key store a rival acts by the permissions
  of the moment, so one that holds a descriptor it opened before the mode was changed is not covered. A
  configuration struct has its list of providers as a list, so that a nil slice is the empty one.

  \<^bold>\<open>Not modelled.\<close> The encoders of package \<open>slog\<close>, which turn the tree of fields of a line into text, and
  the lines other than the one for a request; the HTTP server of \<open>net/http\<close> beyond its response writer. The store on Windows is modelled up to the file it
  opens, not its runs of \<open>Load\<close> and \<open>Create\<close>, which are those of the Unix theories with other system
  calls. Timing, such as the constant-time comparisons and the dummy hash of a failed login, is outside
  the model, and so is the clearing of buffers in memory. Packages that hold only documentation so far
  (\<open>acl\<close>, \<open>dns\<close>, \<open>relay\<close>, \<open>routes\<close>, \<open>signaling\<close>) have nothing to model.
\<close>

end
